(* ===== verification/Prelude.thy ===== *)
theory Prelude
  imports Main "HOL-Library.Word"
begin

text \<open>
  Shared vocabulary of the development: bytes and Go's 64-bit integers, the error values
  the program returns, the state-and-error programs in which the stateful components are
  written, and a weakest-precondition calculus for them.

  A Go function that works on shared state and returns \<open>(value, error)\<close> is a
  \<open>('s, 'a) prog\<close>: from a state it gives \<open>Inl error\<close> or \<open>Inr value\<close>, and the
  new state in both cases (effects made before an error stay).  \<open>gbind\<close> is the
  \<open>if err != nil { return err }\<close> between two calls.
\<close>

section \<open>Bytes, integers, errors\<close>

type_synonym byte = "8 word"
type_synonym bytes = "8 word list"
type_synonym u64 = "64 word"

text \<open>
  Error values.  The sentinels are the program's package variables and the standard
  library's; \<open>ErrNew\<close> is an error made in place (\<open>errors.New\<close>, or \<open>fmt.Errorf\<close> without
  a wrapped error), \<open>DriverErr\<close> an error of the SQLite driver with its text,
  \<open>SysErr\<close> an error of the operating system with its errno name, \<open>Wrap\<close> the result
  of \<open>fmt.Errorf("text: %w", err)\<close>.
\<close>

datatype go_error =
    EOF
  | ErrUnexpectedEOF
  | ErrNoProgress
  | ErrShortWrite
  | ErrNetClosed
  | CtxCanceled
  | ErrNoRows
  | ErrControlFrameTooLarge
  | ErrEventNotFound
  | ErrEventConflict
  | ErrAlreadyRunning
  | ErrServerSingleUse
  | ErrClosed
  | ErrInvalidArguments
  | RPCError string string
  | DriverErr string
  | SysErr string
  | ErrNew string
  | GoPanic string
  | Wrap string go_error

text \<open>\<open>errors.Is\<close>: the error itself or one it wraps.\<close>

fun errors_is :: "go_error \<Rightarrow> go_error \<Rightarrow> bool" where
  "errors_is (Wrap msg e) target = (Wrap msg e = target \<or> errors_is e target)"
| "errors_is e target = (e = target)"

text \<open>\<open>errors.As\<close> with a \<open>*client.RPCError\<close> target: the first RPC error in the chain.\<close>

fun errors_as_rpc :: "go_error \<Rightarrow> (string \<times> string) option" where
  "errors_as_rpc (RPCError code msg) = Some (code, msg)"
| "errors_as_rpc (Wrap msg e) = errors_as_rpc e"
| "errors_as_rpc _ = None"

section \<open>Programs over a state that may fail\<close>

type_synonym ('s, 'a) prog = "'s \<Rightarrow> (go_error + 'a) \<times> 's"

definition gret :: "'a \<Rightarrow> ('s, 'a) prog" where
  "gret x = (\<lambda>s. (Inr x, s))"

definition gthrow :: "go_error \<Rightarrow> ('s, 'a) prog" where
  "gthrow e = (\<lambda>s. (Inl e, s))"

definition gbind :: "('s, 'a) prog \<Rightarrow> ('a \<Rightarrow> ('s, 'b) prog) \<Rightarrow> ('s, 'b) prog" where
  "gbind m f = (\<lambda>s. case m s of (Inl e, s') \<Rightarrow> (Inl e, s') | (Inr x, s') \<Rightarrow> f x s')"

text \<open>Run \<open>m\<close> and hand its outcome, error or value, to the continuation.\<close>

definition gtry :: "('s, 'a) prog \<Rightarrow> (go_error + 'a \<Rightarrow> ('s, 'b) prog) \<Rightarrow> ('s, 'b) prog" where
  "gtry m f = (\<lambda>s. case m s of (r, s') \<Rightarrow> f r s')"

definition gwhen :: "bool \<Rightarrow> ('s, unit) prog \<Rightarrow> ('s, unit) prog" where
  "gwhen b m = (if b then m else gret ())"

text \<open>\<open>if err != nil { return fmt.Errorf("text: %w", err) }\<close>.\<close>

definition gwrap :: "string \<Rightarrow> ('s, 'a) prog \<Rightarrow> ('s, 'a) prog" where
  "gwrap msg m = (\<lambda>s. case m s of (Inl e, s') \<Rightarrow> (Inl (Wrap msg e), s') | (Inr x, s') \<Rightarrow> (Inr x, s'))"

named_theorems run_simps "one-step execution of programs"

lemma gret_run [run_simps]: "gret x s = (Inr x, s)"
  by (simp add: gret_def)

lemma gthrow_run [run_simps]: "gthrow e s = (Inl e, s)"
  by (simp add: gthrow_def)

lemma gbind_run [run_simps]:
  "gbind m f s = (case m s of (Inl e, s') \<Rightarrow> (Inl e, s') | (Inr x, s') \<Rightarrow> f x s')"
  by (simp add: gbind_def)

lemma gtry_run [run_simps]: "gtry m f s = (case m s of (r, s') \<Rightarrow> f r s')"
  by (simp add: gtry_def)

lemma gwhen_run [run_simps]: "gwhen b m s = (if b then m s else (Inr (), s))"
  by (simp add: gwhen_def gret_def)

lemma gwrap_run [run_simps]:
  "gwrap msg m s = (case m s of (Inl e, s') \<Rightarrow> (Inl (Wrap msg e), s') | (Inr x, s') \<Rightarrow> (Inr x, s'))"
  by (simp add: gwrap_def)

section \<open>Weakest preconditions\<close>

text \<open>
  \<open>wp m Q E s\<close>: running \<open>m\<close> from \<open>s\<close> ends either in a value and a state that satisfy
  \<open>Q\<close> or in an error and a state that satisfy \<open>E\<close>.  Programs are total, so there is
  nothing else.
\<close>

definition wp :: "('s, 'a) prog \<Rightarrow> ('a \<Rightarrow> 's \<Rightarrow> bool) \<Rightarrow> (go_error \<Rightarrow> 's \<Rightarrow> bool) \<Rightarrow> 's \<Rightarrow> bool" where
  "wp m Q E s = (case m s of (Inl e, s') \<Rightarrow> E e s' | (Inr x, s') \<Rightarrow> Q x s')"

named_theorems wp_simps "weakest-precondition equations of the program constructs"

lemma wp_gret [wp_simps]: "wp (gret x) Q E s = Q x s"
  by (simp add: wp_def gret_def)

lemma wp_gthrow [wp_simps]: "wp (gthrow e) Q E s = E e s"
  by (simp add: wp_def gthrow_def)

lemma wp_gbind [wp_simps]: "wp (gbind m f) Q E s = wp m (\<lambda>x. wp (f x) Q E) E s"
  by (auto simp: wp_def gbind_def split: prod.splits sum.splits)

lemma wp_gtry [wp_simps]:
  "wp (gtry m f) Q E s = wp m (\<lambda>x. wp (f (Inr x)) Q E) (\<lambda>e. wp (f (Inl e)) Q E) s"
  by (auto simp: wp_def gtry_def split: prod.splits sum.splits)

lemma wp_gwhen [wp_simps]: "wp (gwhen b m) Q E s = (if b then wp m Q E s else Q () s)"
  by (simp add: wp_def gwhen_def gret_def)

lemma wp_gwrap [wp_simps]: "wp (gwrap msg m) Q E s = wp m Q (\<lambda>e. E (Wrap msg e)) s"
  by (auto simp: wp_def gwrap_def split: prod.splits sum.splits)

lemma wp_if [wp_simps]: "wp (if b then m else n) Q E s = (if b then wp m Q E s else wp n Q E s)"
  by simp

lemma wp_mono:
  assumes "wp m Q E s"
    and "\<And>x s'. Q x s' \<Longrightarrow> Q' x s'"
    and "\<And>e s'. E e s' \<Longrightarrow> E' e s'"
  shows "wp m Q' E' s"
  using assms by (auto simp: wp_def split: prod.splits sum.splits)

lemma wp_conj:
  assumes "wp m Q E s" and "wp m Q' E' s"
  shows "wp m (\<lambda>x s'. Q x s' \<and> Q' x s') (\<lambda>e s'. E e s' \<and> E' e s') s"
  using assms by (auto simp: wp_def split: prod.splits sum.splits)

lemma wp_Inr: "wp m Q E s \<Longrightarrow> m s = (Inr x, s') \<Longrightarrow> Q x s'"
  by (simp add: wp_def)

lemma wp_Inl: "wp m Q E s \<Longrightarrow> m s = (Inl e, s') \<Longrightarrow> E e s'"
  by (simp add: wp_def)

lemma wp_snd:
  assumes "wp m (\<lambda>_ s'. P s') (\<lambda>_ s'. P s') s"
  shows "P (snd (m s))"
  using assms by (auto simp: wp_def split: prod.splits sum.splits)

section \<open>Generic facts on words and lists\<close>

lemma unat_of_nat_len64 [simp]:
  "n < 18446744073709551616 \<Longrightarrow> unat (of_nat n :: u64) = n"
  by (simp add: unat_of_nat take_bit_nat_eq_self_iff)

lemma unat_u64_bound: "unat (x :: u64) < 18446744073709551616"
  using unsigned_less [of x, where ?'a = nat] by simp

lemma unat_minus_le: "b \<le> a \<Longrightarrow> unat (a - b :: 'a::len word) = unat a - unat b"
  by (simp add: unat_sub)

lemma concat_take_drop: "concat xs = ys @ zs \<Longrightarrow> length ys = n \<Longrightarrow> take n (concat xs) = ys"
  by auto

end
