(* ===== verification/Sha256.thy ===== *)
theory Sha256
  imports Prelude
begin

text \<open>
  SHA-256 as \<open>crypto/sha256\<close> computes it (FIPS 180-4) and lower-case hexadecimal as
  \<open>encoding/hex\<close> prints and reads it.  The program only ever feeds a hash by successive
  \<open>Write\<close> calls and asks for the sum at the end, so a hash in progress is the list of the
  bytes written so far and the sum is \<open>sha256\<close> of that list.
\<close>

unbundle bit_operations_syntax

section \<open>Compression\<close>

type_synonym u32 = "32 word"
type_synonym sha_state = "u32 \<times> u32 \<times> u32 \<times> u32 \<times> u32 \<times> u32 \<times> u32 \<times> u32"

text \<open>
  The constants are, as the standard defines them, the first 32 bits of the fractional parts
  of the cube roots of the first 64 primes and of the square roots of the first eight.
  \<open>root_bits k m 0 b\<close> is the integer \<open>k\<close>-th root of \<open>m\<close>, found bit by bit from bit \<open>b - 1\<close> down.
\<close>

fun root_bits :: "nat \<Rightarrow> int \<Rightarrow> int \<Rightarrow> nat \<Rightarrow> int" where
  "root_bits k m acc 0 = acc"
| "root_bits k m acc (Suc b) = root_bits k m (if (acc + 2 ^ b) ^ k \<le> m then acc + 2 ^ b else acc) b"

definition small_primes :: "nat list" where
  "small_primes = filter (\<lambda>p. list_all (\<lambda>q. p mod q \<noteq> 0) [2..<p]) [2..<312]"

text \<open>Taking the word drops the integer part.\<close>

definition sha_k :: "u32 list" where
  "sha_k = map (\<lambda>p. of_int (root_bits 3 (int p * 2 ^ 96) 0 40)) small_primes"

definition sha_start :: "nat \<Rightarrow> u32" where
  "sha_start i = of_int (root_bits 2 (int (small_primes ! i) * 2 ^ 64) 0 40)"

definition sha_init :: sha_state where
  "sha_init = (sha_start 0, sha_start 1, sha_start 2, sha_start 3, sha_start 4, sha_start 5, sha_start 6, sha_start 7)"

definition rotr32 :: "nat \<Rightarrow> u32 \<Rightarrow> u32" where
  "rotr32 n x = (drop_bit n x) OR (push_bit (32 - n) x)"

definition be32 :: "bytes \<Rightarrow> u32" where
  "be32 bs = foldl (\<lambda>acc b. (push_bit 8 acc) OR (ucast b)) 0 bs"

definition bytes_of_u32 :: "u32 \<Rightarrow> bytes" where
  "bytes_of_u32 w = [ucast (drop_bit 24 w), ucast (drop_bit 16 w), ucast (drop_bit 8 w), ucast w]"

text \<open>The sixteen words of a block, last word first.\<close>

fun block_words :: "bytes \<Rightarrow> u32 list \<Rightarrow> u32 list" where
  "block_words (a # b # c # d # bs) acc = block_words bs (be32 [a, b, c, d] # acc)"
| "block_words _ acc = acc"

text \<open>The message schedule, newest word first: \<open>W[t]\<close> from \<open>W[t-2]\<close>, \<open>W[t-7]\<close>, \<open>W[t-15]\<close>, \<open>W[t-16]\<close>.\<close>

fun schedule :: "nat \<Rightarrow> u32 list \<Rightarrow> u32 list" where
  "schedule 0 ws = ws"
| "schedule (Suc n) ws =
     (let w2 = ws ! 1; w7 = ws ! 6; w15 = ws ! 14; w16 = ws ! 15;
          s1 = (rotr32 17 w2) XOR (rotr32 19 w2) XOR (drop_bit 10 w2);
          s0 = (rotr32 7 w15) XOR (rotr32 18 w15) XOR (drop_bit 3 w15)
      in schedule n ((s1 + w7 + s0 + w16) # ws))"

fun sha_round :: "sha_state \<Rightarrow> u32 \<times> u32 \<Rightarrow> sha_state" where
  "sha_round (a, b, c, d, e, f, g, h) (k, w) =
     (let t1 = h + ((rotr32 6 e) XOR (rotr32 11 e) XOR (rotr32 25 e)) + ((e AND f) XOR ((NOT e) AND g)) + k + w;
          t2 = ((rotr32 2 a) XOR (rotr32 13 a) XOR (rotr32 22 a)) + ((a AND b) XOR (a AND c) XOR (b AND c))
      in (t1 + t2, a, b, c, d + t1, e, f, g))"

fun sha_add :: "sha_state \<Rightarrow> sha_state \<Rightarrow> sha_state" where
  "sha_add (a, b, c, d, e, f, g, h) (a', b', c', d', e', f', g', h') =
     (a + a', b + b', c + c', d + d', e + e', f + f', g + g', h + h')"

definition compress_block :: "sha_state \<Rightarrow> bytes \<Rightarrow> sha_state" where
  "compress_block st block =
     sha_add st (foldl sha_round st (zip sha_k (rev (schedule 48 (block_words block [])))))"

section \<open>Padding and the digest\<close>

definition sha_pad :: "bytes \<Rightarrow> bytes" where
  "sha_pad bs =
     (let bits = (of_nat (8 * length bs) :: u64)
      in bs @ [0x80] @ replicate ((119 - length bs mod 64) mod 64) 0
           @ bytes_of_u32 (ucast (drop_bit 32 bits)) @ bytes_of_u32 (ucast bits))"

fun sha_blocks :: "sha_state \<Rightarrow> bytes \<Rightarrow> sha_state" where
  "sha_blocks st bs =
     (if length bs < 64 then st else sha_blocks (compress_block st (take 64 bs)) (drop 64 bs))"

declare sha_blocks.simps [simp del]

fun digest_bytes :: "sha_state \<Rightarrow> bytes" where
  "digest_bytes (a, b, c, d, e, f, g, h) = concat (map bytes_of_u32 [a, b, c, d, e, f, g, h])"

definition sha256 :: "bytes \<Rightarrow> bytes" where
  "sha256 bs = digest_bytes (sha_blocks sha_init (sha_pad bs))"

lemma length_digest_bytes [simp]: "length (digest_bytes st) = 32"
  by (cases st rule: digest_bytes.cases) (simp add: bytes_of_u32_def)

lemma length_sha256 [simp]: "length (sha256 bs) = 32"
  by (simp add: sha256_def)

text \<open>Padding leaves nothing behind the last full block.\<close>

lemma sha_pad_multiple: "length (sha_pad bs) mod 64 = 0"
proof -
  have split: "length (sha_pad bs) = length bs + 9 + (119 - length bs mod 64) mod 64"
    by (simp only: sha_pad_def Let_def bytes_of_u32_def length_append length_replicate list.size)
  define r where "r = length bs mod 64"
  have "r < 64" by (simp add: r_def)
  then have "(r + 9 + (119 - r) mod 64) mod 64 = 0"
  proof (cases "r \<le> 55")
    case True
    then have shift: "119 - r = (55 - r) + 64" by simp
    have "(119 - r) mod 64 = 55 - r" unfolding shift by simp
    with True show ?thesis by simp
  next
    case False
    with \<open>r < 64\<close> have "(119 - r) mod 64 = 119 - r" by simp
    with False \<open>r < 64\<close> show ?thesis by simp
  qed
  then show ?thesis unfolding split r_def by (metis mod_add_left_eq)
qed

section \<open>Hexadecimal\<close>

definition hex_digits :: string where
  "hex_digits = ''0123456789abcdef''"

definition hex_char :: "nat \<Rightarrow> char" where
  "hex_char n = hex_digits ! n"

definition hex_byte :: "byte \<Rightarrow> string" where
  "hex_byte b = [hex_char (unat b div 16), hex_char (unat b mod 16)]"

text \<open>\<open>hex.EncodeToString\<close>.\<close>

definition hex_encode :: "bytes \<Rightarrow> string" where
  "hex_encode bs = concat (map hex_byte bs)"

text \<open>\<open>hex.DecodeString\<close>: digits of either case, an even number of them.\<close>

definition hex_value :: "char \<Rightarrow> nat option" where
  "hex_value c =
     (let n = of_char c :: nat in
      if 48 \<le> n \<and> n \<le> 57 then Some (n - 48)
      else if 97 \<le> n \<and> n \<le> 102 then Some (n - 87)
      else if 65 \<le> n \<and> n \<le> 70 then Some (n - 55)
      else None)"

fun hex_decode :: "string \<Rightarrow> bytes option" where
  "hex_decode [] = Some []"
| "hex_decode [c] = None"
| "hex_decode (c # d # s) =
     (case (hex_value c, hex_value d) of
        (Some hi, Some lo) \<Rightarrow> map_option ((#) (of_nat (16 * hi + lo))) (hex_decode s)
      | _ \<Rightarrow> None)"

lemma length_hex_encode [simp]: "length (hex_encode bs) = 2 * length bs"
  by (induction bs) (simp_all add: hex_encode_def hex_byte_def)

lemma hex_value_char: "n < 16 \<Longrightarrow> hex_value (hex_char n) = Some n"
proof -
  assume "n < 16"
  then have "n \<in> set [0..<16]" by simp
  moreover have "\<forall>m \<in> set [0..<16]. hex_value (hex_char m) = Some m"
    by code_simp
  ultimately show ?thesis by blast
qed

lemma hex_decode_encode: "hex_decode (hex_encode bs) = Some bs"
proof (induction bs)
  case Nil
  show ?case by (simp add: hex_encode_def)
next
  case (Cons b bs)
  have "unat b < 256" using unsigned_less [of b] by simp
  then have digits: "hex_value (hex_char (unat b div 16)) = Some (unat b div 16)"
    "hex_value (hex_char (unat b mod 16)) = Some (unat b mod 16)"
    by (simp_all add: hex_value_char)
  have "(of_nat (16 * (unat b div 16) + unat b mod 16) :: byte) = b"
    by (simp add: mult.commute)
  with digits Cons.IH show ?case
    by (simp add: hex_encode_def hex_byte_def)
qed

text \<open>The digest as the program stores and compares it: \<open>hex.EncodeToString(hash.Sum(nil))\<close>.\<close>

definition sha256_hex :: "bytes \<Rightarrow> string" where
  "sha256_hex bs = hex_encode (sha256 bs)"

lemma length_sha256_hex [simp]: "length (sha256_hex bs) = 64"
  by (simp add: sha256_hex_def)

lemma sha256_hex_nonempty [simp]: "sha256_hex bs \<noteq> []"
  using length_sha256_hex [of bs] by (metis list.size(3) zero_neq_numeral)

lemma hex_decode_sha256_hex [simp]: "hex_decode (sha256_hex bs) = Some (sha256 bs)"
  by (simp add: sha256_hex_def hex_decode_encode)

end
