(* ===== verification/GoIO.thy ===== *)
theory GoIO
  imports Sha256
begin

text \<open>
  The parts of \<open>io\<close> and \<open>encoding/binary\<close> that the program's loops rest on.

  An \<open>io.Reader\<close> is a function \<open>rd\<close> from the length of the buffer and the reader's state to
  the bytes read, the error returned with them and the next state; an \<open>io.Writer\<close> is a
  function \<open>wr\<close> from the data and the writer's state to the count (an \<open>int\<close>, as a broken
  writer may return any), the error and the next state.  The loops of the program take
  \<open>rd\<close> and \<open>wr\<close> as arguments, as the code takes interface values.

  The locales \<open>io_reader\<close>, \<open>steady_reader\<close>, \<open>full_reader\<close>, \<open>io_writer\<close> and
  \<open>reliable_writer\<close> are the contracts of those interfaces.  The concrete readers and writers
  are scripts: a network connection is the list of the results its next \<open>Read\<close> calls have to
  offer (so any segmentation of the byte stream and any error at any point is a script), a
  destination is the list of the results of its next \<open>Write\<close> calls.
\<close>

section \<open>Readers\<close>

type_synonym 'r read_fn = "nat \<Rightarrow> 'r \<Rightarrow> bytes \<times> go_error option \<times> 'r"

type_synonym reader = "(bytes \<times> go_error option) list"

fun reader_read :: "reader read_fn" where
  "reader_read k [] = ([], Some EOF, [])"
| "reader_read k ((d, e) # r) =
     (if length d \<le> k then (d, e, r) else (take k d, None, (drop k d, e) # r))"

definition stream :: "reader \<Rightarrow> bytes" where
  "stream r = concat (map fst r)"

text \<open>A healthy connection: the data arrives in some segmentation, then end of file.\<close>

definition reader_of :: "bytes list \<Rightarrow> reader" where
  "reader_of cs = map (\<lambda>c. (c, None)) cs"

lemma stream_Nil [simp]: "stream [] = []"
  by (simp add: stream_def)

lemma stream_Cons [simp]: "stream ((d, e) # r) = d @ stream r"
  by (simp add: stream_def)

lemma stream_reader_of [simp]: "stream (reader_of cs) = concat cs"
  by (simp add: stream_def reader_of_def o_def)

lemma reader_of_Nil [simp]: "reader_of [] = []"
  by (simp add: reader_of_def)

lemma reader_of_Cons [simp]: "reader_of (c # cs) = (c, None) # reader_of cs"
  by (simp add: reader_of_def)

text \<open>\<open>io.LimitReader\<close>: at most \<open>n\<close> further bytes of the underlying reader.\<close>

definition limit_read :: "'r read_fn \<Rightarrow> (nat \<times> 'r) read_fn" where
  "limit_read rd k nr =
     (case nr of (n, r) \<Rightarrow>
        if n = 0 then ([], Some EOF, (n, r))
        else case rd (min k n) r of (d, e, r') \<Rightarrow> (d, e, (n - length d, r')))"

definition limit_pend :: "('r \<Rightarrow> bytes) \<Rightarrow> nat \<times> 'r \<Rightarrow> bytes" where
  "limit_pend pend nr = take (fst nr) (pend (snd nr))"

section \<open>Contracts of readers\<close>

text \<open>
  What every \<open>io.Reader\<close> promises: it fills no more than the buffer, and what it delivers is
  the next part of its stream.
\<close>

locale io_reader =
  fixes rd :: "'r read_fn"
    and pend :: "'r \<Rightarrow> bytes"
  assumes rd_length: "rd k r = (d, e, r') \<Longrightarrow> length d \<le> k"
    and rd_pend: "rd k r = (d, e, r') \<Longrightarrow> pend r = d @ pend r'"

text \<open>
  A reader that makes progress: in a good state, as long as data is due, a read returns some
  of it and no error, and the state stays good.
\<close>

locale steady_reader = io_reader +
  fixes good :: "'r \<Rightarrow> bool"
  assumes rd_steady: "\<lbrakk>good r; pend r \<noteq> []; 0 < k; rd k r = (d, e, r')\<rbrakk> \<Longrightarrow> d \<noteq> [] \<and> e = None \<and> good r'"

text \<open>A reader that moreover fills the buffer whenever it has enough data.\<close>

locale full_reader = steady_reader +
  assumes rd_full: "\<lbrakk>good r; 0 < k; k \<le> length (pend r); rd k r = (d, e, r')\<rbrakk> \<Longrightarrow> length d = k"

begin

lemma rd_take:
  assumes "good r" and "0 < k" and "k \<le> length (pend r)" and "rd k r = (d, e, r')"
  shows "d = take k (pend r) \<and> pend r' = drop k (pend r) \<and> e = None \<and> good r'"
proof -
  have len: "length d = k" using assms by (rule rd_full)
  have pend: "pend r = d @ pend r'" using assms(4) by (rule rd_pend)
  have "pend r \<noteq> []" using assms(2,3) by auto
  from rd_steady [OF assms(1) this assms(2,4)] have "e = None \<and> good r'" by simp
  with len show ?thesis by (simp add: pend)
qed

end

interpretation script: io_reader reader_read stream
proof unfold_locales
  fix k and r :: reader and d e r'
  assume "reader_read k r = (d, e, r')"
  then show "length d \<le> k"
    by (cases "(k, r)" rule: reader_read.cases) (auto split: if_splits)
next
  fix k and r :: reader and d e r'
  assume "reader_read k r = (d, e, r')"
  then show "stream r = d @ stream r'"
    by (cases "(k, r)" rule: reader_read.cases) (auto split: if_splits)
qed

text \<open>A script whose results are all without error and non-empty is steady.\<close>

definition clean :: "reader \<Rightarrow> bool" where
  "clean r = (\<forall>(d, e) \<in> set r. d \<noteq> [] \<and> e = None)"

interpretation clean_script: steady_reader reader_read stream clean
proof unfold_locales
  fix r :: reader and k d e r'
  assume "clean r" "stream r \<noteq> []" "0 < k" "reader_read k r = (d, e, r')"
  then show "d \<noteq> [] \<and> e = None \<and> clean r'"
    by (cases "(k, r)" rule: reader_read.cases) (auto simp: clean_def split: if_splits)
qed

lemma clean_reader_of: "clean (reader_of cs) \<longleftrightarrow> [] \<notin> set cs"
  by (auto simp: clean_def reader_of_def)

text \<open>A script with all its data in one result fills every buffer.\<close>

fun whole :: "reader \<Rightarrow> bool" where
  "whole [] = True"
| "whole [(d, e)] = (d \<noteq> [] \<and> e = None)"
| "whole (_ # _ # _) = False"

lemma whole_cases: "whole r \<Longrightarrow> r = [] \<or> (\<exists>d. r = [(d, None)] \<and> d \<noteq> [])"
  by (cases r rule: whole.cases) auto

interpretation whole_script: full_reader reader_read stream whole
proof unfold_locales
  fix r :: reader and k d e r'
  assume *: "whole r" "stream r \<noteq> []" "0 < k" "reader_read k r = (d, e, r')"
  then obtain x where "r = [(x, None)]" "x \<noteq> []" using whole_cases by fastforce
  with * show "d \<noteq> [] \<and> e = None \<and> whole r'" by (auto split: if_splits)
next
  fix r :: reader and k d e r'
  assume *: "whole r" "0 < k" "k \<le> length (stream r)" "reader_read k r = (d, e, r')"
  then have "r \<noteq> []" by auto
  with * obtain x where "r = [(x, None)]" "x \<noteq> []" using whole_cases by blast
  with * show "length d = k" by (auto split: if_splits)
qed

context io_reader
begin

lemma limit_read_length:
  assumes "limit_read rd k nr = (d, e, nr')"
  shows "length d \<le> k"
  using assms rd_length by (fastforce simp: limit_read_def split: prod.splits if_splits)

lemma limit_read_pend:
  assumes "limit_read rd k nr = (d, e, nr')"
  shows "limit_pend pend nr = d @ limit_pend pend nr'"
proof (cases "fst nr = 0")
  case True
  with assms show ?thesis by (auto simp: limit_read_def limit_pend_def split: prod.splits if_splits)
next
  case False
  obtain n r where nr: "nr = (n, r)" by (cases nr)
  with False assms obtain r' where rd: "rd (min k n) r = (d, e, r')" and nr': "nr' = (n - length d, r')"
    by (auto simp: limit_read_def split: prod.splits if_splits)
  from rd have "length d \<le> n" "pend r = d @ pend r'"
    using rd_length [OF rd] rd_pend [OF rd] by simp_all
  then show ?thesis by (simp add: limit_pend_def nr nr')
qed

end

context full_reader
begin

lemma limit_read_steady:
  assumes "good (snd nr)" and "limit_pend pend nr \<noteq> []" and "0 < k"
    and "limit_read rd k nr = (d, e, nr')"
  shows "d \<noteq> [] \<and> e = None \<and> good (snd nr')"
proof -
  obtain n r where nr: "nr = (n, r)" by (cases nr)
  with assms(2) have n: "0 < n" and data: "pend r \<noteq> []" by (auto simp: limit_pend_def)
  with assms(4) nr obtain r' where "rd (min k n) r = (d, e, r')" and "nr' = (n - length d, r')"
    by (auto simp: limit_read_def split: prod.splits)
  with rd_steady [of r "min k n" d e r'] assms(1,3) n data nr show ?thesis by simp
qed

lemma limit_read_full:
  assumes "good (snd nr)" and "0 < k" and "k \<le> length (limit_pend pend nr)"
    and "limit_read rd k nr = (d, e, nr')"
  shows "length d = k"
proof -
  obtain n r where nr: "nr = (n, r)" by (cases nr)
  with assms(2,3) have n: "0 < n" "k \<le> n" and len: "k \<le> length (pend r)"
    by (auto simp: limit_pend_def)
  with assms(4) nr obtain r' where "rd k r = (d, e, r')"
    by (auto simp: limit_read_def split: prod.splits)
  with rd_full [of r k d e r'] assms(1,2) len nr show ?thesis by simp
qed

end

text \<open>Limiting a connection keeps the contracts.\<close>

interpretation limited_script: io_reader "limit_read reader_read" "limit_pend stream"
  by unfold_locales (erule script.limit_read_length, erule script.limit_read_pend)

interpretation limited_whole: full_reader "limit_read reader_read" "limit_pend stream" "\<lambda>nr. whole (snd nr)"
  by unfold_locales
    (rule whole_script.limit_read_steady, assumption+, rule whole_script.limit_read_full, assumption+)

section \<open>Reading an exact number of bytes\<close>

text \<open>A read without an error takes a result from the script or fills the buffer.\<close>

lemma reader_read_progress:
  assumes "reader_read k r = (d, None, r')" and "0 < k"
  shows "(k - length d) + length r' < k + length r"
  using assms by (cases "(k, r)" rule: reader_read.cases) (auto split: if_splits)

text \<open>
  \<open>io.ReadFull\<close>: read until the buffer of length \<open>k\<close> is full.  An error that arrives
  together with the last byte is dropped; end of file after some bytes becomes
  \<open>io.ErrUnexpectedEOF\<close>.
\<close>

function read_full_from :: "bytes \<Rightarrow> nat \<Rightarrow> reader \<Rightarrow> (go_error + bytes) \<times> reader" where
  "read_full_from got k r =
     (if k \<le> length got then (Inr got, r)
      else case reader_read (k - length got) r of (d, e, r') \<Rightarrow>
        (case e of
           None \<Rightarrow> read_full_from (got @ d) k r'
         | Some err \<Rightarrow>
             if k \<le> length (got @ d) then (Inr (got @ d), r')
             else (Inl (if err = EOF \<and> got @ d \<noteq> [] then ErrUnexpectedEOF else err), r')))"
  by pat_completeness auto
termination
proof (relation "measure (\<lambda>(got, k, r). (k - length got) + length r)", goal_cases)
  case 1
  show ?case by simp
next
  case (2 got k r x)
  then show ?case by (auto dest!: reader_read_progress [OF sym])
qed

declare read_full_from.simps [simp del]

definition read_full :: "nat \<Rightarrow> reader \<Rightarrow> (go_error + bytes) \<times> reader" where
  "read_full k r = read_full_from [] k r"

text \<open>Whatever the connection does, a full buffer is the next \<open>k\<close> bytes of its stream.\<close>

lemma read_full_from_sound:
  "read_full_from got k r = (Inr bs, r') \<Longrightarrow> length got \<le> k \<Longrightarrow>
     length bs = k \<and> got @ stream r = bs @ stream r'"
proof (induction got k r rule: read_full_from.induct)
  case (1 got k r)
  show ?case
  proof (cases "k \<le> length got")
    case True
    with "1.prems" show ?thesis by (simp add: read_full_from.simps [of got k r])
  next
    case False
    obtain d e r1 where rd: "reader_read (k - length got) r = (d, e, r1)" by (cases "reader_read (k - length got) r")
    have len: "length d \<le> k - length got" and str: "stream r = d @ stream r1"
      using script.rd_length [OF rd] script.rd_pend [OF rd] by simp_all
    show ?thesis
    proof (cases e)
      case None
      with "1.prems" rd False len str "1.IH" [OF False rd [symmetric] refl None] show ?thesis
        by (simp add: read_full_from.simps [of got k r])
    next
      case (Some err)
      with "1.prems" rd False have "bs = got @ d" "r' = r1" "k \<le> length got + length d"
        by (simp_all add: read_full_from.simps [of got k r] split: if_splits)
      with len str False show ?thesis by simp
    qed
  qed
qed

lemma read_full_sound: "read_full k r = (Inr bs, r') \<Longrightarrow> length bs = k \<and> stream r = bs @ stream r'"
  using read_full_from_sound [of "[]" k r bs r'] by (simp add: read_full_def)

text \<open>A connection without errors that has the bytes delivers them, however it is segmented.\<close>

lemma read_full_from_segments:
  "k \<le> length got + length (concat cs) \<Longrightarrow> length got \<le> k \<Longrightarrow>
     \<exists>cs'. read_full_from got k (reader_of cs) = (Inr (take k (got @ concat cs)), reader_of cs')
         \<and> concat cs' = drop (k - length got) (concat cs)"
proof (induction cs arbitrary: got)
  case Nil
  then have "k \<le> length got" by simp
  with Nil show ?case by (intro exI [of _ "[]"]) (simp add: read_full_from.simps [of got k])
next
  case (Cons c cs)
  show ?case
  proof (cases "k \<le> length got")
    case True
    with Cons.prems show ?thesis
      by (intro exI [of _ "c # cs"]) (simp add: read_full_from.simps [of got k])
  next
    case less: False
    show ?thesis
    proof (cases "length c \<le> k - length got")
      case True
      with less have "length (got @ c) \<le> k" by simp
      with Cons.IH [of "got @ c"] Cons.prems obtain cs' where
        "read_full_from (got @ c) k (reader_of cs) = (Inr (take k ((got @ c) @ concat cs)), reader_of cs')"
        "concat cs' = drop (k - length (got @ c)) (concat cs)" by auto
      with True less show ?thesis
        by (intro exI [of _ cs']) (simp add: read_full_from.simps [of got k] drop_append)
    next
      case False
      with less show ?thesis
        by (intro exI [of _ "drop (k - length got) c # cs"])
          (simp add: read_full_from.simps [of got k]
            read_full_from.simps [of "got @ take (k - length got) c" k])
    qed
  qed
qed

lemma read_full_segments:
  assumes "k \<le> length (concat cs)"
  obtains cs' where "read_full k (reader_of cs) = (Inr (take k (concat cs)), reader_of cs')"
    and "concat cs' = drop k (concat cs)"
  using read_full_from_segments [of k "[]" cs] assms by (auto simp: read_full_def)

text \<open>Reading leaves a clean script clean.\<close>

lemma reader_read_clean: "reader_read k r = (d, e, r') \<Longrightarrow> clean r \<Longrightarrow> clean r'"
  by (cases "(k, r)" rule: reader_read.cases) (auto simp: clean_def split: if_splits)

lemma read_full_from_clean: "read_full_from got k r = (Inr bs, r') \<Longrightarrow> clean r \<Longrightarrow> clean r'"
proof (induction got k r rule: read_full_from.induct)
  case (1 got k r)
  show ?case
  proof (cases "k \<le> length got")
    case True
    with "1.prems" show ?thesis by (simp add: read_full_from.simps [of got k r])
  next
    case False
    obtain d e r1 where rd: "reader_read (k - length got) r = (d, e, r1)" by (cases "reader_read (k - length got) r")
    have "clean r1" using reader_read_clean [OF rd "1.prems"(2)] .
    with "1.prems"(1) rd False "1.IH" [OF False rd [symmetric] refl] show ?thesis
      by (auto simp: read_full_from.simps [of got k r] split: option.splits if_splits)
  qed
qed

lemma read_full_clean: "read_full k r = (Inr bs, r') \<Longrightarrow> clean r \<Longrightarrow> clean r'"
  by (simp add: read_full_def read_full_from_clean)

section \<open>Writers\<close>

type_synonym 'w write_fn = "bytes \<Rightarrow> 'w \<Rightarrow> int \<times> go_error option \<times> 'w"

record writer =
  sink :: bytes
  plan :: "(int \<times> go_error option) list"

text \<open>Without a planned result the write succeeds in full.\<close>

definition writer_write :: "writer write_fn" where
  "writer_write p w =
     (case plan w of
        [] \<Rightarrow> (int (length p), None, w\<lparr>sink := sink w @ p\<rparr>)
      | (n, e) # rest \<Rightarrow> (n, e, w\<lparr>sink := sink w @ take (nat n) p, plan := rest\<rparr>))"

text \<open>What every writer promises: it has taken the first bytes of the data, as many as it says.\<close>

locale io_writer =
  fixes wr :: "'w write_fn"
    and sunk :: "'w \<Rightarrow> bytes"
  assumes wr_sunk: "wr p w = (n, e, w') \<Longrightarrow> sunk w' = sunk w @ take (nat n) p"

locale reliable_writer = io_writer +
  fixes fit :: "'w \<Rightarrow> bool"
  assumes wr_all: "\<lbrakk>fit w; wr p w = (n, e, w')\<rbrakk> \<Longrightarrow> n = int (length p) \<and> e = None \<and> fit w'"

interpretation script_writer: io_writer writer_write sink
  by unfold_locales (auto simp: writer_write_def split: list.splits prod.splits)

interpretation open_writer: reliable_writer writer_write sink "\<lambda>w. plan w = []"
  by unfold_locales (auto simp: writer_write_def split: list.splits prod.splits)

text \<open>
  \<open>writeAll\<close>, which \<open>internal/protocol\<close> and \<open>internal/storage\<close> define alike: write until
  nothing remains.  A count out of range, an error and a write without progress each end it.
\<close>

function writeAll :: "'w write_fn \<Rightarrow> bytes \<Rightarrow> 'w \<Rightarrow> go_error option \<times> 'w" where
  "writeAll wr remaining w =
     (if remaining = [] then (None, w)
      else case wr remaining w of (n, err, w') \<Rightarrow>
        if n < 0 \<or> int (length remaining) < n then (Some (ErrNew ''invalid write count''), w')
        else (case err of
                Some e \<Rightarrow> (Some e, w')
              | None \<Rightarrow> if n = 0 then (Some ErrShortWrite, w')
                        else writeAll wr (drop (nat n) remaining) w'))"
  by pat_completeness auto
termination
  by (relation "measure (\<lambda>(wr, remaining, w). length remaining)") auto

declare writeAll.simps [simp del]

lemma writeAll_Nil [simp]: "writeAll wr [] w = (None, w)"
  by (simp add: writeAll.simps)

context io_writer
begin

text \<open>Success means that everything has been written, failure that some prefix has.\<close>

lemma writeAll_sunk:
  "writeAll wr data w = (res, w') \<Longrightarrow>
     \<exists>n. sunk w' = sunk w @ take n data \<and> (res = None \<longrightarrow> take n data = data)"
proof (induction data arbitrary: w rule: length_induct)
  case (1 data)
  show ?case
  proof (cases "data = []")
    case True
    with "1.prems" show ?thesis by simp
  next
    case False
    obtain n err w1 where wr: "wr data w = (n, err, w1)" by (cases "wr data w")
    have sunk: "sunk w1 = sunk w @ take (nat n) data" using wr by (rule wr_sunk)
    show ?thesis
    proof (cases "0 < n \<and> n \<le> int (length data) \<and> err = None")
      case True
      with wr False "1.prems" have rest: "writeAll wr (drop (nat n) data) w1 = (res, w')"
        by (simp add: writeAll.simps [of wr data w])
      have "length (drop (nat n) data) < length data" using True False by simp
      with "1.IH" rest obtain m where m: "sunk w' = sunk w1 @ take m (drop (nat n) data)"
        "res = None \<longrightarrow> take m (drop (nat n) data) = drop (nat n) data" by blast
      have "take (nat n) data @ take m (drop (nat n) data) = take (nat n + m) data"
        by (simp add: take_add)
      with m sunk show ?thesis by (metis append.assoc append_take_drop_id)
    next
      case stop: False
      with wr False "1.prems" have "w' = w1" "res \<noteq> None"
        by (auto simp: writeAll.simps [of wr data w] split: if_splits option.splits)
      with sunk show ?thesis by blast
    qed
  qed
qed

lemma writeAll_done: "writeAll wr data w = (None, w') \<Longrightarrow> sunk w' = sunk w @ data"
  using writeAll_sunk by force

end

context reliable_writer
begin

lemma writeAll_fit:
  assumes "fit w"
  obtains w' where "writeAll wr data w = (None, w')" and "fit w'" and "sunk w' = sunk w @ data"
proof (cases "data = []")
  case True
  with assms that show ?thesis by simp
next
  case False
  obtain n err w1 where wr: "wr data w = (n, err, w1)" by (cases "wr data w")
  from wr_all [OF assms wr] have *: "n = int (length data)" "err = None" "fit w1" by simp_all
  with wr False have "writeAll wr data w = (None, w1)"
    by (simp add: writeAll.simps [of wr data w])
  then show ?thesis using *(3) writeAll_done that by blast
qed

end

lemma writeAll_open:
  "plan w = [] \<Longrightarrow> writeAll writer_write data w = (None, w\<lparr>sink := sink w @ data\<rparr>)"
  by (cases "data = []") (simp_all add: writeAll.simps [of writer_write data w] writer_write_def)

section \<open>Big-endian lengths\<close>

text \<open>\<open>binary.BigEndian.PutUint64\<close> and \<open>Uint64\<close>.\<close>

definition put_uint64 :: "u64 \<Rightarrow> bytes" where
  "put_uint64 v = [ucast (drop_bit 56 v), ucast (drop_bit 48 v), ucast (drop_bit 40 v), ucast (drop_bit 32 v),
                   ucast (drop_bit 24 v), ucast (drop_bit 16 v), ucast (drop_bit 8 v), ucast v]"

definition get_uint64 :: "bytes \<Rightarrow> u64" where
  "get_uint64 bs =
     ucast (bs ! 7) OR push_bit 8 (ucast (bs ! 6)) OR push_bit 16 (ucast (bs ! 5)) OR push_bit 24 (ucast (bs ! 4))
     OR push_bit 32 (ucast (bs ! 3)) OR push_bit 40 (ucast (bs ! 2)) OR push_bit 48 (ucast (bs ! 1))
     OR push_bit 56 (ucast (bs ! 0))"

lemma length_put_uint64 [simp]: "length (put_uint64 v) = 8"
  by (simp add: put_uint64_def)

lemma get_put_uint64 [simp]: "get_uint64 (put_uint64 v) = v"
proof (rule bit_word_eqI)
  fix n :: nat
  assume "n < LENGTH(64)"
  define m where "m = n mod 8"
  have "m < 8" by (simp add: m_def)
  have "n = 8 * (n div 8) + m" by (simp add: m_def)
  moreover have "n div 8 = 0 \<or> n div 8 = 1 \<or> n div 8 = 2 \<or> n div 8 = 3 \<or> n div 8 = 4 \<or> n div 8 = 5
      \<or> n div 8 = 6 \<or> n div 8 = 7"
    using \<open>n < LENGTH(64)\<close> by (simp, linarith)
  ultimately have "n = m \<or> n = m + 8 \<or> n = m + 16 \<or> n = m + 24 \<or> n = m + 32 \<or> n = m + 40
      \<or> n = m + 48 \<or> n = m + 56"
    by linarith
  with \<open>m < 8\<close> show "bit (get_uint64 (put_uint64 v)) n = bit v n"
    by (elim disjE) (simp_all add: get_uint64_def put_uint64_def bit_simps add.commute)
qed

end
