(* ===== verification/Lifecycle.thy ===== *)
theory Lifecycle
  imports GoIO
begin

text \<open>
  The life of a \<open>Server\<close> of \<open>internal/daemon/server.go\<close>: \<open>Start\<close>, \<open>acceptLoop\<close>, the handler
  goroutines with \<open>dropConnection\<close>, and \<open>Close\<close>, all running at the same time.  Every goroutine
  has a program counter; one step of it is one section under the mutex or one call, with the
  outcome of the call as an argument.  Connections are numbered as they are accepted.
\<close>

section \<open>Options\<close>

record server_options =
  MaxConnections :: int
  ReadTimeout :: int
  WriteTimeout :: int

definition DefaultMaxConnections :: int where
  "DefaultMaxConnections = 64"

definition defaultReadTimeout :: int where
  "defaultReadTimeout = 30 * 1000000000"

definition defaultWriteTimeout :: int where
  "defaultWriteTimeout = 30 * 1000000000"

definition effective_options :: "server_options \<Rightarrow> server_options" where
  "effective_options o1 =
     (let o2 = (if MaxConnections o1 \<le> 0 then o1\<lparr>MaxConnections := DefaultMaxConnections\<rparr> else o1);
          o3 = (if ReadTimeout o2 \<le> 0 then o2\<lparr>ReadTimeout := defaultReadTimeout\<rparr> else o2) in
      if WriteTimeout o3 \<le> 0 then o3\<lparr>WriteTimeout := defaultWriteTimeout\<rparr> else o3)"

section \<open>The server and its goroutines\<close>

datatype server_state = ServerNew | ServerStarting | ServerRunning | ServerClosing | ServerClosed

text \<open>A \<open>chan struct{}\<close> that is only ever closed, and what the process holds of the system.\<close>

datatype channel = NilChan | OpenChan | ClosedChan

datatype resource = Absent | Held | Shut

text \<open>\<open>Start\<close>: what comes next, after a failure with the error that will be returned.\<close>

datatype start_pc =
    StartIdle
  | EnsureDirectory | CheckContext | TakeLock | KeepLock | RemoveStale | OpenStore | RecoverStore
  | Listen | ProtectSocket | IdentifySocket | StartupHook | Publish
  | SpawnAccept | FinishStart
  | UndoListener go_error | UndoSocket go_error | UndoStore go_error | UndoLock go_error | UndoState go_error
  | Started "go_error option"

datatype close_pc =
    CloseIdle
  | CloseListener | AwaitAccept | Snapshot | CloseConnections "nat list" | AwaitHandlers
  | CloseStore | RemoveSocket | ReleaseLock | FinishClose | SignalClosed
  | CloseReturned

datatype accept_pc =
    AcceptIdle
  | Accepting | TakeSlot nat | Admit nat | SpawnHandler nat | GiveBack nat | CloseRefused nat | LeaveAccept
  | AcceptExited

datatype handler_pc = NoHandler | Serving | Dropping | Forgetting | FreeingSlot | Finishing

text \<open>
  The fields of \<open>Server\<close> (a pointer is whether it is not nil), then the local variables and
  program counters of \<open>Start\<close>, of the one \<open>Close\<close> that does the work, of \<open>acceptLoop\<close> and of the
  handlers, the number of \<open>Close\<close> calls that wait on either channel, and what the process holds:
  lock, database, listener, socket file, and which of the accepted connections are closed.
\<close>

record server =
  sv_options :: server_options
  sv_lock :: bool
  sv_store :: bool
  sv_listener :: bool
  sv_socket :: bool
  sv_state :: server_state
  sv_startDone :: channel
  sv_closeDone :: channel
  sv_connections :: "nat list"
  sv_slots :: nat
  sv_acceptWG :: nat
  sv_connectionWG :: nat
  start_at :: start_pc
  var_lock :: bool
  var_store :: bool
  var_listener :: bool
  close_at :: close_pc
  cl_lock :: bool
  cl_store :: bool
  cl_listener :: bool
  cl_socket :: bool
  cl_first :: "go_error option"
  accept_at :: accept_pc
  handler_at :: "nat \<Rightarrow> handler_pc"
  wait_start :: nat
  wait_close :: nat
  the_lock :: resource
  the_store :: resource
  the_listener :: resource
  the_socket :: resource
  accepted :: nat
  shut :: "nat set"

definition NewServerWithOptions :: "server_options \<Rightarrow> server" where
  "NewServerWithOptions opts =
     \<lparr>sv_options = effective_options opts, sv_lock = False, sv_store = False, sv_listener = False, sv_socket = False,
      sv_state = ServerNew, sv_startDone = NilChan, sv_closeDone = NilChan, sv_connections = [], sv_slots = 0,
      sv_acceptWG = 0, sv_connectionWG = 0,
      start_at = StartIdle, var_lock = False, var_store = False, var_listener = False,
      close_at = CloseIdle, cl_lock = False, cl_store = False, cl_listener = False, cl_socket = False, cl_first = None,
      accept_at = AcceptIdle, handler_at = (\<lambda>_. NoHandler), wait_start = 0, wait_close = 0,
      the_lock = Absent, the_store = Absent, the_listener = Absent, the_socket = Absent, accepted = 0, shut = {}\<rparr>"

section \<open>Start\<close>

text \<open>The call: an error at once, or the server is now starting.\<close>

definition start_call :: "go_error option \<Rightarrow> server \<Rightarrow> go_error + server" where
  "start_call ctx_err s =
     (case ctx_err of
        Some err \<Rightarrow> Inl err
      | None \<Rightarrow>
          if sv_state s \<noteq> ServerNew then Inl ErrServerSingleUse
          else Inr (s\<lparr>sv_state := ServerStarting, sv_startDone := OpenChan, start_at := EnsureDirectory\<rparr>))"

definition proceed :: "go_error option \<Rightarrow> (server \<Rightarrow> server) \<Rightarrow> server \<Rightarrow> server" where
  "proceed r go s = (case r of Some err \<Rightarrow> s\<lparr>start_at := UndoListener err\<rparr> | None \<Rightarrow> go s)"

definition start_step :: "go_error option \<Rightarrow> server \<Rightarrow> server option" where
  "start_step r s =
     (case start_at s of
        StartIdle \<Rightarrow> None
      | EnsureDirectory \<Rightarrow> Some (proceed r (\<lambda>s. s\<lparr>start_at := CheckContext\<rparr>) s)
      | CheckContext \<Rightarrow> Some (proceed r (\<lambda>s. s\<lparr>start_at := TakeLock\<rparr>) s)
      | TakeLock \<Rightarrow> Some (proceed r (\<lambda>s. s\<lparr>start_at := KeepLock, var_lock := True, the_lock := Held\<rparr>) s)
      | KeepLock \<Rightarrow> Some (s\<lparr>start_at := RemoveStale, sv_lock := True\<rparr>)
      | RemoveStale \<Rightarrow> Some (proceed r (\<lambda>s. s\<lparr>start_at := OpenStore\<rparr>) s)
      | OpenStore \<Rightarrow> Some (proceed r (\<lambda>s. s\<lparr>start_at := RecoverStore, var_store := True, the_store := Held\<rparr>) s)
      | RecoverStore \<Rightarrow> Some (proceed (map_option (Wrap ''recover pending captures'') r) (\<lambda>s. s\<lparr>start_at := Listen\<rparr>) s)
      | Listen \<Rightarrow> Some (proceed (map_option (Wrap ''listen Unix socket'') r)
          (\<lambda>s. s\<lparr>start_at := ProtectSocket, var_listener := True, the_listener := Held, the_socket := Held\<rparr>) s)
      | ProtectSocket \<Rightarrow> Some (proceed (map_option (Wrap ''protect Unix socket'') r) (\<lambda>s. s\<lparr>start_at := IdentifySocket\<rparr>) s)
      | IdentifySocket \<Rightarrow> Some (proceed r (\<lambda>s. s\<lparr>start_at := StartupHook\<rparr>) s)
      | StartupHook \<Rightarrow> Some (proceed r (\<lambda>s. s\<lparr>start_at := Publish\<rparr>) s)
      | Publish \<Rightarrow> Some (s\<lparr>start_at := SpawnAccept, sv_store := True, sv_listener := True, sv_socket := True,
          sv_state := ServerRunning, sv_acceptWG := sv_acceptWG s + 1\<rparr>)
      | SpawnAccept \<Rightarrow> Some (s\<lparr>start_at := FinishStart, accept_at := Accepting\<rparr>)
      | FinishStart \<Rightarrow> Some (s\<lparr>start_at := Started None, sv_startDone := ClosedChan\<rparr>)
      | UndoListener err \<Rightarrow> Some (if var_listener s then s\<lparr>start_at := UndoSocket err, the_listener := Shut\<rparr>
          else s\<lparr>start_at := UndoStore err\<rparr>)
      | UndoSocket err \<Rightarrow> Some (if r = None then s\<lparr>start_at := UndoStore err, the_socket := Shut\<rparr> else s\<lparr>start_at := UndoStore err\<rparr>)
      | UndoStore err \<Rightarrow> Some (if var_store s then s\<lparr>start_at := UndoLock err, the_store := Shut\<rparr> else s\<lparr>start_at := UndoLock err\<rparr>)
      | UndoLock err \<Rightarrow> Some (if var_lock s then s\<lparr>start_at := UndoState err, the_lock := Shut\<rparr> else s\<lparr>start_at := UndoState err\<rparr>)
      | UndoState err \<Rightarrow> Some (s\<lparr>start_at := Started (Some err), sv_lock := False, sv_store := False, sv_listener := False,
          sv_socket := False, sv_state := ServerClosed, sv_startDone := ClosedChan\<rparr>)
      | Started _ \<Rightarrow> None)"

section \<open>Accepting and dropping connections\<close>

text \<open>\<open>AcceptUnix\<close> returns a connection, a passing error, or \<open>net.ErrClosed\<close> when the listener is closed.\<close>

definition accept_arrival :: "server \<Rightarrow> server option" where
  "accept_arrival s =
     (if accept_at s = Accepting \<and> the_listener s = Held
      then Some (s\<lparr>accept_at := TakeSlot (accepted s), accepted := accepted s + 1\<rparr>) else None)"

definition accept_failure :: "server \<Rightarrow> server option" where
  "accept_failure s = (if accept_at s = Accepting \<and> the_listener s = Held then Some s else None)"

definition accept_step :: "server \<Rightarrow> server option" where
  "accept_step s =
     (case accept_at s of
        AcceptIdle \<Rightarrow> None
      | Accepting \<Rightarrow> if the_listener s = Shut then Some (s\<lparr>accept_at := LeaveAccept\<rparr>) else None
      | TakeSlot c \<Rightarrow>
          Some (if sv_slots s < nat (MaxConnections (sv_options s)) then s\<lparr>sv_slots := sv_slots s + 1, accept_at := Admit c\<rparr>
                else s\<lparr>shut := insert c (shut s), accept_at := Accepting\<rparr>)
      | Admit c \<Rightarrow>
          Some (if sv_state s \<noteq> ServerRunning then s\<lparr>accept_at := GiveBack c\<rparr>
                else s\<lparr>sv_connections := sv_connections s @ [c], sv_connectionWG := sv_connectionWG s + 1, accept_at := SpawnHandler c\<rparr>)
      | SpawnHandler c \<Rightarrow> Some (s\<lparr>handler_at := (handler_at s)(c := Serving), accept_at := Accepting\<rparr>)
      | GiveBack c \<Rightarrow> Some (s\<lparr>sv_slots := sv_slots s - 1, accept_at := CloseRefused c\<rparr>)
      | CloseRefused c \<Rightarrow> Some (s\<lparr>shut := insert c (shut s), accept_at := LeaveAccept\<rparr>)
      | LeaveAccept \<Rightarrow> Some (s\<lparr>sv_acceptWG := sv_acceptWG s - 1, accept_at := AcceptExited\<rparr>)
      | AcceptExited \<Rightarrow> None)"

text \<open>A handler: \<open>serveConnection\<close> has returned, then \<open>dropConnection\<close> and \<open>connectionWG.Done\<close>.\<close>

definition handler_step :: "nat \<Rightarrow> server \<Rightarrow> server option" where
  "handler_step c s =
     (case handler_at s c of
        NoHandler \<Rightarrow> None
      | Serving \<Rightarrow> Some (s\<lparr>handler_at := (handler_at s)(c := Dropping)\<rparr>)
      | Dropping \<Rightarrow> Some (s\<lparr>shut := insert c (shut s), handler_at := (handler_at s)(c := Forgetting)\<rparr>)
      | Forgetting \<Rightarrow> Some (s\<lparr>sv_connections := removeAll c (sv_connections s), handler_at := (handler_at s)(c := FreeingSlot)\<rparr>)
      | FreeingSlot \<Rightarrow> Some (s\<lparr>sv_slots := sv_slots s - 1, handler_at := (handler_at s)(c := Finishing)\<rparr>)
      | Finishing \<Rightarrow> Some (s\<lparr>sv_connectionWG := sv_connectionWG s - 1, handler_at := (handler_at s)(c := NoHandler)\<rparr>))"

section \<open>Close\<close>

text \<open>One pass of the loop at the head of \<open>Close\<close>; a call on a closed server returns at once.\<close>

definition close_call :: "server \<Rightarrow> server" where
  "close_call s =
     (case sv_state s of
        ServerStarting \<Rightarrow> s\<lparr>wait_start := wait_start s + 1\<rparr>
      | ServerClosed \<Rightarrow> s
      | ServerClosing \<Rightarrow> s\<lparr>wait_close := wait_close s + 1\<rparr>
      | _ \<Rightarrow> s\<lparr>sv_state := ServerClosing, sv_closeDone := OpenChan, close_at := CloseListener, cl_listener := sv_listener s,
              cl_store := sv_store s, cl_lock := sv_lock s, cl_socket := sv_socket s, cl_first := None\<rparr>)"

definition wake_start :: "server \<Rightarrow> server option" where
  "wake_start s =
     (if 0 < wait_start s \<and> sv_startDone s = ClosedChan then Some (close_call (s\<lparr>wait_start := wait_start s - 1\<rparr>)) else None)"

definition wake_close :: "server \<Rightarrow> server option" where
  "wake_close s = (if 0 < wait_close s \<and> sv_closeDone s = ClosedChan then Some (s\<lparr>wait_close := wait_close s - 1\<rparr>) else None)"

text \<open>The first error is the one that is returned.\<close>

definition first_error :: "go_error option \<Rightarrow> go_error option \<Rightarrow> go_error option" where
  "first_error old r = (if old = None then r else old)"

definition close_step :: "go_error option \<Rightarrow> server \<Rightarrow> server option" where
  "close_step r s =
     (case close_at s of
        CloseIdle \<Rightarrow> None
      | CloseListener \<Rightarrow>
          Some (if cl_listener s
                then s\<lparr>the_listener := Shut, close_at := AwaitAccept,
                       cl_first := (case r of None \<Rightarrow> None | Some e \<Rightarrow> if errors_is e ErrNetClosed then None else Some e)\<rparr>
                else s\<lparr>close_at := AwaitAccept\<rparr>)
      | AwaitAccept \<Rightarrow> if sv_acceptWG s = 0 then Some (s\<lparr>close_at := Snapshot\<rparr>) else None
      | Snapshot \<Rightarrow> Some (s\<lparr>close_at := CloseConnections (sv_connections s)\<rparr>)
      | CloseConnections [] \<Rightarrow> Some (s\<lparr>close_at := AwaitHandlers\<rparr>)
      | CloseConnections (c # cs) \<Rightarrow> Some (s\<lparr>shut := insert c (shut s), close_at := CloseConnections cs\<rparr>)
      | AwaitHandlers \<Rightarrow> if sv_connectionWG s = 0 then Some (s\<lparr>close_at := CloseStore\<rparr>) else None
      | CloseStore \<Rightarrow>
          Some (if cl_store s then s\<lparr>the_store := Shut, cl_first := first_error (cl_first s) r, close_at := RemoveSocket\<rparr>
                else s\<lparr>close_at := RemoveSocket\<rparr>)
      | RemoveSocket \<Rightarrow>
          Some (if cl_socket s
                then s\<lparr>the_socket := (if r = None then Shut else the_socket s), cl_first := first_error (cl_first s) r, close_at := ReleaseLock\<rparr>
                else s\<lparr>close_at := ReleaseLock\<rparr>)
      | ReleaseLock \<Rightarrow>
          Some (if cl_lock s then s\<lparr>the_lock := Shut, cl_first := first_error (cl_first s) r, close_at := FinishClose\<rparr>
                else s\<lparr>close_at := FinishClose\<rparr>)
      | FinishClose \<Rightarrow> Some (s\<lparr>sv_state := ServerClosed, close_at := SignalClosed\<rparr>)
      | SignalClosed \<Rightarrow> Some (s\<lparr>sv_closeDone := ClosedChan, close_at := CloseReturned\<rparr>)
      | CloseReturned \<Rightarrow> None)"

text \<open>What the handlers of the health and information requests ask.\<close>

definition running :: "server \<Rightarrow> bool" where
  "running s = (sv_state s = ServerRunning)"

section \<open>Runs\<close>

datatype server_event =
    CallStart "go_error option" | StartStep "go_error option"
  | CallClose | CloseStep "go_error option" | WakeStart | WakeClose
  | Arrival | AcceptFailure | AcceptStep | HandlerStep nat

fun server_step :: "server_event \<Rightarrow> server \<Rightarrow> server option" where
  "server_step (CallStart r) s = (case start_call r s of Inl _ \<Rightarrow> Some s | Inr t \<Rightarrow> Some t)"
| "server_step (StartStep r) s = start_step r s"
| "server_step CallClose s = Some (close_call s)"
| "server_step (CloseStep r) s = close_step r s"
| "server_step WakeStart s = wake_start s"
| "server_step WakeClose s = wake_close s"
| "server_step Arrival s = accept_arrival s"
| "server_step AcceptFailure s = accept_failure s"
| "server_step AcceptStep s = accept_step s"
| "server_step (HandlerStep c) s = handler_step c s"

inductive reachable :: "server \<Rightarrow> bool" where
  reachable_new: "reachable (NewServerWithOptions opts)"
| reachable_step: "reachable s \<Longrightarrow> server_step ev s = Some t \<Longrightarrow> reachable t"

text \<open>A whole run; it stops at an event that cannot happen.\<close>

fun server_run :: "server_event list \<Rightarrow> server \<Rightarrow> server option" where
  "server_run [] s = Some s"
| "server_run (ev # evs) s = Option.bind (server_step ev s) (server_run evs)"

lemma reachable_run: "server_run evs s = Some t \<Longrightarrow> reachable s \<Longrightarrow> reachable t"
  by (induction evs arbitrary: s) (auto simp: Option.bind_eq_Some_conv intro: reachable_step)

end
