(* ===== verification/LifecycleFacts.thy ===== *)
theory LifecycleFacts
  imports Lifecycle
begin

text \<open>
  What holds in every reachable state of a server, and why \<open>Close\<close> comes to an end.
\<close>

section \<open>The state and the program counters\<close>

fun closing_state :: "server_state \<Rightarrow> close_pc \<Rightarrow> server_state" where
  "closing_state base CloseIdle = base"
| "closing_state base SignalClosed = ServerClosed"
| "closing_state base CloseReturned = ServerClosed"
| "closing_state base _ = ServerClosing"

text \<open>Where the state must be, given where \<open>Start\<close> and \<open>Close\<close> are; \<open>None\<close> if they cannot be there together.\<close>

fun state_at :: "start_pc \<Rightarrow> close_pc \<Rightarrow> server_state option" where
  "state_at StartIdle cl = Some (closing_state ServerNew cl)"
| "state_at SpawnAccept cl = Some (closing_state ServerRunning cl)"
| "state_at FinishStart cl = Some (closing_state ServerRunning cl)"
| "state_at (Started None) cl = Some (closing_state ServerRunning cl)"
| "state_at (Started (Some _)) cl = (if cl = CloseIdle then Some ServerClosed else None)"
| "state_at _ cl = (if cl = CloseIdle then Some ServerStarting else None)"

definition state_ok :: "server \<Rightarrow> bool" where
  "state_ok s \<longleftrightarrow> state_at (start_at s) (close_at s) = Some (sv_state s)"

lemmas step_defs = start_call_def start_step_def close_call_def close_step_def wake_start_def wake_close_def
  accept_arrival_def accept_failure_def accept_step_def handler_step_def proceed_def

lemmas step_splits = if_splits option.splits sum.splits start_pc.splits close_pc.splits accept_pc.splits handler_pc.splits
  server_state.splits list.splits

lemma state_at_New: "state_at sp cp = Some ServerNew \<longleftrightarrow> sp = StartIdle \<and> cp = CloseIdle"
  by (cases "(sp, cp)" rule: state_at.cases; cases cp) simp_all

lemma state_at_Running: "state_at sp cp = Some ServerRunning \<longleftrightarrow> sp \<in> {SpawnAccept, FinishStart, Started None} \<and> cp = CloseIdle"
  by (cases "(sp, cp)" rule: state_at.cases; cases cp) simp_all

lemma state_ok_new: "state_ok (NewServerWithOptions opts)"
  by (simp add: state_ok_def NewServerWithOptions_def)

lemma state_ok_close: "state_ok s \<Longrightarrow> state_ok (close_call s)"
  by (auto simp: state_ok_def close_call_def state_at_New state_at_Running split: server_state.splits)

lemma state_ok_step: "state_ok s \<Longrightarrow> server_step ev s = Some t \<Longrightarrow> state_ok t"
proof (cases ev)
  case (CallStart r)
  assume "state_ok s" "server_step ev s = Some t"
  with CallStart show ?thesis by (auto simp: state_ok_def start_call_def state_at_New split: option.splits if_splits)
next
  case (StartStep r)
  assume "state_ok s" "server_step ev s = Some t"
  with StartStep show ?thesis
    by (cases "start_at s"; cases r) (auto simp: state_ok_def start_step_def proceed_def split: if_splits)
next
  case (CloseStep r)
  assume ok: "state_ok s" and step: "server_step ev s = Some t"
  from ok have "start_at s = StartIdle \<or> start_at s \<in> {SpawnAccept, FinishStart, Started None} \<or> close_at s = CloseIdle"
    by (cases "(start_at s, close_at s)" rule: state_at.cases) (auto simp: state_ok_def split: if_splits)
  with ok step CloseStep show ?thesis
    by (cases "close_at s") (auto simp: state_ok_def close_step_def split: if_splits list.splits)
next
  case WakeStart
  assume "state_ok s" "server_step ev s = Some t"
  moreover from this have "state_ok (s\<lparr>wait_start := wait_start s - 1\<rparr>)" by (simp add: state_ok_def)
  ultimately show ?thesis using WakeStart by (auto simp: wake_start_def state_ok_close split: if_splits)
qed (auto simp: state_ok_close, auto simp: state_ok_def step_defs split: step_splits)

section \<open>What the process holds\<close>

definition published :: "start_pc \<Rightarrow> bool" where
  "published sp = (sp \<in> {SpawnAccept, FinishStart, Started None})"

text \<open>Which of the local variables of \<open>Start\<close> are set.\<close>

fun vars_at :: "start_pc \<Rightarrow> (bool \<times> bool \<times> bool) option" where
  "vars_at KeepLock = Some (True, False, False)"
| "vars_at RemoveStale = Some (True, False, False)"
| "vars_at OpenStore = Some (True, False, False)"
| "vars_at RecoverStore = Some (True, True, False)"
| "vars_at Listen = Some (True, True, False)"
| "vars_at ProtectSocket = Some (True, True, True)"
| "vars_at IdentifySocket = Some (True, True, True)"
| "vars_at StartupHook = Some (True, True, True)"
| "vars_at Publish = Some (True, True, True)"
| "vars_at SpawnAccept = Some (True, True, True)"
| "vars_at FinishStart = Some (True, True, True)"
| "vars_at (Started None) = Some (True, True, True)"
| "vars_at StartIdle = Some (False, False, False)"
| "vars_at EnsureDirectory = Some (False, False, False)"
| "vars_at CheckContext = Some (False, False, False)"
| "vars_at TakeLock = Some (False, False, False)"
| "vars_at _ = None"

fun undo_depth :: "start_pc \<Rightarrow> nat" where
  "undo_depth (UndoSocket _) = 1"
| "undo_depth (UndoStore _) = 1"
| "undo_depth (UndoLock _) = 2"
| "undo_depth (UndoState _) = 3"
| "undo_depth (Started (Some _)) = 3"
| "undo_depth _ = 0"

fun close_depth :: "close_pc \<Rightarrow> nat" where
  "close_depth CloseIdle = 0"
| "close_depth CloseListener = 0"
| "close_depth RemoveSocket = 2"
| "close_depth ReleaseLock = 2"
| "close_depth FinishClose = 3"
| "close_depth SignalClosed = 3"
| "close_depth CloseReturned = 3"
| "close_depth _ = 1"

text \<open>A resource of the given depth: taken with its variable, given back by \<open>Start\<close> or by \<open>Close\<close>.\<close>

definition expected :: "bool \<Rightarrow> nat \<Rightarrow> server \<Rightarrow> resource" where
  "expected var n s = (if \<not> var then Absent else if n \<le> undo_depth (start_at s) \<or> n \<le> close_depth (close_at s) then Shut else Held)"

fun vars_fit :: "(bool \<times> bool \<times> bool) option \<Rightarrow> bool \<Rightarrow> bool \<Rightarrow> bool \<Rightarrow> bool" where
  "vars_fit (Some (a, b, c)) l st li = (l = a \<and> st = b \<and> li = c)"
| "vars_fit None l st li = ((li \<longrightarrow> st) \<and> (st \<longrightarrow> l))"

definition vars_ok :: "server \<Rightarrow> bool" where
  "vars_ok s \<longleftrightarrow> vars_fit (vars_at (start_at s)) (var_lock s) (var_store s) (var_listener s)"

definition fields_ok :: "server \<Rightarrow> bool" where
  "fields_ok s \<longleftrightarrow>
     (start_at s \<in> {RemoveStale, OpenStore, RecoverStore, Listen, ProtectSocket, IdentifySocket, StartupHook, Publish} \<longrightarrow> sv_lock s)
     \<and> (published (start_at s) \<longrightarrow> sv_lock s \<and> sv_store s \<and> sv_listener s \<and> sv_socket s)
     \<and> (start_at s = StartIdle \<longrightarrow> \<not> sv_lock s \<and> \<not> sv_store s \<and> \<not> sv_listener s \<and> \<not> sv_socket s)
     \<and> (close_at s \<noteq> CloseIdle \<longrightarrow> cl_lock s = sv_lock s \<and> cl_store s = sv_store s \<and> cl_listener s = sv_listener s \<and> cl_socket s = sv_socket s)"

definition held_ok :: "server \<Rightarrow> bool" where
  "held_ok s \<longleftrightarrow> the_listener s = expected (var_listener s) 1 s \<and> the_store s = expected (var_store s) 2 s
     \<and> the_lock s = expected (var_lock s) 3 s"

lemma closing_where: "state_ok s \<Longrightarrow> close_at s \<noteq> CloseIdle \<Longrightarrow> start_at s = StartIdle \<or> published (start_at s)"
  by (cases "(start_at s, close_at s)" rule: state_at.cases) (auto simp: state_ok_def published_def split: if_splits)

lemma open_where: "state_ok s \<Longrightarrow> sv_state s = ServerNew \<or> sv_state s = ServerRunning \<Longrightarrow>
    close_at s = CloseIdle \<and> (start_at s = StartIdle \<or> published (start_at s))"
  by (auto simp: state_ok_def state_at_New state_at_Running published_def)

lemma pred_some: "pred_option P m \<Longrightarrow> m = Some t \<Longrightarrow> P t"
  by simp

text \<open>What \<open>Start\<close> and \<open>Close\<close> can touch, and what every other event leaves alone.\<close>

lemma close_call_frame:
  "start_at (close_call s) = start_at s" "accept_at (close_call s) = accept_at s" "handler_at (close_call s) = handler_at s"
  "var_lock (close_call s) = var_lock s" "var_store (close_call s) = var_store s" "var_listener (close_call s) = var_listener s"
  "sv_lock (close_call s) = sv_lock s" "sv_store (close_call s) = sv_store s" "sv_listener (close_call s) = sv_listener s"
  "sv_socket (close_call s) = sv_socket s" "the_lock (close_call s) = the_lock s" "the_store (close_call s) = the_store s"
  "the_listener (close_call s) = the_listener s" "the_socket (close_call s) = the_socket s" "sv_slots (close_call s) = sv_slots s"
  "sv_connections (close_call s) = sv_connections s" "sv_acceptWG (close_call s) = sv_acceptWG s"
  "sv_connectionWG (close_call s) = sv_connectionWG s" "accepted (close_call s) = accepted s" "shut (close_call s) = shut s"
  "sv_options (close_call s) = sv_options s" "sv_startDone (close_call s) = sv_startDone s"
  by (simp_all add: close_call_def split: server_state.split)

lemma close_call_at: "close_at (close_call s) = (if sv_state s \<in> {ServerNew, ServerRunning} then CloseListener else close_at s)"
  and close_call_locals:
    "cl_lock (close_call s) = (if sv_state s \<in> {ServerNew, ServerRunning} then sv_lock s else cl_lock s)"
    "cl_store (close_call s) = (if sv_state s \<in> {ServerNew, ServerRunning} then sv_store s else cl_store s)"
    "cl_listener (close_call s) = (if sv_state s \<in> {ServerNew, ServerRunning} then sv_listener s else cl_listener s)"
    "cl_socket (close_call s) = (if sv_state s \<in> {ServerNew, ServerRunning} then sv_socket s else cl_socket s)"
  by (simp_all add: close_call_def split: server_state.split)

lemma closing_frame:
  "close_step r s = Some t \<Longrightarrow> start_at t = start_at s \<and> accept_at t = accept_at s \<and> handler_at t = handler_at s \<and> var_lock t = var_lock s
     \<and> var_store t = var_store s \<and> var_listener t = var_listener s \<and> sv_lock t = sv_lock s \<and> sv_store t = sv_store s
     \<and> sv_listener t = sv_listener s \<and> sv_socket t = sv_socket s \<and> cl_lock t = cl_lock s \<and> cl_store t = cl_store s
     \<and> cl_listener t = cl_listener s \<and> cl_socket t = cl_socket s \<and> sv_slots t = sv_slots s \<and> sv_connections t = sv_connections s
     \<and> sv_acceptWG t = sv_acceptWG s \<and> sv_connectionWG t = sv_connectionWG s \<and> accepted t = accepted s
     \<and> sv_options t = sv_options s \<and> sv_startDone t = sv_startDone s \<and> close_at s \<noteq> CloseIdle \<and> close_at t \<notin> {CloseIdle, CloseListener}"
  by (erule pred_some [rotated], cases "close_at s") (simp_all add: close_step_def split: list.split)

text \<open>The goroutines of the connections.\<close>

definition serving_event :: "server_event \<Rightarrow> bool" where
  "serving_event ev = (case ev of Arrival \<Rightarrow> True | AcceptFailure \<Rightarrow> True | AcceptStep \<Rightarrow> True | HandlerStep _ \<Rightarrow> True | WakeClose \<Rightarrow> True | _ \<Rightarrow> False)"

lemma serving_frame:
  "serving_event ev \<Longrightarrow> server_step ev s = Some t \<Longrightarrow> start_at t = start_at s \<and> close_at t = close_at s \<and> var_lock t = var_lock s
     \<and> var_store t = var_store s \<and> var_listener t = var_listener s \<and> sv_lock t = sv_lock s \<and> sv_store t = sv_store s
     \<and> sv_listener t = sv_listener s \<and> sv_socket t = sv_socket s \<and> cl_lock t = cl_lock s \<and> cl_store t = cl_store s
     \<and> cl_listener t = cl_listener s \<and> cl_socket t = cl_socket s \<and> the_lock t = the_lock s \<and> the_store t = the_store s
     \<and> the_listener t = the_listener s \<and> the_socket t = the_socket s \<and> sv_state t = sv_state s \<and> sv_startDone t = sv_startDone s
     \<and> sv_closeDone t = sv_closeDone s \<and> sv_options t = sv_options s \<and> wait_start t = wait_start s"
  by (erule pred_some [rotated], cases ev)
    (simp_all add: serving_event_def accept_arrival_def accept_failure_def accept_step_def handler_step_def wake_close_def
      split: accept_pc.split handler_pc.split)

definition resources_ok :: "server \<Rightarrow> bool" where
  "resources_ok s \<longleftrightarrow> vars_ok s \<and> fields_ok s \<and> held_ok s"

lemma resources_ok_new: "resources_ok (NewServerWithOptions opts)"
  by (simp add: resources_ok_def vars_ok_def fields_ok_def held_ok_def NewServerWithOptions_def expected_def published_def)

lemma start_step_idle: "state_ok s \<Longrightarrow> start_at s \<notin> {SpawnAccept, FinishStart} \<Longrightarrow> start_step r s = Some t \<Longrightarrow> close_at s = CloseIdle"
  using closing_where [of s] by (cases "start_at s") (auto simp: published_def start_step_def)

lemma vars_ok_start: "vars_ok s \<Longrightarrow> pred_option vars_ok (start_step r s)"
  by (cases "start_at s"; cases r) (auto simp: vars_ok_def start_step_def proceed_def)

lemma fields_ok_start: "fields_ok s \<Longrightarrow> close_at s = CloseIdle \<or> start_at s \<in> {SpawnAccept, FinishStart} \<Longrightarrow> pred_option fields_ok (start_step r s)"
  by (cases "start_at s"; cases r) (auto simp: fields_ok_def start_step_def proceed_def published_def)

lemma held_ok_start: "held_ok s \<Longrightarrow> vars_ok s \<Longrightarrow> close_at s = CloseIdle \<or> start_at s \<in> {SpawnAccept, FinishStart} \<Longrightarrow>
    pred_option held_ok (start_step r s)"
  by (cases "start_at s"; cases r) (auto simp: held_ok_def vars_ok_def expected_def start_step_def proceed_def)

lemma resources_ok_start: "state_ok s \<Longrightarrow> resources_ok s \<Longrightarrow> start_step r s = Some t \<Longrightarrow> resources_ok t"
  using start_step_idle [of s r t] vars_ok_start [of s r] fields_ok_start [of s r] held_ok_start [of s r]
  by (auto simp: resources_ok_def)

lemma closing_resources:
  "close_step r s = Some t \<Longrightarrow>
     the_listener t = (if close_at s = CloseListener \<and> cl_listener s then Shut else the_listener s)
     \<and> the_store t = (if close_at s = CloseStore \<and> cl_store s then Shut else the_store s)
     \<and> the_lock t = (if close_at s = ReleaseLock \<and> cl_lock s then Shut else the_lock s)
     \<and> close_depth (close_at t) = (if close_at s = CloseListener then 1 else if close_at s = CloseStore then 2
          else if close_at s = ReleaseLock then 3 else close_depth (close_at s))"
  by (erule pred_some [rotated], cases "close_at s") (simp_all add: close_step_def split: list.split)

lemma held_ok_closing:
  assumes "state_ok s" and "resources_ok s" and step: "close_step r s = Some t"
  shows "held_ok t"
proof -
  have open_pc: "close_at s \<noteq> CloseIdle" using step by (auto simp: close_step_def)
  from closing_where [OF assms(1) this]
  have "start_at s = StartIdle \<or> start_at s = SpawnAccept \<or> start_at s = FinishStart \<or> start_at s = Started None"
    by (simp add: published_def)
  then have start: "undo_depth (start_at s) = 0" and vars: "cl_lock s = var_lock s" "cl_store s = var_store s" "cl_listener s = var_listener s"
    using assms(2) open_pc by (elim disjE; simp add: resources_ok_def vars_ok_def fields_ok_def published_def)+
  have "held_ok s" using assms(2) by (simp add: resources_ok_def)
  moreover have "close_depth (close_at s) = (case close_at s of CloseListener \<Rightarrow> 0 | CloseStore \<Rightarrow> 1 | ReleaseLock \<Rightarrow> 2 | _ \<Rightarrow> close_depth (close_at s))"
    by (cases "close_at s") simp_all
  ultimately show ?thesis using closing_resources [OF step] closing_frame [OF step] start vars
    by (cases "close_at s") (simp_all add: held_ok_def expected_def)
qed

lemma resources_ok_closing: "state_ok s \<Longrightarrow> resources_ok s \<Longrightarrow> close_step r s = Some t \<Longrightarrow> resources_ok t"
  using held_ok_closing [of s r t] closing_frame [of r s t]
  by (simp add: resources_ok_def vars_ok_def fields_ok_def)

lemma resources_ok_close: "state_ok s \<Longrightarrow> resources_ok s \<Longrightarrow> resources_ok (close_call s)"
  using open_where [of s]
  by (auto simp: resources_ok_def vars_ok_def fields_ok_def held_ok_def expected_def close_call_frame close_call_at close_call_locals)

lemma resources_ok_cong:
  "start_at t = start_at s \<Longrightarrow> close_at t = close_at s \<Longrightarrow> var_lock t = var_lock s \<Longrightarrow> var_store t = var_store s \<Longrightarrow>
   var_listener t = var_listener s \<Longrightarrow> sv_lock t = sv_lock s \<Longrightarrow> sv_store t = sv_store s \<Longrightarrow> sv_listener t = sv_listener s \<Longrightarrow>
   sv_socket t = sv_socket s \<Longrightarrow> cl_lock t = cl_lock s \<Longrightarrow> cl_store t = cl_store s \<Longrightarrow> cl_listener t = cl_listener s \<Longrightarrow>
   cl_socket t = cl_socket s \<Longrightarrow> the_lock t = the_lock s \<Longrightarrow> the_store t = the_store s \<Longrightarrow> the_listener t = the_listener s \<Longrightarrow>
   resources_ok t = resources_ok s"
  by (simp add: resources_ok_def vars_ok_def fields_ok_def held_ok_def expected_def)

lemma resources_ok_serving: "resources_ok s \<Longrightarrow> serving_event ev \<Longrightarrow> server_step ev s = Some t \<Longrightarrow> resources_ok t"
  using serving_frame [of ev s t] resources_ok_cong [of t s] by simp

lemma state_ok_unwait: "state_ok (s\<lparr>wait_start := n\<rparr>) = state_ok s" and resources_ok_unwait: "resources_ok (s\<lparr>wait_start := n\<rparr>) = resources_ok s"
  by (simp add: state_ok_def, rule resources_ok_cong) simp_all

lemma start_call_done: "start_call r s = Inr t \<Longrightarrow> sv_state s = ServerNew \<and>
    t = s\<lparr>sv_state := ServerStarting, sv_startDone := OpenChan, start_at := EnsureDirectory\<rparr>"
  by (simp add: start_call_def split: option.splits if_splits)

lemma resources_ok_enter:
  assumes "state_ok s" and "resources_ok s" and "start_call r s = Inr t"
  shows "resources_ok t"
proof -
  from start_call_done [OF assms(3)] assms(1) have "start_at s = StartIdle"
    and t: "t = s\<lparr>sv_state := ServerStarting, sv_startDone := OpenChan, start_at := EnsureDirectory\<rparr>"
    by (simp_all add: state_ok_def state_at_New)
  with assms(2) show ?thesis
    by (simp add: resources_ok_def vars_ok_def fields_ok_def held_ok_def expected_def published_def)
qed

text \<open>A case rule for steps: what a property must survive.\<close>

lemma server_step_cases:
  assumes "server_step ev s = Some t"
  obtains (stay) r err where "ev = CallStart r" "start_call r s = Inl err" "t = s"
  | (enter) r where "ev = CallStart r" "start_call r s = Inr t"
  | (starting) r where "ev = StartStep r" "start_step r s = Some t"
  | (calls) "ev = CallClose" "t = close_call s"
  | (closing) r where "ev = CloseStep r" "close_step r s = Some t"
  | (wakes) "ev = WakeStart" "0 < wait_start s" "sv_startDone s = ClosedChan" "t = close_call (s\<lparr>wait_start := wait_start s - 1\<rparr>)"
  | (serving) "serving_event ev"
proof (cases ev)
  case (CallStart r)
  show ?thesis
  proof (cases "start_call r s")
    case (Inl err)
    with assms CallStart show ?thesis by (intro that(1)) simp_all
  next
    case (Inr u)
    with assms CallStart show ?thesis by (intro that(2)) simp_all
  qed
next
  case WakeStart
  with assms show ?thesis by (intro that(6)) (simp_all add: wake_start_def split: if_splits)
next
  case (StartStep r)
  with assms show ?thesis by (intro that(3)) simp_all
next
  case CallClose
  with assms show ?thesis by (intro that(4)) simp_all
next
  case (CloseStep r)
  with assms show ?thesis by (intro that(5)) simp_all
qed (rule that(7), simp add: serving_event_def)+

lemma resources_ok_step:
  assumes "state_ok s" and "resources_ok s" and "server_step ev s = Some t"
  shows "resources_ok t"
  using assms(3)
proof (cases rule: server_step_cases)
  case serving
  show ?thesis by (rule resources_ok_serving [OF assms(2) serving assms(3)])
next
  case wakes
  with assms show ?thesis by (simp add: resources_ok_close state_ok_unwait resources_ok_unwait)
qed (use assms resources_ok_enter resources_ok_start resources_ok_close resources_ok_closing in blast)+

section \<open>The accept loop\<close>

fun after_accept :: "close_pc \<Rightarrow> bool" where
  "after_accept CloseIdle = False"
| "after_accept CloseListener = False"
| "after_accept AwaitAccept = False"
| "after_accept _ = True"

fun leaving :: "accept_pc \<Rightarrow> bool" where
  "leaving (GiveBack _) = True"
| "leaving (CloseRefused _) = True"
| "leaving LeaveAccept = True"
| "leaving AcceptExited = True"
| "leaving _ = False"

definition accept_inv :: "start_pc \<Rightarrow> close_pc \<Rightarrow> accept_pc \<Rightarrow> nat \<Rightarrow> bool" where
  "accept_inv sp cp ap wg \<longleftrightarrow>
     (ap = AcceptIdle \<longleftrightarrow> sp \<notin> {FinishStart, Started None})
     \<and> wg = (if published sp \<and> ap \<noteq> AcceptExited then 1 else 0)
     \<and> (after_accept cp \<and> published sp \<longrightarrow> ap = AcceptExited)
     \<and> (leaving ap \<longrightarrow> cp \<noteq> CloseIdle)"

definition accept_ok :: "server \<Rightarrow> bool" where
  "accept_ok s \<longleftrightarrow> accept_inv (start_at s) (close_at s) (accept_at s) (sv_acceptWG s)"

text \<open>How the pieces may move.\<close>

lemma accept_inv_close:
  assumes "accept_inv sp cp ap wg" and "after_accept cp' \<Longrightarrow> after_accept cp \<or> wg = 0" and "cp = CloseIdle \<or> cp' \<noteq> CloseIdle"
  shows "accept_inv sp cp' ap wg"
  using assms by (auto simp: accept_inv_def split: if_splits)

lemma accept_inv_publish: "accept_inv Publish CloseIdle ap wg \<Longrightarrow> accept_inv SpawnAccept CloseIdle ap (wg + 1)"
  and accept_inv_spawn: "accept_inv SpawnAccept cp ap wg \<Longrightarrow> accept_inv FinishStart cp Accepting wg"
  and accept_inv_finish: "accept_inv FinishStart cp ap wg \<Longrightarrow> accept_inv (Started None) cp ap wg"
  and accept_inv_start: "accept_inv sp cp ap wg \<Longrightarrow> \<not> published sp \<Longrightarrow> \<not> published sp' \<Longrightarrow> accept_inv sp' cp ap wg"
  by (auto simp: accept_inv_def published_def)

lemma accept_inv_loop:
  assumes "accept_inv sp cp ap wg" and "ap \<notin> {AcceptIdle, AcceptExited}" and "ap' \<notin> {AcceptIdle, AcceptExited}"
    and "leaving ap' \<Longrightarrow> leaving ap \<or> cp \<noteq> CloseIdle"
  shows "accept_inv sp cp ap' wg"
  using assms by (auto simp: accept_inv_def published_def)

lemma accept_inv_leave: "accept_inv sp cp LeaveAccept wg \<Longrightarrow> accept_inv sp cp AcceptExited (wg - 1)"
  by (auto simp: accept_inv_def published_def)

lemma accept_ok_new: "accept_ok (NewServerWithOptions opts)"
  by (simp add: accept_ok_def accept_inv_def NewServerWithOptions_def published_def)

lemma start_accept:
  "start_step r s = Some t \<Longrightarrow>
     accept_at t = (if start_at s = SpawnAccept then Accepting else accept_at s)
     \<and> sv_acceptWG t = (if start_at s = Publish then sv_acceptWG s + 1 else sv_acceptWG s)
     \<and> close_at t = close_at s \<and> published (start_at t) = (start_at s = Publish \<or> published (start_at s))
     \<and> (start_at t \<in> {FinishStart, Started None}) = (start_at s \<in> {SpawnAccept, FinishStart})
     \<and> start_at s \<noteq> StartIdle \<and> start_at s \<noteq> Started x
     \<and> handler_at t = handler_at s \<and> sv_slots t = sv_slots s \<and> sv_connections t = sv_connections s
     \<and> sv_connectionWG t = sv_connectionWG s \<and> accepted t = accepted s \<and> sv_options t = sv_options s \<and> shut t = shut s
     \<and> sv_closeDone t = sv_closeDone s \<and> wait_start t = wait_start s \<and> wait_close t = wait_close s"
  by (erule pred_some [rotated], cases "start_at s"; cases r)
    (simp_all add: start_step_def proceed_def published_def)

lemma accept_ok_start:
  assumes "accept_ok s" and "state_ok s" and step: "start_step r s = Some t"
  shows "accept_ok t"
proof -
  note frame = start_accept [OF step] start_step_idle [OF assms(2) _ step]
  have ok: "accept_inv (start_at s) (close_at s) (accept_at s) (sv_acceptWG s)" using assms(1) by (simp add: accept_ok_def)
  consider (publish) "start_at s = Publish" | (spawn) "start_at s = SpawnAccept" | (finish) "start_at s = FinishStart"
    | (other) "\<not> published (start_at s)" "\<not> published (start_at t)"
    using frame(1) [of None] by (fastforce simp: published_def)
  then show ?thesis
  proof cases
    case publish
    have "start_at t = SpawnAccept" using step by (simp add: start_step_def publish) (use publish in auto)
    with accept_inv_publish [of "accept_at s" "sv_acceptWG s"] ok frame(1) [of None] frame(2) publish show ?thesis
      by (simp add: accept_ok_def)
  next
    case spawn
    then have "t = s\<lparr>start_at := FinishStart, accept_at := Accepting\<rparr>" using step by (simp add: start_step_def)
    with accept_inv_spawn ok spawn show ?thesis by (simp add: accept_ok_def)
  next
    case finish
    then have "t = s\<lparr>start_at := Started None, sv_startDone := ClosedChan\<rparr>" using step by (simp add: start_step_def)
    with accept_inv_finish ok finish show ?thesis by (simp add: accept_ok_def)
  next
    case other
    then have "start_at s \<notin> {Publish, SpawnAccept}" using frame(1) [of None] by (auto simp: published_def)
    with frame(1) [of None] have same: "accept_at t = accept_at s" "sv_acceptWG t = sv_acceptWG s" "close_at t = close_at s" by simp_all
    from accept_inv_start [OF ok other] show ?thesis by (simp only: accept_ok_def same)
  qed
qed

lemma accept_ok_closing:
  assumes "accept_ok s" and step: "close_step r s = Some t"
  shows "accept_ok t"
proof -
  have "after_accept (close_at t) \<Longrightarrow> after_accept (close_at s) \<or> sv_acceptWG s = 0"
    using step by (cases "close_at s") (auto simp: close_step_def split: if_splits)
  with accept_inv_close [of "start_at s" "close_at s" "accept_at s" "sv_acceptWG s" "close_at t"] closing_frame [OF step] assms(1)
  show ?thesis by (simp add: accept_ok_def)
qed

lemma accept_ok_close: "accept_ok s \<Longrightarrow> state_ok s \<Longrightarrow> accept_ok (close_call s)"
  using open_where [of s] accept_inv_close [of "start_at s" "close_at s" "accept_at s" "sv_acceptWG s" CloseListener]
  by (simp add: accept_ok_def close_call_frame close_call_at)

lemma accept_moves:
  assumes "serving_event ev" and "server_step ev s = Some t"
  shows "accept_at t = accept_at s \<and> sv_acceptWG t = sv_acceptWG s
      \<or> accept_at s \<notin> {AcceptIdle, AcceptExited} \<and> accept_at t \<notin> {AcceptIdle, AcceptExited} \<and> sv_acceptWG t = sv_acceptWG s
        \<and> (leaving (accept_at t) \<longrightarrow> leaving (accept_at s) \<or> the_listener s = Shut \<or> sv_state s \<noteq> ServerRunning)
      \<or> accept_at s = LeaveAccept \<and> accept_at t = AcceptExited \<and> sv_acceptWG t = sv_acceptWG s - 1"
proof (cases ev)
  case AcceptStep
  with assms(2) show ?thesis by (cases "accept_at s") (auto simp: accept_step_def split: if_splits)
next
  case (HandlerStep c)
  with assms(2) show ?thesis by (cases "handler_at s c") (auto simp: handler_step_def)
qed (use assms in \<open>auto simp: serving_event_def accept_arrival_def accept_failure_def wake_close_def split: if_splits\<close>)

lemma accept_ok_serving:
  assumes ok: "accept_ok s" "state_ok s" "resources_ok s" and ev: "serving_event ev" and step: "server_step ev s = Some t"
  shows "accept_ok t"
proof -
  have inv: "accept_inv (start_at s) (close_at s) (accept_at s) (sv_acceptWG s)" using ok(1) by (simp add: accept_ok_def)
  have same: "start_at t = start_at s" "close_at t = close_at s" using serving_frame [OF ev step] by simp_all
  have closing: "close_at s \<noteq> CloseIdle"
    if "the_listener s = Shut \<or> sv_state s \<noteq> ServerRunning" and "accept_at s \<noteq> AcceptIdle"
  proof
    assume idle: "close_at s = CloseIdle"
    from that(2) inv have sp: "start_at s = FinishStart \<or> start_at s = Started None" by (auto simp: accept_inv_def)
    with idle ok(2) have "sv_state s = ServerRunning" by (auto simp: state_ok_def)
    moreover have "the_listener s \<noteq> Shut" using ok(3) idle sp by (auto simp: resources_ok_def held_ok_def expected_def)
    ultimately show False using that(1) by simp
  qed
  from accept_moves [OF ev step] show ?thesis
  proof (elim disjE conjE)
    assume "accept_at s \<notin> {AcceptIdle, AcceptExited}" and "accept_at t \<notin> {AcceptIdle, AcceptExited}" and wg: "sv_acceptWG t = sv_acceptWG s"
      and "leaving (accept_at t) \<longrightarrow> leaving (accept_at s) \<or> the_listener s = Shut \<or> sv_state s \<noteq> ServerRunning"
    with accept_inv_loop [OF inv] closing show ?thesis by (simp only: accept_ok_def same wg) blast
  qed (use inv accept_inv_leave in \<open>simp_all add: accept_ok_def same\<close>)
qed

lemma accept_ok_unwait: "accept_ok (s\<lparr>wait_start := n\<rparr>) = accept_ok s"
  by (simp add: accept_ok_def)

lemma accept_ok_step:
  assumes "state_ok s" and "resources_ok s" and "accept_ok s" and "server_step ev s = Some t"
  shows "accept_ok t"
  using assms(4)
proof (cases rule: server_step_cases)
  case serving
  show ?thesis by (rule accept_ok_serving [OF assms(3,1,2) serving assms(4)])
next
  case wakes
  with assms show ?thesis by (simp add: accept_ok_close state_ok_unwait accept_ok_unwait)
next
  case (enter r)
  from start_call_done [OF enter(2)] assms(1) have "start_at s = StartIdle"
    and t: "t = s\<lparr>sv_state := ServerStarting, sv_startDone := OpenChan, start_at := EnsureDirectory\<rparr>"
    by (simp_all add: state_ok_def state_at_New)
  with assms(3) show ?thesis by (simp add: accept_ok_def accept_inv_def published_def)
qed (use assms accept_ok_start accept_ok_close accept_ok_closing in blast)+

end
