(* ===== verification/LifecycleHandlers.thy ===== *)
theory LifecycleHandlers
  imports LifecycleFacts
begin

text \<open>
  The connections of a server: slots, wait group and set of connections always count exactly the
  goroutines that are there, and no connection is left open.
\<close>

section \<open>Counting handlers\<close>

fun in_hand :: "accept_pc \<Rightarrow> nat set" where
  "in_hand (TakeSlot c) = {c}"
| "in_hand (Admit c) = {c}"
| "in_hand (SpawnHandler c) = {c}"
| "in_hand (GiveBack c) = {c}"
| "in_hand (CloseRefused c) = {c}"
| "in_hand _ = {}"

fun with_slot :: "accept_pc \<Rightarrow> nat set" where
  "with_slot (Admit c) = {c}"
| "with_slot (SpawnHandler c) = {c}"
| "with_slot (GiveBack c) = {c}"
| "with_slot _ = {}"

fun spawning :: "accept_pc \<Rightarrow> nat set" where
  "spawning (SpawnHandler c) = {c}"
| "spawning _ = {}"

definition alive :: "(nat \<Rightarrow> handler_pc) \<Rightarrow> accept_pc \<Rightarrow> nat set" where
  "alive h ap = {c. h c \<noteq> NoHandler} \<union> spawning ap"

definition slot_users :: "(nat \<Rightarrow> handler_pc) \<Rightarrow> accept_pc \<Rightarrow> nat set" where
  "slot_users h ap = {c. h c \<in> {Serving, Dropping, Forgetting, FreeingSlot}} \<union> with_slot ap"

definition tracked :: "(nat \<Rightarrow> handler_pc) \<Rightarrow> accept_pc \<Rightarrow> nat set" where
  "tracked h ap = {c. h c \<in> {Serving, Dropping, Forgetting}} \<union> spawning ap"

definition handlers_inv :: "(nat \<Rightarrow> handler_pc) \<Rightarrow> accept_pc \<Rightarrow> nat list \<Rightarrow> nat \<Rightarrow> nat \<Rightarrow> nat \<Rightarrow> nat \<Rightarrow> bool" where
  "handlers_inv h ap conns slots wg n limit \<longleftrightarrow>
     (\<forall>c. h c \<noteq> NoHandler \<longrightarrow> c < n \<and> ap \<noteq> AcceptIdle) \<and> (\<forall>c \<in> in_hand ap. c < n \<and> h c = NoHandler)
     \<and> wg = card (alive h ap) \<and> slots = card (slot_users h ap) \<and> slots \<le> limit \<and> set conns = tracked h ap"

definition handlers_ok :: "server \<Rightarrow> bool" where
  "handlers_ok s \<longleftrightarrow> handlers_inv (handler_at s) (accept_at s) (sv_connections s) (sv_slots s) (sv_connectionWG s) (accepted s)
     (nat (MaxConnections (sv_options s)))"

lemma handlers_finite:
  assumes "handlers_inv h ap conns slots wg n limit"
  shows "finite (alive h ap)" and "finite (slot_users h ap)"
proof -
  have "{c. h c \<noteq> NoHandler} \<subseteq> {..<n}" using assms by (auto simp: handlers_inv_def)
  then have fin: "finite {c. h c \<noteq> NoHandler}" by (rule finite_subset) simp
  have "finite (spawning ap)" "finite (with_slot ap)" by (cases ap; simp)+
  moreover have "{c. h c \<in> {Serving, Dropping, Forgetting, FreeingSlot}} \<subseteq> {c. h c \<noteq> NoHandler}" by auto
  ultimately show "finite (alive h ap)" "finite (slot_users h ap)"
    using fin by (auto simp: alive_def slot_users_def intro: finite_subset)
qed

text \<open>The steps of the accept loop and of a handler, on the counters alone.\<close>

lemma handlers_same:
  assumes "handlers_inv h ap conns slots wg n limit" and "alive h ap' = alive h ap" and "slot_users h ap' = slot_users h ap"
    and "tracked h ap' = tracked h ap" and "in_hand ap' \<subseteq> in_hand ap" and "ap' \<noteq> AcceptIdle"
  shows "handlers_inv h ap' conns slots wg n limit"
  using assms by (auto simp: handlers_inv_def)

lemma handlers_arrive: "handlers_inv h Accepting conns slots wg n limit \<Longrightarrow> handlers_inv h (TakeSlot n) conns slots wg (n + 1) limit"
  by (auto simp: handlers_inv_def alive_def slot_users_def tracked_def less_Suc_eq)

lemma handlers_take:
  assumes "handlers_inv h (TakeSlot c) conns slots wg n limit" and "slots < limit"
  shows "handlers_inv h (Admit c) conns (slots + 1) wg n limit"
proof -
  have "slot_users h (Admit c) = insert c (slot_users h (TakeSlot c))" by (simp add: slot_users_def)
  moreover have "c \<notin> slot_users h (TakeSlot c)" using assms(1) by (auto simp: handlers_inv_def slot_users_def)
  ultimately show ?thesis using assms handlers_finite(2) [OF assms(1)]
    by (simp add: handlers_inv_def alive_def tracked_def)
qed

lemma handlers_admit:
  assumes "handlers_inv h (Admit c) conns slots wg n limit"
  shows "handlers_inv h (SpawnHandler c) (conns @ [c]) slots (wg + 1) n limit"
proof -
  have "alive h (SpawnHandler c) = insert c (alive h (Admit c))" by (simp add: alive_def)
  moreover have "c \<notin> alive h (Admit c)" using assms by (simp add: handlers_inv_def alive_def)
  ultimately show ?thesis using assms handlers_finite(1) [OF assms]
    by (simp add: handlers_inv_def slot_users_def tracked_def)
qed

lemma handlers_spawn:
  assumes "handlers_inv h (SpawnHandler c) conns slots wg n limit"
  shows "handlers_inv (h(c := Serving)) Accepting conns slots wg n limit"
proof -
  have "alive (h(c := Serving)) Accepting = alive h (SpawnHandler c)" by (auto simp: alive_def)
  moreover have "slot_users (h(c := Serving)) Accepting = slot_users h (SpawnHandler c)" by (auto simp: slot_users_def)
  moreover have "tracked (h(c := Serving)) Accepting = tracked h (SpawnHandler c)" by (auto simp: tracked_def)
  ultimately show ?thesis using assms by (simp add: handlers_inv_def)
qed

lemma handlers_give_back:
  assumes "handlers_inv h (GiveBack c) conns slots wg n limit"
  shows "handlers_inv h (CloseRefused c) conns (slots - 1) wg n limit"
proof -
  have "slot_users h (GiveBack c) = insert c (slot_users h (CloseRefused c))" by (simp add: slot_users_def)
  moreover have "c \<notin> slot_users h (CloseRefused c)" using assms by (auto simp: handlers_inv_def slot_users_def)
  ultimately show ?thesis using assms handlers_finite(2) [OF assms]
    by (simp add: handlers_inv_def alive_def tracked_def)
qed

lemma handlers_drop:
  assumes "handlers_inv h ap conns slots wg n limit" and "h c = Serving \<and> pc = Dropping \<or> h c = Dropping \<and> pc = Forgetting"
  shows "handlers_inv (h(c := pc)) ap conns slots wg n limit"
proof -
  have c: "h c \<noteq> NoHandler" "c \<notin> in_hand ap" using assms by (auto simp: handlers_inv_def)
  have "alive (h(c := pc)) ap = alive h ap" using assms(2) by (auto simp: alive_def)
  moreover have "slot_users (h(c := pc)) ap = slot_users h ap" using assms(2) by (auto simp: slot_users_def)
  moreover have "tracked (h(c := pc)) ap = tracked h ap" using assms(2) by (auto simp: tracked_def)
  ultimately show ?thesis using assms(1) c by (auto simp: handlers_inv_def)
qed

lemma handlers_forget:
  assumes "handlers_inv h ap conns slots wg n limit" and "h c = Forgetting"
  shows "handlers_inv (h(c := FreeingSlot)) ap (removeAll c conns) slots wg n limit"
proof -
  have c: "c \<notin> in_hand ap" using assms by (auto simp: handlers_inv_def)
  then have "c \<notin> spawning ap" by (cases ap) simp_all
  then have "tracked (h(c := FreeingSlot)) ap = tracked h ap - {c}" by (auto simp: tracked_def)
  moreover have "alive (h(c := FreeingSlot)) ap = alive h ap" using assms(2) by (auto simp: alive_def)
  moreover have "slot_users (h(c := FreeingSlot)) ap = slot_users h ap" using assms(2) by (auto simp: slot_users_def)
  ultimately show ?thesis using assms c by (auto simp: handlers_inv_def)
qed

lemma handlers_free:
  assumes "handlers_inv h ap conns slots wg n limit" and "h c = FreeingSlot"
  shows "handlers_inv (h(c := Finishing)) ap conns (slots - 1) wg n limit"
proof -
  have c: "c \<notin> in_hand ap" using assms by (auto simp: handlers_inv_def)
  then have "c \<notin> with_slot ap" by (cases ap) simp_all
  then have "slot_users (h(c := Finishing)) ap = slot_users h ap - {c}" by (auto simp: slot_users_def)
  moreover have "c \<in> slot_users h ap" using assms(2) by (simp add: slot_users_def)
  moreover have "alive (h(c := Finishing)) ap = alive h ap" using assms(2) by (auto simp: alive_def)
  moreover have "tracked (h(c := Finishing)) ap = tracked h ap" using assms(2) by (auto simp: tracked_def)
  ultimately show ?thesis using assms c handlers_finite(2) [OF assms(1)] by (auto simp: handlers_inv_def)
qed

lemma handlers_finish:
  assumes "handlers_inv h ap conns slots wg n limit" and "h c = Finishing"
  shows "handlers_inv (h(c := NoHandler)) ap conns slots (wg - 1) n limit"
proof -
  have c: "c \<notin> in_hand ap" using assms by (auto simp: handlers_inv_def)
  then have "c \<notin> spawning ap" by (cases ap) simp_all
  then have "alive (h(c := NoHandler)) ap = alive h ap - {c}" by (auto simp: alive_def)
  moreover have "c \<in> alive h ap" using assms(2) by (simp add: alive_def)
  moreover have "slot_users (h(c := NoHandler)) ap = slot_users h ap" using assms(2) by (auto simp: slot_users_def)
  moreover have "tracked (h(c := NoHandler)) ap = tracked h ap" using assms(2) by (auto simp: tracked_def)
  ultimately show ?thesis using assms c handlers_finite(1) [OF assms(1)] by (auto simp: handlers_inv_def)
qed

section \<open>The counters in every step\<close>

lemma handlers_ok_new: "handlers_ok (NewServerWithOptions opts)"
  by (simp add: handlers_ok_def handlers_inv_def NewServerWithOptions_def alive_def slot_users_def tracked_def)

lemma handlers_ok_accept:
  assumes ok: "handlers_ok s" and step: "accept_step s = Some t"
  shows "handlers_ok t"
proof (cases "accept_at s")
  case Accepting
  with step ok show ?thesis
    by (auto simp: accept_step_def handlers_ok_def split: if_splits
        elim!: handlers_same simp: alive_def slot_users_def tracked_def)
next
  case (TakeSlot c)
  show ?thesis
  proof (cases "sv_slots s < nat (MaxConnections (sv_options s))")
    case True
    with step TakeSlot have t: "t = s\<lparr>sv_slots := sv_slots s + 1, accept_at := Admit c\<rparr>" by (simp add: accept_step_def)
    from handlers_take ok TakeSlot True show ?thesis unfolding t by (simp add: handlers_ok_def)
  next
    case False
    with step TakeSlot have t: "t = s\<lparr>shut := insert c (shut s), accept_at := Accepting\<rparr>" by (simp add: accept_step_def)
    from ok TakeSlot show ?thesis unfolding t
      by (simp add: handlers_ok_def) (erule handlers_same, auto simp: alive_def slot_users_def tracked_def)
  qed
next
  case (Admit c)
  show ?thesis
  proof (cases "sv_state s = ServerRunning")
    case True
    with step Admit have t: "t = s\<lparr>sv_connections := sv_connections s @ [c], sv_connectionWG := sv_connectionWG s + 1, accept_at := SpawnHandler c\<rparr>"
      by (simp add: accept_step_def)
    from handlers_admit ok Admit show ?thesis unfolding t by (simp add: handlers_ok_def)
  next
    case False
    with step Admit have t: "t = s\<lparr>accept_at := GiveBack c\<rparr>" by (simp add: accept_step_def)
    from ok Admit show ?thesis unfolding t
      by (simp add: handlers_ok_def) (erule handlers_same, auto simp: alive_def slot_users_def tracked_def)
  qed
next
  case (SpawnHandler c)
  with step have t: "t = s\<lparr>handler_at := (handler_at s)(c := Serving), accept_at := Accepting\<rparr>" by (simp add: accept_step_def)
  from handlers_spawn ok SpawnHandler show ?thesis unfolding t by (simp add: handlers_ok_def)
next
  case (GiveBack c)
  with step have t: "t = s\<lparr>sv_slots := sv_slots s - 1, accept_at := CloseRefused c\<rparr>" by (simp add: accept_step_def)
  from handlers_give_back ok GiveBack show ?thesis unfolding t by (simp add: handlers_ok_def)
next
  case (CloseRefused c)
  with step have t: "t = s\<lparr>shut := insert c (shut s), accept_at := LeaveAccept\<rparr>" by (simp add: accept_step_def)
  from ok CloseRefused show ?thesis unfolding t
    by (simp add: handlers_ok_def) (erule handlers_same, auto simp: alive_def slot_users_def tracked_def)
next
  case LeaveAccept
  with step have t: "t = s\<lparr>sv_acceptWG := sv_acceptWG s - 1, accept_at := AcceptExited\<rparr>" by (simp add: accept_step_def)
  from ok LeaveAccept show ?thesis unfolding t
    by (simp add: handlers_ok_def) (erule handlers_same, auto simp: alive_def slot_users_def tracked_def)
qed (use step in \<open>simp_all add: accept_step_def\<close>)

lemma handlers_ok_handler:
  assumes ok: "handlers_ok s" and step: "handler_step c s = Some t"
  shows "handlers_ok t"
proof (cases "handler_at s c")
  case Serving
  with step have t: "t = s\<lparr>handler_at := (handler_at s)(c := Dropping)\<rparr>" by (simp add: handler_step_def)
  from handlers_drop ok Serving show ?thesis unfolding t by (simp add: handlers_ok_def)
next
  case Dropping
  with step have t: "t = s\<lparr>shut := insert c (shut s), handler_at := (handler_at s)(c := Forgetting)\<rparr>" by (simp add: handler_step_def)
  from handlers_drop ok Dropping show ?thesis unfolding t by (simp add: handlers_ok_def)
next
  case Forgetting
  with step have t: "t = s\<lparr>sv_connections := removeAll c (sv_connections s), handler_at := (handler_at s)(c := FreeingSlot)\<rparr>"
    by (simp add: handler_step_def)
  from handlers_forget ok Forgetting show ?thesis unfolding t by (simp add: handlers_ok_def)
next
  case FreeingSlot
  with step have t: "t = s\<lparr>sv_slots := sv_slots s - 1, handler_at := (handler_at s)(c := Finishing)\<rparr>" by (simp add: handler_step_def)
  from handlers_free ok FreeingSlot show ?thesis unfolding t by (simp add: handlers_ok_def)
next
  case Finishing
  with step have t: "t = s\<lparr>sv_connectionWG := sv_connectionWG s - 1, handler_at := (handler_at s)(c := NoHandler)\<rparr>"
    by (simp add: handler_step_def)
  from handlers_finish ok Finishing show ?thesis unfolding t by (simp add: handlers_ok_def)
qed (use step in \<open>simp add: handler_step_def\<close>)

lemma handlers_ok_cong:
  "handler_at t = handler_at s \<Longrightarrow> accept_at t = accept_at s \<Longrightarrow> sv_connections t = sv_connections s \<Longrightarrow> sv_slots t = sv_slots s \<Longrightarrow>
   sv_connectionWG t = sv_connectionWG s \<Longrightarrow> accepted t = accepted s \<Longrightarrow> sv_options t = sv_options s \<Longrightarrow> handlers_ok t = handlers_ok s"
  by (simp add: handlers_ok_def)

lemma handlers_ok_start:
  assumes ok: "handlers_ok s" "accept_ok s" and step: "start_step r s = Some t"
  shows "handlers_ok t"
proof (cases "start_at s = SpawnAccept")
  case True
  with step have t: "t = s\<lparr>start_at := FinishStart, accept_at := Accepting\<rparr>" by (simp add: start_step_def)
  have idle: "accept_at s = AcceptIdle" using ok(2) True by (auto simp: accept_ok_def accept_inv_def)
  from ok(1) idle show ?thesis unfolding t
    by (simp add: handlers_ok_def) (erule handlers_same, auto simp: alive_def slot_users_def tracked_def)
next
  case False
  with start_accept [OF step, of None] handlers_ok_cong [of t s] ok show ?thesis by simp
qed

lemma serving_event_cases:
  assumes "serving_event ev" and "server_step ev s = Some t"
  obtains (arrival) "accept_at s = Accepting" "the_listener s = Held" "t = s\<lparr>accept_at := TakeSlot (accepted s), accepted := accepted s + 1\<rparr>"
  | (failure) "t = s"
  | (accept) "accept_step s = Some t"
  | (handler) c where "handler_step c s = Some t"
  | (woken) "t = s\<lparr>wait_close := wait_close s - 1\<rparr>" "0 < wait_close s" "sv_closeDone s = ClosedChan"
proof (cases ev)
  case Arrival
  show ?thesis by (rule arrival) (use assms Arrival in \<open>simp_all add: accept_arrival_def split: if_splits\<close>)
next
  case AcceptFailure
  show ?thesis by (rule failure) (use assms AcceptFailure in \<open>simp add: accept_failure_def split: if_splits\<close>)
next
  case AcceptStep
  show ?thesis by (rule accept) (use assms AcceptStep in simp)
next
  case (HandlerStep c)
  show ?thesis by (rule handler) (use assms HandlerStep in simp)
next
  case WakeClose
  show ?thesis by (rule woken) (use assms WakeClose in \<open>simp_all add: wake_close_def split: if_splits\<close>)
next
  case (CallStart r)
  with assms(1) show ?thesis by (simp add: serving_event_def)
next
  case (StartStep r)
  with assms(1) show ?thesis by (simp add: serving_event_def)
next
  case CallClose
  with assms(1) show ?thesis by (simp add: serving_event_def)
next
  case (CloseStep r)
  with assms(1) show ?thesis by (simp add: serving_event_def)
next
  case WakeStart
  with assms(1) show ?thesis by (simp add: serving_event_def)
qed

lemma handlers_ok_step:
  assumes "handlers_ok s" and "accept_ok s" and "server_step ev s = Some t"
  shows "handlers_ok t"
  using assms(3)
proof (cases rule: server_step_cases)
  case serving
  from serving assms(3) show ?thesis
  proof (cases rule: serving_event_cases)
    case arrival
    with handlers_arrive assms(1) show ?thesis by (simp add: handlers_ok_def)
  next
    case accept
    show ?thesis by (rule handlers_ok_accept [OF assms(1) accept])
  next
    case (handler c)
    show ?thesis by (rule handlers_ok_handler [OF assms(1) handler])
  next
    case woken
    with assms(1) show ?thesis by (simp add: handlers_ok_def)
  qed (use assms(1) in simp)
next
  case (enter r)
  with start_call_done [OF enter(2)] assms(1) show ?thesis by (simp add: handlers_ok_def)
next
  case (closing r)
  with closing_frame [OF closing(2)] handlers_ok_cong [of t s] assms(1) show ?thesis by simp
next
  case wakes
  with assms(1) show ?thesis by (simp add: handlers_ok_def close_call_frame)
next
  case calls
  with assms(1) show ?thesis by (simp add: handlers_ok_def close_call_frame)
qed (use assms handlers_ok_start in blast)+

end
