(* ===== verification/LifecycleClose.thy ===== *)
theory LifecycleClose
  imports LifecycleHandlers
begin

text \<open>Closing a server: which connections are closed, who waits for whom, and that it comes to an end.\<close>

section \<open>Open connections\<close>

fun after_handlers :: "close_pc \<Rightarrow> bool" where
  "after_handlers CloseStore = True"
| "after_handlers RemoveSocket = True"
| "after_handlers ReleaseLock = True"
| "after_handlers FinishClose = True"
| "after_handlers SignalClosed = True"
| "after_handlers CloseReturned = True"
| "after_handlers _ = False"

text \<open>The connections that \<open>Close\<close> has left to close; none is missed.\<close>

fun to_close :: "close_pc \<Rightarrow> nat set option" where
  "to_close (CloseConnections cs) = Some (set cs)"
| "to_close AwaitHandlers = Some {}"
| "to_close _ = None"

definition open_inv :: "(nat \<Rightarrow> handler_pc) \<Rightarrow> accept_pc \<Rightarrow> close_pc \<Rightarrow> nat set \<Rightarrow> nat \<Rightarrow> bool" where
  "open_inv h ap cp closed n \<longleftrightarrow>
     (\<forall>c < n. c \<in> closed \<or> h c \<in> {Serving, Dropping} \<or> c \<in> in_hand ap)
     \<and> (\<forall>rest. to_close cp = Some rest \<longrightarrow> (\<forall>c. h c = Serving \<longrightarrow> c \<in> rest \<union> closed))
     \<and> (after_handlers cp \<longrightarrow> (\<forall>c. h c = NoHandler))"

definition open_ok :: "server \<Rightarrow> bool" where
  "open_ok s \<longleftrightarrow> open_inv (handler_at s) (accept_at s) (close_at s) (shut s) (accepted s)"

lemma accept_over:
  assumes "accept_ok s" and "state_ok s" and "after_accept (close_at s)"
  shows "accept_at s = AcceptIdle \<or> accept_at s = AcceptExited"
proof -
  from assms(3) have "close_at s \<noteq> CloseIdle" by auto
  from closing_where [OF assms(2) this] assms(1,3) show ?thesis by (auto simp: accept_ok_def accept_inv_def)
qed

lemma open_ok_new: "open_ok (NewServerWithOptions opts)"
  by (simp add: open_ok_def open_inv_def NewServerWithOptions_def)

lemma open_inv_handler:
  assumes inv: "open_inv h ap cp closed n" and c: "h c \<noteq> NoHandler" and pc: "pc \<noteq> Serving" and more: "closed \<subseteq> closed'"
    and keep: "h c \<in> {Serving, Dropping} \<Longrightarrow> pc = Dropping \<or> c \<in> closed'"
  shows "open_inv (h(c := pc)) ap cp closed' n"
  unfolding open_inv_def
proof (intro conjI allI impI)
  fix d assume "d < n"
  with inv have "d \<in> closed \<or> h d \<in> {Serving, Dropping} \<or> d \<in> in_hand ap" by (simp add: open_inv_def)
  with keep more show "d \<in> closed' \<or> (h(c := pc)) d \<in> {Serving, Dropping} \<or> d \<in> in_hand ap" by (cases "d = c") auto
next
  fix rest d assume "to_close cp = Some rest" and "(h(c := pc)) d = Serving"
  with inv pc more show "d \<in> rest \<union> closed'" by (cases "d = c") (auto simp: open_inv_def)
next
  fix d assume "after_handlers cp"
  with inv c show "(h(c := pc)) d = NoHandler" by (simp add: open_inv_def)
qed

lemma open_inv_spawn:
  assumes "open_inv h (SpawnHandler c) cp closed n" and "to_close cp = None" and "\<not> after_handlers cp"
  shows "open_inv (h(c := Serving)) Accepting cp closed n"
  unfolding open_inv_def
proof (intro conjI allI impI)
  fix d assume "d < n"
  with assms(1) have "d \<in> closed \<or> h d \<in> {Serving, Dropping} \<or> d = c" by (simp add: open_inv_def)
  then show "d \<in> closed \<or> (h(c := Serving)) d \<in> {Serving, Dropping} \<or> d \<in> in_hand Accepting" by auto
qed (use assms in simp_all)

lemma open_inv_accept:
  assumes "open_inv h ap cp closed n" and "in_hand ap \<subseteq> in_hand ap' \<union> closed'" and "closed \<subseteq> closed'"
  shows "open_inv h ap' cp closed' n"
  using assms unfolding open_inv_def by blast

lemma open_ok_accept:
  assumes ok: "open_ok s" "accept_ok s" "state_ok s" and step: "accept_step s = Some t"
  shows "open_ok t"
proof (cases "accept_at s")
  case (SpawnHandler c)
  with accept_over [OF ok(2,3)] have "\<not> after_accept (close_at s)" by auto
  then have "to_close (close_at s) = None" "\<not> after_handlers (close_at s)" by (cases "close_at s"; simp)+
  with open_inv_spawn ok(1) SpawnHandler step show ?thesis by (auto simp: open_ok_def accept_step_def)
qed (use ok(1) step in \<open>auto simp: open_ok_def accept_step_def split: if_splits elim!: open_inv_accept\<close>)

lemma open_ok_handler: "open_ok s \<Longrightarrow> handler_step c s = Some t \<Longrightarrow> open_ok t"
  by (cases "handler_at s c") (auto simp: open_ok_def handler_step_def intro!: open_inv_handler)

lemma open_ok_closing:
  assumes ok: "open_ok s" "handlers_ok s" "accept_ok s" "state_ok s" and step: "close_step r s = Some t"
  shows "open_ok t"
proof (cases "close_at s")
  case Snapshot
  with step have t: "t = s\<lparr>close_at := CloseConnections (sv_connections s)\<rparr>" by (simp add: close_step_def)
  have "h \<in> set (sv_connections s)" if "handler_at s h = Serving" for h
    using ok(2) that by (auto simp: handlers_ok_def handlers_inv_def tracked_def)
  with ok(1) show ?thesis unfolding t by (auto simp: open_ok_def open_inv_def)
next
  case (CloseConnections cs)
  with step ok(1) show ?thesis by (cases cs) (auto simp: close_step_def open_ok_def open_inv_def)
next
  case AwaitHandlers
  with step have t: "t = s\<lparr>close_at := CloseStore\<rparr>" and wg: "sv_connectionWG s = 0" by (simp_all add: close_step_def split: if_splits)
  have inv: "handlers_inv (handler_at s) (accept_at s) (sv_connections s) (sv_slots s) (sv_connectionWG s) (accepted s)
      (nat (MaxConnections (sv_options s)))" using ok(2) by (simp add: handlers_ok_def)
  with wg handlers_finite(1) [OF inv] have "alive (handler_at s) (accept_at s) = {}" by (simp add: handlers_inv_def)
  with ok(1) show ?thesis unfolding t by (auto simp: open_ok_def open_inv_def alive_def)
qed (use ok(1) step in \<open>auto simp: close_step_def open_ok_def open_inv_def split: if_splits\<close>)

lemma open_ok_step:
  assumes ok: "open_ok s" "handlers_ok s" "accept_ok s" "state_ok s" and step: "server_step ev s = Some t"
  shows "open_ok t"
  using step
proof (cases rule: server_step_cases)
  case serving
  from serving step show ?thesis
  proof (cases rule: serving_event_cases)
    case arrival
    with ok(1) show ?thesis by (auto simp: open_ok_def open_inv_def less_Suc_eq)
  next
    case accept
    show ?thesis by (rule open_ok_accept [OF ok(1,3,4) accept])
  next
    case (handler c)
    show ?thesis by (rule open_ok_handler [OF ok(1) handler])
  next
    case woken
    with ok(1) show ?thesis by (simp add: open_ok_def)
  qed (use ok(1) in simp)
next
  case (enter r)
  with start_call_done [OF enter(2)] ok(1) show ?thesis by (simp add: open_ok_def)
next
  case (starting r)
  have "in_hand (accept_at s) = in_hand (accept_at t)"
    using start_accept [OF starting(2), of None] ok(3) by (auto simp: accept_ok_def accept_inv_def)
  with start_accept [OF starting(2), of None] ok(1) show ?thesis by (simp add: open_ok_def open_inv_def)
next
  case (closing r)
  show ?thesis by (rule open_ok_closing [OF ok closing(2)])
next
  case wakes
  with open_where [of s] ok show ?thesis by (auto simp: open_ok_def open_inv_def close_call_frame close_call_at)
next
  case calls
  with open_where [of s] ok show ?thesis by (auto simp: open_ok_def open_inv_def close_call_frame close_call_at)
qed (use ok in simp)

section \<open>Waiting calls\<close>

fun start_channel :: "start_pc \<Rightarrow> channel" where
  "start_channel StartIdle = NilChan"
| "start_channel (Started _) = ClosedChan"
| "start_channel _ = OpenChan"

fun close_channel :: "close_pc \<Rightarrow> channel" where
  "close_channel CloseIdle = NilChan"
| "close_channel CloseReturned = ClosedChan"
| "close_channel _ = OpenChan"

definition channels_ok :: "server \<Rightarrow> bool" where
  "channels_ok s \<longleftrightarrow> sv_startDone s = start_channel (start_at s) \<and> sv_closeDone s = close_channel (close_at s)
     \<and> (0 < wait_start s \<longrightarrow> start_at s \<noteq> StartIdle) \<and> (0 < wait_close s \<longrightarrow> close_at s \<noteq> CloseIdle)"

lemma channels_ok_new: "channels_ok (NewServerWithOptions opts)"
  by (simp add: channels_ok_def NewServerWithOptions_def)

lemma channels_ok_start: "channels_ok s \<Longrightarrow> pred_option channels_ok (start_step r s)"
  by (cases "start_at s"; cases r) (simp_all add: channels_ok_def start_step_def proceed_def)

lemma channels_ok_closing: "channels_ok s \<Longrightarrow> pred_option channels_ok (close_step r s)"
  by (cases "close_at s") (simp_all add: channels_ok_def close_step_def split: list.split)

lemma channels_ok_close: "channels_ok s \<Longrightarrow> state_ok s \<Longrightarrow> channels_ok (close_call s)"
proof (cases "sv_state s")
  case ServerStarting
  assume "channels_ok s" "state_ok s"
  moreover from \<open>state_ok s\<close> ServerStarting have "start_at s \<noteq> StartIdle" by (cases "close_at s") (auto simp: state_ok_def)
  ultimately show ?thesis using ServerStarting by (simp add: channels_ok_def close_call_def)
next
  case ServerClosing
  assume "channels_ok s" "state_ok s"
  moreover from \<open>state_ok s\<close> ServerClosing have "close_at s \<noteq> CloseIdle"
    by (cases "(start_at s, close_at s)" rule: state_at.cases) (auto simp: state_ok_def split: if_splits)
  ultimately show ?thesis using ServerClosing by (simp add: channels_ok_def close_call_def)
qed (auto simp: channels_ok_def close_call_def)

lemma serving_channels:
  "serving_event ev \<Longrightarrow> server_step ev s = Some t \<Longrightarrow> wait_close t \<le> wait_close s"
  by (erule serving_event_cases)
    (auto simp: accept_step_def handler_step_def split: accept_pc.splits handler_pc.splits if_splits)

lemma channels_ok_step:
  assumes ok: "channels_ok s" "state_ok s" and step: "server_step ev s = Some t"
  shows "channels_ok t"
  using step
proof (cases rule: server_step_cases)
  case serving
  with serving_frame [OF serving step] serving_channels [OF serving step] ok(1) show ?thesis by (simp add: channels_ok_def)
next
  case (enter r)
  with start_call_done [OF enter(2)] ok show ?thesis by (simp add: channels_ok_def state_ok_def state_at_New)
next
  case (starting r)
  with channels_ok_start [OF ok(1), of r] show ?thesis by simp
next
  case (closing r)
  with channels_ok_closing [OF ok(1), of r] show ?thesis by simp
next
  case wakes
  have "channels_ok (s\<lparr>wait_start := wait_start s - 1\<rparr>)" using ok(1) by (simp add: channels_ok_def)
  with wakes ok(2) show ?thesis by (simp add: channels_ok_close state_ok_unwait)
next
  case calls
  with ok show ?thesis by (simp add: channels_ok_close)
qed (use ok in simp)

section \<open>All of it\<close>

definition server_ok :: "server \<Rightarrow> bool" where
  "server_ok s \<longleftrightarrow> state_ok s \<and> resources_ok s \<and> accept_ok s \<and> handlers_ok s \<and> open_ok s \<and> channels_ok s"

lemma server_ok_step: "server_ok s \<Longrightarrow> server_step ev s = Some t \<Longrightarrow> server_ok t"
  unfolding server_ok_def
  using state_ok_step resources_ok_step accept_ok_step handlers_ok_step open_ok_step channels_ok_step by blast

lemma server_ok_reachable: "reachable s \<Longrightarrow> server_ok s"
proof (induction rule: reachable.induct)
  case (reachable_new opts)
  show ?case
    by (simp add: server_ok_def state_ok_new resources_ok_new accept_ok_new handlers_ok_new open_ok_new channels_ok_new)
qed (rule server_ok_step)

section \<open>The end of a close\<close>

text \<open>
  The steps that the server takes by itself: no new calls and no new connections; a handler
  returns from \<open>serveConnection\<close> once its connection is closed.
\<close>

definition own_event :: "server_event \<Rightarrow> server \<Rightarrow> bool" where
  "own_event ev s =
     (case ev of
        StartStep _ \<Rightarrow> True | CloseStep _ \<Rightarrow> True | WakeStart \<Rightarrow> True | WakeClose \<Rightarrow> True | AcceptStep \<Rightarrow> True
      | HandlerStep c \<Rightarrow> handler_at s c = Serving \<longrightarrow> c \<in> shut s
      | _ \<Rightarrow> False)"

definition own_step :: "server \<Rightarrow> server \<Rightarrow> bool" where
  "own_step s t = (\<exists>ev. own_event ev s \<and> server_step ev s = Some t)"

fun start_left :: "start_pc \<Rightarrow> nat" where
  "start_left EnsureDirectory = 20"
| "start_left CheckContext = 19"
| "start_left TakeLock = 18"
| "start_left KeepLock = 17"
| "start_left RemoveStale = 16"
| "start_left OpenStore = 15"
| "start_left RecoverStore = 14"
| "start_left Listen = 13"
| "start_left ProtectSocket = 12"
| "start_left IdentifySocket = 11"
| "start_left StartupHook = 10"
| "start_left Publish = 9"
| "start_left SpawnAccept = 8"
| "start_left FinishStart = 7"
| "start_left (UndoListener _) = 6"
| "start_left (UndoSocket _) = 5"
| "start_left (UndoStore _) = 4"
| "start_left (UndoLock _) = 3"
| "start_left (UndoState _) = 2"
| "start_left _ = 0"

fun close_left :: "close_pc \<Rightarrow> nat list \<Rightarrow> nat" where
  "close_left CloseListener conns = 13 + length conns"
| "close_left AwaitAccept conns = 12 + length conns"
| "close_left Snapshot conns = 11 + length conns"
| "close_left (CloseConnections cs) conns = 10 + length cs"
| "close_left AwaitHandlers conns = 9"
| "close_left CloseStore conns = 8"
| "close_left RemoveSocket conns = 7"
| "close_left ReleaseLock conns = 6"
| "close_left FinishClose conns = 5"
| "close_left SignalClosed conns = 4"
| "close_left _ conns = 0"

fun accept_left :: "accept_pc \<Rightarrow> nat" where
  "accept_left AcceptIdle = 30"
| "accept_left (TakeSlot _) = 24"
| "accept_left (Admit _) = 22"
| "accept_left (SpawnHandler _) = 20"
| "accept_left Accepting = 9"
| "accept_left (GiveBack _) = 8"
| "accept_left (CloseRefused _) = 7"
| "accept_left LeaveAccept = 6"
| "accept_left AcceptExited = 0"

fun handler_left :: "handler_pc \<Rightarrow> nat" where
  "handler_left Serving = 5"
| "handler_left Dropping = 4"
| "handler_left Forgetting = 3"
| "handler_left FreeingSlot = 2"
| "handler_left Finishing = 1"
| "handler_left NoHandler = 0"

definition work_left :: "server \<Rightarrow> nat" where
  "work_left s = wait_close s + start_left (start_at s) + close_left (close_at s) (sv_connections s) + accept_left (accept_at s)
     + (\<Sum>c<accepted s. handler_left (handler_at s c))"

lemma handlers_left_update:
  assumes "c < (n :: nat)" and "handler_left pc < handler_left (h c)"
  shows "(\<Sum>d<n. handler_left ((h(c := pc)) d)) < (\<Sum>d<n. handler_left (h d))"
  by (rule sum_strict_mono_ex1) (use assms in \<open>auto intro: bexI [of _ c]\<close>)

lemma handlers_left_serving:
  assumes "c < (n :: nat)" and "h c = NoHandler"
  shows "(\<Sum>d<n. handler_left ((h(c := Serving)) d)) = (\<Sum>d<n. handler_left (h d)) + 5"
proof -
  have "(\<Sum>d\<in>{..<n} - {c}. handler_left ((h(c := Serving)) d)) = (\<Sum>d\<in>{..<n} - {c}. handler_left (h d))" by (rule sum.cong) simp_all
  moreover have "(\<Sum>d<n. f d) = f c + (\<Sum>d\<in>{..<n} - {c}. f d)" for f :: "nat \<Rightarrow> nat"
    using assms(1) by (simp add: sum.remove)
  ultimately show ?thesis using assms(2) by simp
qed

lemma close_left_mono: "length cs \<le> length ds \<Longrightarrow> close_left cp cs \<le> close_left cp ds"
  and close_left_Suc: "close_left cp (cs @ [c]) \<le> close_left cp cs + 1"
  by (cases cp; simp)+

lemma work_start:
  assumes "accept_ok s" and "start_step r s = Some t"
  shows "work_left t < work_left s \<and> wait_start t = wait_start s"
proof -
  have "start_at s = SpawnAccept \<Longrightarrow> accept_at s = AcceptIdle" using assms(1) by (simp add: accept_ok_def accept_inv_def)
  then show ?thesis
    by - (rule pred_some [OF _ assms(2)], cases "start_at s"; cases r; simp add: start_step_def proceed_def work_left_def)
qed

lemma work_closing: "close_step r s = Some t \<Longrightarrow> work_left t < work_left s \<and> wait_start t = wait_start s"
  by (erule pred_some [rotated], cases "close_at s") (simp_all add: close_step_def work_left_def split: list.split)

lemma work_accept:
  assumes ok: "handlers_ok s" and step: "accept_step s = Some t"
  shows "work_left t < work_left s \<and> wait_start t = wait_start s"
proof (cases "accept_at s")
  case (Admit c)
  with step close_left_Suc [of "close_at s" "sv_connections s" c] show ?thesis
    by (auto simp: accept_step_def work_left_def split: if_splits)
next
  case (SpawnHandler c)
  with ok have "c < accepted s" "handler_at s c = NoHandler" by (simp_all add: handlers_ok_def handlers_inv_def)
  from handlers_left_serving [OF this(1), of "handler_at s", OF this(2)] step SpawnHandler show ?thesis
    by (auto simp: accept_step_def work_left_def)
qed (use step in \<open>auto simp: accept_step_def work_left_def split: if_splits\<close>)

lemma work_handler:
  assumes ok: "handlers_ok s" and step: "handler_step c s = Some t"
  shows "work_left t < work_left s \<and> wait_start t = wait_start s"
proof -
  have c: "c < accepted s" if "handler_at s c \<noteq> NoHandler" using ok that by (simp add: handlers_ok_def handlers_inv_def)
  note less = handlers_left_update [of c "accepted s" _ "handler_at s"]
  have mono: "close_left (close_at s) (removeAll c (sv_connections s)) \<le> close_left (close_at s) (sv_connections s)"
    by (rule close_left_mono) simp
  show ?thesis
    using step c less [of Dropping] less [of Forgetting] less [of FreeingSlot] less [of Finishing] less [of NoHandler] mono
    by (cases "handler_at s c") (auto simp: handler_step_def work_left_def)
qed

lemma own_step_measure:
  assumes ok: "server_ok s" and own: "own_event ev s" and step: "server_step ev s = Some t"
  shows "wait_start t < wait_start s \<or> wait_start t = wait_start s \<and> work_left t < work_left s"
proof (cases ev)
  case WakeStart
  from step WakeStart have w: "0 < wait_start s" "sv_startDone s = ClosedChan"
    and t: "t = close_call (s\<lparr>wait_start := wait_start s - 1\<rparr>)" by (simp_all add: wake_start_def split: if_splits)
  have "start_channel (start_at s) = ClosedChan" using ok w(2) by (simp add: server_ok_def channels_ok_def)
  then obtain r where "start_at s = Started r" by (cases "start_at s") simp_all
  then have "sv_state s \<noteq> ServerStarting" using ok
    by (cases r; cases "close_at s") (auto simp: server_ok_def state_ok_def split: if_splits)
  with w t show ?thesis by (simp add: close_call_def split: server_state.split)
next
  case WakeClose
  with step show ?thesis by (auto simp: wake_close_def work_left_def split: if_splits)
next
  case (StartStep r)
  with step work_start ok show ?thesis by (auto simp: server_ok_def)
next
  case (CloseStep r)
  with step work_closing show ?thesis by auto
next
  case AcceptStep
  with step work_accept ok show ?thesis by (auto simp: server_ok_def)
next
  case (HandlerStep c)
  with step work_handler ok show ?thesis by (auto simp: server_ok_def)
qed (use own in \<open>simp_all add: own_event_def\<close>)

lemma own_steps_wf: "wf {(t, s). server_ok s \<and> own_step s t}"
  by (rule wf_subset [OF wf_measures [of "[wait_start, work_left]"]])
    (auto simp: own_step_def dest: own_step_measure)

section \<open>Progress\<close>

lemma start_progress: "start_at s \<noteq> StartIdle \<Longrightarrow> start_at s \<noteq> Started r \<Longrightarrow> \<forall>r. start_at s \<noteq> Started r \<Longrightarrow> \<exists>t. own_step s t"
proof -
  assume "start_at s \<noteq> StartIdle" and "\<forall>r. start_at s \<noteq> Started r"
  then have "start_step None s \<noteq> None" by (cases "start_at s") (auto simp: start_step_def)
  then show ?thesis unfolding own_step_def by (intro exI [of _ "the (start_step None s)"] exI [of _ "StartStep None"]) (auto simp: own_event_def)
qed

lemma closing_progress: "close_step None s \<noteq> None \<Longrightarrow> \<exists>t. own_step s t"
  unfolding own_step_def by (intro exI [of _ "the (close_step None s)"] exI [of _ "CloseStep None"]) (auto simp: own_event_def)

lemma accept_progress: "accept_step s \<noteq> None \<Longrightarrow> \<exists>t. own_step s t"
  unfolding own_step_def by (intro exI [of _ "the (accept_step s)"] exI [of _ AcceptStep]) (auto simp: own_event_def)

lemma handler_progress: "handler_at s c \<noteq> NoHandler \<Longrightarrow> (handler_at s c = Serving \<longrightarrow> c \<in> shut s) \<Longrightarrow> \<exists>t. own_step s t"
  unfolding own_step_def
  by (intro exI [of _ "the (handler_step c s)"] exI [of _ "HandlerStep c"])
    (cases "handler_at s c"; simp add: own_event_def handler_step_def)

lemma close_progress:
  assumes ok: "server_ok s" and closing: "close_at s \<notin> {CloseIdle, CloseReturned}"
  shows "\<exists>t. own_step s t"
proof (cases "close_step None s")
  case None
  then consider (accept) "close_at s = AwaitAccept" "sv_acceptWG s \<noteq> 0" | (handlers) "close_at s = AwaitHandlers" "sv_connectionWG s \<noteq> 0"
    using closing by (cases "close_at s") (auto simp: close_step_def split: if_splits list.splits)
  then show ?thesis
  proof cases
    case accept
    have inv: "accept_inv (start_at s) AwaitAccept (accept_at s) (sv_acceptWG s)" using ok accept(1)
      by (simp add: server_ok_def accept_ok_def)
    with accept(2) have pub: "published (start_at s)" "accept_at s \<noteq> AcceptExited" by (auto simp: accept_inv_def split: if_splits)
    show ?thesis
    proof (cases "start_at s = SpawnAccept")
      case True
      with start_progress [of s None] show ?thesis by simp
    next
      case False
      with pub inv have sp: "start_at s = FinishStart \<or> start_at s = Started None" and ap: "accept_at s \<noteq> AcceptIdle"
        by (auto simp: published_def accept_inv_def)
      have "the_listener s = Shut" using ok accept(1) sp
        by (auto simp: server_ok_def resources_ok_def held_ok_def vars_ok_def expected_def)
      with ap pub(2) have "accept_step s \<noteq> None" by (cases "accept_at s") (simp_all add: accept_step_def)
      then show ?thesis by (rule accept_progress)
    qed
  next
    case handlers
    have over: "accept_at s = AcceptIdle \<or> accept_at s = AcceptExited" using accept_over [of s] ok handlers(1) by (simp add: server_ok_def)
    have "alive (handler_at s) (accept_at s) \<noteq> {}" using ok handlers(2) by (auto simp: server_ok_def handlers_ok_def handlers_inv_def)
    with over obtain c where "handler_at s c \<noteq> NoHandler" by (auto simp: alive_def)
    moreover have "handler_at s c = Serving \<longrightarrow> c \<in> shut s" using ok handlers(1) by (simp add: server_ok_def open_ok_def open_inv_def)
    ultimately show ?thesis by (rule handler_progress)
  qed
next
  case (Some t)
  then show ?thesis by (intro closing_progress) simp
qed

text \<open>Nothing of the server waits for ever.\<close>

lemma stuck_is_quiet:
  assumes ok: "server_ok s" and stuck: "\<nexists>t. own_step s t"
  shows "close_at s \<in> {CloseIdle, CloseReturned}" and "wait_start s = 0" and "wait_close s = 0"
    and "start_at s = StartIdle \<or> (\<exists>r. start_at s = Started r)"
proof -
  show closed: "close_at s \<in> {CloseIdle, CloseReturned}" using close_progress [OF ok] stuck by blast
  show started: "start_at s = StartIdle \<or> (\<exists>r. start_at s = Started r)" using start_progress [of s] stuck by blast
  have chan: "channels_ok s" using ok by (simp add: server_ok_def)
  show "wait_start s = 0"
  proof (rule ccontr)
    assume wait: "wait_start s \<noteq> 0"
    with chan started have "sv_startDone s = ClosedChan" by (auto simp: channels_ok_def)
    with wait stuck show False by (auto simp: own_step_def own_event_def wake_start_def dest!: spec [of _ WakeStart] split: if_splits)
  qed
  show "wait_close s = 0"
  proof (rule ccontr)
    assume wait: "wait_close s \<noteq> 0"
    with chan closed have "sv_closeDone s = ClosedChan" by (auto simp: channels_ok_def)
    with wait stuck show False by (auto simp: own_step_def own_event_def wake_close_def dest!: spec [of _ WakeClose] split: if_splits)
  qed
qed

end
