(* ===== verification/ServerLife.thy ===== *)
theory ServerLife
  imports LifecycleClose
begin

text \<open>The properties of a server's life, with sample runs.\<close>

section \<open>Facts of reachable states\<close>

lemma after_step_options:
  assumes "server_step ev s = Some t"
  shows "sv_options t = sv_options s"
  using assms
proof (cases rule: server_step_cases)
  case (enter r)
  with start_call_done [OF enter(2)] show ?thesis by simp
next
  case (starting r)
  with start_accept [OF starting(2)] show ?thesis by simp
next
  case (closing r)
  with closing_frame [OF closing(2)] show ?thesis by simp
next
  case serving
  with serving_frame [OF serving assms] show ?thesis by simp
qed (simp_all add: close_call_frame)

lemma options_positive: "reachable s \<Longrightarrow> 0 < MaxConnections (sv_options s)"
proof (induction rule: reachable.induct)
  case (reachable_new opts)
  show ?case by (simp add: NewServerWithOptions_def effective_options_def Let_def DefaultMaxConnections_def)
next
  case (reachable_step s ev t)
  with after_step_options [OF reachable_step(2)] show ?case by simp
qed

lemma handler_open:
  assumes "server_ok s" and "handler_at s c \<noteq> NoHandler"
  shows "published (start_at s)" and "close_depth (close_at s) \<le> 1"
proof -
  have "accept_at s \<noteq> AcceptIdle" using assms by (auto simp: server_ok_def handlers_ok_def handlers_inv_def)
  with assms(1) show "published (start_at s)" by (auto simp: server_ok_def accept_ok_def accept_inv_def published_def)
  have "\<not> after_handlers (close_at s)" using assms by (auto simp: server_ok_def open_ok_def open_inv_def)
  then show "close_depth (close_at s) \<le> 1" by (cases "close_at s") simp_all
qed

lemma held_in_order:
  assumes "server_ok s"
  shows "the_listener s = Held \<Longrightarrow> the_store s = Held" and "the_store s = Held \<Longrightarrow> the_lock s = Held"
proof -
  have vars: "var_listener s \<Longrightarrow> var_store s" "var_store s \<Longrightarrow> var_lock s"
    using assms by (cases "start_at s" rule: vars_at.cases; auto simp: server_ok_def resources_ok_def vars_ok_def)+
  with assms show "the_listener s = Held \<Longrightarrow> the_store s = Held" and "the_store s = Held \<Longrightarrow> the_lock s = Held"
    by (auto simp: server_ok_def resources_ok_def held_ok_def expected_def split: if_splits)
qed

lemma start_step_leaves: "start_step r s = Some t \<Longrightarrow> start_at t \<noteq> StartIdle"
  by (erule pred_some [rotated], cases "start_at s"; cases r) (simp_all add: start_step_def proceed_def)

lemma later_state:
  assumes "state_ok s" and "server_step ev s = Some t" and "start_at s \<noteq> StartIdle \<or> close_at s \<noteq> CloseIdle"
  shows "start_at t \<noteq> StartIdle \<or> close_at t \<noteq> CloseIdle"
  using assms(2)
proof (cases rule: server_step_cases)
  case (enter r)
  with start_call_done [OF enter(2)] show ?thesis by simp
next
  case (starting r)
  from start_step_leaves [OF starting(2)] show ?thesis ..
next
  case (closing r)
  with closing_frame [OF closing(2)] show ?thesis by simp
next
  case serving
  with serving_frame [OF serving assms(2)] assms(3) show ?thesis by simp
qed (use assms(3) in \<open>auto simp: close_call_frame close_call_at\<close>)

section \<open>A sample run\<close>

definition one_connection :: server_options where
  "one_connection = \<lparr>MaxConnections = 1, ReadTimeout = 0, WriteTimeout = 0\<rparr>"

definition serving_run :: "server_event list" where
  "serving_run = CallStart None # replicate 14 (StartStep None) @ [Arrival, AcceptStep, AcceptStep, AcceptStep]"

definition serving_server :: server where
  "serving_server = (NewServerWithOptions one_connection)
     \<lparr>sv_lock := True, sv_store := True, sv_listener := True, sv_socket := True, sv_state := ServerRunning, sv_startDone := ClosedChan,
      sv_connections := [0], sv_slots := 1, sv_acceptWG := 1, sv_connectionWG := 1, start_at := Started None, var_lock := True,
      var_store := True, var_listener := True, accept_at := Accepting, handler_at := (\<lambda>_. NoHandler)(0 := Serving),
      the_lock := Held, the_store := Held, the_listener := Held, the_socket := Held, accepted := 1\<rparr>"

lemmas eval_steps = start_call_def start_step_def close_call_def close_step_def wake_start_def wake_close_def
  accept_arrival_def accept_failure_def accept_step_def handler_step_def proceed_def first_error_def

lemma serving_run_result: "server_run serving_run (NewServerWithOptions one_connection) = Some serving_server"
  by (simp add: serving_server_def serving_run_def eval_steps numeral_eq_Suc NewServerWithOptions_def one_connection_def
      effective_options_def Let_def)

lemma serving_reachable: "reachable serving_server"
  by (rule reachable_run [OF serving_run_result reachable_new])

text \<open>The same server, closed while its handler still serves.\<close>

definition closing_run :: "server_event list" where
  "closing_run = [CallClose, CloseStep None, AcceptStep, AcceptStep, CloseStep None, CloseStep None, CloseStep None, CloseStep None]
     @ replicate 5 (HandlerStep 0) @ replicate 6 (CloseStep None)"

definition closed_server :: server where
  "closed_server = serving_server
     \<lparr>sv_state := ServerClosed, sv_closeDone := ClosedChan, sv_connections := [], sv_slots := 0, sv_acceptWG := 0, sv_connectionWG := 0,
      close_at := CloseReturned, cl_lock := True, cl_store := True, cl_listener := True, cl_socket := True, accept_at := AcceptExited,
      handler_at := (\<lambda>_. NoHandler)(0 := NoHandler), the_lock := Shut, the_store := Shut, the_listener := Shut, the_socket := Shut,
      shut := {0}\<rparr>"

lemma closing_run_result: "server_run closing_run serving_server = Some closed_server"
  by (simp add: closed_server_def serving_server_def closing_run_def eval_steps numeral_eq_Suc NewServerWithOptions_def one_connection_def
      effective_options_def Let_def)

lemma closed_reachable: "reachable closed_server"
  by (rule reachable_run [OF closing_run_result serving_reachable])

lemma sample_servers:
  "handler_at serving_server 0 = Serving"
  "sv_state closed_server = ServerClosed" "accepted closed_server = 1" "start_at closed_server = Started None"
  "close_at closed_server = CloseReturned" "accept_at closed_server = AcceptExited" "wait_start closed_server = 0"
  "wait_close closed_server = 0" "handler_at closed_server c = NoHandler"
  by (simp_all add: closed_server_def serving_server_def NewServerWithOptions_def)

section \<open>Properties of the life of a server\<close>

text \<open>
  C21: as long as a handler serves a connection, the server has its store, and the database is
  open and the lock is held; the database is only ever open under the lock, the listener only
  together with the database; and there are never more handlers than the options allow.
\<close>

theorem serving_is_safe:
  assumes "reachable s"
  shows "(handler_at s c = Serving \<longrightarrow> sv_store s \<and> the_store s = Held \<and> the_lock s = Held)
    \<and> (the_listener s = Held \<longrightarrow> the_store s = Held) \<and> (the_store s = Held \<longrightarrow> the_lock s = Held)
    \<and> card {c. handler_at s c = Serving} \<le> nat (MaxConnections (sv_options s)) \<and> 0 < MaxConnections (sv_options s)"
proof -
  have ok: "server_ok s" by (rule server_ok_reachable [OF assms])
  have store: "sv_store s \<and> the_store s = Held" if "handler_at s c = Serving"
  proof -
    have pub: "published (start_at s)" and depth: "close_depth (close_at s) \<le> 1" using handler_open [OF ok, of c] that by simp_all
    have field: "sv_store s" using ok pub by (simp add: server_ok_def resources_ok_def fields_ok_def)
    have vars: "var_store s" and undo: "undo_depth (start_at s) = 0"
      using ok pub by (auto simp: server_ok_def resources_ok_def vars_ok_def published_def)
    have "the_store s = expected (var_store s) 2 s" using ok by (simp add: server_ok_def resources_ok_def held_ok_def)
    with field vars undo depth show ?thesis by (simp add: expected_def)
  qed
  have inv: "handlers_inv (handler_at s) (accept_at s) (sv_connections s) (sv_slots s) (sv_connectionWG s) (accepted s)
      (nat (MaxConnections (sv_options s)))" using ok by (simp add: server_ok_def handlers_ok_def)
  have "card {c. handler_at s c = Serving} \<le> card (slot_users (handler_at s) (accept_at s))"
    by (rule card_mono [OF handlers_finite(2) [OF inv]]) (auto simp: slot_users_def)
  then show ?thesis using store held_in_order [OF ok] inv options_positive [OF assms] by (auto simp: handlers_inv_def)
qed

theorem serving_is_safe_witness:
  "\<exists>s. reachable s \<and> handler_at s 0 = Serving \<and> the_store s = Held"
  using serving_is_safe [OF serving_reachable, of 0] serving_reachable sample_servers by auto

text \<open>
  C22: a closed server holds nothing any more: no database, no lock, no listener, no handler, and
  every connection that was ever accepted is closed, also those that arrived while it closed.
\<close>

theorem closed_holds_nothing:
  assumes "reachable s" and "sv_state s = ServerClosed"
  shows "the_lock s \<noteq> Held \<and> the_store s \<noteq> Held \<and> the_listener s \<noteq> Held
    \<and> (\<forall>c. handler_at s c = NoHandler) \<and> {..<accepted s} \<subseteq> shut s"
proof -
  have ok: "server_ok s" by (rule server_ok_reachable [OF assms(1)])
  then have "state_at (start_at s) (close_at s) = Some ServerClosed" using assms(2) by (simp add: server_ok_def state_ok_def)
  then consider (closed) "close_at s = SignalClosed \<or> close_at s = CloseReturned" "after_handlers (close_at s)" "after_accept (close_at s)"
    | (failed) err where "start_at s = Started (Some err)"
    by (cases "(start_at s, close_at s)" rule: state_at.cases; cases "close_at s"; simp split: if_splits)
  then have idle: "(accept_at s = AcceptIdle \<or> accept_at s = AcceptExited) \<and> (\<forall>c. handler_at s c = NoHandler)
      \<and> (3 \<le> undo_depth (start_at s) \<or> 3 \<le> close_depth (close_at s))"
  proof cases
    case closed
    with accept_over [of s] ok have "accept_at s = AcceptIdle \<or> accept_at s = AcceptExited" by (simp add: server_ok_def)
    moreover have "handler_at s c = NoHandler" for c using ok closed(2) by (simp add: server_ok_def open_ok_def open_inv_def)
    ultimately show ?thesis using closed(1) by auto
  next
    case (failed err)
    then have "accept_at s = AcceptIdle" using ok by (simp add: server_ok_def accept_ok_def accept_inv_def)
    moreover have "handler_at s c = NoHandler" for c using handler_open(1) [OF ok, of c] failed by (auto simp: published_def)
    ultimately show ?thesis using failed by simp
  qed
  have opens: "\<forall>c<accepted s. c \<in> shut s \<or> handler_at s c \<in> {Serving, Dropping} \<or> c \<in> in_hand (accept_at s)"
    using ok by (simp add: server_ok_def open_ok_def open_inv_def)
  have "{..<accepted s} \<subseteq> shut s"
  proof
    fix c assume "c \<in> {..<accepted s}"
    with opens idle show "c \<in> shut s" by fastforce
  qed
  moreover have "the_lock s = expected (var_lock s) 3 s" "the_store s = expected (var_store s) 2 s" "the_listener s = expected (var_listener s) 1 s"
    using ok by (simp_all add: server_ok_def resources_ok_def held_ok_def)
  ultimately show ?thesis using idle by (auto simp: expected_def)
qed

theorem closed_holds_nothing_witness:
  "\<exists>s. reachable s \<and> accepted s = 1 \<and> the_lock s \<noteq> Held \<and> 0 \<in> shut s"
  using closed_holds_nothing [OF closed_reachable] closed_reachable sample_servers by auto

text \<open>
  C23: \<open>Close\<close> comes to an end: left to itself a server takes only finitely many steps, and when it
  cannot take another one, no call of \<open>Start\<close> or \<open>Close\<close> is unfinished or waits.
\<close>

theorem close_completes:
  assumes "reachable s"
  shows "wf {(t, s). reachable s \<and> own_step s t}
    \<and> ((\<nexists>t. own_step s t) \<longrightarrow> close_at s \<in> {CloseIdle, CloseReturned} \<and> wait_start s = 0 \<and> wait_close s = 0
         \<and> (start_at s = StartIdle \<or> (\<exists>r. start_at s = Started r)))"
proof -
  have "wf {(t, s). reachable s \<and> own_step s t}"
    by (rule wf_subset [OF own_steps_wf]) (auto intro: server_ok_reachable)
  with stuck_is_quiet [OF server_ok_reachable [OF assms]] show ?thesis by blast
qed

theorem close_completes_witness: "\<exists>s. reachable s \<and> (\<nexists>t. own_step s t) \<and> close_at s = CloseReturned"
proof -
  have "own_event ev closed_server \<Longrightarrow> server_step ev closed_server = None" for ev
    using sample_servers by (cases ev) (simp_all add: own_event_def eval_steps)
  then have "\<nexists>t. own_step closed_server t" by (auto simp: own_step_def)
  with close_completes [OF closed_reachable] closed_reachable sample_servers show ?thesis by auto
qed

text \<open>
  A server is single-use: once it has left its first state, by \<open>Start\<close> or by \<open>Close\<close>, it never
  returns to it, and every later \<open>Start\<close> is refused without touching the server.
\<close>

theorem server_single_use:
  assumes "reachable s" and "sv_state s \<noteq> ServerNew" and "server_run evs s = Some t"
  shows "sv_state t \<noteq> ServerNew \<and> start_call None t = Inl ErrServerSingleUse \<and> server_step (CallStart None) t = Some t"
proof -
  have "reachable t \<and> sv_state t \<noteq> ServerNew"
    using assms
  proof (induction evs arbitrary: s)
    case (Cons ev evs)
    from Cons(4) obtain u where u: "server_step ev s = Some u" "server_run evs u = Some t" by (auto simp: Option.bind_eq_Some_conv)
    have "server_ok s" "server_ok u" using Cons(2) u(1) by (auto intro: server_ok_reachable reachable_step)
    then have ok: "state_ok s" "state_ok u" by (simp_all add: server_ok_def)
    have "start_at s \<noteq> StartIdle \<or> close_at s \<noteq> CloseIdle"
      using ok(1) Cons(3) state_at_New [of "start_at s" "close_at s"] by (auto simp: state_ok_def)
    from later_state [OF ok(1) u(1) this] have "sv_state u \<noteq> ServerNew"
      using ok(2) state_at_New [of "start_at u" "close_at u"] by (auto simp: state_ok_def)
    with Cons(1) [OF reachable_step [OF Cons(2) u(1)] _ u(2)] show ?case by simp
  qed simp
  then show ?thesis by (simp add: start_call_def)
qed

theorem server_single_use_witness: "start_call None closed_server = Inl ErrServerSingleUse"
  using server_single_use [OF closed_reachable, of "[]"] sample_servers by simp

end
