(* ===== verification/Protocol.thy ===== *)
theory Protocol
  imports GoIO
begin

text \<open>
  The framing of \<open>internal/protocol/protocol.go\<close>: the bounded control frames (eight-byte
  big-endian length, JSON payload of at most 1 MiB) and the data plane, whose length header
  is followed by evidence of any length that is streamed through a 32 KiB buffer and hashed
  on the way.
\<close>

section \<open>Constants and metadata\<close>

definition MaxControlFrameLength :: nat where
  "MaxControlFrameLength = 1048576"

definition evidenceCopyBufferSize :: u64 where
  "evidenceCopyBufferSize = 32768"

record evidence_metadata =
  ByteCount :: u64
  SHA256 :: string

section \<open>Control frames\<close>

definition WriteFrame :: "'w write_fn \<Rightarrow> bytes \<Rightarrow> 'w \<Rightarrow> go_error option \<times> 'w" where
  "WriteFrame wr payload w =
     (if MaxControlFrameLength < length payload then (Some ErrControlFrameTooLarge, w)
      else case writeAll wr (put_uint64 (of_nat (length payload))) w of
          (Some e, w1) \<Rightarrow> (Some (Wrap ''write protocol frame header'' e), w1)
        | (None, w1) \<Rightarrow>
            (case writeAll wr payload w1 of
               (Some e, w2) \<Rightarrow> (Some (Wrap ''write protocol frame payload'' e), w2)
             | (None, w2) \<Rightarrow> (None, w2)))"

definition ReadFrame :: "reader \<Rightarrow> (go_error + bytes) \<times> reader" where
  "ReadFrame r =
     (case read_full 8 r of
        (Inl e, r1) \<Rightarrow> (Inl (Wrap ''read protocol frame header'' e), r1)
      | (Inr header, r1) \<Rightarrow>
          let length' = get_uint64 header in
          if of_nat MaxControlFrameLength < length' then (Inl ErrControlFrameTooLarge, r1)
          else (case read_full (unat length') r1 of
                  (Inl e, r2) \<Rightarrow> (Inl (Wrap ''read protocol frame payload'' e), r2)
                | (Inr payload, r2) \<Rightarrow> (Inr payload, r2)))"

section \<open>The data plane\<close>

definition WriteEvidenceHeader :: "'w write_fn \<Rightarrow> u64 \<Rightarrow> 'w \<Rightarrow> go_error option \<times> 'w" where
  "WriteEvidenceHeader wr len w =
     (case writeAll wr (put_uint64 len) w of
        (Some e, w1) \<Rightarrow> (Some (Wrap ''write evidence header'' e), w1)
      | (None, w1) \<Rightarrow> (None, w1))"

definition ReadEvidenceHeader :: "reader \<Rightarrow> (go_error + u64) \<times> reader" where
  "ReadEvidenceHeader r =
     (case read_full 8 r of
        (Inl e, r1) \<Rightarrow> (Inl (Wrap ''read evidence header'' e), r1)
      | (Inr header, r1) \<Rightarrow> (Inr (get_uint64 header), r1))"

lemma unat_remaining:
  assumes "n \<le> unat (if remaining < b then remaining else (b :: u64))"
  shows "unat (remaining - of_nat n) = unat remaining - n"
proof -
  have le: "n \<le> unat remaining"
    using assms by (auto simp: word_less_nat_alt split: if_splits)
  have small: "n < 18446744073709551616"
    using le unat_u64_bound [of remaining] by simp
  have "of_nat n \<le> remaining"
    using le small by (simp add: word_le_nat_alt)
  then show ?thesis using small by (simp add: unat_sub)
qed

text \<open>
  The loop of \<open>streamEvidence\<close>; \<open>hashed\<close> are the bytes given to the hash so far.  A reader
  that claims more bytes than the buffer slice it was given holds breaks the contract of
  \<open>io.Reader\<close>; the model stops there.
\<close>

function streamEvidence_loop ::
  "'r read_fn \<Rightarrow> 'w write_fn \<Rightarrow> u64 \<Rightarrow> bytes \<Rightarrow> 'r \<Rightarrow> 'w \<Rightarrow> (go_error + bytes) \<times> 'r \<times> 'w" where
  "streamEvidence_loop rd wr remaining hashed r w =
     (if remaining = 0 then (Inr hashed, r, w)
      else
        let readSize = (if remaining < evidenceCopyBufferSize then remaining else evidenceCopyBufferSize) in
        case rd (unat readSize) r of (chunk, err, r1) \<Rightarrow>
          if unat readSize < length chunk then (Inl (GoPanic ''reader overran its buffer''), r1, w)
          else
            let n = length chunk; remaining' = remaining - of_nat n in
            case (if 0 < n then writeAll wr chunk w else (None, w)) of
              (Some writeErr, w1) \<Rightarrow> (Inl writeErr, r1, w1)
            | (None, w1) \<Rightarrow>
                if err = Some EOF \<and> 0 < remaining' then (Inl ErrUnexpectedEOF, r1, w1)
                else if err \<noteq> None \<and> 0 < remaining' then (Inl (the err), r1, w1)
                else if n = 0 then (Inl ErrNoProgress, r1, w1)
                else streamEvidence_loop rd wr remaining' (hashed @ chunk) r1 w1)"
  by pat_completeness auto

termination
proof (relation "measure (\<lambda>(rd, wr, remaining, hashed, r, w). unat remaining)", goal_cases)
  case 1
  show ?case by simp
next
  case (2 rd wr remaining hashed r w)
  then show ?case
    by (auto simp: not_less unat_remaining unat_gt_0 dest!: sym [of _ "length _"])
qed

declare streamEvidence_loop.simps [simp del]

lemma streamEvidence_loop_0 [simp]: "streamEvidence_loop rd wr 0 hashed r w = (Inr hashed, r, w)"
  by (simp add: streamEvidence_loop.simps)

definition streamEvidence ::
  "'r read_fn \<Rightarrow> 'w write_fn \<Rightarrow> u64 \<Rightarrow> 'r \<Rightarrow> 'w \<Rightarrow> (go_error + evidence_metadata) \<times> 'r \<times> 'w" where
  "streamEvidence rd wr len r w =
     (case streamEvidence_loop rd wr len [] r w of
        (Inl e, r1, w1) \<Rightarrow> (Inl e, r1, w1)
      | (Inr hashed, r1, w1) \<Rightarrow> (Inr \<lparr>ByteCount = len, SHA256 = sha256_hex hashed\<rparr>, r1, w1))"

definition WriteEvidence ::
  "'r read_fn \<Rightarrow> 'w write_fn \<Rightarrow> u64 \<Rightarrow> 'r \<Rightarrow> 'w \<Rightarrow> (go_error + evidence_metadata) \<times> 'r \<times> 'w" where
  "WriteEvidence rd wr len r w =
     (case WriteEvidenceHeader wr len w of
        (Some e, w1) \<Rightarrow> (Inl e, r, w1)
      | (None, w1) \<Rightarrow>
          (case streamEvidence rd wr len r w1 of
             (Inl e, r2, w2) \<Rightarrow> (Inl (Wrap ''write evidence payload'' e), r2, w2)
           | (Inr m, r2, w2) \<Rightarrow> (Inr m, r2, w2)))"

definition ReadEvidence :: "'w write_fn \<Rightarrow> reader \<Rightarrow> 'w \<Rightarrow> (go_error + evidence_metadata) \<times> reader \<times> 'w" where
  "ReadEvidence wr r w =
     (case ReadEvidenceHeader r of
        (Inl e, r1) \<Rightarrow> (Inl e, r1, w)
      | (Inr len, r1) \<Rightarrow>
          (case streamEvidence reader_read wr len r1 w of
             (Inl e, r2, w2) \<Rightarrow> (Inl (Wrap ''read evidence payload'' e), r2, w2)
           | (Inr m, r2, w2) \<Rightarrow> (Inr m, r2, w2)))"

section \<open>Streaming is exact\<close>

locale evidence_copy = io_reader rd pend + io_writer wr sunk
  for rd :: "'r read_fn" and pend :: "'r \<Rightarrow> bytes" and wr :: "'w write_fn" and sunk :: "'w \<Rightarrow> bytes"
begin

lemma stream_loop_sound:
  "streamEvidence_loop rd wr remaining hashed r w = (Inr h, r', w') \<Longrightarrow>
     \<exists>d. length d = unat remaining \<and> h = hashed @ d \<and> pend r = d @ pend r' \<and> sunk w' = sunk w @ d"
proof (induction "unat remaining" arbitrary: remaining hashed r w rule: less_induct)
  case less
  show ?case
  proof (cases "remaining = 0")
    case True
    with less.prems show ?thesis by simp
  next
    case False
    define k where "k = (if remaining < evidenceCopyBufferSize then remaining else evidenceCopyBufferSize)"
    obtain chunk err r1 where rd: "rd (unat k) r = (chunk, err, r1)" by (cases "rd (unat k) r")
    have len: "length chunk \<le> unat k" and pend: "pend r = chunk @ pend r1"
      using rd_length [OF rd] rd_pend [OF rd] by simp_all
    obtain res w1 where copy: "(if chunk \<noteq> [] then writeAll wr chunk w else (None, w)) = (res, w1)"
      by (cases "if chunk \<noteq> [] then writeAll wr chunk w else (None, w)")
    from less.prems False rd len copy have ne: "chunk \<noteq> []" and res: "res = None"
      and rest: "streamEvidence_loop rd wr (remaining - of_nat (length chunk)) (hashed @ chunk) r1 w1 = (Inr h, r', w')"
      by (auto simp: streamEvidence_loop.simps [of rd wr remaining] k_def [symmetric] Let_def
          split: option.splits if_splits)
    from ne res copy have w1: "sunk w1 = sunk w @ chunk" using writeAll_done by simp
    have dec: "unat (remaining - of_nat (length chunk)) = unat remaining - length chunk"
      using len unfolding k_def by (rule unat_remaining)
    have "unat k \<le> unat remaining" by (auto simp: k_def word_less_nat_alt)
    with len have le: "length chunk \<le> unat remaining" by simp
    have "0 < unat remaining" using False by (simp add: unat_gt_0)
    with ne dec have "unat (remaining - of_nat (length chunk)) < unat remaining" by simp
    from less.hyps [OF this rest] obtain d where
      "length d = unat remaining - length chunk" "h = (hashed @ chunk) @ d" "pend r1 = d @ pend r'"
      "sunk w' = sunk w1 @ d" unfolding dec by blast
    with le w1 pend show ?thesis by (intro exI [of _ "chunk @ d"]) simp
  qed
qed

end

interpretation script_copy: evidence_copy reader_read stream writer_write sink
  by unfold_locales

text \<open>With a steady reader that has the data and a reliable writer the copy succeeds.\<close>

locale steady_copy = steady_reader rd pend good + reliable_writer wr sunk fit
  for rd :: "'r read_fn" and pend :: "'r \<Rightarrow> bytes" and good :: "'r \<Rightarrow> bool"
    and wr :: "'w write_fn" and sunk :: "'w \<Rightarrow> bytes" and fit :: "'w \<Rightarrow> bool"
begin

lemma stream_loop_live:
  "good r \<Longrightarrow> fit w \<Longrightarrow> unat remaining \<le> length (pend r) \<Longrightarrow>
     \<exists>r' w'. streamEvidence_loop rd wr remaining hashed r w
        = (Inr (hashed @ take (unat remaining) (pend r)), r', w') \<and> good r' \<and> fit w'
          \<and> sunk w' = sunk w @ take (unat remaining) (pend r) \<and> pend r' = drop (unat remaining) (pend r)"
proof (induction "unat remaining" arbitrary: remaining hashed r w rule: less_induct)
  case less
  show ?case
  proof (cases "remaining = 0")
    case True
    with less.prems show ?thesis by simp
  next
    case False
    define k where "k = (if remaining < evidenceCopyBufferSize then remaining else evidenceCopyBufferSize)"
    have k: "0 < unat k" "unat k \<le> unat remaining"
      using False by (auto simp: k_def evidenceCopyBufferSize_def word_less_nat_alt unat_gt_0)
    obtain chunk err r1 where rd: "rd (unat k) r = (chunk, err, r1)" by (cases "rd (unat k) r")
    have len: "length chunk \<le> unat k" and pend: "pend r = chunk @ pend r1"
      using rd_length [OF rd] rd_pend [OF rd] by simp_all
    have "pend r \<noteq> []" using less.prems(3) False by (auto simp: unat_eq_zero)
    from rd_steady [OF less.prems(1) this k(1) rd] have ne: "chunk \<noteq> []" and err: "err = None" and g1: "good r1"
      by simp_all
    obtain w1 where copy: "writeAll wr chunk w = (None, w1)" and f1: "fit w1" and w1: "sunk w1 = sunk w @ chunk"
      using writeAll_fit [OF less.prems(2)] by blast
    have dec: "unat (remaining - of_nat (length chunk)) = unat remaining - length chunk"
      using len unfolding k_def by (rule unat_remaining)
    have smaller: "unat (remaining - of_nat (length chunk)) < unat remaining"
      using ne dec len k by simp
    have enough: "unat (remaining - of_nat (length chunk)) \<le> length (pend r1)"
      using less.prems(3) pend dec by simp
    have step: "streamEvidence_loop rd wr remaining hashed r w
        = streamEvidence_loop rd wr (remaining - of_nat (length chunk)) (hashed @ chunk) r1 w1"
      using False rd len ne err copy
      by (simp add: streamEvidence_loop.simps [of rd wr remaining] k_def [symmetric] Let_def)
    have "take (unat remaining) (pend r) = chunk @ take (unat remaining - length chunk) (pend r1)"
      and "drop (unat remaining) (pend r) = drop (unat remaining - length chunk) (pend r1)"
      using pend len k by simp_all
    with less.hyps [OF smaller g1 f1 enough, of "hashed @ chunk"] step dec w1 show ?thesis by simp
  qed
qed

end

interpretation clean_copy: steady_copy reader_read stream clean writer_write sink "\<lambda>w. plan w = []"
  by unfold_locales

section \<open>Properties of the wire format\<close>

abbreviation open_sink :: writer where
  "open_sink \<equiv> \<lparr>sink = [], plan = []\<rparr>"

lemma WriteFrame_open:
  "plan w = [] \<Longrightarrow> length payload \<le> MaxControlFrameLength \<Longrightarrow>
     WriteFrame writer_write payload w
       = (None, w\<lparr>sink := sink w @ put_uint64 (of_nat (length payload)) @ payload\<rparr>)"
  by (simp add: WriteFrame_def writeAll_open)

lemma WriteEvidenceHeader_open:
  "plan w = [] \<Longrightarrow> WriteEvidenceHeader writer_write len w = (None, w\<lparr>sink := sink w @ put_uint64 len\<rparr>)"
  by (simp add: WriteEvidenceHeader_def writeAll_open)

lemma unat_frame_length:
  "length payload \<le> MaxControlFrameLength \<Longrightarrow> unat (of_nat (length payload) :: u64) = length payload"
  by (simp add: MaxControlFrameLength_def)

lemma frame_length_ok:
  "length payload \<le> MaxControlFrameLength \<Longrightarrow> \<not> (of_nat MaxControlFrameLength :: u64) < of_nat (length payload)"
  by (simp add: word_less_nat_alt MaxControlFrameLength_def)

lemma ReadFrame_segments:
  assumes "length payload \<le> MaxControlFrameLength"
    and "concat cs = put_uint64 (of_nat (length payload)) @ payload @ rest"
  shows "\<exists>cs'. ReadFrame (reader_of cs) = (Inr payload, reader_of cs') \<and> concat cs' = rest"
proof -
  have "8 \<le> length (concat cs)" using assms(2) by simp
  then obtain cs1 where hd: "read_full 8 (reader_of cs) = (Inr (take 8 (concat cs)), reader_of cs1)"
    and cs1: "concat cs1 = drop 8 (concat cs)" by (rule read_full_segments)
  have "length payload \<le> length (concat cs1)" using assms(2) cs1 by simp
  then obtain cs2 where body: "read_full (length payload) (reader_of cs1)
      = (Inr (take (length payload) (concat cs1)), reader_of cs2)"
    and cs2: "concat cs2 = drop (length payload) (concat cs1)" by (rule read_full_segments)
  show ?thesis using assms hd cs1 body cs2
    by (auto simp: ReadFrame_def unat_frame_length frame_length_ok)
qed

text \<open>
  C1: a control frame written by \<open>WriteFrame\<close> is read back by \<open>ReadFrame\<close> as the same
  payload, however the connection cuts the bytes into reads, and what follows the frame on
  the connection is left for the next reader.
\<close>

theorem frame_roundtrip:
  assumes "length payload \<le> MaxControlFrameLength"
    and "concat cs = sink (snd (WriteFrame writer_write payload open_sink)) @ rest"
  shows "fst (WriteFrame writer_write payload open_sink) = None
    \<and> (\<exists>cs'. ReadFrame (reader_of cs) = (Inr payload, reader_of cs') \<and> concat cs' = rest)"
  using assms ReadFrame_segments [of payload cs rest] by (simp add: WriteFrame_open)

theorem frame_roundtrip_witness:
  "\<exists>cs'. ReadFrame (reader_of [put_uint64 3 @ [1], [2], [3, 9]]) = (Inr [1, 2, 3], reader_of cs') \<and> concat cs' = [9]"
proof -
  have fits: "length ([1, 2, 3] :: bytes) \<le> MaxControlFrameLength" by (simp add: MaxControlFrameLength_def)
  have wire: "concat [put_uint64 3 @ [1], [2], [3, 9]]
      = sink (snd (WriteFrame writer_write [1, 2, 3] open_sink)) @ [9]"
    using WriteFrame_open [of open_sink, OF _ fits] by simp
  from frame_roundtrip [OF fits wire] show ?thesis by blast
qed

text \<open>
  C2: a frame whose header announces more than 1 MiB is refused with
  \<open>ErrControlFrameTooLarge\<close> and only the eight header bytes have been taken from the
  connection; a payload of more than 1 MiB is never written, not even in part.
\<close>

theorem frame_too_large:
  assumes "read_full 8 r = (Inr header, r')" and "1048576 < unat (get_uint64 header)"
    and "1048576 < length payload"
  shows "ReadFrame r = (Inl ErrControlFrameTooLarge, r') \<and> stream r = header @ stream r' \<and> length header = 8
    \<and> WriteFrame wr payload w = (Some ErrControlFrameTooLarge, w)"
proof -
  have "(of_nat MaxControlFrameLength :: u64) < get_uint64 header"
    using assms(2) by (simp add: word_less_nat_alt MaxControlFrameLength_def)
  with assms read_full_sound [OF assms(1)] show ?thesis
    by (simp add: ReadFrame_def WriteFrame_def MaxControlFrameLength_def)
qed

theorem frame_too_large_witness:
  "ReadFrame (reader_of [put_uint64 1048577 @ [7]]) = (Inl ErrControlFrameTooLarge, reader_of [[7]])
   \<and> WriteFrame writer_write (replicate 1048577 0) open_sink = (Some ErrControlFrameTooLarge, open_sink)"
proof -
  have hd: "read_full 8 (reader_of [put_uint64 1048577 @ [7]]) = (Inr (put_uint64 1048577), reader_of [[7]])"
    by (simp add: read_full_def read_full_from.simps)
  show ?thesis
    using frame_too_large [OF hd, of "replicate 1048577 0" writer_write open_sink] by simp
qed

text \<open>
  when \<open>ReadEvidence\<close> succeeds, on any connection and any destination, it has consumed
  exactly the header and the announced number of bytes, the destination has received exactly
  these bytes, and the returned metadata is their number and their SHA-256.
\<close>

theorem evidence_read_exact:
  assumes "ReadEvidence writer_write r w = (Inr m, r', w')"
  shows "\<exists>header d. stream r = header @ d @ stream r' \<and> length header = 8 \<and> length d = unat (get_uint64 header)
    \<and> sink w' = sink w @ d \<and> m = \<lparr>ByteCount = get_uint64 header, SHA256 = sha256_hex d\<rparr>"
proof -
  from assms obtain header r1 d where hd: "read_full 8 r = (Inr header, r1)"
    and loop: "streamEvidence_loop reader_read writer_write (get_uint64 header) [] r1 w = (Inr d, r', w')"
    and m: "m = \<lparr>ByteCount = get_uint64 header, SHA256 = sha256_hex d\<rparr>"
    by (auto simp: ReadEvidence_def ReadEvidenceHeader_def streamEvidence_def
        split: prod.splits sum.splits)
  from read_full_sound [OF hd] script_copy.stream_loop_sound [OF loop] m show ?thesis by auto
qed

theorem evidence_read_exact_witness:
  "\<exists>header d. put_uint64 2 @ [5, 6, 7] = header @ d @ [7] \<and> length header = 8 \<and> length d = unat (get_uint64 header)
    \<and> [5, 6] = [] @ d \<and> \<lparr>ByteCount = 2, SHA256 = sha256_hex [5, 6]\<rparr> = \<lparr>ByteCount = get_uint64 header, SHA256 = sha256_hex d\<rparr>"
proof -
  have hd: "read_full 8 [(put_uint64 2 @ [5], None), ([6, 7], None)] = (Inr (put_uint64 2), [([5], None), ([6, 7], None)])"
    by (simp add: read_full_def read_full_from.simps)
  have "ReadEvidence writer_write [(put_uint64 2 @ [5], None), ([6, 7], None)] open_sink
      = (Inr \<lparr>ByteCount = 2, SHA256 = sha256_hex [5, 6]\<rparr>, [([7], None)], \<lparr>sink = [5, 6], plan = []\<rparr>)"
    by (simp add: ReadEvidence_def ReadEvidenceHeader_def hd streamEvidence_def evidenceCopyBufferSize_def
        streamEvidence_loop.simps [of reader_read writer_write 2] streamEvidence_loop.simps [of reader_read writer_write 1]
        writeAll_open)
  from evidence_read_exact [OF this] show ?thesis by simp
qed

text \<open>
  C3: evidence that \<open>WriteEvidence\<close> streams from a source that has it (in any segmentation)
  is received unchanged by \<open>ReadEvidence\<close>, however the connection cuts it, and both ends
  compute the same metadata.
\<close>

theorem evidence_roundtrip:
  assumes "clean src" and "unat len \<le> length (stream src)"
    and "[] \<notin> set cs"
    and "concat cs = sink (snd (snd (WriteEvidence reader_read writer_write len src open_sink)))"
  shows "\<exists>m src' r' w'. WriteEvidence reader_read writer_write len src open_sink = (Inr m, src', w')
    \<and> m = \<lparr>ByteCount = len, SHA256 = sha256_hex (take (unat len) (stream src))\<rparr>
    \<and> ReadEvidence writer_write (reader_of cs) open_sink = (Inr m, r', \<lparr>sink = take (unat len) (stream src), plan = []\<rparr>)"
proof -
  let ?d = "take (unat len) (stream src)"
  have "\<exists>src' w'. streamEvidence_loop reader_read writer_write len [] src \<lparr>sink = put_uint64 len, plan = []\<rparr>
      = (Inr ?d, src', w') \<and> sink w' = put_uint64 len @ ?d"
    using clean_copy.stream_loop_live [of src "\<lparr>sink = put_uint64 len, plan = []\<rparr>" len "[]"] assms(1,2) by auto
  then obtain src' w' where wr: "WriteEvidence reader_read writer_write len src open_sink
      = (Inr \<lparr>ByteCount = len, SHA256 = sha256_hex ?d\<rparr>, src', w')" and wire: "sink w' = put_uint64 len @ ?d"
    by (auto simp: WriteEvidence_def WriteEvidenceHeader_open streamEvidence_def)
  with assms(4) have cs: "concat cs = put_uint64 len @ ?d" by simp
  then have "8 \<le> length (concat cs)" by simp
  then obtain cs1 where "read_full 8 (reader_of cs) = (Inr (take 8 (concat cs)), reader_of cs1)"
    and "concat cs1 = drop 8 (concat cs)" by (rule read_full_segments)
  with cs have hd: "read_full 8 (reader_of cs) = (Inr (put_uint64 len), reader_of cs1)" and cs1: "concat cs1 = ?d"
    by simp_all
  have clean1: "clean (reader_of cs1)"
    using read_full_clean [OF hd] assms(3) by (simp add: clean_reader_of)
  have "\<exists>r' w'. streamEvidence_loop reader_read writer_write len [] (reader_of cs1) open_sink = (Inr ?d, r', w')
      \<and> plan w' = [] \<and> sink w' = ?d"
    using clean_copy.stream_loop_live [of "reader_of cs1" open_sink len "[]"] clean1 assms(2) cs1 by auto
  then obtain r' w2 where "streamEvidence_loop reader_read writer_write len [] (reader_of cs1) open_sink = (Inr ?d, r', w2)"
    "w2 = \<lparr>sink = ?d, plan = []\<rparr>" by auto
  with hd wr show ?thesis by (simp add: ReadEvidence_def ReadEvidenceHeader_def streamEvidence_def)
qed

theorem evidence_roundtrip_witness:
  "\<exists>m src' r' w'. WriteEvidence reader_read writer_write 3 [([1, 2], None), ([3, 4], None)] open_sink = (Inr m, src', w')
    \<and> m = \<lparr>ByteCount = 3, SHA256 = sha256_hex [1, 2, 3]\<rparr>
    \<and> ReadEvidence writer_write (reader_of [put_uint64 3, [1], [2, 3]]) open_sink = (Inr m, r', \<lparr>sink = [1, 2, 3], plan = []\<rparr>)"
proof -
  have "sink (snd (snd (WriteEvidence reader_read writer_write 3 [([1, 2], None), ([3, 4], None)] open_sink)))
      = put_uint64 3 @ [1, 2, 3]"
    by (simp add: WriteEvidence_def WriteEvidenceHeader_open streamEvidence_def evidenceCopyBufferSize_def
        streamEvidence_loop.simps [of reader_read writer_write 3] streamEvidence_loop.simps [of reader_read writer_write 1]
        writeAll_open)
  then have wire: "concat [put_uint64 3, [1], [2, 3]]
      = sink (snd (snd (WriteEvidence reader_read writer_write 3 [([1, 2], None), ([3, 4], None)] open_sink)))" by simp
  have src: "clean [([1, 2], None), ([3, 4], None)]" "unat (3 :: u64) \<le> length (stream [([1, 2], None), ([3, 4], None)])"
    by (simp_all add: clean_def)
  have "[] \<notin> set [put_uint64 3, [1], [2, 3]]" by (simp add: put_uint64_def)
  from evidence_roundtrip [OF src this wire] show ?thesis by simp
qed

end
