(* ===== verification/Database.thy ===== *)
theory Database
  imports Sha256
begin

text \<open>
  The SQLite database as the program uses it: the tables of \<open>migrations/001_initial.sql\<close> and
  \<open>002_capture_attempts.sql\<close> with their keys, foreign keys, checks and triggers, the
  statements that \<open>internal/storage\<close> executes, and transactions on the store's single
  connection.

  The driver is not part of the repository.  Whether one of its calls fails is decided by a
  script, \<open>faults\<close>: each call (and each look at the context's cancellation) takes the next
  entry, \<open>Some e\<close> makes it fail with \<open>e\<close> and without effect, an empty script means that
  nothing fails any more.  All theorems about the store hold for every script.  A commit
  that fails has not committed.
\<close>

section \<open>Time\<close>

text \<open>
  A \<open>time.Time\<close> is an instant, in nanoseconds since the zero time (1 January of year 1, UTC),
  and a zone offset.  The program only asks whether a time is zero, normalises it to UTC,
  compares instants and stores them as \<open>RFC3339Nano\<close> text.  The stored text is represented by
  the instant it denotes; reading it back succeeds for the years 0 to 9999, which are the ones
  the layout's four-digit year can express.
\<close>

record go_time =
  instant :: int
  zone :: int

datatype time_text = RFC3339Nano int

definition zero_time :: go_time where
  "zero_time = \<lparr>instant = 0, zone = 0\<rparr>"

definition IsZero :: "go_time \<Rightarrow> bool" where
  "IsZero t = (instant t = 0)"

definition UTC :: "go_time \<Rightarrow> go_time" where
  "UTC t = t\<lparr>zone := 0\<rparr>"

definition time_equal :: "go_time \<Rightarrow> go_time \<Rightarrow> bool" where
  "time_equal a b = (instant a = instant b)"

definition format_utc :: "go_time \<Rightarrow> time_text" where
  "format_utc t = RFC3339Nano (instant t)"

text \<open>The first instant of year 0 and the first of year 10000.\<close>

definition year_0 :: int where
  "year_0 = - 366 * 86400 * 1000000000"

definition year_10000 :: int where
  "year_10000 = 3652059 * 86400 * 1000000000"

fun parse_time :: "time_text \<Rightarrow> go_time option" where
  "parse_time (RFC3339Nano n) =
     (if year_0 \<le> n \<and> n < year_10000 then Some \<lparr>instant = n, zone = 0\<rparr> else None)"

lemma parse_format: "year_0 \<le> instant t \<Longrightarrow> instant t < year_10000 \<Longrightarrow> parse_time (format_utc t) = Some (UTC t)"
  by (simp add: format_utc_def UTC_def)

section \<open>Tables\<close>

record project_row =
  pr_id :: string
  pr_created_at :: time_text

record session_row =
  se_id :: string
  se_project_id :: string
  se_created_at :: time_text

record event_row =
  er_id :: string
  er_protocol_version :: int
  er_event_type :: string
  er_project_id :: string
  er_session_id :: string
  er_exchange_id :: "string option"
  er_sequence :: int
  er_occurred_at :: time_text
  er_received_at :: time_text
  er_payload_encoding :: string
  er_declared_size :: u64
  er_actual_size :: u64
  er_payload_sha256 :: string

record chunk_row =
  cr_event_id :: string
  cr_chunk_index :: int
  cr_content :: bytes

record fts_row =
  fr_event_id :: string
  fr_project_id :: string
  fr_session_id :: string
  fr_exchange_id :: "string option"
  fr_content :: bytes

record attempt_row =
  ar_attempt_id :: string
  ar_event_id :: string
  ar_event_type :: string
  ar_protocol_version :: int
  ar_project_id :: string
  ar_session_id :: string
  ar_exchange_id :: "string option"
  ar_sequence :: int
  ar_occurred_at :: time_text
  ar_payload_encoding :: string
  ar_declared_size :: u64
  ar_status :: string
  ar_started_at :: time_text
  ar_completed_at :: "time_text option"
  ar_failure_stage :: "string option"

record database =
  projects :: "project_row list"
  sessions :: "session_row list"
  capture_events :: "event_row list"
  capture_event_chunks :: "chunk_row list"
  capture_fts :: "fts_row list"
  capture_attempts :: "attempt_row list"

definition empty_database :: database where
  "empty_database = \<lparr>projects = [], sessions = [], capture_events = [], capture_event_chunks = [],
     capture_fts = [], capture_attempts = []\<rparr>"

section \<open>Statements\<close>

type_synonym statement = "database \<Rightarrow> go_error + database"

definition unique_failed :: "string \<Rightarrow> go_error" where
  "unique_failed column = DriverErr (''constraint failed: UNIQUE constraint failed: '' @ column @ '' (1555)'')"

definition foreign_key_failed :: go_error where
  "foreign_key_failed = DriverErr ''constraint failed: FOREIGN KEY constraint failed (787)''"

definition check_failed :: go_error where
  "check_failed = DriverErr ''constraint failed: CHECK constraint failed (275)''"

definition trigger_abort :: "string \<Rightarrow> go_error" where
  "trigger_abort msg = DriverErr (''constraint failed: '' @ msg @ '' (1811)'')"

text \<open>\<open>INSERT INTO projects ... ON CONFLICT(id) DO NOTHING\<close>, and the same for sessions.\<close>

definition insert_project :: "string \<Rightarrow> time_text \<Rightarrow> statement" where
  "insert_project i now d =
     (if i \<in> set (map pr_id (projects d)) then Inr d
      else Inr (d\<lparr>projects := projects d @ [\<lparr>pr_id = i, pr_created_at = now\<rparr>]\<rparr>))"

definition insert_session :: "string \<Rightarrow> string \<Rightarrow> time_text \<Rightarrow> statement" where
  "insert_session i p now d =
     (if i \<in> set (map se_id (sessions d)) then Inr d
      else if p \<notin> set (map pr_id (projects d)) then Inl foreign_key_failed
      else Inr (d\<lparr>sessions := sessions d @ [\<lparr>se_id = i, se_project_id = p, se_created_at = now\<rparr>]\<rparr>))"

definition insert_event :: "event_row \<Rightarrow> statement" where
  "insert_event row d =
     (if er_id row \<in> set (map er_id (capture_events d)) then Inl (unique_failed ''capture_events.id'')
      else if er_project_id row \<notin> set (map pr_id (projects d)) \<or> er_session_id row \<notin> set (map se_id (sessions d))
        then Inl foreign_key_failed
      else Inr (d\<lparr>capture_events := capture_events d @ [row]\<rparr>))"

definition insert_chunk :: "chunk_row \<Rightarrow> statement" where
  "insert_chunk row d =
     (if (cr_event_id row, cr_chunk_index row) \<in> set (map (\<lambda>c. (cr_event_id c, cr_chunk_index c)) (capture_event_chunks d))
        then Inl (unique_failed ''capture_event_chunks.event_id, capture_event_chunks.chunk_index'')
      else if cr_event_id row \<notin> set (map er_id (capture_events d)) then Inl foreign_key_failed
      else Inr (d\<lparr>capture_event_chunks := capture_event_chunks d @ [row]\<rparr>))"

definition insert_fts :: "fts_row \<Rightarrow> statement" where
  "insert_fts row d = Inr (d\<lparr>capture_fts := capture_fts d @ [row]\<rparr>)"

text \<open>
  \<open>UPDATE capture_events SET actual_size = ?, payload_sha256 = ? WHERE id = ?\<close>: the trigger
  \<open>capture_events_no_update\<close> aborts it for a row whose hash has been set.
\<close>

definition update_event_integrity :: "string \<Rightarrow> u64 \<Rightarrow> string \<Rightarrow> statement" where
  "update_event_integrity i sz hash d =
     (if \<exists>r \<in> set (capture_events d). er_id r = i \<and> er_payload_sha256 r \<noteq> ''''
        then Inl (trigger_abort ''capture_events are immutable'')
      else Inr (d\<lparr>capture_events := map (\<lambda>r. if er_id r = i
                  then r\<lparr>er_actual_size := sz, er_payload_sha256 := hash\<rparr> else r) (capture_events d)\<rparr>))"

definition status_texts :: "string list" where
  "status_texts = [''pending'', ''completed'', ''capture_incomplete'']"

definition insert_attempt :: "attempt_row \<Rightarrow> statement" where
  "insert_attempt row d =
     (if ar_attempt_id row \<in> set (map ar_attempt_id (capture_attempts d))
        then Inl (unique_failed ''capture_attempts.attempt_id'')
      else if ar_status row \<notin> set status_texts then Inl check_failed
      else Inr (d\<lparr>capture_attempts := capture_attempts d @ [row]\<rparr>))"

definition update_attempt :: "(attempt_row \<Rightarrow> bool) \<Rightarrow> string \<Rightarrow> time_text \<Rightarrow> string option \<Rightarrow> statement" where
  "update_attempt which status now stage d =
     (if status \<notin> set status_texts then Inl check_failed
      else Inr (d\<lparr>capture_attempts := map (\<lambda>a. if which a
                  then a\<lparr>ar_status := status, ar_completed_at := Some now, ar_failure_stage := stage\<rparr> else a)
                (capture_attempts d)\<rparr>))"

section \<open>Queries\<close>

definition select_event :: "string \<Rightarrow> database \<Rightarrow> event_row option" where
  "select_event i d = find (\<lambda>r. er_id r = i) (capture_events d)"

text \<open>\<open>SELECT ... FROM capture_event_chunks WHERE event_id = ? ORDER BY chunk_index\<close>.\<close>

definition select_chunks :: "string \<Rightarrow> database \<Rightarrow> chunk_row list" where
  "select_chunks i d = sort_key cr_chunk_index (filter (\<lambda>c. cr_event_id c = i) (capture_event_chunks d))"

definition select_attempt :: "string \<Rightarrow> database \<Rightarrow> attempt_row option" where
  "select_attempt i d = find (\<lambda>a. ar_attempt_id a = i) (capture_attempts d)"

section \<open>Connection, transactions, faults\<close>

record store =
  committed :: database
  working :: "database option"
  faults :: "go_error option list"
  clock :: int

type_synonym 'a storep = "(store, 'a) prog"

text \<open>One call into the driver, or one look at the context.\<close>

definition driver_step :: "unit storep" where
  "driver_step s =
     (case faults s of
        [] \<Rightarrow> (Inr (), s)
      | None # fs \<Rightarrow> (Inr (), s\<lparr>faults := fs\<rparr>)
      | Some e # fs \<Rightarrow> (Inl e, s\<lparr>faults := fs\<rparr>))"

definition ctx_check :: "unit storep" where
  "ctx_check = driver_step"

definition tx_done :: go_error where
  "tx_done = ErrNew ''sql: transaction has already been committed or rolled back''"

definition begin_tx :: "unit storep" where
  "begin_tx = gbind driver_step (\<lambda>_ s. (Inr (), s\<lparr>working := Some (committed s)\<rparr>))"

definition exec_tx :: "statement \<Rightarrow> unit storep" where
  "exec_tx stmt = gbind driver_step (\<lambda>_ s.
     case working s of
       None \<Rightarrow> (Inl tx_done, s)
     | Some d \<Rightarrow> (case stmt d of Inl e \<Rightarrow> (Inl e, s) | Inr d' \<Rightarrow> (Inr (), s\<lparr>working := Some d'\<rparr>)))"

definition query_tx :: "(database \<Rightarrow> 'a) \<Rightarrow> 'a storep" where
  "query_tx f = gbind driver_step (\<lambda>_ s.
     case working s of None \<Rightarrow> (Inl tx_done, s) | Some d \<Rightarrow> (Inr (f d), s))"

text \<open>A query for one row: \<open>sql.ErrNoRows\<close> when there is none.\<close>

definition row_of :: "'a option \<Rightarrow> 'a storep" where
  "row_of r = (case r of None \<Rightarrow> gthrow ErrNoRows | Some x \<Rightarrow> gret x)"

definition query_db :: "(database \<Rightarrow> 'a) \<Rightarrow> 'a storep" where
  "query_db f = gbind driver_step (\<lambda>_ s. (Inr (f (committed s)), s))"

definition commit_tx :: "unit storep" where
  "commit_tx = gbind driver_step (\<lambda>_ s.
     case working s of None \<Rightarrow> (Inl tx_done, s) | Some d \<Rightarrow> (Inr (), s\<lparr>committed := d, working := None\<rparr>))"

text \<open>\<open>time.Now().UTC()\<close>; the clock advances with every reading.\<close>

definition time_now :: "go_time storep" where
  "time_now s = (Inr \<lparr>instant = clock s, zone = 0\<rparr>, s\<lparr>clock := clock s + 1\<rparr>)"

text \<open>
  Programs of the store run in a surrounding state \<open>'x\<close> (a connection, a destination):
  \<open>lift_store\<close> leaves it alone.  \<open>with_tx\<close> is \<open>BeginTx\<close> with the deferred
  \<open>Rollback\<close>: whatever has not been committed when the body returns is dropped.
\<close>

definition lift_store :: "'a storep \<Rightarrow> (store \<times> 'x, 'a) prog" where
  "lift_store m = (\<lambda>(s, x). case m s of (r, s') \<Rightarrow> (r, (s', x)))"

definition rollback_tx :: "store \<Rightarrow> store" where
  "rollback_tx s = s\<lparr>working := None\<rparr>"

definition with_tx :: "(store \<times> 'x, 'a) prog \<Rightarrow> (store \<times> 'x, 'a) prog" where
  "with_tx body = gbind (lift_store begin_tx) (\<lambda>_ sx.
     case body sx of (r, (s, x)) \<Rightarrow> (r, (rollback_tx s, x)))"

text \<open>The same for operations that touch nothing but the store.\<close>

definition with_store_tx :: "'a storep \<Rightarrow> 'a storep" where
  "with_store_tx body = gbind begin_tx (\<lambda>_ s. case body s of (r, s') \<Rightarrow> (r, rollback_tx s'))"

section \<open>Weakest preconditions of the primitives\<close>

named_theorems wp_intros "introduction rules for the weakest preconditions of store programs"

lemmas wp_struct_intros [wp_intros] =
  wp_gret [THEN iffD2] wp_gthrow [THEN iffD2] wp_gbind [THEN iffD2] wp_gwrap [THEN iffD2]

lemma wp_gtry_case [wp_intros]:
  "wp m (\<lambda>x. wp (g x) Q E) (\<lambda>e. wp (f e) Q E) s \<Longrightarrow>
     wp (gtry m (\<lambda>r. case r of Inl e \<Rightarrow> f e | Inr x \<Rightarrow> g x)) Q E s"
  by (simp add: wp_gtry)

lemma wp_ifI [wp_intros]:
  "(b \<Longrightarrow> wp m Q E s) \<Longrightarrow> (\<not> b \<Longrightarrow> wp n Q E s) \<Longrightarrow> wp (if b then m else n) Q E s"
  by simp

lemma wp_case_optionI [wp_intros]:
  "(x = None \<Longrightarrow> wp m Q E s) \<Longrightarrow> (\<And>y. x = Some y \<Longrightarrow> wp (f y) Q E s) \<Longrightarrow>
     wp (case x of None \<Rightarrow> m | Some y \<Rightarrow> f y) Q E s"
  by (cases x) simp_all

lemma wp_case_sumI [wp_intros]:
  "(\<And>e. x = Inl e \<Longrightarrow> wp (f e) Q E s) \<Longrightarrow> (\<And>y. x = Inr y \<Longrightarrow> wp (g y) Q E s) \<Longrightarrow>
     wp (case x of Inl e \<Rightarrow> f e | Inr y \<Rightarrow> g y) Q E s"
  by (cases x) simp_all

lemma wp_case_prodI [wp_intros]:
  "(\<And>a b. x = (a, b) \<Longrightarrow> wp (f a b) Q E s) \<Longrightarrow> wp (case x of (a, b) \<Rightarrow> f a b) Q E s"
  by (cases x) simp

lemma wp_driver_step [wp_intros]:
  assumes "\<And>fs. Q () (s\<lparr>faults := fs\<rparr>)" and "\<And>e fs. E e (s\<lparr>faults := fs\<rparr>)"
  shows "wp driver_step Q E s"
proof -
  have "Q () (s\<lparr>faults := faults s\<rparr>)" by (rule assms(1))
  then have "Q () s" by simp
  with assms show ?thesis by (auto simp: wp_def driver_step_def split: list.splits option.splits)
qed

lemma wp_ctx_check [wp_intros]:
  "(\<And>fs. Q () (s\<lparr>faults := fs\<rparr>)) \<Longrightarrow> (\<And>e fs. E e (s\<lparr>faults := fs\<rparr>)) \<Longrightarrow> wp ctx_check Q E s"
  unfolding ctx_check_def by (rule wp_driver_step)

lemma wp_begin_tx [wp_intros]:
  "(\<And>fs. Q () (s\<lparr>faults := fs, working := Some (committed s)\<rparr>)) \<Longrightarrow> (\<And>e fs. E e (s\<lparr>faults := fs\<rparr>))
     \<Longrightarrow> wp begin_tx Q E s"
  unfolding begin_tx_def by (intro wp_intros) (simp_all add: wp_def)

lemma wp_exec_tx [wp_intros]:
  assumes "\<And>fs d d'. working s = Some d \<Longrightarrow> stmt d = Inr d' \<Longrightarrow> Q () (s\<lparr>faults := fs, working := Some d'\<rparr>)"
    and "\<And>e fs. E e (s\<lparr>faults := fs\<rparr>)"
  shows "wp (exec_tx stmt) Q E s"
  unfolding exec_tx_def using assms
  by (intro wp_intros) (auto simp: wp_def split: option.splits sum.splits)

lemma wp_query_tx [wp_intros]:
  assumes "\<And>fs d. working s = Some d \<Longrightarrow> Q (f d) (s\<lparr>faults := fs\<rparr>)"
    and "\<And>e fs. E e (s\<lparr>faults := fs\<rparr>)"
  shows "wp (query_tx f) Q E s"
  unfolding query_tx_def using assms
  by (intro wp_intros) (auto simp: wp_def split: option.splits)

lemma wp_row_of [wp_intros]:
  "(\<And>x. r = Some x \<Longrightarrow> Q x s) \<Longrightarrow> (r = None \<Longrightarrow> E ErrNoRows s) \<Longrightarrow> wp (row_of r) Q E s"
  by (cases r) (simp_all add: row_of_def wp_simps)

lemma wp_query_db [wp_intros]:
  assumes "\<And>fs. Q (f (committed s)) (s\<lparr>faults := fs\<rparr>)" and "\<And>e fs. E e (s\<lparr>faults := fs\<rparr>)"
  shows "wp (query_db f) Q E s"
  unfolding query_db_def using assms by (intro wp_intros) (simp_all add: wp_def)

lemma wp_commit_tx [wp_intros]:
  assumes "\<And>fs d. working s = Some d \<Longrightarrow> Q () (s\<lparr>faults := fs, committed := d, working := None\<rparr>)"
    and "\<And>e fs. E e (s\<lparr>faults := fs\<rparr>)"
  shows "wp commit_tx Q E s"
  unfolding commit_tx_def using assms
  by (intro wp_intros) (auto simp: wp_def split: option.splits)

lemma wp_time_now [wp_intros]:
  "Q \<lparr>instant = clock s, zone = 0\<rparr> (s\<lparr>clock := clock s + 1\<rparr>) \<Longrightarrow> wp time_now Q E s"
  by (simp add: wp_def time_now_def)

lemma wp_lift_store [wp_intros]:
  "wp m (\<lambda>a s'. Q a (s', x)) (\<lambda>e s'. E e (s', x)) s \<Longrightarrow> wp (lift_store m) Q E (s, x)"
  by (auto simp: wp_def lift_store_def split: prod.splits sum.splits)

lemma wp_with_tx:
  assumes "\<And>fs. wp body (\<lambda>a (s', x'). Q a (rollback_tx s', x')) (\<lambda>e (s', x'). E e (rollback_tx s', x'))
      (s\<lparr>faults := fs, working := Some (committed s)\<rparr>, x)"
    and "\<And>e fs. E e (s\<lparr>faults := fs\<rparr>, x)"
  shows "wp (with_tx body) Q E (s, x)"
  unfolding with_tx_def
proof (intro wp_intros)
  fix fs
  show "wp (\<lambda>sx. case body sx of (r, s, x) \<Rightarrow> (r, rollback_tx s, x)) Q E
      (s\<lparr>faults := fs, working := Some (committed s)\<rparr>, x)"
    using assms(1) [of fs] by (auto simp: wp_def split: prod.splits sum.splits)
qed (rule assms(2))

lemma wp_with_store_tx:
  assumes "\<And>fs. wp body (\<lambda>a s'. Q a (rollback_tx s')) (\<lambda>e s'. E e (rollback_tx s')) (s\<lparr>faults := fs, working := Some (committed s)\<rparr>)"
    and "\<And>e fs. E e (s\<lparr>faults := fs\<rparr>)"
  shows "wp (with_store_tx body) Q E s"
  unfolding with_store_tx_def
proof (intro wp_intros)
  fix fs
  show "wp (\<lambda>s. case body s of (r, s') \<Rightarrow> (r, rollback_tx s')) Q E (s\<lparr>faults := fs, working := Some (committed s)\<rparr>)"
    using assms(1) [of fs] by (auto simp: wp_def split: prod.splits sum.splits)
qed (rule assms(2))

text \<open>The fields that the bookkeeping touches.\<close>

lemma rollback_tx_simps [simp]:
  "committed (rollback_tx s) = committed s" "working (rollback_tx s) = None"
  "faults (rollback_tx s) = faults s" "clock (rollback_tx s) = clock s"
  by (simp_all add: rollback_tx_def)

text \<open>States that differ in the position in the fault script only: the effect of a query.\<close>

definition same_db :: "store \<Rightarrow> store \<Rightarrow> bool" where
  "same_db s s' = (\<exists>fs. s' = s\<lparr>faults := fs\<rparr>)"

lemma same_db_refl [simp]: "same_db s s"
  unfolding same_db_def by (rule exI [of _ "faults s"]) simp

lemma same_db_faults [simp]: "same_db s (s\<lparr>faults := fs\<rparr>)"
  by (auto simp: same_db_def)

lemma same_db_trans: "same_db s t \<Longrightarrow> same_db t u \<Longrightarrow> same_db s u"
  by (auto simp: same_db_def)

lemma same_db_fields:
  "same_db s s' \<Longrightarrow> committed s' = committed s \<and> working s' = working s \<and> clock s' = clock s"
  by (auto simp: same_db_def)

section \<open>Execution without faults\<close>

named_theorems calm_simps "execution of the primitives when the fault script is empty"

lemma calm_driver_step [calm_simps]: "faults s = [] \<Longrightarrow> driver_step s = (Inr (), s)"
  by (simp add: driver_step_def)

lemma calm_ctx_check [calm_simps]: "faults s = [] \<Longrightarrow> ctx_check s = (Inr (), s)"
  by (simp add: ctx_check_def calm_simps)

lemma calm_begin_tx [calm_simps]:
  "faults s = [] \<Longrightarrow> begin_tx s = (Inr (), s\<lparr>working := Some (committed s)\<rparr>)"
  by (simp add: begin_tx_def run_simps calm_simps)

lemma calm_exec_tx [calm_simps]:
  "faults s = [] \<Longrightarrow> working s = Some d \<Longrightarrow>
     exec_tx stmt s = (case stmt d of Inl e \<Rightarrow> (Inl e, s) | Inr d' \<Rightarrow> (Inr (), s\<lparr>working := Some d'\<rparr>))"
  by (simp add: exec_tx_def run_simps calm_simps)

lemma calm_query_tx [calm_simps]:
  "faults s = [] \<Longrightarrow> working s = Some d \<Longrightarrow> query_tx f s = (Inr (f d), s)"
  by (simp add: query_tx_def run_simps calm_simps)

lemma row_of_Some [simp]: "row_of (Some x) = gret x" and row_of_None [simp]: "row_of None = gthrow ErrNoRows"
  by (simp_all add: row_of_def)

lemma calm_query_db [calm_simps]: "faults s = [] \<Longrightarrow> query_db f s = (Inr (f (committed s)), s)"
  by (simp add: query_db_def run_simps calm_simps)

lemma calm_commit_tx [calm_simps]:
  "faults s = [] \<Longrightarrow> working s = Some d \<Longrightarrow> commit_tx s = (Inr (), s\<lparr>committed := d, working := None\<rparr>)"
  by (simp add: commit_tx_def run_simps calm_simps)

lemma calm_lift_store [calm_simps]: "lift_store m (s, x) = (case m s of (r, s') \<Rightarrow> (r, (s', x)))"
  by (simp add: lift_store_def)

lemma calm_with_tx [calm_simps]:
  "faults s = [] \<Longrightarrow>
     with_tx body (s, x) = (case body (s\<lparr>working := Some (committed s)\<rparr>, x) of (r, (s', x')) \<Rightarrow> (r, (rollback_tx s', x')))"
  by (simp add: with_tx_def run_simps calm_simps)

lemma calm_with_store_tx [calm_simps]:
  "faults s = [] \<Longrightarrow>
     with_store_tx body s = (case body (s\<lparr>working := Some (committed s)\<rparr>) of (r, s') \<Rightarrow> (r, rollback_tx s'))"
  by (simp add: with_store_tx_def run_simps calm_simps)

end
