(* ===== verification/Json.thy ===== *)
theory Json
  imports Encodings Database "HOL-Library.Char_ord"
begin

text \<open>
  The parts of \<open>encoding/json\<close> that the program uses: the decoder (grammar, nesting limit,
  string unquoting with its replacement of invalid UTF-8, matching of object keys to struct
  fields, the decoding of strings, integers, booleans, times and raw messages), and the
  encoder with its HTML escaping.  A value keeps its string literals as they are written, as
  \<open>json.RawMessage\<close> and \<open>time.Time\<close> look at the text.
\<close>

unbundle bit_operations_syntax

section \<open>Text and bytes\<close>

text \<open>A Go string is a sequence of bytes; in the model its characters are these bytes.\<close>

definition bytes_of :: "string \<Rightarrow> bytes" where
  "bytes_of s = map (\<lambda>c. of_nat (of_char c)) s"

definition str_of :: "bytes \<Rightarrow> string" where
  "str_of bs = map (\<lambda>b. char_of (unat b)) bs"

lemma str_of_bytes_of [simp]: "str_of (bytes_of s) = s"
  by (induction s) (simp_all add: str_of_def bytes_of_def unat_of_nat take_bit_eq_mod)

section \<open>Runes\<close>

text \<open>The length of the well-formed UTF-8 sequence at the front, 0 when there is none.\<close>

definition rune_length :: "bytes \<Rightarrow> nat" where
  "rune_length bs =
     (case bs of
        [] \<Rightarrow> 0
      | a # r \<Rightarrow>
          if a < 0x80 then 1
          else if 0xC2 \<le> a \<and> a \<le> 0xDF then (if utf8_valid (take 2 bs) then 2 else 0)
          else if 0xE0 \<le> a \<and> a \<le> 0xEF then (if utf8_valid (take 3 bs) then 3 else 0)
          else if 0xF0 \<le> a \<and> a \<le> 0xF4 then (if utf8_valid (take 4 bs) then 4 else 0)
          else 0)"

definition encode_rune :: "nat \<Rightarrow> bytes" where
  "encode_rune r =
     (if r < 0x80 then [of_nat r]
      else if r < 0x800 then [of_nat (0xC0 + r div 64), of_nat (0x80 + r mod 64)]
      else if r < 0x10000 then [of_nat (0xE0 + r div 4096), of_nat (0x80 + r div 64 mod 64), of_nat (0x80 + r mod 64)]
      else [of_nat (0xF0 + r div 262144), of_nat (0x80 + r div 4096 mod 64), of_nat (0x80 + r div 64 mod 64), of_nat (0x80 + r mod 64)])"

definition replacement_char :: bytes where
  "replacement_char = [0xEF, 0xBF, 0xBD]"

section \<open>Values\<close>

text \<open>Strings and keys are the text between the quotes, numbers their literal.\<close>

datatype json =
    JNull
  | JBool bool
  | JNum string
  | JStr bytes
  | JArr "json list"
  | JObj "(bytes \<times> json) list"

section \<open>Unquoting\<close>

definition hex4 :: "bytes \<Rightarrow> nat option" where
  "hex4 bs = (if length bs < 4 then None
     else case map hex_value (str_of (take 4 bs)) of
       [Some a, Some b, Some c, Some d] \<Rightarrow> Some (a * 4096 + b * 256 + c * 16 + d)
     | _ \<Rightarrow> None)"

definition surrogate :: "nat \<Rightarrow> bool" where
  "surrogate r = (0xD800 \<le> r \<and> r \<le> 0xDFFF)"

text \<open>The second half of a surrogate pair after the first, if the text goes on with it.\<close>

definition low_surrogate :: "nat \<Rightarrow> bytes \<Rightarrow> nat option" where
  "low_surrogate hi bs =
     (if take 2 bs = bytes_of [CHR 0x5C, CHR ''u''] then
        (case hex4 (drop 2 bs) of
           Some lo \<Rightarrow> if hi < 0xDC00 \<and> 0xDC00 \<le> lo \<and> lo \<le> 0xDFFF
                      then Some (0x10000 + (hi - 0xD800) * 1024 + (lo - 0xDC00)) else None
         | None \<Rightarrow> None)
      else None)"

definition simple_escape :: "byte \<Rightarrow> byte option" where
  "simple_escape b =
     (if b = 0x22 \<or> b = 0x5C \<or> b = 0x2F then Some b
      else if b = 0x62 then Some 8 else if b = 0x66 then Some 12 else if b = 0x6E then Some 10
      else if b = 0x72 then Some 13 else if b = 0x74 then Some 9 else None)"

function unquote :: "bytes \<Rightarrow> bytes" where
  "unquote bs =
     (case bs of
        [] \<Rightarrow> []
      | a # r \<Rightarrow>
          if a = 0x5C then
            (case r of
               [] \<Rightarrow> []
             | c # r2 \<Rightarrow>
                 if c = 0x75 then
                   (case hex4 r2 of
                      None \<Rightarrow> []
                    | Some u \<Rightarrow>
                        if surrogate u then
                          (case low_surrogate u (drop 4 r2) of
                             Some v \<Rightarrow> encode_rune v @ unquote (drop 10 r2)
                           | None \<Rightarrow> replacement_char @ unquote (drop 4 r2))
                        else encode_rune u @ unquote (drop 4 r2))
                 else (case simple_escape c of None \<Rightarrow> [] | Some x \<Rightarrow> x # unquote r2))
          else if rune_length bs = 0 then replacement_char @ unquote r
          else take (rune_length bs) bs @ unquote (drop (rune_length bs) bs))"
  by pat_completeness auto
termination
  by (relation "measure length") auto

declare unquote.simps [simp del]

section \<open>Parsing\<close>

definition is_space :: "byte \<Rightarrow> bool" where
  "is_space b = (b = 0x20 \<or> b = 9 \<or> b = 10 \<or> b = 13)"

definition skip_space :: "bytes \<Rightarrow> bytes" where
  "skip_space bs = dropWhile is_space bs"

definition is_digit :: "byte \<Rightarrow> bool" where
  "is_digit b = (0x30 \<le> b \<and> b \<le> 0x39)"

text \<open>The literal up to the closing quote: escapes must be well formed, control bytes are refused.\<close>

function scan_string :: "bytes \<Rightarrow> (bytes \<times> bytes) option" where
  "scan_string bs =
     (case bs of
        [] \<Rightarrow> None
      | a # r \<Rightarrow>
          if a = 0x22 then Some ([], r)
          else if a < 0x20 then None
          else if a = 0x5C then
            (case r of
               [] \<Rightarrow> None
             | c # r2 \<Rightarrow>
                 if c = 0x75 then
                   (if hex4 r2 = None then None
                    else map_option (\<lambda>(l, rest). (a # c # take 4 r2 @ l, rest)) (scan_string (drop 4 r2)))
                 else if simple_escape c = None then None
                 else map_option (\<lambda>(l, rest). (a # c # l, rest)) (scan_string r2))
          else map_option (\<lambda>(l, rest). (a # l, rest)) (scan_string r))"
  by pat_completeness auto
termination
  by (relation "measure length") auto

declare scan_string.simps [simp del]

text \<open>The longest number at the front: integer part, fraction, exponent.\<close>

definition scan_digits :: "bytes \<Rightarrow> (bytes \<times> bytes) option" where
  "scan_digits bs = (let ds = takeWhile is_digit bs in if ds = [] then None else Some (ds, dropWhile is_digit bs))"

definition scan_int :: "bytes \<Rightarrow> (bytes \<times> bytes) option" where
  "scan_int bs =
     (case bs of [] \<Rightarrow> None | a # r \<Rightarrow> if a = 0x30 then Some ([a], r) else scan_digits bs)"

definition scan_fraction :: "bytes \<Rightarrow> (bytes \<times> bytes) option" where
  "scan_fraction bs =
     (case bs of
        [] \<Rightarrow> Some ([], [])
      | a # r \<Rightarrow> if a = 0x2E then map_option (\<lambda>(ds, rest). (a # ds, rest)) (scan_digits r) else Some ([], bs))"

definition scan_exponent :: "bytes \<Rightarrow> (bytes \<times> bytes) option" where
  "scan_exponent bs =
     (case bs of
        [] \<Rightarrow> Some ([], [])
      | e # r \<Rightarrow>
          if e = 0x65 \<or> e = 0x45 then
            (case r of
               s # r2 \<Rightarrow> if s = 0x2B \<or> s = 0x2D
                 then map_option (\<lambda>(ds, rest). (e # s # ds, rest)) (scan_digits r2)
                 else map_option (\<lambda>(ds, rest). (e # ds, rest)) (scan_digits r)
             | [] \<Rightarrow> None)
          else Some ([], bs))"

definition scan_number :: "bytes \<Rightarrow> (bytes \<times> bytes) option" where
  "scan_number bs =
     (let (sign, r0) = (case bs of [] \<Rightarrow> ([], []) | a # r \<Rightarrow> if a = 0x2D then ([a], r) else ([], bs)) in
      Option.bind (scan_int r0) (\<lambda>(i, r1). Option.bind (scan_fraction r1) (\<lambda>(f, r2).
      map_option (\<lambda>(e, r3). (sign @ i @ f @ e, r3)) (scan_exponent r2))))"

definition scan_word :: "string \<Rightarrow> json \<Rightarrow> bytes \<Rightarrow> (json \<times> bytes) option" where
  "scan_word w v bs = (if take (length w) bs = bytes_of w then Some (v, drop (length w) bs) else None)"

text \<open>
  Values, at a position without leading space.  \<open>fuel\<close> bounds the recursion (every call
  consumes a byte, so twice the length of the input is enough), \<open>depth\<close> is the nesting that
  is still allowed; the decoder refuses more than 10000 levels.
\<close>

fun parse_value :: "nat \<Rightarrow> nat \<Rightarrow> bytes \<Rightarrow> (json \<times> bytes) option"
and parse_items :: "nat \<Rightarrow> nat \<Rightarrow> bytes \<Rightarrow> (json list \<times> bytes) option"
and parse_members :: "nat \<Rightarrow> nat \<Rightarrow> bytes \<Rightarrow> ((bytes \<times> json) list \<times> bytes) option" where
  "parse_value 0 depth bs = None"
| "parse_value (Suc fuel) depth bs =
     (case bs of
        [] \<Rightarrow> None
      | a # r \<Rightarrow>
          if a = 0x22 then map_option (\<lambda>(l, rest). (JStr l, rest)) (scan_string r)
          else if a = 0x5B then
            (if depth = 0 then None
             else case skip_space r of
               [] \<Rightarrow> None
             | b # r2 \<Rightarrow> if b = 0x5D then Some (JArr [], r2)
                 else map_option (\<lambda>(vs, rest). (JArr vs, rest)) (parse_items fuel (depth - 1) (b # r2)))
          else if a = 0x7B then
            (if depth = 0 then None
             else case skip_space r of
               [] \<Rightarrow> None
             | b # r2 \<Rightarrow> if b = 0x7D then Some (JObj [], r2)
                 else map_option (\<lambda>(ms, rest). (JObj ms, rest)) (parse_members fuel (depth - 1) (b # r2)))
          else if a = 0x74 then scan_word ''true'' (JBool True) bs
          else if a = 0x66 then scan_word ''false'' (JBool False) bs
          else if a = 0x6E then scan_word ''null'' JNull bs
          else map_option (\<lambda>(l, rest). (JNum (str_of l), rest)) (scan_number bs))"
| "parse_items 0 depth bs = None"
| "parse_items (Suc fuel) depth bs =
     (case parse_value fuel depth bs of
        None \<Rightarrow> None
      | Some (v, r) \<Rightarrow>
          (case skip_space r of
             [] \<Rightarrow> None
           | b # r2 \<Rightarrow> if b = 0x5D then Some ([v], r2)
               else if b = 0x2C then map_option (\<lambda>(vs, rest). (v # vs, rest)) (parse_items fuel depth (skip_space r2))
               else None))"
| "parse_members 0 depth bs = None"
| "parse_members (Suc fuel) depth bs =
     (case bs of
        [] \<Rightarrow> None
      | q # r \<Rightarrow>
          if q \<noteq> 0x22 then None
          else case scan_string r of
            None \<Rightarrow> None
          | Some (k, r1) \<Rightarrow>
              (case skip_space r1 of
                 [] \<Rightarrow> None
               | c # r2 \<Rightarrow>
                   if c \<noteq> 0x3A then None
                   else case parse_value fuel depth (skip_space r2) of
                     None \<Rightarrow> None
                   | Some (v, r3) \<Rightarrow>
                       (case skip_space r3 of
                          [] \<Rightarrow> None
                        | b # r4 \<Rightarrow> if b = 0x7D then Some ([(k, v)], r4)
                            else if b = 0x2C then map_option (\<lambda>(ms, rest). ((k, v) # ms, rest)) (parse_members fuel depth (skip_space r4))
                            else None)))"

definition max_nesting :: nat where
  "max_nesting = 10000"

definition json_parse :: "bytes \<Rightarrow> json option" where
  "json_parse bs =
     (case parse_value (2 * length bs + 2) max_nesting (skip_space bs) of
        Some (v, rest) \<Rightarrow> if skip_space rest = [] then Some v else None
      | None \<Rightarrow> None)"

section \<open>Printing\<close>

definition hex_digit :: "nat \<Rightarrow> byte" where
  "hex_digit n = (if n < 10 then of_nat (0x30 + n) else of_nat (0x57 + n))"

text \<open>How the encoder writes a byte below 128, with HTML escaping.\<close>

definition escape_ascii :: "byte \<Rightarrow> bytes" where
  "escape_ascii b =
     (if b = 0x22 \<or> b = 0x5C then [0x5C, b]
      else if b = 8 then [0x5C, 0x62] else if b = 12 then [0x5C, 0x66] else if b = 10 then [0x5C, 0x6E]
      else if b = 13 then [0x5C, 0x72] else if b = 9 then [0x5C, 0x74]
      else if b < 0x20 \<or> b = 0x3C \<or> b = 0x3E \<or> b = 0x26
        then [0x5C, 0x75, 0x30, 0x30, hex_digit (unat b div 16), hex_digit (unat b mod 16)]
      else [b])"

text \<open>A sequence of several bytes: copied, but for the two line separators.\<close>

definition escape_rune :: "bytes \<Rightarrow> bytes" where
  "escape_rune rune =
     (if rune = [0xE2, 0x80, 0xA8] then bytes_of ([CHR 0x5C] @ ''u2028'')
      else if rune = [0xE2, 0x80, 0xA9] then bytes_of ([CHR 0x5C] @ ''u2029'')
      else rune)"

function quote_text :: "bytes \<Rightarrow> bytes" where
  "quote_text bs =
     (case bs of
        [] \<Rightarrow> []
      | a # r \<Rightarrow>
          if a < 0x80 then escape_ascii a @ quote_text r
          else if rune_length bs = 0 then bytes_of ([CHR 0x5C] @ ''ufffd'') @ quote_text r
          else escape_rune (take (rune_length bs) bs) @ quote_text (drop (rune_length bs) bs))"
  by pat_completeness auto
termination
  by (relation "measure length") auto

declare quote_text.simps [simp del]

abbreviation jstr :: "string \<Rightarrow> json" where
  "jstr s \<equiv> JStr (quote_text (bytes_of s))"

text \<open>Decimal numbers.\<close>

function decimal :: "nat \<Rightarrow> string" where
  "decimal n = (if n < 10 then [char_of (48 + n)] else decimal (n div 10) @ [char_of (48 + n mod 10)])"
  by pat_completeness auto
termination
  by (relation "measure id") auto

declare decimal.simps [simp del]

definition jint :: "int \<Rightarrow> json" where
  "jint i = JNum (if i < 0 then CHR ''-'' # decimal (nat (- i)) else decimal (nat i))"

definition juint :: "u64 \<Rightarrow> json" where
  "juint n = JNum (decimal (unat n))"

text \<open>Compact text, as \<open>json.Marshal\<close> prints.\<close>

fun json_text :: "json \<Rightarrow> bytes"
and items_text :: "json list \<Rightarrow> bytes"
and members_text :: "(bytes \<times> json) list \<Rightarrow> bytes" where
  "json_text JNull = bytes_of ''null''"
| "json_text (JBool b) = bytes_of (if b then ''true'' else ''false'')"
| "json_text (JNum l) = bytes_of l"
| "json_text (JStr l) = [0x22] @ l @ [0x22]"
| "json_text (JArr vs) = [0x5B] @ items_text vs @ [0x5D]"
| "json_text (JObj ms) = [0x7B] @ members_text ms @ [0x7D]"
| "items_text [] = []"
| "items_text [v] = json_text v"
| "items_text (v # w # vs) = json_text v @ [0x2C] @ items_text (w # vs)"
| "members_text [] = []"
| "members_text [(k, v)] = [0x22] @ k @ [0x22, 0x3A] @ json_text v"
| "members_text ((k, v) # m # ms) = [0x22] @ k @ [0x22, 0x3A] @ json_text v @ [0x2C] @ members_text (m # ms)"

text \<open>A struct prints its fields in order, a map sorts its keys.\<close>

definition jobject :: "(string \<times> json) list \<Rightarrow> json" where
  "jobject kvs = JObj (map (\<lambda>(k, v). (quote_text (bytes_of k), v)) kvs)"

section \<open>Decoding into Go values\<close>

text \<open>
  \<open>json.Unmarshal\<close> into a field: \<open>null\<close> leaves the old value, a value of another kind is an
  error.  All the program asks of an error is that there is one.
\<close>

definition decode_string :: "json \<Rightarrow> string \<Rightarrow> string option" where
  "decode_string v old = (case v of JNull \<Rightarrow> Some old | JStr l \<Rightarrow> Some (str_of (unquote l)) | _ \<Rightarrow> None)"

definition parse_decimal :: "string \<Rightarrow> nat option" where
  "parse_decimal l =
     (if l \<noteq> [] \<and> list_all (\<lambda>c. CHR ''0'' \<le> c \<and> c \<le> CHR ''9'') l
      then Some (foldl (\<lambda>n c. 10 * n + (of_char c - 48)) 0 l) else None)"

definition max_int64 :: int where
  "max_int64 = 9223372036854775807"

text \<open>\<open>strconv.ParseInt\<close> on a JSON literal, for a 64-bit \<open>int\<close>.\<close>

definition parse_int64 :: "string \<Rightarrow> int option" where
  "parse_int64 l =
     (case l of
        [] \<Rightarrow> None
      | c # r \<Rightarrow>
          if c = CHR ''-'' then
            (case parse_decimal r of Some n \<Rightarrow> if int n \<le> max_int64 + 1 then Some (- int n) else None | None \<Rightarrow> None)
          else (case parse_decimal l of Some n \<Rightarrow> if int n \<le> max_int64 then Some (int n) else None | None \<Rightarrow> None))"

definition decode_int :: "json \<Rightarrow> int \<Rightarrow> int option" where
  "decode_int v old = (case v of JNull \<Rightarrow> Some old | JNum l \<Rightarrow> parse_int64 l | _ \<Rightarrow> None)"

definition decode_uint64 :: "json \<Rightarrow> u64 \<Rightarrow> u64 option" where
  "decode_uint64 v old =
     (case v of
        JNull \<Rightarrow> Some old
      | JNum l \<Rightarrow> (case parse_decimal l of Some n \<Rightarrow> if n < 2 ^ 64 then Some (of_nat n) else None | None \<Rightarrow> None)
      | _ \<Rightarrow> None)"

definition decode_bool :: "json \<Rightarrow> bool \<Rightarrow> bool option" where
  "decode_bool v old = (case v of JNull \<Rightarrow> Some old | JBool b \<Rightarrow> Some b | _ \<Rightarrow> None)"

text \<open>A \<open>json.RawMessage\<close> takes every value, \<open>null\<close> too.\<close>

definition decode_raw :: "json \<Rightarrow> json option \<Rightarrow> json option option" where
  "decode_raw v old = Some (Some v)"

section \<open>Times\<close>

definition leap :: "int \<Rightarrow> bool" where
  "leap y = (y mod 4 = 0 \<and> (y mod 100 \<noteq> 0 \<or> y mod 400 = 0))"

definition month_days :: "int \<Rightarrow> nat \<Rightarrow> nat" where
  "month_days y m = (if m = 2 then (if leap y then 29 else 28) else if m \<in> {4, 6, 9, 11} then 30 else 31)"

text \<open>Days since 1 January of year 1, in the proleptic Gregorian calendar.\<close>

definition civil_days :: "int \<Rightarrow> nat \<Rightarrow> nat \<Rightarrow> int" where
  "civil_days y m d =
     365 * (y - 1) + (y - 1) div 4 - (y - 1) div 100 + (y - 1) div 400
     + int (sum_list (map (month_days y) [1..<m])) + int d - 1"

text \<open>A decimal field in a range.\<close>

definition digits_in :: "bytes \<Rightarrow> nat \<Rightarrow> nat \<Rightarrow> nat option" where
  "digits_in bs lo hi = (case parse_decimal (str_of bs) of Some n \<Rightarrow> if lo \<le> n \<and> n \<le> hi then Some n else None | None \<Rightarrow> None)"

text \<open>The zone: \<open>Z\<close> or a signed offset, as seconds east of UTC.\<close>

definition parse_zone :: "bytes \<Rightarrow> int option" where
  "parse_zone bs =
     (if bs = bytes_of ''Z'' then Some 0
      else if length bs = 6 \<and> (bs ! 0 = 0x2B \<or> bs ! 0 = 0x2D) \<and> bs ! 3 = 0x3A then
        (case (digits_in (take 2 (drop 1 bs)) 0 23, digits_in (drop 4 bs) 0 59) of
           (Some h, Some m) \<Rightarrow> Some ((if bs ! 0 = 0x2D then -1 else 1) * int (h * 3600 + m * 60))
         | _ \<Rightarrow> None)
      else None)"

definition nanoseconds :: "bytes \<Rightarrow> nat" where
  "nanoseconds ds =
     (case parse_decimal (str_of (take 9 ds) @ replicate (9 - length ds) CHR ''0'') of None \<Rightarrow> 0 | Some n \<Rightarrow> n)"

text \<open>The strict RFC 3339 parser behind \<open>time.Time.UnmarshalJSON\<close>.\<close>

definition parse_rfc3339 :: "bytes \<Rightarrow> go_time option" where
  "parse_rfc3339 bs =
     (if length bs < 20 \<or> bs ! 4 \<noteq> 0x2D \<or> bs ! 7 \<noteq> 0x2D \<or> bs ! 10 \<noteq> 0x54 \<or> bs ! 13 \<noteq> 0x3A \<or> bs ! 16 \<noteq> 0x3A then None
      else
        Option.bind (digits_in (take 4 bs) 0 9999) (\<lambda>y.
        Option.bind (digits_in (take 2 (drop 5 bs)) 1 12) (\<lambda>mo.
        Option.bind (digits_in (take 2 (drop 8 bs)) 1 (month_days (int y) mo)) (\<lambda>d.
        Option.bind (digits_in (take 2 (drop 11 bs)) 0 23) (\<lambda>h.
        Option.bind (digits_in (take 2 (drop 14 bs)) 0 59) (\<lambda>mi.
        Option.bind (digits_in (take 2 (drop 17 bs)) 0 59) (\<lambda>sec.
          let rest = drop 19 bs;
              frac = (if take 1 rest = [0x2E] then takeWhile is_digit (drop 1 rest) else []);
              tail = (if frac = [] then rest else drop (1 + length frac) rest) in
          Option.bind (parse_zone tail) (\<lambda>offset.
            Some \<lparr>instant = (civil_days (int y) mo d * 86400 + int (h * 3600 + mi * 60 + sec) - offset) * 1000000000 + int (nanoseconds frac),
                  zone = offset\<rparr>))))))))"

definition decode_time :: "json \<Rightarrow> go_time \<Rightarrow> go_time option" where
  "decode_time v old = (case v of JNull \<Rightarrow> Some old | JStr l \<Rightarrow> parse_rfc3339 l | _ \<Rightarrow> None)"

section \<open>Structs\<close>

text \<open>
  Keys match field names without regard to case, where an exact match wins; besides the ASCII
  letters only the long s and the Kelvin sign fold to a letter of a field name.
\<close>

function fold_name :: "bytes \<Rightarrow> bytes" where
  "fold_name bs =
     (case bs of
        [] \<Rightarrow> []
      | a # r \<Rightarrow>
          if take 2 bs = [0xC5, 0xBF] then 0x53 # fold_name (drop 2 bs)
          else if take 3 bs = [0xE2, 0x84, 0xAA] then 0x4B # fold_name (drop 3 bs)
          else (if 0x61 \<le> a \<and> a \<le> 0x7A then a - 32 else a) # fold_name r)"
  by pat_completeness auto
termination
  by (relation "measure length") auto

declare fold_name.simps [simp del]

definition field_of_key :: "string list \<Rightarrow> bytes \<Rightarrow> string option" where
  "field_of_key names key =
     (let k = unquote key in
      if str_of k \<in> set names then Some (str_of k)
      else find (\<lambda>n. fold_name (bytes_of n) = fold_name k) names)"

text \<open>The values assigned to a field, in the order of the text.\<close>

definition field_values :: "string list \<Rightarrow> string \<Rightarrow> (bytes \<times> json) list \<Rightarrow> json list" where
  "field_values names name ms = map snd (filter (\<lambda>(k, _). field_of_key names k = Some name) ms)"

fun decode_field :: "(json \<Rightarrow> 'a \<Rightarrow> 'a option) \<Rightarrow> 'a \<Rightarrow> json list \<Rightarrow> 'a option" where
  "decode_field dec old [] = Some old"
| "decode_field dec old (v # vs) = Option.bind (dec v old) (\<lambda>x. decode_field dec x vs)"

text \<open>The members that a struct is decoded from: \<open>null\<close> decodes to an untouched struct.\<close>

definition struct_members :: "json \<Rightarrow> (bytes \<times> json) list option" where
  "struct_members v = (case v of JNull \<Rightarrow> Some [] | JObj ms \<Rightarrow> Some ms | _ \<Rightarrow> None)"

definition json_error :: go_error where
  "json_error = ErrNew ''json: cannot unmarshal''"

end
