(* ===== verification/Messages.thy ===== *)
theory Messages
  imports Protocol Json
begin

text \<open>
  The control messages of \<open>internal/protocol/protocol.go\<close>: requests and responses, their JSON
  text, and \<open>Encode\<close> and \<open>Decode\<close>, which move one message in one control frame.

  A body is a JSON value (\<open>json.RawMessage\<close>), \<open>None\<close> the nil message, which prints as \<open>null\<close>.
  Every body that the program sends was printed by \<open>json.Marshal\<close>, so compacting it on the way
  changes nothing.
\<close>

definition Version :: int where
  "Version = 1"

record protocol_request =
  rq_ProtocolVersion :: int
  rq_RequestID :: string
  rq_Operation :: string
  rq_SentAt :: go_time
  rq_Body :: "json option"

record response_error =
  err_Code :: string
  err_Message :: string

record protocol_response =
  rs_ProtocolVersion :: int
  rs_RequestID :: string
  rs_Status :: string
  rs_Body :: "json option"
  rs_Error :: "response_error option"

section \<open>Printing\<close>

definition raw_json :: "json option \<Rightarrow> json" where
  "raw_json body = (case body of None \<Rightarrow> JNull | Some v \<Rightarrow> v)"

definition response_error_json :: "response_error \<Rightarrow> json" where
  "response_error_json e = jobject [(''code'', jstr (err_Code e)), (''message'', jstr (err_Message e))]"

text \<open>\<open>omitempty\<close> leaves out the error of a response that has none.\<close>

definition response_json :: "protocol_response \<Rightarrow> json" where
  "response_json r = jobject
     ([(''protocol_version'', jint (rs_ProtocolVersion r)), (''request_id'', jstr (rs_RequestID r)),
       (''status'', jstr (rs_Status r)), (''body'', raw_json (rs_Body r))]
      @ (case rs_Error r of None \<Rightarrow> [] | Some e \<Rightarrow> [(''error'', response_error_json e)]))"

text \<open>
  \<open>time.Time.MarshalJSON\<close> for a time in UTC: an error outside the years 0 to 9999.  The year of
  a day is looked for from \<open>d div 366 + 1\<close> on, which up to the year 10000 is at most 21 years
  too early.
\<close>

definition year_of :: "int \<Rightarrow> int option" where
  "year_of d = find (\<lambda>y. d < civil_days (y + 1) 1 1) [d div 366 + 1 .. d div 366 + 30]"

definition month_of :: "int \<Rightarrow> int \<Rightarrow> nat option" where
  "month_of y d = find (\<lambda>m. m = 12 \<or> d < civil_days y (m + 1) 1) [1..<13]"

definition pad :: "nat \<Rightarrow> nat \<Rightarrow> string" where
  "pad w n = (let ds = decimal n in replicate (w - length ds) CHR ''0'' @ ds)"

text \<open>The fraction without its trailing zeros.\<close>

definition fraction_text :: "nat \<Rightarrow> string" where
  "fraction_text n = (if n = 0 then '''' else CHR ''.'' # rev (dropWhile (\<lambda>c. c = CHR ''0'') (rev (pad 9 n))))"

definition time_text_of :: "go_time \<Rightarrow> string option" where
  "time_text_of t =
     (let d = instant t div 86400000000000; n = nat (instant t mod 86400000000000); sec = n div 1000000000 in
      if instant t < year_0 \<or> year_10000 \<le> instant t then None
      else Option.bind (year_of d) (\<lambda>y.
      Option.bind (month_of y d) (\<lambda>m.
        Some (pad 4 (nat y) @ ''-'' @ pad 2 m @ ''-'' @ pad 2 (nat (d - civil_days y m 1) + 1) @ ''T''
          @ pad 2 (sec div 3600) @ '':'' @ pad 2 (sec div 60 mod 60) @ '':'' @ pad 2 (sec mod 60)
          @ fraction_text (n mod 1000000000) @ ''Z''))))"

definition request_json :: "protocol_request \<Rightarrow> json option" where
  "request_json r = map_option (\<lambda>sent. jobject
     [(''protocol_version'', jint (rq_ProtocolVersion r)), (''request_id'', jstr (rq_RequestID r)),
      (''operation'', jstr (rq_Operation r)), (''sent_at'', jstr sent), (''body'', raw_json (rq_Body r))])
     (time_text_of (rq_SentAt r))"

section \<open>Reading\<close>

text \<open>A field of a struct: its zero value, then every value the object has for it.\<close>

definition field :: "string list \<Rightarrow> (bytes \<times> json) list \<Rightarrow> (json \<Rightarrow> 'a \<Rightarrow> 'a option) \<Rightarrow> 'a \<Rightarrow> string \<Rightarrow> 'a option" where
  "field names ms dec zero name = decode_field dec zero (field_values names name ms)"

definition request_fields :: "string list" where
  "request_fields = [''protocol_version'', ''request_id'', ''operation'', ''sent_at'', ''body'']"

definition decode_request :: "json \<Rightarrow> protocol_request option" where
  "decode_request v =
     Option.bind (struct_members v) (\<lambda>ms.
     Option.bind (field request_fields ms decode_int 0 ''protocol_version'') (\<lambda>pv.
     Option.bind (field request_fields ms decode_string '''' ''request_id'') (\<lambda>i.
     Option.bind (field request_fields ms decode_string '''' ''operation'') (\<lambda>op.
     Option.bind (field request_fields ms decode_time zero_time ''sent_at'') (\<lambda>sent.
     Option.bind (field request_fields ms decode_raw None ''body'') (\<lambda>body.
       Some \<lparr>rq_ProtocolVersion = pv, rq_RequestID = i, rq_Operation = op, rq_SentAt = sent, rq_Body = body\<rparr>))))))"

definition error_fields :: "string list" where
  "error_fields = [''code'', ''message'']"

text \<open>A pointer field: \<open>null\<close> makes it nil, an object fills what it points to.\<close>

definition decode_response_error :: "json \<Rightarrow> response_error option \<Rightarrow> response_error option option" where
  "decode_response_error v old =
     (if v = JNull then Some None
      else Option.bind (struct_members v) (\<lambda>ms.
        let was = (case old of None \<Rightarrow> \<lparr>err_Code = '''', err_Message = ''''\<rparr> | Some e \<Rightarrow> e) in
        Option.bind (field error_fields ms decode_string (err_Code was) ''code'') (\<lambda>code.
        Option.bind (field error_fields ms decode_string (err_Message was) ''message'') (\<lambda>msg.
          Some (Some \<lparr>err_Code = code, err_Message = msg\<rparr>)))))"

definition response_fields :: "string list" where
  "response_fields = [''protocol_version'', ''request_id'', ''status'', ''body'', ''error'']"

definition decode_response :: "json \<Rightarrow> protocol_response option" where
  "decode_response v =
     Option.bind (struct_members v) (\<lambda>ms.
     Option.bind (field response_fields ms decode_int 0 ''protocol_version'') (\<lambda>pv.
     Option.bind (field response_fields ms decode_string '''' ''request_id'') (\<lambda>i.
     Option.bind (field response_fields ms decode_string '''' ''status'') (\<lambda>st.
     Option.bind (field response_fields ms decode_raw None ''body'') (\<lambda>body.
     Option.bind (field response_fields ms decode_response_error None ''error'') (\<lambda>err.
       Some \<lparr>rs_ProtocolVersion = pv, rs_RequestID = i, rs_Status = st, rs_Body = body, rs_Error = err\<rparr>))))))"

text \<open>\<open>json.Unmarshal\<close> of a text; the nil raw message is no JSON text.\<close>

definition unmarshal :: "(json \<Rightarrow> 'a option) \<Rightarrow> bytes \<Rightarrow> 'a option" where
  "unmarshal dec bs = Option.bind (json_parse bs) dec"

definition unmarshal_raw :: "(json \<Rightarrow> 'a option) \<Rightarrow> json option \<Rightarrow> 'a option" where
  "unmarshal_raw dec body = Option.bind body dec"

section \<open>Messages in frames\<close>

text \<open>\<open>None\<close> stands for a value that \<open>json.Marshal\<close> refuses.\<close>

definition Encode :: "'w write_fn \<Rightarrow> json option \<Rightarrow> 'w \<Rightarrow> go_error option \<times> 'w" where
  "Encode wr value w =
     (case value of
        None \<Rightarrow> (Some (Wrap ''marshal protocol message'' json_error), w)
      | Some v \<Rightarrow> WriteFrame wr (json_text v) w)"

definition Decode :: "(json \<Rightarrow> 'a option) \<Rightarrow> reader \<Rightarrow> (go_error + 'a) \<times> reader" where
  "Decode dec r =
     (case ReadFrame r of
        (Inl e, r1) \<Rightarrow> (Inl e, r1)
      | (Inr payload, r1) \<Rightarrow>
          (case unmarshal dec payload of
             None \<Rightarrow> (Inl (Wrap ''unmarshal protocol message'' json_error), r1)
           | Some x \<Rightarrow> (Inr x, r1)))"

end
