(* ===== verification/Client.thy ===== *)
theory Client
  imports Messages
begin

text \<open>
  The daemon client of \<open>internal/client/client.go\<close>.  A client keeps one connection and gives it
  up (\<open>poison\<close>) whenever the answers on it can no longer be trusted to be in step.  The gate lets
  one operation run at a time, so an operation is a function on the client; what it meets on its
  way is its \<open>call_env\<close>: whether the gate opens, what the context says, the connection that
  dialing gives, whether \<open>Close\<close> was called meanwhile, the random bytes and the clock.  A
  deadline that expires and a \<open>Close\<close> during the exchange are failures of the connection.
\<close>

section \<open>The client\<close>

record client_options =
  DialTimeout :: int
  ReadTimeout :: int
  WriteTimeout :: int

definition defaultDialTimeout :: int where
  "defaultDialTimeout = 3 * 1000000000"

definition defaultReadTimeout :: int where
  "defaultReadTimeout = 30 * 1000000000"

definition defaultWriteTimeout :: int where
  "defaultWriteTimeout = 30 * 1000000000"

record wire =
  wire_in :: reader
  wire_out :: writer

record client =
  kl_socket :: string
  kl_options :: client_options
  kl_conn :: "wire option"
  kl_closed :: bool

definition client_New :: "string \<Rightarrow> client_options \<Rightarrow> client" where
  "client_New socket o1 =
     (let o2 = (if DialTimeout o1 \<le> 0 then o1\<lparr>DialTimeout := defaultDialTimeout\<rparr> else o1);
          o3 = (if ReadTimeout o2 \<le> 0 then o2\<lparr>ReadTimeout := defaultReadTimeout\<rparr> else o2);
          o4 = (if WriteTimeout o3 \<le> 0 then o3\<lparr>WriteTimeout := defaultWriteTimeout\<rparr> else o3) in
      \<lparr>kl_socket = socket, kl_options = o4, kl_conn = None, kl_closed = False\<rparr>)"

definition client_Close :: "client \<Rightarrow> client" where
  "client_Close c = c\<lparr>kl_closed := True, kl_conn := None\<rparr>"

definition poison :: "client \<Rightarrow> client" where
  "poison c = c\<lparr>kl_conn := None\<rparr>"

text \<open>\<open>ctx.Err()\<close> is asked before the exchange, and after a failed write or read.\<close>

record call_env =
  env_gate :: "go_error option"
  env_ctx :: "go_error option"
  env_dial :: "go_error + wire"
  env_closing :: bool
  env_random :: "go_error + bytes"
  env_now :: go_time
  env_ctx_write :: "go_error option"
  env_ctx_read :: "go_error option"

definition connection :: "call_env \<Rightarrow> client \<Rightarrow> (go_error + wire) \<times> client" where
  "connection env c =
     (if kl_closed c then (Inl ErrClosed, c)
      else case kl_conn c of
        Some conn \<Rightarrow> (Inr conn, c)
      | None \<Rightarrow>
          (case env_dial env of
             Inl err \<Rightarrow> (Inl (Wrap ''dial daemon'' err), c)
           | Inr conn \<Rightarrow>
               if env_closing env then (Inl ErrClosed, client_Close c)
               else (Inr conn, c\<lparr>kl_conn := Some conn\<rparr>)))"

definition requestID :: "call_env \<Rightarrow> go_error + string" where
  "requestID env = (case env_random env of Inl err \<Rightarrow> Inl err | Inr data \<Rightarrow> Inr (hex_encode data))"

definition client_request :: "call_env \<Rightarrow> string \<Rightarrow> string \<Rightarrow> json \<Rightarrow> protocol_request" where
  "client_request env i operation body =
     \<lparr>rq_ProtocolVersion = Version, rq_RequestID = i, rq_Operation = operation, rq_SentAt = UTC (env_now env), rq_Body = Some body\<rparr>"

section \<open>One exchange\<close>

text \<open>\<open>None\<close> is an acceptable response.\<close>

definition validateResponse :: "protocol_response \<Rightarrow> string \<Rightarrow> go_error option" where
  "validateResponse response i =
     (if rs_ProtocolVersion response \<noteq> Version then Some (ErrNew ''daemon response protocol version is incompatible'')
      else if rs_RequestID response \<noteq> i then Some (ErrNew ''daemon response request ID does not match'')
      else if rs_Status response = ''ok'' then
        (if rs_Error response \<noteq> None then Some (ErrNew ''successful daemon response contains an error'') else None)
      else if rs_Status response = ''error'' then
        (case rs_Error response of
           None \<Rightarrow> Some (ErrNew ''daemon error response is invalid'')
         | Some e \<Rightarrow> if err_Code e = '''' \<or> err_Message e = '''' then Some (ErrNew ''daemon error response is invalid'') else None)
      else Some (ErrNew ''daemon response status is invalid''))"

text \<open>
  The part that \<open>call\<close> and \<open>ReadPayload\<close> share: send the request and read its response.  Each
  names its own error texts.
\<close>

definition exchange :: "string \<Rightarrow> string \<Rightarrow> call_env \<Rightarrow> protocol_request \<Rightarrow> wire \<Rightarrow> client \<Rightarrow>
    (go_error + protocol_response \<times> wire) \<times> client" where
  "exchange write_text read_text env rq conn c =
     (case Encode writer_write (request_json rq) (wire_out conn) of
        (Some err, w) \<Rightarrow>
          (Inl (case env_ctx_write env of Some ctx_err \<Rightarrow> ctx_err | None \<Rightarrow> Wrap write_text err), poison c)
      | (None, w) \<Rightarrow>
          (case Decode decode_response (wire_in conn) of
             (Inl err, r) \<Rightarrow>
               (Inl (case env_ctx_read env of Some ctx_err \<Rightarrow> ctx_err | None \<Rightarrow> Wrap read_text err), poison c)
           | (Inr envelope, r) \<Rightarrow>
               (case validateResponse envelope (rq_RequestID rq) of
                  Some err \<Rightarrow> (Inl err, poison c)
                | None \<Rightarrow>
                    let conn' = \<lparr>wire_in = r, wire_out = w\<rparr> in (Inr (envelope, conn'), c\<lparr>kl_conn := Some conn'\<rparr>))))"

text \<open>The daemon's error of a valid error response.\<close>

definition rpc_error :: "protocol_response \<Rightarrow> go_error" where
  "rpc_error envelope =
     (case rs_Error envelope of
        Some e \<Rightarrow> RPCError (err_Code e) (err_Message e)
      | None \<Rightarrow> GoPanic ''nil pointer dereference'')"

definition call :: "call_env \<Rightarrow> string \<Rightarrow> json \<Rightarrow> (json \<Rightarrow> 'a option) \<Rightarrow> client \<Rightarrow> (go_error + 'a) \<times> client" where
  "call env operation body dec c =
     (case env_gate env of Some err \<Rightarrow> (Inl err, c) | None \<Rightarrow>
      case env_ctx env of Some err \<Rightarrow> (Inl err, c) | None \<Rightarrow>
      case connection env c of (Inl err, c1) \<Rightarrow> (Inl err, c1) | (Inr conn, c1) \<Rightarrow>
      case requestID env of Inl err \<Rightarrow> (Inl (Wrap ''generate request ID'' err), c1) | Inr i \<Rightarrow>
      case exchange ''write daemon request'' ''read daemon response'' env (client_request env i operation body) conn c1 of
        (Inl err, c2) \<Rightarrow> (Inl err, c2)
      | (Inr (envelope, _), c2) \<Rightarrow>
          if rs_Status envelope = ''error'' then (Inl (rpc_error envelope), c2)
          else case unmarshal_raw dec (rs_Body envelope) of
            None \<Rightarrow> (Inl (Wrap ''decode daemon response'' json_error), poison c2)
          | Some x \<Rightarrow> (Inr x, c2))"

section \<open>Operations\<close>

record health =
  hl_Version :: int
  hl_Status :: string

definition health_fields :: "string list" where
  "health_fields = [''version'', ''status'']"

definition decode_health :: "json \<Rightarrow> health option" where
  "decode_health v =
     Option.bind (struct_members v) (\<lambda>ms.
     Option.bind (field health_fields ms decode_int 0 ''version'') (\<lambda>ver.
     Option.bind (field health_fields ms decode_string '''' ''status'') (\<lambda>st.
       Some \<lparr>hl_Version = ver, hl_Status = st\<rparr>)))"

definition info_fields :: "string list" where
  "info_fields = [''version'']"

definition decode_info :: "json \<Rightarrow> int option" where
  "decode_info v = Option.bind (struct_members v) (\<lambda>ms. field info_fields ms decode_int 0 ''version'')"

definition client_Health :: "call_env \<Rightarrow> client \<Rightarrow> (go_error + health) \<times> client" where
  "client_Health env c = call env ''system.health'' (jobject []) decode_health c"

definition client_Info :: "call_env \<Rightarrow> client \<Rightarrow> (go_error + int) \<times> client" where
  "client_Info env c = call env ''system.info'' (jobject []) decode_info c"

record client_reference =
  kr_ID :: string
  kr_ProjectID :: string
  kr_SessionID :: string
  kr_ExchangeID :: string
  kr_Sequence :: int

definition reference_fields :: "string list" where
  "reference_fields = [''id'', ''project_id'', ''session_id'', ''exchange_id'', ''sequence'']"

definition decode_reference :: "json \<Rightarrow> client_reference option" where
  "decode_reference v =
     Option.bind (struct_members v) (\<lambda>ms.
     Option.bind (field reference_fields ms decode_string '''' ''id'') (\<lambda>i.
     Option.bind (field reference_fields ms decode_string '''' ''project_id'') (\<lambda>p.
     Option.bind (field reference_fields ms decode_string '''' ''session_id'') (\<lambda>s.
     Option.bind (field reference_fields ms decode_string '''' ''exchange_id'') (\<lambda>e.
     Option.bind (field reference_fields ms decode_int 0 ''sequence'') (\<lambda>n.
       Some \<lparr>kr_ID = i, kr_ProjectID = p, kr_SessionID = s, kr_ExchangeID = e, kr_Sequence = n\<rparr>))))))"

text \<open>A slice: \<open>null\<close> makes it nil, which is \<open>None\<close> here.\<close>

definition decode_references :: "json \<Rightarrow> client_reference list option \<Rightarrow> client_reference list option option" where
  "decode_references v old =
     (case v of JNull \<Rightarrow> Some None | JArr vs \<Rightarrow> map_option Some (those (map decode_reference vs)) | _ \<Rightarrow> None)"

definition decode_events :: "json \<Rightarrow> client_reference list option option" where
  "decode_events v = Option.bind (struct_members v) (\<lambda>ms. field [''events''] ms decode_references None ''events'')"

definition client_Search :: "call_env \<Rightarrow> string \<Rightarrow> int \<Rightarrow> client \<Rightarrow> (go_error + client_reference list option) \<times> client" where
  "client_Search env query limit c =
     (if query = '''' \<or> limit < 0 then (Inl (ErrNew ''invalid search arguments''), c)
      else call env ''search.events'' (jobject [(''limit'', jint limit), (''query'', jstr query)]) decode_events c)"

record client_metadata =
  km_EventID :: string
  km_TotalSize :: u64
  km_SHA256 :: string

definition metadata_fields :: "string list" where
  "metadata_fields = [''event_id'', ''total_size'', ''sha256'']"

definition decode_metadata :: "json \<Rightarrow> client_metadata option" where
  "decode_metadata v =
     Option.bind (struct_members v) (\<lambda>ms.
     Option.bind (field metadata_fields ms decode_string '''' ''event_id'') (\<lambda>i.
     Option.bind (field metadata_fields ms decode_uint64 0 ''total_size'') (\<lambda>n.
     Option.bind (field metadata_fields ms decode_string '''' ''sha256'') (\<lambda>h.
       Some \<lparr>km_EventID = i, km_TotalSize = n, km_SHA256 = h\<rparr>))))"

definition client_EventMetadata :: "call_env \<Rightarrow> string \<Rightarrow> client \<Rightarrow> (go_error + client_metadata) \<times> client" where
  "client_EventMetadata env eventID c =
     (if eventID = '''' then (Inl (ErrNew ''invalid event metadata arguments''), c)
      else case call env ''event.metadata'' (jobject [(''event_id'', jstr eventID)]) decode_metadata c of
        (Inl err, c1) \<Rightarrow> (Inl err, c1)
      | (Inr out, c1) \<Rightarrow>
          if km_EventID out \<noteq> eventID \<or> length (km_SHA256 out) \<noteq> 64 then (Inl (ErrNew ''event metadata is invalid''), c1)
          else if hex_decode (km_SHA256 out) = None then (Inl (ErrNew ''event metadata hash is invalid''), c1)
          else (Inr out, c1))"

section \<open>Payloads\<close>

record payload_metadata =
  pm_EventID :: string
  pm_TotalSize :: u64
  pm_SHA256 :: string
  pm_Offset :: u64
  pm_Limit :: u64
  pm_BytesWritten :: u64

definition payload_metadata_fields :: "string list" where
  "payload_metadata_fields = [''event_id'', ''total_size'', ''sha256'', ''offset'', ''limit'', ''bytes_written'']"

definition decode_payload_metadata :: "json \<Rightarrow> payload_metadata option" where
  "decode_payload_metadata v =
     Option.bind (struct_members v) (\<lambda>ms.
     Option.bind (field payload_metadata_fields ms decode_string '''' ''event_id'') (\<lambda>i.
     Option.bind (field payload_metadata_fields ms decode_uint64 0 ''total_size'') (\<lambda>n.
     Option.bind (field payload_metadata_fields ms decode_string '''' ''sha256'') (\<lambda>h.
     Option.bind (field payload_metadata_fields ms decode_uint64 0 ''offset'') (\<lambda>off.
     Option.bind (field payload_metadata_fields ms decode_uint64 0 ''limit'') (\<lambda>lim.
     Option.bind (field payload_metadata_fields ms decode_uint64 0 ''bytes_written'') (\<lambda>wr.
       Some \<lparr>pm_EventID = i, pm_TotalSize = n, pm_SHA256 = h, pm_Offset = off, pm_Limit = lim, pm_BytesWritten = wr\<rparr>)))))))"

text \<open>
  \<open>io.Copy\<close> from a limited connection: reads of at most 32 KiB, each written in one call; end of
  file is success, a short write an error.  \<open>k\<close> is the length of the buffer.
\<close>

definition copy_write :: "'w write_fn \<Rightarrow> bytes \<Rightarrow> 'w \<Rightarrow> go_error option \<times> nat \<times> 'w" where
  "copy_write wr d w =
     (case wr d w of (n, err, w') \<Rightarrow>
        if n < 0 \<or> int (length d) < n then (Some (case err of Some e \<Rightarrow> e | None \<Rightarrow> ErrNew ''invalid write result''), 0, w')
        else case err of
          Some e \<Rightarrow> (Some e, nat n, w')
        | None \<Rightarrow> if nat n \<noteq> length d then (Some ErrShortWrite, nat n, w') else (None, nat n, w'))"

lemma copy_progress:
  assumes "reader_read (min k n) r = (d, None, r1)" and "0 < k" and "0 < n"
  shows "n - length d + length r1 < n + length r"
  using reader_read_progress [OF assms(1)] script.rd_length [OF assms(1)] assms(2,3) by auto

function copy_limited :: "'w write_fn \<Rightarrow> nat \<Rightarrow> nat \<Rightarrow> nat \<times> reader \<Rightarrow> 'w \<Rightarrow> (nat \<times> go_error option) \<times> reader \<times> 'w" where
  "copy_limited wr k written (n, r) w =
     (if k = 0 \<or> n = 0 then ((written, None), r, w)
      else case reader_read (min k n) r of (d, err, r1) \<Rightarrow>
        case (if d = [] then (None, 0, w) else copy_write wr d w) of
          (Some e, m, w1) \<Rightarrow> ((written + m, Some e), r1, w1)
        | (None, m, w1) \<Rightarrow>
            (case err of
               Some e \<Rightarrow> ((written + m, if e = EOF then None else Some e), r1, w1)
             | None \<Rightarrow> copy_limited wr k (written + m) (n - length d, r1) w1))"
  by pat_completeness auto

termination
proof (relation "measure (\<lambda>(wr, k, written, (n, r), w). n + length r)", goal_cases)
  case 1
  show ?case by simp
next
  case (2 wr k written n r w)
  then show ?case
    by (auto dest!: copy_progress [OF sym])
qed

declare copy_limited.simps [simp del]

definition copyBufferSize :: nat where
  "copyBufferSize = 32768"

definition readEvidenceAfterHeader ::
  "'w write_fn \<Rightarrow> payload_metadata \<Rightarrow> u64 \<Rightarrow> wire \<Rightarrow> client \<Rightarrow> 'w \<Rightarrow> (go_error + payload_metadata) \<times> client \<times> 'w" where
  "readEvidenceAfterHeader wr metadata expected conn c w =
     (if drop_bit 1 (-1 :: u64) < expected then (Inl (ErrNew ''payload length exceeds platform limit''), poison c, w)
      else case copy_limited wr (min copyBufferSize (unat expected)) 0 (unat expected, wire_in conn) w of
        ((written, err), r, w1) \<Rightarrow>
          (case err of
             Some e \<Rightarrow> (Inl (Wrap ''stream payload'' e), poison c, w1)
           | None \<Rightarrow>
               if of_nat written \<noteq> expected then (Inl ErrUnexpectedEOF, poison c, w1)
               else (Inr (metadata\<lparr>pm_BytesWritten := of_nat written\<rparr>), c\<lparr>kl_conn := Some (conn\<lparr>wire_in := r\<rparr>)\<rparr>, w1)))"

definition expected_length :: "u64 \<Rightarrow> u64 \<Rightarrow> u64 \<Rightarrow> u64" where
  "expected_length total_size offset limit =
     (let expected = (if offset < total_size then total_size - offset else 0) in
      if limit \<noteq> 0 \<and> limit < expected then limit else expected)"

definition client_ReadPayload ::
  "'w write_fn option \<Rightarrow> call_env \<Rightarrow> string \<Rightarrow> u64 \<Rightarrow> u64 \<Rightarrow> client \<Rightarrow> 'w \<Rightarrow> (go_error + payload_metadata) \<times> client \<times> 'w" where
  "client_ReadPayload dest env eventID offset limit c w =
     (case dest of None \<Rightarrow> (Inl (ErrNew ''invalid payload arguments''), c, w) | Some wr \<Rightarrow>
      if eventID = '''' then (Inl (ErrNew ''invalid payload arguments''), c, w) else
      case env_gate env of Some err \<Rightarrow> (Inl err, c, w) | None \<Rightarrow>
      case env_ctx env of Some err \<Rightarrow> (Inl err, c, w) | None \<Rightarrow>
      case connection env c of (Inl err, c1) \<Rightarrow> (Inl err, c1, w) | (Inr conn, c1) \<Rightarrow>
      case requestID env of Inl err \<Rightarrow> (Inl err, c1, w) | Inr i \<Rightarrow>
      case exchange ''write payload request'' ''read payload metadata'' env
          (client_request env i ''event.read_payload''
            (jobject [(''event_id'', jstr eventID), (''limit'', juint limit), (''offset'', juint offset)])) conn c1 of
        (Inl err, c2) \<Rightarrow> (Inl err, c2, w)
      | (Inr (envelope, conn2), c2) \<Rightarrow>
          if rs_Status envelope = ''error'' then (Inl (rpc_error envelope), c2, w)
          else case unmarshal_raw decode_payload_metadata (rs_Body envelope) of
            None \<Rightarrow> (Inl (Wrap ''decode payload metadata'' json_error), poison c2, w)
          | Some metadata \<Rightarrow>
              if pm_EventID metadata \<noteq> eventID \<or> pm_Offset metadata \<noteq> offset \<or> pm_Limit metadata \<noteq> limit
                 \<or> length (pm_SHA256 metadata) \<noteq> 64
                then (Inl (ErrNew ''payload metadata is invalid''), poison c2, w)
              else if hex_decode (pm_SHA256 metadata) = None
                then (Inl (ErrNew ''payload metadata hash is invalid''), poison c2, w)
              else case ReadEvidenceHeader (wire_in conn2) of
                (Inl err, r) \<Rightarrow> (Inl (Wrap ''read payload header'' err), poison c2, w)
              | (Inr declared, r) \<Rightarrow>
                  if declared \<noteq> expected_length (pm_TotalSize metadata) offset limit
                    then (Inl (ErrNew ''payload length does not match metadata''), poison c2, w)
                  else readEvidenceAfterHeader wr metadata declared (conn2\<lparr>wire_in := r\<rparr>) c2 w)"

end
