(* ===== verification/ClientGate.thy ===== *)
theory ClientGate
  imports Client
begin

text \<open>
  One client shared by many callers (\<open>acquire\<close>, \<open>release\<close>, \<open>connection\<close>, \<open>poison\<close> and \<open>Close\<close> of
  \<open>internal/client/client.go\<close>): every operation passes the gate, takes or dials the connection, exchanges
  its messages and leaves the gate, in steps that interleave with those of the others and with
  \<open>Close\<close>, which does not pass the gate.  What is exchanged is in \<open>Client\<close>; here a connection is its number.
\<close>

section \<open>The shared client\<close>

datatype op_position =
    OpIdle
  | OpAcquiring
  | OpAcquired
  | OpDialing
  | OpDialed nat
  | OpExchanging nat
  | OpPoisoning
  | OpReleasing

text \<open>\<open>gc_gate\<close> is whether the channel of capacity one holds its element, \<open>gc_open\<close> the connections that are not closed.\<close>

record gate_client =
  gc_gate :: bool
  gc_conn :: "nat option"
  gc_closed :: bool
  gc_open :: "nat set"
  gc_dialed :: nat
  gc_at :: "nat \<Rightarrow> op_position"

definition new_gate_client :: gate_client where
  "new_gate_client = \<lparr>gc_gate = False, gc_conn = None, gc_closed = False, gc_open = {}, gc_dialed = 0, gc_at = (\<lambda>_. OpIdle)\<rparr>"

definition op_goes :: "nat \<Rightarrow> op_position \<Rightarrow> gate_client \<Rightarrow> gate_client" where
  "op_goes i p s = s\<lparr>gc_at := (gc_at s)(i := p)\<rparr>"

text \<open>How an exchange ends: before it has sent anything (no random bytes for the request), with its whole response, or broken.\<close>

datatype exchange_end = NothingSent | Complete | Broken

datatype gate_event =
    CallOperation nat
  | PassGate nat
  | GiveUp nat
  | LockConnection nat "bool"
  | Dial nat "bool"
  | LockDialed nat
  | EndExchange nat exchange_end
  | PoisonConnection nat
  | LeaveGate nat
  | CloseClient

section \<open>The steps\<close>

text \<open>\<open>acquire\<close> waits until the gate takes its element or the context is done; \<open>release\<close> takes the element out.\<close>

definition acquire :: "nat \<Rightarrow> gate_client \<Rightarrow> gate_client option" where
  "acquire i s = (if gc_at s i = OpAcquiring \<and> \<not> gc_gate s then Some (op_goes i OpAcquired (s\<lparr>gc_gate := True\<rparr>)) else None)"

definition give_up :: "nat \<Rightarrow> gate_client \<Rightarrow> gate_client option" where
  "give_up i s = (if gc_at s i = OpAcquiring then Some (op_goes i OpIdle s) else None)"

definition release :: "nat \<Rightarrow> gate_client \<Rightarrow> gate_client option" where
  "release i s = (if gc_at s i = OpReleasing \<and> gc_gate s then Some (op_goes i OpIdle (s\<lparr>gc_gate := False\<rparr>)) else None)"

text \<open>The check of the context and the first critical section of \<open>connection\<close>; then the dialing; then the second.\<close>

definition lock_connection :: "nat \<Rightarrow> bool \<Rightarrow> gate_client \<Rightarrow> gate_client option" where
  "lock_connection i done_context s =
     (if gc_at s i \<noteq> OpAcquired then None
      else if done_context \<or> gc_closed s then Some (op_goes i OpReleasing s)
      else case gc_conn s of
        Some c \<Rightarrow> Some (op_goes i (OpExchanging c) s)
      | None \<Rightarrow> Some (op_goes i OpDialing s))"

definition dial :: "nat \<Rightarrow> bool \<Rightarrow> gate_client \<Rightarrow> gate_client option" where
  "dial i connected s =
     (if gc_at s i \<noteq> OpDialing then None
      else if \<not> connected then Some (op_goes i OpReleasing s)
      else Some (op_goes i (OpDialed (gc_dialed s)) (s\<lparr>gc_open := insert (gc_dialed s) (gc_open s), gc_dialed := gc_dialed s + 1\<rparr>)))"

definition lock_dialed :: "nat \<Rightarrow> gate_client \<Rightarrow> gate_client option" where
  "lock_dialed i s =
     (case gc_at s i of
        OpDialed n \<Rightarrow>
          if gc_closed s then Some (op_goes i OpReleasing (s\<lparr>gc_open := gc_open s - {n}\<rparr>))
          else (case gc_conn s of
            None \<Rightarrow> Some (op_goes i (OpExchanging n) (s\<lparr>gc_conn := Some n\<rparr>))
          | Some c \<Rightarrow> Some (op_goes i (OpExchanging c) (s\<lparr>gc_open := gc_open s - {n}\<rparr>)))
      | _ \<Rightarrow> None)"

text \<open>A response can only be complete on a connection that is open; \<open>poison\<close> closes the client's connection.\<close>

definition end_exchange :: "nat \<Rightarrow> exchange_end \<Rightarrow> gate_client \<Rightarrow> gate_client option" where
  "end_exchange i how s =
     (case gc_at s i of
        OpExchanging c \<Rightarrow>
          (case how of
             NothingSent \<Rightarrow> Some (op_goes i OpReleasing s)
           | Complete \<Rightarrow> if c \<in> gc_open s then Some (op_goes i OpReleasing s) else None
           | Broken \<Rightarrow> Some (op_goes i OpPoisoning s))
      | _ \<Rightarrow> None)"

definition drop_connection :: "gate_client \<Rightarrow> gate_client" where
  "drop_connection s = (case gc_conn s of None \<Rightarrow> s | Some c \<Rightarrow> s\<lparr>gc_open := gc_open s - {c}, gc_conn := None\<rparr>)"

definition poison_connection :: "nat \<Rightarrow> gate_client \<Rightarrow> gate_client option" where
  "poison_connection i s = (if gc_at s i = OpPoisoning then Some (op_goes i OpReleasing (drop_connection s)) else None)"

definition close_shared :: "gate_client \<Rightarrow> gate_client" where
  "close_shared s = drop_connection (s\<lparr>gc_closed := True\<rparr>)"

fun gate_step :: "gate_event \<Rightarrow> gate_client \<Rightarrow> gate_client option" where
  "gate_step (CallOperation i) s = (if gc_at s i = OpIdle then Some (op_goes i OpAcquiring s) else None)"
| "gate_step (PassGate i) s = acquire i s"
| "gate_step (GiveUp i) s = give_up i s"
| "gate_step (LockConnection i done_context) s = lock_connection i done_context s"
| "gate_step (Dial i connected) s = dial i connected s"
| "gate_step (LockDialed i) s = lock_dialed i s"
| "gate_step (EndExchange i how) s = end_exchange i how s"
| "gate_step (PoisonConnection i) s = poison_connection i s"
| "gate_step (LeaveGate i) s = release i s"
| "gate_step CloseClient s = Some (close_shared s)"

inductive gate_reachable :: "gate_client \<Rightarrow> bool" where
  gate_new: "gate_reachable new_gate_client"
| gate_next: "gate_reachable s \<Longrightarrow> gate_step ev s = Some t \<Longrightarrow> gate_reachable t"

section \<open>The invariant\<close>

text \<open>An operation holds the gate from \<open>acquire\<close> until \<open>release\<close>.\<close>

fun holding :: "op_position \<Rightarrow> bool" where
  "holding OpIdle = False"
| "holding OpAcquiring = False"
| "holding _ = True"

text \<open>What the position of the operation that holds the gate says of the client.\<close>

definition gate_core :: "gate_client \<Rightarrow> op_position \<Rightarrow> bool" where
  "gate_core s p \<longleftrightarrow> (gc_closed s \<longrightarrow> gc_conn s = None) \<and> (\<forall>c. gc_conn s = Some c \<longrightarrow> c < gc_dialed s)
     \<and> (case p of
          OpDialing \<Rightarrow> gc_conn s = None \<and> gc_open s = {}
        | OpDialed n \<Rightarrow> gc_conn s = None \<and> gc_open s = {n} \<and> n < gc_dialed s
        | OpExchanging c \<Rightarrow> c < gc_dialed s \<and> (gc_conn s = Some c \<or> gc_conn s = None) \<and> gc_open s = set_option (gc_conn s)
        | _ \<Rightarrow> gc_open s = set_option (gc_conn s))"

definition held_by_one :: "nat \<Rightarrow> gate_client \<Rightarrow> bool" where
  "held_by_one h s \<longleftrightarrow> (\<forall>i. i \<noteq> h \<longrightarrow> \<not> holding (gc_at s i)) \<and> gc_gate s = holding (gc_at s h) \<and> gate_core s (gc_at s h)"

lemma core_waiting: "\<not> holding p \<Longrightarrow> gate_core s p = gate_core s OpIdle"
  by (cases p) (simp_all add: gate_core_def)

lemma op_goes_fields [simp]:
  "gc_gate (op_goes i p s) = gc_gate s" "gc_conn (op_goes i p s) = gc_conn s" "gc_closed (op_goes i p s) = gc_closed s"
  "gc_open (op_goes i p s) = gc_open s" "gc_dialed (op_goes i p s) = gc_dialed s" "gc_at (op_goes i p s) = (gc_at s)(i := p)"
  by (simp_all add: op_goes_def)

lemma core_goes [simp]: "gate_core (op_goes i p s) = gate_core s"
  by (simp add: gate_core_def fun_eq_iff split: op_position.split)

text \<open>A step of the operation that holds the gate, and a step outside.\<close>

lemma held_moves:
  assumes "held_by_one h s" and "holding (gc_at s i)" and "gate_core t p" and "gc_at t = gc_at s" and "gc_gate t = holding p"
  shows "held_by_one i (op_goes i p t)"
proof -
  have "i = h" using assms(1,2) by (auto simp: held_by_one_def)
  with assms show ?thesis by (simp add: held_by_one_def)
qed

lemma waiting_moves:
  assumes "held_by_one h s" and "\<not> holding (gc_at s i)" and "\<not> holding p"
  shows "held_by_one h (op_goes i p s)"
  using assms core_waiting [of p s] core_waiting [of "gc_at s i" s] by (auto simp: held_by_one_def)

lemma enters:
  assumes "held_by_one h s" and "\<not> gc_gate s"
  shows "held_by_one i (op_goes i OpAcquired (s\<lparr>gc_gate := True\<rparr>))"
proof -
  have "gate_core s OpIdle" using assms core_waiting [of "gc_at s h" s] by (simp add: held_by_one_def)
  then have "gate_core (s\<lparr>gc_gate := True\<rparr>) OpAcquired" by (simp add: gate_core_def)
  with assms show ?thesis by (auto simp: held_by_one_def)
qed

lemma closes:
  assumes "held_by_one h s"
  shows "held_by_one h (close_shared s)"
proof -
  have "gate_core (close_shared s) p" if "gate_core s p" for p
    using that by (cases p; cases "gc_conn s") (auto simp: gate_core_def close_shared_def drop_connection_def)
  moreover have "gc_at (close_shared s) = gc_at s" "gc_gate (close_shared s) = gc_gate s"
    by (simp_all add: close_shared_def drop_connection_def split: option.split)
  ultimately show ?thesis using assms by (simp add: held_by_one_def)
qed

lemma holder_state:
  assumes "held_by_one h s" and "holding (gc_at s i)"
  shows "h = i" and "gc_gate s" and "gate_core s (gc_at s i)"
proof -
  show h: "h = i" using assms by (auto simp: held_by_one_def)
  show "gc_gate s" "gate_core s (gc_at s i)" using assms unfolding h held_by_one_def by simp_all
qed

lemma gate_step_held:
  assumes "held_by_one h s" and "gate_step ev s = Some t"
  shows "\<exists>h. held_by_one h t"
proof -
  have moved: "\<exists>h. held_by_one h (op_goes i p u)" if "holding (gc_at s i)" "gate_core s (gc_at s i) \<Longrightarrow> gate_core u p" "gc_at u = gc_at s"
    "gc_gate s \<Longrightarrow> gc_gate u = holding p" for i p u
    using held_moves [OF assms(1) that(1) _ that(3)] holder_state [OF assms(1) that(1)] that(2,4) by blast
  show ?thesis
  proof (cases ev)
    case (CallOperation i)
    with assms have "t = op_goes i OpAcquiring s" "gc_at s i = OpIdle" by (auto split: if_splits)
    with waiting_moves [OF assms(1), of i OpAcquiring] show ?thesis by auto
  next
    case (PassGate i)
    with assms enters show ?thesis by (auto simp: acquire_def split: if_splits)
  next
    case (GiveUp i)
    with assms have "t = op_goes i OpIdle s" "gc_at s i = OpAcquiring" by (auto simp: give_up_def split: if_splits)
    with waiting_moves [OF assms(1), of i OpIdle] show ?thesis by auto
  next
    case CloseClient
    with assms closes show ?thesis by auto
  next
    case (LockConnection i d)
    with assms(2) show ?thesis
      by (auto simp: lock_connection_def split: if_splits option.splits intro!: moved) (auto simp: gate_core_def)
  next
    case (Dial i ok)
    with assms(2) show ?thesis
      by (auto simp: dial_def split: if_splits intro!: moved) (auto simp: gate_core_def)
  next
    case (LockDialed i)
    with assms(2) show ?thesis
      by (auto simp: lock_dialed_def split: if_splits option.splits op_position.splits intro!: moved) (auto simp: gate_core_def)
  next
    case (EndExchange i how)
    with assms(2) show ?thesis
      by (auto simp: end_exchange_def split: if_splits op_position.splits exchange_end.splits intro!: moved) (auto simp: gate_core_def)
  next
    case (PoisonConnection i)
    with assms(2) show ?thesis
      by (auto simp: poison_connection_def drop_connection_def split: if_splits option.splits intro!: moved) (auto simp: gate_core_def)
  next
    case (LeaveGate i)
    with assms(2) show ?thesis
      by (auto simp: release_def split: if_splits intro!: moved) (auto simp: gate_core_def)
  qed
qed

lemma gate_reachable_held: "gate_reachable s \<Longrightarrow> \<exists>h. held_by_one h s"
proof (induction rule: gate_reachable.induct)
  case gate_new
  show ?case by (auto simp: new_gate_client_def held_by_one_def gate_core_def)
next
  case (gate_next s ev t)
  then show ?case using gate_step_held by blast
qed

section \<open>The sequential client\<close>

text \<open>
  \<open>connection\<close> of \<open>Client\<close> is what these steps do for one operation between its gate and its
  exchange, with a \<open>Close\<close> during the dialing where \<open>env_closing\<close> says so.
\<close>

fun gate_run :: "gate_event list \<Rightarrow> gate_client \<Rightarrow> gate_client option" where
  "gate_run [] s = Some s"
| "gate_run (ev # evs) s = Option.bind (gate_step ev s) (gate_run evs)"

definition connect_events :: "nat \<Rightarrow> call_env \<Rightarrow> client \<Rightarrow> gate_event list" where
  "connect_events i env c = LockConnection i False #
     (if kl_closed c \<or> kl_conn c \<noteq> None then []
      else case env_dial env of
        Inl _ \<Rightarrow> [Dial i False]
      | Inr _ \<Rightarrow> Dial i True # (if env_closing env then [CloseClient] else []) @ [LockDialed i])"

definition same_client :: "gate_client \<Rightarrow> client \<Rightarrow> bool" where
  "same_client s c \<longleftrightarrow> gc_closed s = kl_closed c \<and> (gc_conn s = None) = (kl_conn c = None)"

lemma connection_refines:
  assumes "gc_at s i = OpAcquired" and "same_client s c" and "connection env c = (r, c')"
  shows "\<exists>t. gate_run (connect_events i env c) s = Some t \<and> same_client t c'
    \<and> (case r of Inl _ \<Rightarrow> gc_at t i = OpReleasing | Inr _ \<Rightarrow> \<exists>n. gc_at t i = OpExchanging n \<and> gc_conn t = Some n)"
proof -
  note steps = connect_events_def same_client_def lock_connection_def dial_def lock_dialed_def close_shared_def drop_connection_def client_Close_def
  show ?thesis
  proof (cases "kl_closed c \<or> kl_conn c \<noteq> None")
    case True
    with assms show ?thesis by (auto simp: connection_def steps split: if_splits option.splits)
  next
    case False
    with assms show ?thesis by (cases "env_dial env") (auto simp: connection_def steps split: if_splits sum.split)
  qed
qed

section \<open>The promise\<close>

text \<open>
  C27: however the operations of many callers and \<open>Close\<close> interleave, an operation owns the client's
  connection: at most one is between the gate and its release, and the gate is taken only while one is; an
  operation that exchanges on an open connection does so on the client's own; a connection that has been dialed is
  never a second one beside it; no connection is left open but the client's own and one just dialed, so that a closed client, once no
  dialing is under way, has none; and the operation that holds the gate is never stuck.
\<close>

theorem client_serialized:
  assumes "gate_reachable s"
  shows "(\<forall>i j. holding (gc_at s i) \<and> holding (gc_at s j) \<longrightarrow> i = j) \<and> (gc_gate s \<longleftrightarrow> (\<exists>i. holding (gc_at s i)))
    \<and> (\<forall>i c. gc_at s i = OpExchanging c \<and> c \<in> gc_open s \<longrightarrow> gc_conn s = Some c)
    \<and> (\<forall>i n. gc_at s i = OpDialed n \<longrightarrow> gc_conn s = None)
    \<and> gc_open s \<subseteq> set_option (gc_conn s) \<union> {n. \<exists>i. gc_at s i = OpDialed n}
    \<and> (gc_closed s \<and> (\<forall>i n. gc_at s i \<noteq> OpDialed n) \<longrightarrow> gc_open s = {})
    \<and> (\<forall>i. holding (gc_at s i) \<longrightarrow> (\<exists>ev t. gate_step ev s = Some t \<and> gc_at t i \<noteq> gc_at s i))"
proof -
  obtain h where h: "held_by_one h s" using gate_reachable_held [OF assms] by blast
  note holder = holder_state [OF h]
  have core: "gate_core s (gc_at s h)" using h by (simp add: held_by_one_def)
  have one: "\<forall>i j. holding (gc_at s i) \<and> holding (gc_at s j) \<longrightarrow> i = j" using holder(1) by blast
  have gate: "gc_gate s \<longleftrightarrow> (\<exists>i. holding (gc_at s i))" using h holder(2) by (auto simp: held_by_one_def)
  have exchange: "gc_conn s = Some c" if "gc_at s i = OpExchanging c" "c \<in> gc_open s" for i c
    using holder(3) [of i] that by (auto simp: gate_core_def)
  have dialed: "gc_conn s = None" if "gc_at s i = OpDialed n" for i n
    using holder(3) [of i] that by (auto simp: gate_core_def)
  have open_: "gc_open s \<subseteq> set_option (gc_conn s) \<union> {n. \<exists>i. gc_at s i = OpDialed n}"
    using core by (cases "gc_at s h") (auto simp: gate_core_def)
  have closed: "gc_open s = {}" if "gc_closed s" "\<forall>i n. gc_at s i \<noteq> OpDialed n"
    using open_ that core by (auto simp: gate_core_def)
  have "\<exists>ev t. gate_step ev s = Some t \<and> gc_at t i \<noteq> gc_at s i" if hold: "holding (gc_at s i)" for i
  proof (cases "gc_at s i")
    case OpAcquired
    then show ?thesis by (intro exI [of _ "LockConnection i True"]) (simp add: lock_connection_def)
  next
    case OpDialing
    then show ?thesis by (intro exI [of _ "Dial i False"]) (simp add: dial_def)
  next
    case (OpDialed n)
    then show ?thesis by (intro exI [of _ "LockDialed i"]) (simp add: lock_dialed_def split: option.split)
  next
    case (OpExchanging c)
    then show ?thesis by (intro exI [of _ "EndExchange i Broken"]) (simp add: end_exchange_def)
  next
    case OpPoisoning
    then show ?thesis by (intro exI [of _ "PoisonConnection i"]) (simp add: poison_connection_def)
  next
    case OpReleasing
    then show ?thesis using holder(2) [OF hold] by (intro exI [of _ "LeaveGate i"]) (simp add: release_def)
  qed (use hold in simp_all)
  then show ?thesis using one gate exchange dialed open_ closed by blast
qed

text \<open>Two callers and a \<open>Close\<close> while one of them is dialing.\<close>

definition racing_events :: "gate_event list" where
  "racing_events = [CallOperation 0, CallOperation 1, PassGate 0, LockConnection 0 False, Dial 0 True, CloseClient, LockDialed 0]"

lemma gate_run_reachable: "gate_reachable s \<Longrightarrow> gate_run evs s = Some t \<Longrightarrow> gate_reachable t"
proof (induction evs arbitrary: s)
  case (Cons ev evs)
  then show ?case by (cases "gate_step ev s") (auto intro: gate_next)
qed simp

theorem client_serialized_witness:
  "\<exists>s. gate_run racing_events new_gate_client = Some s \<and> gc_dialed s = 1 \<and> gc_open s = {} \<and> gc_at s 1 = OpAcquiring
     \<and> gc_gate s \<and> (\<exists>i. holding (gc_at s i))"
proof -
  let ?s = "\<lparr>gc_gate = True, gc_conn = None, gc_closed = True, gc_open = {}, gc_dialed = 1,
     gc_at = (\<lambda>_. OpIdle)(0 := OpReleasing, 1 := OpAcquiring)\<rparr>"
  have run: "gate_run racing_events new_gate_client = Some ?s"
    by (simp add: racing_events_def new_gate_client_def acquire_def lock_connection_def dial_def lock_dialed_def close_shared_def
        drop_connection_def op_goes_def fun_upd_twist)
  have "gate_reachable ?s" by (rule gate_run_reachable [OF gate_new run])
  from client_serialized [OF this] run show ?thesis by auto
qed

end
