(* ===== verification/JsonFacts.thy ===== *)
theory JsonFacts
  imports Messages
begin

text \<open>Facts on the JSON texts of messages: their size, and reading back what was printed.\<close>

section \<open>The size of a response\<close>

text \<open>Quoting makes a text at most six times as long.\<close>

lemma rune_length_le: "rune_length bs \<le> 4"
  by (simp add: rune_length_def split: list.split)

lemma length_escape_ascii: "length (escape_ascii b) \<le> 6"
  by (simp add: escape_ascii_def)

lemma length_quote_text: "length (quote_text bs) \<le> 6 * length bs"
proof (induction bs rule: quote_text.induct)
  case (1 bs)
  show ?case
  proof (cases bs)
    case Nil
    then show ?thesis by (simp add: quote_text.simps)
  next
    case (Cons a r)
    let ?k = "rune_length bs"
    consider (ascii) "a < 0x80" | (bad) "\<not> a < 0x80" "?k = 0" | (rune) "\<not> a < 0x80" "?k \<noteq> 0" by blast
    then show ?thesis
    proof cases
      case ascii
      with 1(1) [OF Cons ascii] Cons length_escape_ascii [of a] show ?thesis
        by (simp add: quote_text.simps [of "a # r"])
    next
      case bad
      with 1(2) [OF Cons bad] Cons show ?thesis
        by (simp add: quote_text.simps [of "a # r"] bytes_of_def)
    next
      case rune
      have "length (escape_rune (take ?k bs)) \<le> 6 * length (take ?k bs)"
        by (cases "length (take ?k bs)") (auto simp: escape_rune_def bytes_of_def simp del: length_take)
      moreover have "length (quote_text bs) = length (escape_rune (take ?k bs)) + length (quote_text (drop ?k bs))"
        using rune Cons by (simp add: quote_text.simps [of "a # r"])
      moreover have "length bs = length (take ?k bs) + length (drop ?k bs)" by (metis append_take_drop_id length_append)
      ultimately show ?thesis using 1(3) [OF Cons rune] by linarith
    qed
  qed
qed

lemma length_bytes_of [simp]: "length (bytes_of s) = length s"
  by (simp add: bytes_of_def)

lemma length_jstr: "length (json_text (jstr s)) \<le> 6 * length s + 2"
  using length_quote_text [of "bytes_of s"] by simp

fun members_bound :: "(string \<times> json) list \<Rightarrow> nat" where
  "members_bound [] = 0"
| "members_bound ((k, v) # kvs) = 6 * length k + length (json_text v) + 4 + members_bound kvs"

lemma length_members_text:
  "length (members_text (map (\<lambda>(k, v). (quote_text (bytes_of k), v)) kvs)) \<le> members_bound kvs"
proof (induction kvs rule: members_bound.induct)
  case (2 k v kvs)
  then show ?case using length_quote_text [of "bytes_of k"] by (cases kvs) (auto split: prod.splits)
qed simp

lemma length_jobject: "length (json_text (jobject kvs)) \<le> members_bound kvs + 2"
  using length_members_text [of kvs] by (simp add: jobject_def)

lemma length_decimal: "n < 10 ^ k \<Longrightarrow> 0 < k \<Longrightarrow> length (decimal n) \<le> k"
proof (induction n arbitrary: k rule: decimal.induct)
  case (1 n)
  show ?case
  proof (cases "n < 10")
    case True
    with 1(3) show ?thesis by (simp add: decimal.simps [of n])
  next
    case False
    with 1(2,3) obtain j where j: "k = Suc j" "0 < j" by (cases k; cases "k - 1") auto
    with 1(2) have "n div 10 < 10 ^ j" by (simp add: less_mult_imp_div_less mult.commute)
    with 1(1) [OF False this j(2)] False j show ?thesis by (simp add: decimal.simps [of n])
  qed
qed

lemma length_juint: "length (json_text (juint n)) \<le> 20"
  using length_decimal [of "unat n" 20] unat_u64_bound [of n] by (simp add: juint_def)

section \<open>Reading back what was quoted\<close>

text \<open>A written unit: the scanner copies it, and unquoting turns it into \<open>d\<close>.\<close>

definition written :: "bytes \<Rightarrow> bytes \<Rightarrow> bool" where
  "written e d \<longleftrightarrow> (\<forall>rest. scan_string (e @ rest) = map_option (\<lambda>(l, r). (e @ l, r)) (scan_string rest)
     \<and> unquote (e @ rest) = d @ unquote rest)"

lemma unat_of_nat_byte [simp]: "n < 256 \<Longrightarrow> unat (of_nat n :: byte) = n"
  by (simp add: unat_of_nat take_bit_nat_eq_self_iff)

lemma hex_digit_value: "n < 16 \<Longrightarrow> hex_value (char_of (unat (hex_digit n))) = Some n"
proof -
  assume "n < 16"
  moreover have "(hex_digit n) = of_nat (if n < 10 then 48 + n else 87 + n)" by (simp add: hex_digit_def)
  ultimately have "unat (hex_digit n) = (if n < 10 then 48 + n else 87 + n)" by (simp only: unat_of_nat_byte split: if_split) simp
  with \<open>n < 16\<close> show ?thesis by (simp add: hex_value_def Let_def)
qed

lemma hex4_low:
  assumes "unat b < 128"
  shows "hex4 (0x30 # 0x30 # hex_digit (unat b div 16) # hex_digit (unat b mod 16) # rest) = Some (unat b)"
proof -
  have "hex_value (char_of (48 :: nat)) = Some 0" by (simp add: hex_value_def Let_def)
  with assms show ?thesis by (simp add: hex4_def str_of_def hex_digit_value)
qed

lemma written_escape: "simple_escape c = Some x \<Longrightarrow> c \<noteq> 0x75 \<Longrightarrow> written [0x5C, c] [x]"
  by (auto simp: written_def scan_string.simps [of "0x5C # c # _"] unquote.simps [of "0x5C # c # _"])

lemma written_plain:
  "b < 0x80 \<Longrightarrow> \<not> b < 0x20 \<Longrightarrow> b \<noteq> 0x22 \<Longrightarrow> b \<noteq> 0x5C \<Longrightarrow> written [b] [b]"
  by (auto simp: written_def scan_string.simps [of "b # _"] unquote.simps [of "b # _"] rune_length_def)

lemma encode_rune_ascii: "b < 0x80 \<Longrightarrow> encode_rune (unat b) = [b]"
  by (simp add: encode_rune_def word_less_nat_alt)

lemma written_u:
  assumes "b < 0x80"
  shows "written [0x5C, 0x75, 0x30, 0x30, hex_digit (unat b div 16), hex_digit (unat b mod 16)] [b]"
proof -
  have "unat b < 128" using assms by (simp add: word_less_nat_alt)
  then show ?thesis
    using assms
    by (simp add: written_def scan_string.simps [of "0x5C # 0x75 # _"] unquote.simps [of "0x5C # 0x75 # _"] hex4_low
        surrogate_def encode_rune_ascii)
qed

lemma written_ascii: "b < 0x80 \<Longrightarrow> written (escape_ascii b) [b]"
  unfolding escape_ascii_def
  using written_escape [of b b] written_escape [of "0x62" 8] written_escape [of "0x66" 12] written_escape [of "0x6E" 10]
    written_escape [of "0x72" 13] written_escape [of "0x74" 9] written_u [of b] written_plain [of b]
  by (auto simp: simple_escape_def)

lemma written_append: "written e d \<Longrightarrow> written f c \<Longrightarrow> written (e @ f) (d @ c)"
  by (auto simp: written_def option.map_comp o_def split_def)

lemma rune_length_cases:
  assumes "rune_length (a # r) = k" and "k \<noteq> 0"
  obtains (one) "k = 1" and "a < 0x80"
    | (two) "k = 2" and "\<not> a < 0x80" and "0xC2 \<le> a" and "a \<le> 0xDF" and "utf8_valid (take 2 (a # r))"
    | (three) "k = 3" and "\<not> a < 0x80" and "\<not> (0xC2 \<le> a \<and> a \<le> 0xDF)" and "0xE0 \<le> a" and "a \<le> 0xEF" and "utf8_valid (take 3 (a # r))"
    | (four) "k = 4" and "\<not> a < 0x80" and "\<not> (0xC2 \<le> a \<and> a \<le> 0xDF)" and "\<not> (0xE0 \<le> a \<and> a \<le> 0xEF)"
        and "0xF0 \<le> a" and "a \<le> 0xF4" and "utf8_valid (take 4 (a # r))"
  using assms that by (simp add: rune_length_def split: if_splits)

lemma rune_length_le_length:
  assumes "rune_length (a # r) = k" and "k \<noteq> 0"
  shows "k \<le> length (a # r)"
  using assms
  by (cases rule: rune_length_cases; cases r; cases "tl r"; cases "tl (tl r)") (simp_all split: if_splits)

lemma rune_length_take:
  assumes "rune_length bs = k" and "k \<noteq> 0"
  shows "k \<le> length bs" and "rune_length (take k bs @ rest) = k"
proof -
  obtain a r where bs: "bs = a # r" using assms by (cases bs) (auto simp: rune_length_def)
  show len: "k \<le> length bs" using rune_length_le_length assms bs by blast
  obtain j where k: "k = Suc j" using assms(2) by (cases k) auto
  have front: "take k (a # take j r @ rest) = take k bs" using len bs k by simp
  show "rune_length (take k bs @ rest) = k"
    using assms(1) [unfolded bs] assms(2)
    by (cases rule: rune_length_cases) (use bs k front in \<open>auto simp add: rune_length_def simp del: take_append\<close>)
qed

lemma scan_high:
  "\<forall>b \<in> set e. 0x80 \<le> b \<Longrightarrow> scan_string (e @ rest) = map_option (\<lambda>(l, r). (e @ l, r)) (scan_string rest)"
proof (induction e)
  case Nil
  show ?case by (simp add: option.map_ident)
next
  case (Cons b e)
  have "\<not> b < 0x20" "b \<noteq> 0x22" "b \<noteq> 0x5C" using Cons.prems by (auto simp: word_le_nat_alt word_less_nat_alt)
  with Cons show ?case by (simp add: scan_string.simps [of "b # _"] option.map_comp o_def split_def)
qed

lemma utf8_second_high: "utf8_second a b \<Longrightarrow> 0x80 \<le> b"
  by (auto simp: utf8_second_def utf8_cont_def word_le_nat_alt split: if_splits)

lemma rune_high:
  assumes "rune_length (a # r) = k" and "\<not> a < 0x80" and "k \<noteq> 0"
  shows "\<forall>b \<in> set (take k (a # r)). 0x80 \<le> b"
  using assms utf8_second_high
  by (cases r; cases "tl r"; cases "tl (tl r)")
    (auto simp: rune_length_def utf8_cont_def split: if_splits)

lemma unquote_rune:
  assumes "rune_length bs = k" and "k \<noteq> 0" and "bs = a # r" and "\<not> a < 0x80"
  shows "unquote (take k bs @ rest) = take k bs @ unquote rest"
proof -
  note len = rune_length_take [OF assms(1,2)]
  obtain j where k: "k = Suc j" using assms(2) by (cases k) auto
  have "a \<noteq> 0x5C" using assms(4) by auto
  then show ?thesis
    using len(1) len(2) [of rest] assms(2,3) k by (simp add: unquote.simps [of "a # take j r @ rest"])
qed

lemma written_separator:
  "written (bytes_of ([CHR 0x5C] @ ''u2028'')) [0xE2, 0x80, 0xA8]"
  "written (bytes_of ([CHR 0x5C] @ ''u2029'')) [0xE2, 0x80, 0xA9]"
  by (simp_all add: written_def bytes_of_def scan_string.simps [of "0x5C # _"] unquote.simps [of "0x5C # _"]
      hex4_def str_of_def hex_value_def Let_def surrogate_def encode_rune_def)

lemma written_rune:
  assumes "rune_length bs = k" and "k \<noteq> 0" and "bs = a # r" and "\<not> a < 0x80"
  shows "written (escape_rune (take k bs)) (take k bs)"
proof -
  have "written (take k bs) (take k bs)"
    unfolding written_def
    using scan_high [OF rune_high [OF assms(1) [unfolded assms(3)] assms(4,2)]] unquote_rune [OF assms] assms(3) by simp
  then show ?thesis using written_separator by (simp add: escape_rune_def)
qed

lemma valid_rune:
  assumes "utf8_valid (a # r)" and "\<not> a < 0x80"
  shows "rune_length (a # r) \<noteq> 0" and "utf8_valid (drop (rune_length (a # r)) (a # r))"
proof -
  consider (two) "0xC2 \<le> a \<and> a \<le> 0xDF" | (three) "\<not> (0xC2 \<le> a \<and> a \<le> 0xDF)" "0xE0 \<le> a \<and> a \<le> 0xEF"
    | (four) "\<not> (0xC2 \<le> a \<and> a \<le> 0xDF)" "\<not> (0xE0 \<le> a \<and> a \<le> 0xEF)" "0xF0 \<le> a \<and> a \<le> 0xF4"
    using assms by (auto split: if_splits)
  then have "rune_length (a # r) \<noteq> 0 \<and> utf8_valid (drop (rune_length (a # r)) (a # r))"
  proof cases
    case two
    with assms obtain b rest where "r = b # rest" "utf8_cont b" "utf8_valid rest" by (auto split: list.splits)
    moreover from this two assms(2) have "rune_length (a # r) = 2" unfolding rune_length_def by auto
    ultimately show ?thesis by simp
  next
    case three
    with assms obtain b c rest where "r = b # c # rest" "utf8_second a b" "utf8_cont c" "utf8_valid rest"
      by (auto split: list.splits)
    moreover from this three assms(2) have "rune_length (a # r) = 3" unfolding rune_length_def by auto
    ultimately show ?thesis by simp
  next
    case four
    with assms obtain b c d rest where "r = b # c # d # rest" "utf8_second a b" "utf8_cont c" "utf8_cont d" "utf8_valid rest"
      by (auto split: list.splits)
    moreover from this four assms(2) have "rune_length (a # r) = 4" unfolding rune_length_def by auto
    ultimately show ?thesis by simp
  qed
  then show "rune_length (a # r) \<noteq> 0" and "utf8_valid (drop (rune_length (a # r)) (a # r))" by simp_all
qed

lemma written_quote: "utf8_valid bs \<Longrightarrow> written (quote_text bs) bs"
proof (induction bs rule: quote_text.induct)
  case (1 bs)
  show ?case
  proof (cases bs)
    case Nil
    then show ?thesis by (simp add: quote_text.simps written_def option.map_id)
  next
    case (Cons a r)
    show ?thesis
    proof (cases "a < 0x80")
      case True
      with 1(4) Cons have "utf8_valid r" by simp
      from written_append [OF written_ascii [OF True] 1(1) [OF Cons True this]] Cons True show ?thesis
        by (simp add: quote_text.simps [of "a # r"])
    next
      case False
      let ?k = "rune_length bs"
      have k: "?k \<noteq> 0" and rest: "utf8_valid (drop ?k bs)"
        using valid_rune [of a r] 1(4) False Cons by simp_all
      from written_append [OF written_rune [OF refl k Cons False] 1(3) [OF Cons False k rest]]
      have "written (escape_rune (take ?k bs) @ quote_text (drop ?k bs)) bs" by simp
      then show ?thesis using Cons False k by (simp add: quote_text.simps [of "a # r"])
    qed
  qed
qed

text \<open>What the encoder writes for a valid text is read back as the same text.\<close>

lemma unquote_quote: "utf8_valid bs \<Longrightarrow> unquote (quote_text bs) = bs"
  using written_quote [of bs] by (auto simp: written_def unquote.simps [of "[]"] dest: spec [of _ "[]"])

definition literal :: "bytes \<Rightarrow> bool" where
  "literal l = (\<forall>rest. scan_string (l @ 0x22 # rest) = Some (l, rest))"

lemma literal_quote: "utf8_valid bs \<Longrightarrow> literal (quote_text bs)"
  using written_quote [of bs] by (auto simp: written_def literal_def scan_string.simps [of "0x22 # _"])

section \<open>Reading back a printed value\<close>

definition delimited :: "bytes \<Rightarrow> bool" where
  "delimited rest = (case rest of [] \<Rightarrow> True | b # _ \<Rightarrow> b = 0x2C \<or> b = 0x5D \<or> b = 0x7D)"

definition number :: "string \<Rightarrow> bool" where
  "number l = ((\<exists>b bs. bytes_of l = b # bs \<and> (is_digit b \<or> b = 0x2D))
     \<and> (\<forall>rest. delimited rest \<longrightarrow> scan_number (bytes_of l @ rest) = Some (bytes_of l, rest)))"

text \<open>Values whose literals are well formed and that are nested at most \<open>d\<close> deep.\<close>

fun json_ok :: "nat \<Rightarrow> json \<Rightarrow> bool" where
  "json_ok d JNull = True"
| "json_ok d (JBool b) = True"
| "json_ok d (JNum l) = number l"
| "json_ok d (JStr l) = literal l"
| "json_ok d (JArr vs) = (d \<noteq> 0 \<and> list_all (json_ok (d - 1)) vs)"
| "json_ok d (JObj ms) = (d \<noteq> 0 \<and> list_all (\<lambda>(k, v). literal k \<and> json_ok (d - 1) v) ms)"

lemma not_space: "b = 0x22 \<or> b = 0x2C \<or> b = 0x5B \<or> b = 0x5D \<or> b = 0x7B \<or> b = 0x7D \<or> b = 0x3A \<or> b = 0x2D \<or> is_digit b \<Longrightarrow> \<not> is_space b"
  by (auto simp: is_space_def is_digit_def)

lemma skip_space_id: "\<not> is_space b \<Longrightarrow> skip_space (b # bs) = b # bs"
  by (simp add: skip_space_def)

lemma json_text_head:
  assumes "json_ok d v"
  obtains b bs where "json_text v = b # bs" and "\<not> is_space b" and "b \<noteq> 0x5D"
proof (cases v)
  case (JNum l)
  with assms obtain b bs where "bytes_of l = b # bs" "is_digit b \<or> b = 0x2D" by (auto simp: number_def)
  with JNum show ?thesis by (intro that [of b bs]) (auto simp: not_space is_digit_def)
next
  case (JBool x)
  then show ?thesis by (cases x) (auto simp: bytes_of_def is_space_def intro: that)
qed (auto simp: bytes_of_def is_space_def intro: that)

lemma skip_json_text: "json_ok d v \<Longrightarrow> skip_space (json_text v @ rest) = json_text v @ rest"
  by (erule json_text_head [of d v]) (simp add: skip_space_id)

lemma skip_items_text: "list_all (json_ok d) vs \<Longrightarrow> vs \<noteq> [] \<Longrightarrow> skip_space (items_text vs @ rest) = items_text vs @ rest"
  by (cases vs rule: items_text.cases) (simp_all add: skip_json_text [of d])

lemma members_text_head: "ms \<noteq> [] \<Longrightarrow> \<exists>bs. members_text ms = 0x22 # bs"
  by (cases ms rule: members_text.cases) simp_all

lemma skip_members_text: "ms \<noteq> [] \<Longrightarrow> skip_space (members_text ms @ rest) = members_text ms @ rest"
  using members_text_head [of ms] by (auto simp: skip_space_id not_space)

lemma items_text_head:
  assumes "list_all (json_ok d) vs" and "vs \<noteq> []"
  obtains b bs where "items_text vs = b # bs" and "b \<noteq> 0x5D"
  using assms by (cases vs rule: items_text.cases) (auto elim!: json_text_head)

text \<open>The text of a value is read back as the value, whatever delimiter follows.\<close>

lemma number_dispatch:
  assumes "bytes_of l = b # bs" and "is_digit b \<or> b = 0x2D"
  shows "b \<noteq> 0x22" and "b \<noteq> 0x5B" and "b \<noteq> 0x7B" and "b \<noteq> 0x74" and "b \<noteq> 0x66" and "b \<noteq> 0x6E"
  using assms(2) by (auto simp: is_digit_def)

lemma parse_text:
  "json_ok d v \<Longrightarrow> delimited rest \<Longrightarrow> 2 * length (json_text v) \<le> fuel \<Longrightarrow>
     parse_value fuel d (json_text v @ rest) = Some (v, rest)"
  and parse_items_text:
  "list_all (json_ok d) vs \<Longrightarrow> vs \<noteq> [] \<Longrightarrow> 2 * length (items_text vs) < fuel \<Longrightarrow>
     parse_items fuel d (items_text vs @ 0x5D # rest) = Some (vs, rest)"
  and parse_members_text:
  "list_all (\<lambda>(k, v). literal k \<and> json_ok d v) ms \<Longrightarrow> ms \<noteq> [] \<Longrightarrow> 2 * length (members_text ms) < fuel \<Longrightarrow>
     parse_members fuel d (members_text ms @ 0x7D # rest) = Some (ms, rest)"
proof (induction v and vs and ms arbitrary: d fuel rest and d fuel rest and d fuel rest
    rule: json_text_items_text_members_text.induct)
  case 1
  then show ?case by (cases fuel) (simp_all add: bytes_of_def scan_word_def)
next
  case (2 b)
  then show ?case by (cases fuel; cases b) (simp_all add: bytes_of_def scan_word_def)
next
  case (3 l)
  then obtain b bs where l: "bytes_of l = b # bs" "is_digit b \<or> b = 0x2D" by (auto simp: number_def)
  from 3 have scan: "scan_number (bytes_of l @ rest) = Some (bytes_of l, rest)" by (auto simp: number_def)
  have orig: "str_of (b # bs) = l" using l(1) str_of_bytes_of [of l] by simp
  show ?case using 3(3) scan l(1) number_dispatch [OF l] orig by (cases fuel) simp_all
next
  case (4 l)
  then show ?case by (cases fuel) (simp_all add: literal_def)
next
  case (5 vs)
  then obtain f where f: "fuel = Suc f" by (cases fuel) simp_all
  show ?case
  proof (cases "vs = []")
    case True
    with 5(2) f show ?thesis by (cases d) (auto simp: skip_space_id not_space)
  next
    case False
    from 5(2) have ok: "list_all (json_ok (d - 1)) vs" and d: "d \<noteq> 0" by simp_all
    obtain b bs where hd: "items_text vs = b # bs" "b \<noteq> 0x5D" by (rule items_text_head [OF ok False])
    have "parse_items f (d - 1) (items_text vs @ 0x5D # rest) = Some (vs, rest)"
      using 5(4) f by (intro 5(1) [OF ok False]) simp
    then show ?thesis
      using skip_items_text [OF ok False, of "0x5D # rest"] f d hd by (simp del: parse_items.simps)
  qed
next
  case (6 ms)
  then obtain f where f: "fuel = Suc f" by (cases fuel) simp_all
  show ?case
  proof (cases "ms = []")
    case True
    with 6(2) f show ?thesis by (cases d) (auto simp: skip_space_id not_space)
  next
    case False
    from 6(2) have ok: "list_all (\<lambda>(k, v). literal k \<and> json_ok (d - 1) v) ms" and d: "d \<noteq> 0" by simp_all
    obtain bs where hd: "members_text ms = 0x22 # bs" using members_text_head [OF False] by blast
    have "parse_members f (d - 1) (members_text ms @ 0x7D # rest) = Some (ms, rest)"
      using 6(4) f by (intro 6(1) [OF ok False]) simp
    then show ?thesis
      using skip_members_text [OF False, of "0x7D # rest"] f d hd by (simp del: parse_members.simps)
  qed
next
  case 7
  then show ?case by simp
next
  case (8 v)
  then obtain f where f: "fuel = Suc f" by (cases fuel) simp_all
  with 8 have "parse_value f d (json_text v @ 0x5D # rest) = Some (v, 0x5D # rest)"
    by (intro 8(1)) (simp_all add: delimited_def)
  with f show ?case by (simp add: skip_space_id not_space)
next
  case (9 v w vs)
  then obtain f where f: "fuel = Suc f" by (cases fuel) simp_all
  have one: "parse_value f d (json_text v @ 0x2C # items_text (w # vs) @ 0x5D # rest) = Some (v, 0x2C # items_text (w # vs) @ 0x5D # rest)"
    using 9(3,5) f by (intro 9(1)) (simp_all add: delimited_def)
  have "parse_items f d (items_text (w # vs) @ 0x5D # rest) = Some (w # vs, rest)"
    using 9(3,5) f by (intro 9(2)) simp_all
  with one f 9(3) skip_items_text [of d "w # vs" "0x5D # rest"] show ?case
    by (simp add: skip_space_id not_space del: items_text.simps) (simp add: skip_space_id not_space)
next
  case 10
  then show ?case by simp
next
  case (11 k v)
  then obtain f where f: "fuel = Suc f" by (cases fuel) simp_all
  with 11 have "parse_value f d (json_text v @ 0x7D # rest) = Some (v, 0x7D # rest)"
    by (intro 11(1)) (simp_all add: delimited_def)
  with f 11(2) skip_json_text [of d v "0x7D # rest"] show ?case by (simp add: skip_space_id not_space literal_def)
next
  case (12 k v m ms)
  then obtain f where f: "fuel = Suc f" by (cases fuel) simp_all
  have one: "parse_value f d (json_text v @ 0x2C # members_text (m # ms) @ 0x7D # rest) = Some (v, 0x2C # members_text (m # ms) @ 0x7D # rest)"
    using 12(3,5) f by (intro 12(1)) (simp_all add: delimited_def)
  have "parse_members f d (members_text (m # ms) @ 0x7D # rest) = Some (m # ms, rest)"
    using 12(3,5) f by (intro 12(2)) simp_all
  with one f 12(3) skip_members_text [of "m # ms" "0x7D # rest"] skip_json_text [of d v "0x2C # members_text (m # ms) @ 0x7D # rest"]
  show ?case by (simp add: skip_space_id not_space literal_def)
qed

end
