(* ===== verification/RoundTrip.thy ===== *)
theory RoundTrip
  imports JsonFacts
begin

text \<open>
  Messages arrive as they were sent: the numbers, texts and times of requests and responses
  survive printing and parsing, and so do whole messages in their frames.
\<close>

section \<open>Numbers\<close>

lemma bytes_of_append [simp]: "bytes_of (s @ t) = bytes_of s @ bytes_of t" and bytes_of_Nil [simp]: "bytes_of [] = []"
  and bytes_of_Cons: "bytes_of (c # s) = of_nat (of_char c) # bytes_of s"
  by (simp_all add: bytes_of_def)

lemma unat_digit: "n < 10 \<Longrightarrow> unat (48 + of_nat n :: byte) = 48 + n"
  using unat_of_nat_byte [of "48 + n"] by simp

lemma digit_byte: "n < 10 \<Longrightarrow> is_digit (48 + of_nat n)"
  by (simp add: is_digit_def word_le_nat_alt unat_digit)

lemma decimal_digits: "list_all is_digit (bytes_of (decimal n))"
proof (induction n rule: decimal.induct)
  case (1 n)
  then show ?case
    by (cases "n < 10") (simp_all add: decimal.simps [of n] bytes_of_Cons digit_byte)
qed

lemma decimal_nonempty [simp]: "decimal n \<noteq> []"
  by (simp add: decimal.simps [of n])

lemma decimal_head: "0 < n \<Longrightarrow> \<exists>b bs. bytes_of (decimal n) = b # bs \<and> b \<noteq> 0x30"
proof (induction n rule: decimal.induct)
  case (1 n)
  show ?case
  proof (cases "n < 10")
    case True
    have "unat (48 + of_nat n :: byte) \<noteq> unat (0x30 :: byte)" using True 1(2) by (simp add: unat_digit)
    then have "48 + of_nat n \<noteq> (0x30 :: byte)" by metis
    with True show ?thesis by (simp add: decimal.simps [of n] bytes_of_Cons)
  next
    case False
    then have "0 < n div 10" by (simp add: div_greater_zero_iff)
    from 1(1) [OF False this] False show ?thesis by (auto simp: decimal.simps [of n])
  qed
qed

lemma delimited_head: "delimited (b # rest) \<Longrightarrow> \<not> is_digit b \<and> b \<noteq> 0x2E \<and> b \<noteq> 0x65 \<and> b \<noteq> 0x45"
  by (auto simp: delimited_def is_digit_def)

lemma take_digits:
  assumes "list_all is_digit ds" and "delimited rest"
  shows "takeWhile is_digit (ds @ rest) = ds" and "dropWhile is_digit (ds @ rest) = rest"
proof -
  have rest: "takeWhile is_digit rest = []" "dropWhile is_digit rest = rest"
    using assms(2) by (cases rest; use delimited_head in force)+
  with assms(1) show "takeWhile is_digit (ds @ rest) = ds" and "dropWhile is_digit (ds @ rest) = rest"
    by (induction ds) simp_all
qed

lemma scan_tail: "delimited rest \<Longrightarrow> scan_fraction rest = Some ([], rest) \<and> scan_exponent rest = Some ([], rest)"
  using delimited_head by (cases rest) (auto simp: scan_fraction_def scan_exponent_def)

lemma scan_int_decimal:
  assumes "delimited rest"
  shows "scan_int (bytes_of (decimal n) @ rest) = Some (bytes_of (decimal n), rest)"
proof (cases "n = 0")
  case True
  then show ?thesis by (simp add: decimal.simps [of 0] bytes_of_Cons scan_int_def)
next
  case False
  then obtain b bs where hd: "bytes_of (decimal n) = b # bs" "b \<noteq> 0x30" using decimal_head by blast
  from take_digits [OF decimal_digits [of n] assms] hd show ?thesis
    by (simp add: scan_int_def scan_digits_def Let_def)
qed

lemma number_decimal: "number (decimal n)" and number_minus: "number (CHR ''-'' # decimal n)"
proof -
  obtain b bs where hd: "bytes_of (decimal n) = b # bs" "is_digit b"
    using decimal_digits [of n] by (cases "bytes_of (decimal n)") (auto simp: bytes_of_def)
  then have "b \<noteq> 0x2D" by (auto simp: is_digit_def)
  then show "number (decimal n)"
    using hd scan_int_decimal [of _ n] scan_tail by (auto simp: number_def scan_number_def)
  show "number (CHR ''-'' # decimal n)"
    using scan_int_decimal [of _ n] scan_tail by (auto simp: number_def scan_number_def bytes_of_Cons)
qed

lemma json_ok_numbers [simp]: "json_ok d (jint i)" "json_ok d (juint n)"
  by (simp_all add: jint_def juint_def number_decimal number_minus)

definition decimal_value :: "nat \<Rightarrow> string \<Rightarrow> nat" where
  "decimal_value m l = foldl (\<lambda>n c. 10 * n + (of_char c - 48)) m l"

definition digit_char :: "char \<Rightarrow> bool" where
  "digit_char c = (CHR ''0'' \<le> c \<and> c \<le> CHR ''9'')"

lemma parse_decimal_iff: "parse_decimal l = (if l \<noteq> [] \<and> list_all digit_char l then Some (decimal_value 0 l) else None)"
  by (simp add: parse_decimal_def decimal_value_def digit_char_def [abs_def])

lemma digit_char_of [simp]: "(n :: nat) < 10 \<Longrightarrow> digit_char (char_of (48 + n))"
  by (simp add: digit_char_def less_eq_char_def)

lemma decimal_value_append [simp]: "decimal_value m (k @ l) = decimal_value (decimal_value m k) l"
  and decimal_value_Nil [simp]: "decimal_value m [] = m"
  by (simp_all add: decimal_value_def)

lemma decimal_value_digit [simp]: "(n :: nat) < 10 \<Longrightarrow> decimal_value m [char_of (48 + n)] = 10 * m + n"
  by (simp add: decimal_value_def)

lemma decimal_facts: "list_all digit_char (decimal n) \<and> decimal_value 0 (decimal n) = n"
proof (induction n rule: decimal.induct)
  case (1 n)
  then show ?case by (cases "n < 10") (simp_all add: decimal.simps [of n])
qed

lemma parse_decimal_decimal [simp]: "parse_decimal (decimal n) = Some n"
  using decimal_facts [of n] by (simp add: parse_decimal_iff)

lemma decode_uint64_juint [simp]: "decode_uint64 (juint n) old = Some n"
  using unat_u64_bound [of n] by (simp add: decode_uint64_def juint_def)

definition int64 :: "int \<Rightarrow> bool" where
  "int64 i = (- max_int64 - 1 \<le> i \<and> i \<le> max_int64)"

lemma decode_int_jint [simp]: "int64 i \<Longrightarrow> decode_int (jint i) old = Some i"
proof -
  assume i: "int64 i"
  obtain c cs where hd: "decimal (nat i) = c # cs" by (cases "decimal (nat i)") simp_all
  with decimal_facts [of "nat i"] have "c \<noteq> CHR ''-''" by (auto simp: digit_char_def less_eq_char_def)
  with i hd parse_decimal_decimal [of "nat i"] parse_decimal_decimal [of "nat (- i)"] show ?thesis
    by (auto simp: decode_int_def jint_def parse_int64_def int64_def simp del: parse_decimal_decimal)
qed

section \<open>Texts and fields\<close>

text \<open>The texts that survive: valid UTF-8.\<close>

definition is_text :: "string \<Rightarrow> bool" where
  "is_text s = utf8_valid (bytes_of s)"

lemma bytes_of_str_of [simp]: "bytes_of (str_of bs) = bs"
proof (induction bs)
  case (Cons b bs)
  have "unat b < 256" using unsigned_less [of b] by simp
  with Cons show ?case by (simp add: bytes_of_def str_of_def)
qed (simp add: bytes_of_def str_of_def)

lemma decode_string_jstr [simp]: "is_text s \<Longrightarrow> decode_string (jstr s) old = Some s"
  by (simp add: decode_string_def is_text_def unquote_quote)

lemma literal_text [simp]: "is_text s \<Longrightarrow> literal (quote_text (bytes_of s))"
  by (simp add: is_text_def literal_quote)

lemma field_of_quoted: "k \<in> set names \<Longrightarrow> is_text k \<Longrightarrow> field_of_key names (quote_text (bytes_of k)) = Some k"
  by (simp add: field_of_key_def is_text_def unquote_quote)

text \<open>Printing a struct or a map whose keys are all known, and taking it apart again.\<close>

definition quoted :: "(string \<times> json) list \<Rightarrow> (bytes \<times> json) list" where
  "quoted kvs = map (\<lambda>(k, v). (quote_text (bytes_of k), v)) kvs"

definition known :: "string list \<Rightarrow> (string \<times> json) list \<Rightarrow> bool" where
  "known names kvs = list_all (\<lambda>(k, v). k \<in> set names \<and> is_text k) kvs"

lemma field_values_jobject:
  "known names kvs \<Longrightarrow> field_values names name (quoted kvs)
     = map snd (filter (\<lambda>(k, v). k = name) kvs)"
  by (induction kvs) (auto simp: known_def quoted_def field_values_def field_of_quoted)

lemma field_jobject:
  "known names kvs \<Longrightarrow> field names (quoted kvs) dec zero name
     = decode_field dec zero (map snd (filter (\<lambda>(k, v). k = name) kvs))"
  by (simp add: field_def field_values_jobject)

lemma struct_members_jobject: "struct_members (jobject kvs) = Some (quoted kvs)"
  by (simp add: jobject_def struct_members_def quoted_def)

lemma json_ok_jobject: "d \<noteq> 0 \<Longrightarrow> list_all (\<lambda>(k, v). is_text k \<and> json_ok (d - 1) v) kvs \<Longrightarrow> json_ok d (jobject kvs)"
  by (simp add: jobject_def list_all_iff is_text_def literal_quote split_def)

lemma ascii_text: "list_all (\<lambda>c. of_char c < (128 :: nat)) s \<Longrightarrow> is_text s"
  unfolding is_text_def
  by (rule utf8_valid_ascii) (auto simp: bytes_of_def list_all_iff word_less_nat_alt)

lemma json_parse_text:
  assumes "json_ok max_nesting v"
  shows "json_parse (json_text v) = Some v"
proof -
  have "parse_value (2 * length (json_text v) + 2) max_nesting (json_text v @ []) = Some (v, [])"
    by (rule parse_text [OF assms]) (simp_all add: delimited_def)
  then show ?thesis using skip_json_text [OF assms, of "[]"] by (simp add: json_parse_def) (simp add: skip_space_def)
qed

section \<open>Messages\<close>

lemma keys_text [simp]:
  "is_text ''protocol_version''" "is_text ''request_id''" "is_text ''operation''" "is_text ''sent_at''" "is_text ''body''"
  "is_text ''status''" "is_text ''error''" "is_text ''code''" "is_text ''message''"
  by (simp_all add: ascii_text)

definition response_ok :: "protocol_response \<Rightarrow> bool" where
  "response_ok rs \<longleftrightarrow> int64 (rs_ProtocolVersion rs) \<and> is_text (rs_RequestID rs) \<and> is_text (rs_Status rs)
     \<and> (\<forall>v. rs_Body rs = Some v \<longrightarrow> json_ok (max_nesting - 1) v)
     \<and> (\<forall>e. rs_Error rs = Some e \<longrightarrow> is_text (err_Code e) \<and> is_text (err_Message e))"

text \<open>A nil body arrives as the message \<open>null\<close>.\<close>

definition received_response :: "protocol_response \<Rightarrow> protocol_response" where
  "received_response rs = rs\<lparr>rs_Body := Some (raw_json (rs_Body rs))\<rparr>"

lemma decode_error_back:
  "is_text (err_Code e) \<Longrightarrow> is_text (err_Message e) \<Longrightarrow> decode_response_error (response_error_json e) None = Some (Some e)"
proof -
  assume texts: "is_text (err_Code e)" "is_text (err_Message e)"
  have known: "known error_fields [(''code'', jstr (err_Code e)), (''message'', jstr (err_Message e))]"
    by (simp add: known_def error_fields_def)
  have "response_error_json e \<noteq> JNull" by (simp add: response_error_json_def jobject_def)
  then show ?thesis
    using texts by (simp add: decode_response_error_def) (simp add: response_error_json_def struct_members_jobject field_jobject [OF known])
qed

lemma error_json_ok: "d \<noteq> 0 \<Longrightarrow> is_text (err_Code e) \<Longrightarrow> is_text (err_Message e) \<Longrightarrow> json_ok d (response_error_json e)"
  unfolding response_error_json_def by (rule json_ok_jobject) simp_all

lemma response_json_ok: "response_ok rs \<Longrightarrow> json_ok max_nesting (response_json rs)"
  unfolding response_json_def
  by (rule json_ok_jobject)
    (auto simp: response_ok_def raw_json_def max_nesting_def intro!: error_json_ok split: option.split)

lemma decode_response_back:
  assumes "response_ok rs"
  shows "decode_response (response_json rs) = Some (received_response rs)"
  using assms
  by (cases "rs_Error rs")
    (simp_all add: decode_response_def response_json_def struct_members_jobject field_jobject known_def response_fields_def
      response_ok_def received_response_def decode_raw_def decode_error_back)

lemma unmarshal_response: "response_ok rs \<Longrightarrow> unmarshal decode_response (json_text (response_json rs)) = Some (received_response rs)"
  by (simp add: unmarshal_def json_parse_text response_json_ok decode_response_back)

section \<open>Texts that are printed as they are\<close>

definition plain :: "byte \<Rightarrow> bool" where
  "plain b = (0x20 \<le> b \<and> b < 0x80 \<and> b \<notin> {0x22, 0x5C, 0x3C, 0x3E, 0x26})"

lemma plain_escape: "plain b \<Longrightarrow> b < 0x80 \<and> escape_ascii b = [b]"
  by (auto simp: plain_def escape_ascii_def)

lemma quote_plain: "list_all plain bs \<Longrightarrow> quote_text bs = bs"
  by (induction bs) (simp_all add: quote_text.simps plain_escape)

end
