(* ===== verification/Times.thy ===== *)
theory Times
  imports RoundTrip
begin

text \<open>The text of a time in UTC is read back as the same time, in the years 0 to 9999.\<close>

section \<open>The calendar\<close>

lemma div_step: "0 < n \<Longrightarrow> (y :: int) div n = (y - 1) div n + (if y mod n = 0 then 1 else 0)"
proof -
  assume n: "0 < n"
  show ?thesis
  proof (cases "y mod n = 0")
    case True
    then obtain k where "y = n * k" by (auto simp: mod_eq_0_iff_dvd elim: dvdE)
    moreover have "(n * k - 1) div n = k - 1" using n by (intro int_div_pos_eq [of _ _ _ "n - 1"]) (simp_all add: algebra_simps)
    ultimately show ?thesis using n by simp
  next
    case False
    have "y - 1 = n * (y div n) + (y mod n - 1)" by simp
    moreover have "0 \<le> y mod n - 1" "y mod n - 1 < n" using n False pos_mod_sign [of n y] pos_mod_bound [of n y] by linarith+
    ultimately have "(y - 1) div n = y div n" by (intro int_div_pos_eq)
    with False show ?thesis by simp
  qed
qed

abbreviation year_start :: "int \<Rightarrow> int" where
  "year_start y \<equiv> civil_days y 1 1"

lemma year_start_eq: "year_start y = 365 * (y - 1) + (y - 1) div 4 - (y - 1) div 100 + (y - 1) div 400"
  by (simp add: civil_days_def)

lemma leap_bits:
  "(q \<longrightarrow> p) \<Longrightarrow> (r \<longrightarrow> q) \<Longrightarrow>
     (if p \<and> (\<not> q \<or> r) then 366 else 365) = 365 + (if p then 1 else 0) - (if q then 1 else 0) + (if r then 1 else (0 :: int))"
  by (cases p; cases q; cases r) simp_all

lemma year_length: "year_start (y + 1) = year_start y + (if leap y then 366 else 365)"
proof -
  have dvds: "y mod 100 = 0 \<Longrightarrow> y mod 4 = 0" "y mod 400 = 0 \<Longrightarrow> y mod 100 = 0"
    using mod_mod_cancel [of 4 100 y] mod_mod_cancel [of 100 400 y] by simp_all
  define b c d :: int where "b = (if y mod 4 = 0 then 1 else 0)" and "c = (if y mod 100 = 0 then 1 else 0)"
    and "d = (if y mod 400 = 0 then 1 else 0)"
  have leap: "(if leap y then 366 else 365) = 365 + b - c + d"
    unfolding leap_def b_def c_def d_def by (rule leap_bits) (use dvds in blast)+
  define p q r where "p = (y - 1) div 4" and "q = (y - 1) div 100" and "r = (y - 1) div 400"
  have divs: "y div 4 = p + b" "y div 100 = q + c" "y div 400 = r + d"
    unfolding p_def q_def r_def b_def c_def d_def by (rule div_step, simp)+
  have "year_start y = 365 * (y - 1) + p - q + r" unfolding year_start_eq p_def q_def r_def ..
  moreover have "year_start (y + 1) = 365 * y + y div 4 - y div 100 + y div 400" unfolding year_start_eq by simp
  ultimately show ?thesis unfolding leap divs by simp
qed

lemma month_start: "1 \<le> m \<Longrightarrow> civil_days y (m + 1) 1 = civil_days y m 1 + int (month_days y m)"
  by (simp add: civil_days_def upt_Suc)

lemma december: "civil_days y 12 1 + 31 = year_start (y + 1)"
proof -
  have "map (month_days y) [1..<12] = [31, month_days y 2, 31, 30, 31, 30, 31, 31, 30, 31, 30]"
    by (simp add: upt_rec month_days_def)
  then show ?thesis unfolding year_length by (simp add: civil_days_def month_days_def)
qed

lemma find_upto:
  assumes "a \<le> x" and "x \<le> b" and "P x" and "\<And>z. a \<le> z \<Longrightarrow> z < x \<Longrightarrow> \<not> P z"
  shows "find P [a .. b] = Some (x :: int)"
proof -
  have "[a .. b] ! nat (x - a) = x" "nat (x - a) < length [a .. b]" using assms(1,2) by simp_all
  moreover have "\<not> P ([a .. b] ! j)" if "j < nat (x - a)" for j using that assms(2,4) by (simp add: nth_upto)
  ultimately show ?thesis using assms(3) by (auto simp: find_Some_iff intro!: exI [of _ "nat (x - a)"])
qed

lemma year_start_mono: "y \<le> z \<Longrightarrow> year_start y \<le> year_start z"
proof (induction "nat (z - y)" arbitrary: z)
  case (Suc k)
  then have "k = nat (z - 1 - y)" "y \<le> z - 1" by linarith+
  from Suc(1) [OF this] have "year_start y \<le> year_start (z - 1)" .
  moreover have "year_start (z - 1) \<le> year_start z" using year_length [of "z - 1"] by (simp split: if_splits)
  ultimately show ?case by simp
qed simp

lemma year_exists:
  assumes "- 366 \<le> d" and "d < 3652059"
  obtains y where "year_of d = Some y" and "year_start y \<le> d" and "d < year_start (y + 1)" and "0 \<le> y" and "y \<le> 9999"
proof -
  define a where "a = d div 366 + 1"
  have d: "366 * (a - 1) \<le> d" "d < 366 * a" by (simp_all add: a_def)
  have a: "0 \<le> a" "a \<le> 9979" using assms by (simp_all add: a_def)
  have first: "year_start a \<le> d"
  proof (cases "a = 0")
    case True
    show ?thesis unfolding True year_start_eq using assms(1) by simp
  next
    case False
    define p q r where "p = (a - 1) div 4" and "q = (a - 1) div 100" and "r = (a - 1) div 400"
    have "p \<le> a - 1" "r \<le> q" unfolding p_def q_def r_def using False a(1) by (auto intro: zdiv_mono2)
    moreover have "year_start a = 365 * (a - 1) + p - q + r" unfolding year_start_eq p_def q_def r_def ..
    ultimately show ?thesis using d(1) by simp
  qed
  have last: "d < year_start (a + 30)"
  proof -
    define p q r where "p = (a + 29) div 4" and "q = (a + 29) div 100" and "r = (a + 29) div 400"
    have "a + 26 \<le> 4 * p" "100 * q \<le> a + 29" "a - 370 \<le> 400 * r" unfolding p_def q_def r_def by linarith+
    moreover have "year_start (a + 30) = 365 * (a + 29) + p - q + r" unfolding year_start_eq p_def q_def r_def by (simp add: add.commute)
    ultimately show ?thesis using d(2) a by simp
  qed
  define P where "P y = (d < year_start (y + 1))" for y
  define k where "k = (LEAST k. P (a + int k))"
  have "P (a + int 29)" using last by (simp add: P_def add.commute)
  then have Pk: "P (a + int k)" and k: "k \<le> 29" unfolding k_def by (rule LeastI, rule Least_le)
  have before: "\<not> P (a + int j)" if "j < k" for j using that unfolding k_def by (rule not_less_Least)
  have start: "year_start (a + int k) \<le> d"
  proof (cases k)
    case 0
    with first show ?thesis by simp
  next
    case (Suc j)
    with before [of j] show ?thesis by (simp add: P_def ac_simps)
  qed
  have "year_of d = Some (a + int k)"
    unfolding year_of_def a_def [symmetric] P_def [symmetric]
  proof (rule find_upto)
    fix z assume "a \<le> z" "z < a + int k"
    then show "\<not> P z" using before [of "nat (z - a)"] by simp
  qed (use Pk k in \<open>auto simp: a_def\<close>)
  moreover have "a + int k \<le> 9999"
  proof (rule ccontr)
    assume "\<not> a + int k \<le> 9999"
    then have "year_start 10000 \<le> year_start (a + int k)" by (intro year_start_mono) simp
    moreover have "year_start 10000 = 3652059" unfolding year_start_eq by simp
    ultimately show False using start assms(2) by simp
  qed
  ultimately show ?thesis using start Pk a(1) by (intro that [of "a + int k"]) (simp_all add: P_def)
qed

lemma month_exists:
  assumes "year_start y \<le> d" and "d < year_start (y + 1)"
  obtains m where "month_of y d = Some m" and "1 \<le> m" and "m \<le> 12" and "civil_days y m 1 \<le> d" and "d < civil_days y m 1 + int (month_days y m)"
proof -
  let ?P = "\<lambda>m. m = 12 \<or> d < civil_days y (m + 1) 1"
  have "find ?P [1..<13] \<noteq> None" by (simp add: find_None_iff) (rule exI [of _ 12], simp)
  then obtain m where found: "month_of y d = Some m" unfolding month_of_def by blast
  then obtain i where i: "i < 12" "m = i + 1" "?P m" and before: "\<And>j. j < i \<Longrightarrow> \<not> ?P (j + 1)"
    unfolding month_of_def by (fastforce simp: find_Some_iff nth_upt)
  have lower: "civil_days y m 1 \<le> d"
  proof (cases i)
    case 0
    with assms(1) i(2) show ?thesis by simp
  next
    case (Suc j)
    with before [of j] i(2) show ?thesis by simp
  qed
  have upper: "d < civil_days y m 1 + int (month_days y m)"
  proof (cases "m = 12")
    case True
    with december [of y] assms(2) show ?thesis by (simp add: month_days_def)
  next
    case False
    with i(2,3) month_start [of m y] show ?thesis by simp
  qed
  show ?thesis by (rule that [OF found _ _ lower upper]) (use i in simp_all)
qed

section \<open>Fields of fixed width\<close>

lemma decimal_value_zeros [simp]: "decimal_value 0 (replicate k CHR ''0'') = 0"
  by (induction k) (simp_all add: decimal_value_def)

lemma digit_char_zeros [simp]: "list_all digit_char (replicate k CHR ''0'')"
  by (simp add: list_all_iff digit_char_def)

lemma pad_facts:
  assumes "n < 10 ^ w" and "0 < w"
  shows "length (pad w n) = w" and "list_all digit_char (pad w n)" and "decimal_value 0 (pad w n) = n"
proof -
  have "length (decimal n) \<le> w" by (rule length_decimal [OF assms])
  then show "length (pad w n) = w" by (simp add: pad_def Let_def)
  show "list_all digit_char (pad w n)" "decimal_value 0 (pad w n) = n"
    using decimal_facts [of n] by (simp_all add: pad_def Let_def)
qed

lemma digits_in_pad:
  assumes "n < 10 ^ w" and "0 < w" and "lo \<le> n" and "n \<le> hi"
  shows "digits_in (bytes_of (pad w n)) lo hi = Some n"
proof -
  have "pad w n \<noteq> []" using pad_facts(1) [OF assms(1,2)] assms(2) by auto
  then show ?thesis using pad_facts [OF assms(1,2)] assms(3,4) by (simp add: digits_in_def parse_decimal_iff)
qed

text \<open>A fraction that lost its trailing zeros is padded again.\<close>

lemma fraction_digits:
  assumes "0 < n" and "n < 1000000000"
  obtains ds where "fraction_text n = CHR ''.'' # ds" and "ds \<noteq> []" and "list_all digit_char ds" and "length ds \<le> 9"
    and "nanoseconds (bytes_of ds) = n"
proof -
  define ds where "ds = rev (dropWhile (\<lambda>c. c = CHR ''0'') (rev (pad 9 n)))"
  define zs where "zs = rev (takeWhile (\<lambda>c. c = CHR ''0'') (rev (pad 9 n)))"
  have pad: "length (pad 9 n) = 9" "list_all digit_char (pad 9 n)" "decimal_value 0 (pad 9 n) = n"
    using pad_facts [of n 9] assms(2) by simp_all
  have split: "pad 9 n = ds @ zs" unfolding ds_def zs_def by (metis rev_append rev_rev_ident takeWhile_dropWhile_id)
  have "\<forall>c \<in> set zs. c = CHR ''0''" by (auto simp: zs_def dest: set_takeWhileD)
  then have zs: "zs = replicate (length zs) CHR ''0''" by (simp add: map_replicate_const [symmetric] map_idI)
  have len: "length ds + length zs = 9" using pad(1) split by simp
  have "ds \<noteq> []"
  proof
    assume "ds = []"
    with split zs have "pad 9 n = replicate (length zs) CHR ''0''" by simp
    with pad(3) assms(1) show False by simp
  qed
  moreover have "nanoseconds (bytes_of ds) = n"
  proof -
    have "length ds \<le> 9" using len by simp
    then have "str_of (take 9 (bytes_of ds)) @ replicate (9 - length (bytes_of ds)) CHR ''0'' = pad 9 n"
      using split zs len by (simp flip: zs) (metis add_diff_cancel_left' zs)
    then show ?thesis using pad by (simp add: nanoseconds_def parse_decimal_iff) (use pad(1) in auto)
  qed
  moreover have "fraction_text n = CHR ''.'' # ds" using assms(1) by (simp add: fraction_text_def ds_def)
  moreover have "list_all digit_char ds" "length ds \<le> 9" using pad(2) split len by simp_all
  ultimately show ?thesis using that by blast
qed

lemma length_four: "length xs = 4 \<Longrightarrow> \<exists>a b c d. xs = [a, b, c, d]" and length_two: "length xs = 2 \<Longrightarrow> \<exists>a b. xs = [a, b]"
  by (auto simp: numeral_eq_Suc length_Suc_conv)

text \<open>A text in this form is parsed field by field.\<close>

lemma parse_fields:
  assumes "length Y = 4" and "length M = 2" and "length D = 2" and "length H = 2" and "length I = 2" and "length S = 2"
    and "digits_in (bytes_of Y) 0 9999 = Some y" and "digits_in (bytes_of M) 1 12 = Some m"
    and "digits_in (bytes_of D) 1 (month_days (int y) m) = Some d" and "digits_in (bytes_of H) 0 23 = Some h"
    and "digits_in (bytes_of I) 0 59 = Some i" and "digits_in (bytes_of S) 0 59 = Some s"
    and tail: "F = [] \<and> ns = 0 \<or> (\<exists>ds. F = CHR ''.'' # ds \<and> ds \<noteq> [] \<and> list_all digit_char ds \<and> nanoseconds (bytes_of ds) = ns)"
  shows "parse_rfc3339 (bytes_of (Y @ ''-'' @ M @ ''-'' @ D @ ''T'' @ H @ '':'' @ I @ '':'' @ S @ F @ ''Z''))
    = Some \<lparr>instant = (civil_days (int y) m d * 86400 + int (h * 3600 + i * 60 + s)) * 1000000000 + int ns, zone = 0\<rparr>"
proof -
  obtain y1 y2 y3 y4 where Y: "Y = [y1, y2, y3, y4]" using length_four [OF assms(1)] by blast
  obtain m1 m2 where M: "M = [m1, m2]" using length_two [OF assms(2)] by blast
  obtain d1 d2 where D: "D = [d1, d2]" using length_two [OF assms(3)] by blast
  obtain h1 h2 where H: "H = [h1, h2]" using length_two [OF assms(4)] by blast
  obtain i1 i2 where I: "I = [i1, i2]" using length_two [OF assms(5)] by blast
  obtain s1 s2 where S: "S = [s1, s2]" using length_two [OF assms(6)] by blast
  have z: "\<not> is_digit 0x5A" by (simp add: is_digit_def)
  have digits: "list_all is_digit (bytes_of ds)" if "list_all digit_char ds" for ds
    using that by (induction ds) (auto simp: bytes_of_Cons digit_char_def is_digit_def word_le_nat_alt less_eq_char_def unat_of_nat_byte)
  show ?thesis
    using tail
  proof
    assume F: "F = [] \<and> ns = 0"
    show ?thesis
      using assms(7-12) F unfolding Y M D H I S
      by (simp add: parse_rfc3339_def bytes_of_Cons parse_zone_def Let_def nanoseconds_def parse_decimal_iff str_of_def)
  next
    assume "\<exists>ds. F = CHR ''.'' # ds \<and> ds \<noteq> [] \<and> list_all digit_char ds \<and> nanoseconds (bytes_of ds) = ns"
    then obtain ds where F: "F = CHR ''.'' # ds" "ds \<noteq> []" "list_all digit_char ds" "nanoseconds (bytes_of ds) = ns" by blast
    have take: "takeWhile is_digit (bytes_of ds @ [0x5A]) = bytes_of ds"
      using digits [OF F(3)] z by (simp add: takeWhile_append2 list_all_iff)
    have ne: "bytes_of ds \<noteq> []" using F(2) by (cases ds) (simp_all add: bytes_of_Cons)
    show ?thesis
      using assms(7-12) F(4) take ne unfolding Y M D H I S F(1)
      by (simp add: parse_rfc3339_def bytes_of_Cons parse_zone_def Let_def)
  qed
qed

lemma digit_plain: "digit_char c \<Longrightarrow> plain (of_nat (of_char c))"
  by (simp add: digit_char_def plain_def word_le_nat_alt word_less_nat_alt word_unat_eq_iff less_eq_char_def unat_of_nat_byte)

section \<open>Times come back\<close>

lemma time_back:
  assumes "year_0 \<le> instant t" and "instant t < year_10000"
  obtains s where "time_text_of t = Some s" and "parse_rfc3339 (bytes_of s) = Some (UTC t)" and "list_all plain (bytes_of s)"
    and "length s \<le> 30"
proof -
  define d where "d = instant t div 86400000000000"
  define n where "n = nat (instant t mod 86400000000000)"
  define sec where "sec = n div 1000000000"
  define ns where "ns = n mod 1000000000"
  have n: "int n = instant t mod 86400000000000" by (simp add: n_def)
  then have n_bound: "n < 86400000000000" by linarith
  have sec: "sec < 86400" using n_bound by (simp add: sec_def less_mult_imp_div_less)
  have ns: "ns < 1000000000" by (simp add: ns_def)
  have time: "instant t = d * 86400000000000 + int sec * 1000000000 + int ns"
  proof -
    have "n = sec * 1000000000 + ns" by (simp add: sec_def ns_def)
    then have "int n = int (sec * 1000000000 + ns)" by (rule arg_cong)
    then have "int n = int sec * 1000000000 + int ns" by simp
    moreover have "instant t = instant t div 86400000000000 * 86400000000000 + instant t mod 86400000000000" by simp
    ultimately show ?thesis unfolding d_def using n by linarith
  qed
  have "- 366 \<le> d" "d < 3652059" using assms time sec ns unfolding year_0_def year_10000_def by linarith+
  then obtain y where y: "year_of d = Some y" "year_start y \<le> d" "d < year_start (y + 1)" "0 \<le> y" "y \<le> 9999" by (rule year_exists)
  from y(2,3) obtain m where m: "month_of y d = Some m" "1 \<le> m" "m \<le> 12" "civil_days y m 1 \<le> d"
    "d < civil_days y m 1 + int (month_days y m)" by (rule month_exists)
  define dd where "dd = nat (d - civil_days y m 1) + 1"
  have dd: "1 \<le> dd" "dd \<le> month_days y m" using m(4,5) by (simp_all add: dd_def)
  have "month_days y m \<le> 31" by (simp add: month_days_def)
  with dd(2) have dd3: "dd < 10 ^ 2" by simp
  have day: "civil_days y m dd = d" using m(4) by (simp add: dd_def civil_days_def)
  define h i s where "h = sec div 3600" and "i = sec div 60 mod 60" and "s = sec mod 60"
  have hms: "h < 24" "i < 60" "s < 60" using sec by (simp_all add: h_def i_def s_def less_mult_imp_div_less)
  have "sec = h * 3600 + i * 60 + s"
  proof -
    have "sec = sec div 60 * 60 + s" by (simp add: s_def)
    moreover have "sec div 60 = sec div 60 div 60 * 60 + i" by (simp add: i_def)
    moreover have "sec div 60 div 60 = h" unfolding h_def by (simp flip: div_mult2_eq)
    ultimately show ?thesis by linarith
  qed
  then have secs: "int (h * 3600 + i * 60 + s) = int sec" by simp
  let ?text = "pad 4 (nat y) @ ''-'' @ pad 2 m @ ''-'' @ pad 2 dd @ ''T'' @ pad 2 h @ '':'' @ pad 2 i @ '':'' @ pad 2 s @ fraction_text ns @ ''Z''"
  have printed: "time_text_of t = Some ?text"
    using assms y(1) m(1) unfolding time_text_of_def Let_def d_def [symmetric] n_def [symmetric] sec_def [symmetric] ns_def [symmetric]
    by (simp add: h_def i_def s_def dd_def)
  have frac: "fraction_text ns = [] \<and> ns = 0
      \<or> (\<exists>ds. fraction_text ns = CHR ''.'' # ds \<and> ds \<noteq> [] \<and> list_all digit_char ds \<and> nanoseconds (bytes_of ds) = ns)"
  proof (cases "ns = 0")
    case False
    then have "0 < ns" by simp
    from fraction_digits [OF this ns] show ?thesis by blast
  qed (simp add: fraction_text_def)
  have widths: "nat y < 10 ^ 4" "m < 10 ^ 2" "h < 10 ^ 2" "i < 10 ^ 2" "s < 10 ^ 2" using y(5) m(3) hms by simp_all
  have "parse_rfc3339 (bytes_of ?text)
      = Some \<lparr>instant = (civil_days (int (nat y)) m dd * 86400 + int (h * 3600 + i * 60 + s)) * 1000000000 + int ns, zone = 0\<rparr>"
    by (rule parse_fields [OF _ _ _ _ _ _ _ _ _ _ _ _ frac])
      (use pad_facts(1) widths dd dd3 digits_in_pad y(4,5) m(2,3) hms in simp_all)
  moreover have "(civil_days (int (nat y)) m dd * 86400 + int (h * 3600 + i * 60 + s)) * 1000000000 + int ns = instant t"
    unfolding secs using y(4) day time by simp
  ultimately have parsed: "parse_rfc3339 (bytes_of ?text) = Some (UTC t)" by (simp add: UTC_def)
  have digits: "list_all plain (bytes_of ds)" if "list_all digit_char ds" for ds
    using that by (induction ds) (simp_all add: bytes_of_Cons digit_plain)
  have "list_all plain (bytes_of (fraction_text ns))"
    using frac digits by (auto simp: bytes_of_Cons plain_def)
  then have "list_all plain (bytes_of ?text)"
    using digits pad_facts(2) widths dd3 by (simp add: bytes_of_Cons plain_def)
  moreover have "length (fraction_text ns) \<le> 10"
  proof (cases "ns = 0")
    case False
    then have "0 < ns" by simp
    then obtain ds where "fraction_text ns = CHR ''.'' # ds" "length ds \<le> 9" using fraction_digits [OF _ ns] by blast
    then show ?thesis by simp
  qed (simp add: fraction_text_def)
  then have "length ?text \<le> 30" using pad_facts(1) widths dd3 by simp
  ultimately show ?thesis using printed parsed that by blast
qed

lemma decode_time_back:
  assumes "year_0 \<le> instant t" and "instant t < year_10000"
  obtains s where "time_text_of t = Some s" and "is_text s" and "decode_time (jstr s) old = Some (UTC t)" and "length s \<le> 30"
proof -
  obtain s where s: "time_text_of t = Some s" "parse_rfc3339 (bytes_of s) = Some (UTC t)" "list_all plain (bytes_of s)" "length s \<le> 30"
    by (rule time_back [OF assms])
  have "is_text s" unfolding is_text_def by (rule utf8_valid_ascii) (use s(3) in \<open>auto simp: list_all_iff plain_def\<close>)
  moreover have "decode_time (jstr s) old = Some (UTC t)" using s(2) quote_plain [OF s(3)] by (simp add: decode_time_def)
  ultimately show ?thesis using s(1,4) that by blast
qed

end
