(* ===== verification/Storage.thy ===== *)
theory Storage
  imports GoIO Database Encodings "HOL-Library.List_Lexorder" "HOL-Library.Product_Lexorder" "HOL-Library.Char_ord"
begin

text \<open>
  \<open>internal/storage/storage.go\<close>: appending evidence in chunks inside one transaction, the
  integrity check of stored chunks, metadata, paginated reads and the search.  Every program
  runs on the store; the evidence reader of \<open>AppendEvent\<close> and the destination of
  \<open>ReadEventEvidence\<close> are the second component of the state.
\<close>

section \<open>Data\<close>

definition ChunkSize :: u64 where
  "ChunkSize = 32768"

record event =
  ev_ID :: string
  ev_EventType :: string
  ev_ProjectID :: string
  ev_SessionID :: string
  ev_ExchangeID :: string
  ev_Encoding :: string
  ev_ProtocolVersion :: int
  ev_Sequence :: int
  ev_OccurredAt :: go_time

record append_result =
  AlreadyPresent :: bool
  ActualSize :: u64
  ResultSHA256 :: string

record read_result =
  ReadTotalSize :: u64
  BytesWritten :: u64
  ReadSHA256 :: string

record event_metadata =
  TotalSize :: u64
  MetadataSHA256 :: string

record event_reference =
  ref_ID :: string
  ref_ProjectID :: string
  ref_SessionID :: string
  ref_ExchangeID :: string
  ref_Sequence :: int

section \<open>Helpers\<close>

definition nullable :: "string \<Rightarrow> string option" where
  "nullable value = (if value = '''' then None else Some value)"

definition coalesce :: "string option \<Rightarrow> string" where
  "coalesce x = (case x of None \<Rightarrow> '''' | Some v \<Rightarrow> v)"

definition minUint64 :: "u64 \<Rightarrow> u64 \<Rightarrow> u64" where
  "minUint64 a b = (if b < a then b else a)"

text \<open>A slice is never longer than \<open>maxInt\<close>, so \<open>uint64(len(chunk))\<close> is its length.\<close>

definition validChunk :: "bytes \<Rightarrow> u64 \<Rightarrow> u64 \<Rightarrow> bool" where
  "validChunk chunk index total_size =
     (if total_size = 0 \<or> (total_size - 1) div ChunkSize < index then False
      else
        let start = index * ChunkSize; want = total_size - start;
            want' = (if ChunkSize < want then ChunkSize else want)
        in length chunk = unat want')"

section \<open>Consuming evidence\<close>

lemma unat_remaining_chunk:
  assumes "n \<le> unat (minUint64 ChunkSize remaining)"
  shows "unat (remaining - of_nat n) = unat remaining - n" and "n \<le> unat remaining"
proof -
  show le: "n \<le> unat remaining"
    using assms by (auto simp: minUint64_def word_less_nat_alt split: if_splits)
  have small: "n < 18446744073709551616"
    using le unat_u64_bound [of remaining] by simp
  have "of_nat n \<le> remaining"
    using le small by (simp add: word_le_nat_alt)
  then show "unat (remaining - of_nat n) = unat remaining - n" using small by (simp add: unat_sub)
qed

text \<open>
  The loop of \<open>consumeEvidence\<close>.  \<open>idx\<close> is the number of chunks handed to \<open>consume\<close> so
  far (the closure's \<open>chunkIndex\<close>), \<open>hashed\<close> the bytes written to the hash.
\<close>

function consumeEvidence_loop ::
  "'r read_fn \<Rightarrow> (int \<Rightarrow> bytes \<Rightarrow> unit storep) \<Rightarrow> u64 \<Rightarrow> int \<Rightarrow> bytes \<Rightarrow> store \<times> 'r \<Rightarrow> (go_error + bytes) \<times> store \<times> 'r" where
  "consumeEvidence_loop rd consume remaining idx hashed (s, r) =
     (if remaining = 0 then (Inr hashed, (s, r))
      else case ctx_check s of
        (Inl e, s1) \<Rightarrow> (Inl e, (s1, r))
      | (Inr _, s1) \<Rightarrow>
          (case rd (unat (minUint64 ChunkSize remaining)) r of (chunk, err, r1) \<Rightarrow>
             if unat (minUint64 ChunkSize remaining) < length chunk
               then (Inl (GoPanic ''reader overran its buffer''), (s1, r1))
             else
               let n = length chunk; remaining' = remaining - of_nat n in
               case (if 0 < n then consume idx chunk s1 else (Inr (), s1)) of
                 (Inl e, s2) \<Rightarrow> (Inl e, (s2, r1))
               | (Inr _, s2) \<Rightarrow>
                   if err = Some EOF \<and> 0 < remaining' then (Inl ErrUnexpectedEOF, (s2, r1))
                   else if err \<noteq> None \<and> 0 < remaining' then (Inl (the err), (s2, r1))
                   else if n = 0 then (Inl ErrNoProgress, (s2, r1))
                   else consumeEvidence_loop rd consume remaining' (idx + 1) (hashed @ chunk) (s2, r1)))"
  by pat_completeness auto

termination
proof (relation "measure (\<lambda>(rd, consume, remaining, idx, hashed, sr). unat remaining)", goal_cases)
  case 1
  show ?case by simp
next
  case (2 rd consume remaining idx hashed s r)
  then show ?case
    by (auto simp: not_less unat_remaining_chunk unat_gt_0 dest!: sym [of _ "length _"])
qed

declare consumeEvidence_loop.simps [simp del]

lemma consumeEvidence_loop_0 [simp]:
  "consumeEvidence_loop rd consume 0 idx hashed sr = (Inr hashed, sr)"
  by (cases sr) (simp add: consumeEvidence_loop.simps)

definition consumeEvidence ::
  "'r read_fn \<Rightarrow> (int \<Rightarrow> bytes \<Rightarrow> unit storep) \<Rightarrow> u64 \<Rightarrow> (store \<times> 'r, u64 \<times> string) prog" where
  "consumeEvidence rd consume declared =
     gbind (consumeEvidence_loop rd consume declared 0 []) (\<lambda>hashed. gret (declared, sha256_hex hashed))"

section \<open>Stored evidence\<close>

text \<open>The loop over the chunk rows: the index must count up from 0, the sizes must fit.\<close>

fun storedEvidence_loop :: "u64 \<Rightarrow> chunk_row list \<Rightarrow> int \<Rightarrow> u64 \<Rightarrow> bytes \<Rightarrow> (u64 \<times> string) storep" where
  "storedEvidence_loop declared [] expected sz hashed =
     gbind driver_step (\<lambda>_.
       if sz \<noteq> declared then gthrow ErrEventConflict else gret (sz, sha256_hex hashed))"
| "storedEvidence_loop declared (row # rows) expected sz hashed =
     gbind ctx_check (\<lambda>_. gbind driver_step (\<lambda>_.
       if cr_chunk_index row \<noteq> expected \<or> \<not> validChunk (cr_content row) (of_int (cr_chunk_index row)) declared
         then gthrow ErrEventConflict
       else storedEvidence_loop declared rows (expected + 1)
              (sz + of_nat (length (cr_content row))) (hashed @ cr_content row)))"

definition storedEvidence :: "string \<Rightarrow> u64 \<Rightarrow> (u64 \<times> string) storep" where
  "storedEvidence eventID declared =
     gbind (query_tx (select_chunks eventID)) (\<lambda>rows. storedEvidence_loop declared rows 0 0 [])"

section \<open>Appending\<close>

definition insert_evidence_chunk :: "event \<Rightarrow> int \<Rightarrow> bytes \<Rightarrow> unit storep" where
  "insert_evidence_chunk event chunkIndex chunk =
     gbind (exec_tx (insert_chunk \<lparr>cr_event_id = ev_ID event, cr_chunk_index = chunkIndex, cr_content = chunk\<rparr>)) (\<lambda>_.
       if utf8_valid chunk
         then exec_tx (insert_fts \<lparr>fr_event_id = ev_ID event, fr_project_id = ev_ProjectID event,
                fr_session_id = ev_SessionID event, fr_exchange_id = nullable (ev_ExchangeID event), fr_content = chunk\<rparr>)
       else gret ())"

definition event_row_of :: "event \<Rightarrow> time_text \<Rightarrow> time_text \<Rightarrow> u64 \<Rightarrow> event_row" where
  "event_row_of event occurred now declaredSize =
     \<lparr>er_id = ev_ID event, er_protocol_version = ev_ProtocolVersion event, er_event_type = ev_EventType event,
      er_project_id = ev_ProjectID event, er_session_id = ev_SessionID event,
      er_exchange_id = nullable (ev_ExchangeID event), er_sequence = ev_Sequence event,
      er_occurred_at = occurred, er_received_at = now, er_payload_encoding = ev_Encoding event,
      er_declared_size = declaredSize, er_actual_size = 0, er_payload_sha256 = ''''\<rparr>"

text \<open>The branch for an ID that is already stored: the new evidence must be the stored one.\<close>

definition append_existing ::
  "'r read_fn \<Rightarrow> event \<Rightarrow> u64 \<Rightarrow> u64 \<times> u64 \<times> string \<Rightarrow> (store \<times> 'r, append_result) prog" where
  "append_existing rd event declaredSize existing =
     (case existing of (existingDeclared, existingSize, existingHash) \<Rightarrow>
        gbind (consumeEvidence rd (\<lambda>_ _. gret ()) declaredSize) (\<lambda>(sz, hash).
        gtry (lift_store (storedEvidence (ev_ID event) existingDeclared)) (\<lambda>stored.
          case stored of
            Inl integrityErr \<Rightarrow> gthrow ErrEventConflict
          | Inr (storedSize, storedHash) \<Rightarrow>
              if storedSize \<noteq> existingSize \<or> storedHash \<noteq> existingHash \<or> sz \<noteq> storedSize \<or> hash \<noteq> storedHash
                then gthrow ErrEventConflict
              else gret \<lparr>AlreadyPresent = True, ActualSize = sz, ResultSHA256 = hash\<rparr>)))"

text \<open>The branch for a new ID.\<close>

definition append_new :: "'r read_fn \<Rightarrow> event \<Rightarrow> u64 \<Rightarrow> (store \<times> 'r, append_result) prog" where
  "append_new rd event declaredSize =
     gbind (lift_store time_now) (\<lambda>t.
     let now = format_utc t;
         occurred = (if IsZero (ev_OccurredAt event) then now else format_utc (UTC (ev_OccurredAt event))) in
     gbind (lift_store (exec_tx (insert_project (ev_ProjectID event) now))) (\<lambda>_.
     gbind (lift_store (exec_tx (insert_session (ev_SessionID event) (ev_ProjectID event) now))) (\<lambda>_.
     gbind (lift_store (exec_tx (insert_event (event_row_of event occurred now declaredSize)))) (\<lambda>_.
     gbind (consumeEvidence rd (insert_evidence_chunk event) declaredSize) (\<lambda>(sz, hash).
     gbind (lift_store (exec_tx (update_event_integrity (ev_ID event) sz hash))) (\<lambda>_.
     gbind (lift_store commit_tx) (\<lambda>_.
     gret \<lparr>AlreadyPresent = False, ActualSize = sz, ResultSHA256 = hash\<rparr>)))))))"

text \<open>\<open>^uint(0) >> 1\<close> on a 64-bit platform, and \<open>^uint64(0) >> 1\<close>.\<close>

definition maxInt :: u64 where
  "maxInt = 9223372036854775807"

definition AppendEvent :: "'r read_fn option \<Rightarrow> event \<Rightarrow> u64 \<Rightarrow> (store \<times> 'r, append_result) prog" where
  "AppendEvent evidence event declaredSize =
     gbind (lift_store ctx_check) (\<lambda>_.
     case evidence of
       None \<Rightarrow> gthrow (ErrNew ''storage evidence reader is nil'')
     | Some rd \<Rightarrow>
         if maxInt < declaredSize then gthrow (ErrNew ''declared evidence size exceeds platform limit'')
         else with_tx (
           gtry (lift_store (gbind (query_tx (select_event (ev_ID event))) row_of)) (\<lambda>found.
             case found of
               Inr row \<Rightarrow> append_existing rd event declaredSize
                            (er_declared_size row, er_actual_size row, er_payload_sha256 row)
             | Inl e \<Rightarrow> if \<not> errors_is e ErrNoRows then gthrow e else append_new rd event declaredSize)))"

section \<open>Reading\<close>

text \<open>\<open>(*Store).EventMetadata\<close>.\<close>

definition EventMetadata :: "string \<Rightarrow> event_metadata storep" where
  "EventMetadata eventID =
     gbind ctx_check (\<lambda>_.
     gtry (gbind (query_db (select_event eventID)) row_of) (\<lambda>found.
       case found of
         Inl e \<Rightarrow> if errors_is e ErrNoRows then gthrow ErrEventNotFound else gthrow e
       | Inr row \<Rightarrow> gret \<lparr>TotalSize = er_actual_size row, MetadataSHA256 = er_payload_sha256 row\<rparr>))"

definition select_chunk_range :: "string \<Rightarrow> u64 \<Rightarrow> u64 \<Rightarrow> database \<Rightarrow> chunk_row list" where
  "select_chunk_range eventID first_chunk last_chunk d =
     filter (\<lambda>c. int (unat first_chunk) \<le> cr_chunk_index c \<and> cr_chunk_index c \<le> int (unat last_chunk)) (select_chunks eventID d)"

text \<open>Writing to the destination, the second component of the state.\<close>

definition write_dest :: "'w write_fn \<Rightarrow> bytes \<Rightarrow> (store \<times> 'w, unit) prog" where
  "write_dest wr data = (\<lambda>(s, w). case writeAll wr data w of
     (Some e, w') \<Rightarrow> (Inl e, (s, w')) | (None, w') \<Rightarrow> (Inr (), (s, w')))"

text \<open>
  The loop over the rows.  It returns the bytes written and the bytes still wanted; the
  check of \<open>rows.Err\<close> and of the remainder follows the loop.
\<close>

fun read_chunks ::
  "'w write_fn \<Rightarrow> u64 \<Rightarrow> u64 \<Rightarrow> chunk_row list \<Rightarrow> u64 \<Rightarrow> u64 \<Rightarrow> u64 \<Rightarrow> (store \<times> 'w, u64 \<times> u64) prog" where
  "read_chunks wr total_size offset [] expected written remaining = gret (written, remaining)"
| "read_chunks wr total_size offset (row # rows) expected written remaining =
     gbind (lift_store ctx_check) (\<lambda>_. gbind (lift_store driver_step) (\<lambda>_.
       let chunk = cr_content row in
       if cr_chunk_index row < 0 \<or> of_int (cr_chunk_index row) \<noteq> expected \<or> \<not> validChunk chunk expected total_size
         then gthrow ErrEventConflict
       else
         let chunkStart = expected * ChunkSize;
             start = (if chunkStart < offset then offset - chunkStart else 0);
             available = of_nat (length chunk) - start;
             available' = (if remaining < available then remaining else available) in
         gbind (write_dest wr (take (unat available') (drop (unat start) chunk))) (\<lambda>_.
           let written' = written + available'; remaining' = remaining - available' in
           if remaining' = 0 then gret (written', remaining')
           else read_chunks wr total_size offset rows (expected + 1) written' remaining')))"

definition ReadEventEvidence :: "string \<Rightarrow> u64 \<Rightarrow> u64 \<Rightarrow> 'w write_fn option \<Rightarrow> (store \<times> 'w, read_result) prog" where
  "ReadEventEvidence eventID offset limit destination =
     gbind (lift_store ctx_check) (\<lambda>_.
     case destination of
       None \<Rightarrow> gthrow (ErrNew ''storage evidence destination is nil'')
     | Some wr \<Rightarrow>
         gbind (lift_store (EventMetadata eventID)) (\<lambda>metadata.
         let total_size = TotalSize metadata; hash = MetadataSHA256 metadata in
         if total_size \<le> offset then gret \<lparr>ReadTotalSize = total_size, BytesWritten = 0, ReadSHA256 = hash\<rparr>
         else
           let rest = total_size - offset;
               remaining = (if limit \<noteq> 0 \<and> limit < rest then limit else rest);
               first_chunk = offset div ChunkSize; last_chunk = (offset + remaining - 1) div ChunkSize in
           if maxInt < first_chunk \<or> maxInt < last_chunk then gthrow ErrEventConflict
           else
             gbind (lift_store (query_db (select_chunk_range eventID first_chunk last_chunk))) (\<lambda>rows.
             gbind (read_chunks wr total_size offset rows first_chunk 0 remaining) (\<lambda>(written, left).
             gbind (lift_store driver_step) (\<lambda>_.
               if left \<noteq> 0 then gthrow ErrEventConflict
               else gret \<lparr>ReadTotalSize = total_size, BytesWritten = written, ReadSHA256 = hash\<rparr>)))))"

section \<open>Searching\<close>

text \<open>
  What FTS5 finds is not code of the repository: \<open>fts query\<close> is either the driver's error for
  a query it can not parse, or the predicate on the text of a row of \<open>capture_fts\<close> (the only
  indexed column is \<open>content\<close>).
\<close>

type_synonym full_text = "string \<Rightarrow> go_error + (bytes \<Rightarrow> bool)"

definition reference_of :: "event_row \<Rightarrow> event_reference" where
  "reference_of e = \<lparr>ref_ID = er_id e, ref_ProjectID = er_project_id e, ref_SessionID = er_session_id e,
     ref_ExchangeID = coalesce (er_exchange_id e), ref_Sequence = er_sequence e\<rparr>"

definition reference_key :: "event_reference \<Rightarrow> string \<times> string \<times> int \<times> string" where
  "reference_key r = (ref_ProjectID r, ref_SessionID r, ref_Sequence r, ref_ID r)"

text \<open>
  \<open>SELECT DISTINCT ... FROM capture_fts f JOIN capture_events e ON e.id = f.event_id WHERE
  capture_fts MATCH ? ORDER BY e.project_id, e.session_id, e.sequence, e.id LIMIT ?\<close>
\<close>

definition found_references :: "(bytes \<Rightarrow> bool) \<Rightarrow> database \<Rightarrow> event_reference list" where
  "found_references match d =
     sort_key reference_key (remdups (map reference_of
       (concat (map (\<lambda>f. filter (\<lambda>e. er_id e = fr_event_id f) (capture_events d))
         (filter (\<lambda>f. match (fr_content f)) (capture_fts d))))))"

definition select_references :: "(bytes \<Rightarrow> bool) \<Rightarrow> int \<Rightarrow> database \<Rightarrow> event_reference list" where
  "select_references match limit d = take (nat limit) (found_references match d)"

fun scan_references :: "event_reference list \<Rightarrow> event_reference list storep" where
  "scan_references [] = gbind driver_step (\<lambda>_. gret [])"
| "scan_references (r # rs) = gbind driver_step (\<lambda>_. gbind (scan_references rs) (\<lambda>matches. gret (r # matches)))"

definition SearchEvents :: "full_text \<Rightarrow> string \<Rightarrow> int \<Rightarrow> event_reference list storep" where
  "SearchEvents fts query limit =
     (if limit \<le> 0 then gthrow (ErrNew ''search limit must be positive'')
      else case fts query of
        Inl e \<Rightarrow> gbind driver_step (\<lambda>_. gthrow e)
      | Inr match \<Rightarrow> gbind (query_db (select_references match limit)) scan_references)"

text \<open>\<open>(*Store).EventCount\<close>.\<close>

definition EventCount :: "string \<Rightarrow> nat storep" where
  "EventCount eventID = query_db (\<lambda>d. length (filter (\<lambda>r. er_id r = eventID) (capture_events d)))"

end
