(* ===== verification/Evidence.thy ===== *)
theory Evidence
  imports Storage
begin

text \<open>
  What the storage programs compute, stated without the loops: the canonical chunking of
  evidence, the content of stored chunk rows, and the database that a successful append
  leaves.  The lemmas relate the programs of \<open>Storage\<close> to these specifications by
  weakest preconditions, for every fault script and every reader.
\<close>

section \<open>Canonical chunking\<close>

fun chunks_of :: "bytes \<Rightarrow> bytes list" where
  "chunks_of d = (if d = [] then [] else take 32768 d # chunks_of (drop 32768 d))"

declare chunks_of.simps [simp del]

lemma chunks_of_Nil [simp]: "chunks_of [] = []"
  by (simp add: chunks_of.simps)

lemma chunks_of_nonempty: "d \<noteq> [] \<Longrightarrow> chunks_of d = take 32768 d # chunks_of (drop 32768 d)"
  by (subst chunks_of.simps) simp

lemma concat_chunks_of [simp]: "concat (chunks_of d) = d"
proof (induction d rule: chunks_of.induct)
  case (1 d)
  then show ?case by (cases "d = []") (simp_all add: chunks_of_nonempty)
qed

lemma Nil_notin_chunks_of: "[] \<notin> set (chunks_of d)"
proof (induction d rule: chunks_of.induct)
  case (1 d)
  then show ?case by (cases "d = []") (simp_all add: chunks_of_nonempty)
qed

text \<open>The chunk lengths that \<open>validChunk\<close> asks for, from the first chunk on.\<close>

fun valid_chunks :: "nat \<Rightarrow> bytes list \<Rightarrow> bool" where
  "valid_chunks n [] = (n = 0)"
| "valid_chunks n (c # cs) = (0 < n \<and> length c = min 32768 n \<and> valid_chunks (n - min 32768 n) cs)"

lemma valid_chunks_iff: "valid_chunks n cs \<longleftrightarrow> cs = chunks_of (concat cs) \<and> length (concat cs) = n"
proof (induction cs arbitrary: n)
  case Nil
  show ?case by auto
next
  case (Cons c cs)
  show ?case
  proof
    assume v: "valid_chunks n (c # cs)"
    then have len: "0 < n" "length c = min 32768 n" and rest: "cs = chunks_of (concat cs)" "length (concat cs) = n - length c"
      using Cons.IH [of "n - min 32768 n"] by auto
    have ne: "concat (c # cs) \<noteq> []" using len by auto
    have "take 32768 (concat (c # cs)) = c \<and> drop 32768 (concat (c # cs)) = concat cs"
    proof (cases "32768 \<le> n")
      case True
      with len show ?thesis by simp
    next
      case False
      with len rest(2) have none: "concat cs = []" by simp
      then have "concat (c # cs) = c" by (simp only: concat.simps append_Nil2)
      with False len none show ?thesis by (simp only: take_all drop_all)
    qed
    with rest chunks_of_nonempty [OF ne] len show "c # cs = chunks_of (concat (c # cs)) \<and> length (concat (c # cs)) = n"
      by simp
  next
    assume c: "c # cs = chunks_of (concat (c # cs)) \<and> length (concat (c # cs)) = n"
    then have ne: "concat (c # cs) \<noteq> []" by (metis chunks_of_Nil list.distinct(1))
    with c have split: "c = take 32768 (concat (c # cs))" "cs = chunks_of (drop 32768 (concat (c # cs)))"
      by (simp_all add: chunks_of_nonempty)
    have rest: "concat cs = drop 32768 (concat (c # cs))" by (subst split(2)) (rule concat_chunks_of)
    have n: "length (concat (c # cs)) = n" using c by (rule conjunct2)
    have "cs = chunks_of (concat cs)" unfolding rest by (rule split(2))
    moreover have "length c = min 32768 n"
      by (subst split(1)) (simp only: length_take n min.commute)
    moreover have "0 < n" using n ne by (cases n) (simp_all only: length_0_conv)
    moreover have "length (concat cs) = n - min 32768 n"
      using n calculation(2) by (simp only: concat.simps length_append add_diff_cancel_left' split: nat_diff_split)
    ultimately show "valid_chunks n (c # cs)" using Cons.IH [of "n - min 32768 n"]
      by (simp only: valid_chunks.simps)
  qed
qed

lemma valid_chunks_chunks_of [simp]: "valid_chunks (length d) (chunks_of d)"
  by (simp add: valid_chunks_iff)

text \<open>The word arithmetic of \<open>validChunk\<close> is that of natural numbers: nothing wraps.\<close>

lemma validChunk_iff:
  "validChunk c k n \<longleftrightarrow> unat k * 32768 < unat n \<and> length c = min 32768 (unat n - unat k * 32768)"
proof (cases "n = 0")
  case True
  then show ?thesis by (simp add: validChunk_def)
next
  case False
  then have pos: "0 < unat n" by (simp add: unat_gt_0)
  have pred: "unat (n - 1) = unat n - 1" using False by (simp add: unat_minus_one)
  have reach: "(n - 1) div ChunkSize < k \<longleftrightarrow> unat n \<le> unat k * 32768"
  proof -
    have "(n - 1) div ChunkSize < k \<longleftrightarrow> (unat n - 1) div 32768 < unat k"
      by (simp add: word_less_nat_alt unat_div pred ChunkSize_def)
    also have "\<dots> \<longleftrightarrow> unat n - 1 < unat k * 32768" by (simp add: div_less_iff_less_mult)
    finally show ?thesis using pos by linarith
  qed
  show ?thesis
  proof (cases "unat k * 32768 < unat n")
    case True
    then have prod: "unat (k * ChunkSize) = unat k * 32768"
      using unat_u64_bound [of n] by (simp add: ChunkSize_def unat_word_ariths)
    have diff: "unat (n - k * ChunkSize) = unat n - unat k * 32768"
      using True prod by (simp add: unat_sub word_le_nat_alt)
    then have diff32: "unat (n - k * 32768) = unat n - unat k * 32768" by (simp add: ChunkSize_def)
    show ?thesis using True False reach
      by (auto simp: validChunk_def Let_def diff32 ChunkSize_def word_less_nat_alt min_def)
  next
    case False
    with reach show ?thesis by (simp add: validChunk_def)
  qed
qed

section \<open>Stored rows\<close>

text \<open>
  The rows of an event are canonical for a size when their indices count up from 0 and their
  contents are the canonical chunking of evidence of that size.
\<close>

definition evidence_of :: "chunk_row list \<Rightarrow> bytes" where
  "evidence_of rows = concat (map cr_content rows)"

definition canonical :: "u64 \<Rightarrow> chunk_row list \<Rightarrow> bool" where
  "canonical n rows =
     (map cr_chunk_index rows = map int [0..<length rows]
      \<and> map cr_content rows = chunks_of (evidence_of rows) \<and> length (evidence_of rows) = unat n)"

lemma canonical_valid:
  "canonical n rows \<longleftrightarrow> map cr_chunk_index rows = map int [0..<length rows] \<and> valid_chunks (unat n) (map cr_content rows)"
  by (auto simp: canonical_def valid_chunks_iff evidence_of_def)

text \<open>One step of the loop: how the running size relates to the index.\<close>

lemma stored_step:
  assumes "n_done = min (k * 32768) (unat n)" and "k * 32768 < unat n + 32768"
  shows "validChunk c (of_int (int k)) n \<longleftrightarrow> 0 < unat n - n_done \<and> length c = min 32768 (unat n - n_done)"
proof -
  have "k < 18446744073709551616" using assms(2) unat_u64_bound [of n] by linarith
  then have k: "unat (of_int (int k) :: u64) = k" by simp
  show ?thesis unfolding validChunk_iff k using assms by auto
qed

lemma stored_next:
  assumes "n_done = min (k * 32768) (unat n)" and "0 < unat n - n_done" and "len = min 32768 (unat n - n_done)"
  shows "n_done + len = min (Suc k * 32768) (unat n)" and "Suc k * 32768 < unat n + 32768"
    and "unat n - (n_done + len) = unat n - n_done - len"
  using assms by (auto simp: min_def split: if_splits)

lemma storedEvidence_loop_calm:
  assumes "faults s = []" and "length hashed = min (k * 32768) (unat n)" and "k * 32768 < unat n + 32768"
    and "sz = of_nat (length hashed)"
  shows "storedEvidence_loop n rows (int k) sz hashed s
    = (if map cr_chunk_index rows = map int [k..<k + length rows] \<and> valid_chunks (unat n - length hashed) (map cr_content rows)
       then Inr (n, sha256_hex (hashed @ evidence_of rows)) else Inl ErrEventConflict, s)"
  using assms(2-4)
proof (induction rows arbitrary: k hashed sz)
  case Nil
  have le: "length hashed \<le> unat n" using Nil.prems(1) by simp
  then have small: "length hashed < 18446744073709551616" using unat_u64_bound [of n] by simp
  have "of_nat (length hashed) = n \<longleftrightarrow> length hashed = unat n"
    using small by (metis unat_of_nat_len64 word_nat_cases of_nat_unat ucast_id)
  with le have "of_nat (length hashed) = n \<longleftrightarrow> unat n - length hashed = 0" by auto
  with Nil show ?case by (simp add: run_simps calm_simps assms(1) evidence_of_def)
next
  case (Cons row rows)
  let ?ok = "0 < unat n - length hashed \<and> length (cr_content row) = min 32768 (unat n - length hashed)"
  have valid: "validChunk (cr_content row) (of_int (int k)) n \<longleftrightarrow> ?ok"
    using Cons.prems by (intro stored_step)
  have head: "map cr_chunk_index (row # rows) = map int [k..<k + length (row # rows)] \<longleftrightarrow>
      cr_chunk_index row = int k \<and> map cr_chunk_index rows = map int [Suc k..<Suc k + length rows]"
    by (simp add: upt_conv_Cons del: upt_Suc)
  show ?case
  proof (cases "cr_chunk_index row = int k \<and> ?ok")
    case True
    note nxt = stored_next [OF Cons.prems(1), of "length (cr_content row)"]
    have "storedEvidence_loop n rows (int (Suc k)) (of_nat (length (hashed @ cr_content row))) (hashed @ cr_content row) s
      = (if map cr_chunk_index rows = map int [Suc k..<Suc k + length rows]
            \<and> valid_chunks (unat n - length (hashed @ cr_content row)) (map cr_content rows)
         then Inr (n, sha256_hex ((hashed @ cr_content row) @ evidence_of rows)) else Inl ErrEventConflict, s)"
      using nxt True by (intro Cons.IH) simp_all
    with True Cons.prems valid head nxt show ?thesis
      by (simp add: run_simps calm_simps assms(1) evidence_of_def add.commute)
  next
    case False
    with valid head show ?thesis by (auto simp: run_simps calm_simps assms(1))
  qed
qed

lemma storedEvidence_loop_wp:
  assumes "same_db s0 s" and "length hashed = min (k * 32768) (unat n)" and "k * 32768 < unat n + 32768"
    and "sz = of_nat (length hashed)"
  shows "wp (storedEvidence_loop n rows (int k) sz hashed)
    (\<lambda>(z, h) s'. same_db s0 s' \<and> z = n \<and> h = sha256_hex (hashed @ evidence_of rows)
       \<and> map cr_chunk_index rows = map int [k..<k + length rows]
       \<and> valid_chunks (unat n - length hashed) (map cr_content rows))
    (\<lambda>_ s'. same_db s0 s') s"
  using assms
proof (induction rows arbitrary: k hashed sz s)
  case Nil
  have "unat n \<le> length hashed" if "of_nat (length hashed) = n"
    using that unat_of_nat_len64 [of "length hashed"] Nil.prems(2) unat_u64_bound [of n] by fastforce
  with Nil show ?case
    unfolding storedEvidence_loop.simps
    by (intro wp_intros) (auto simp: evidence_of_def elim: same_db_trans)
next
  case (Cons row rows)
  let ?ok = "0 < unat n - length hashed \<and> length (cr_content row) = min 32768 (unat n - length hashed)"
  have valid: "validChunk (cr_content row) (of_int (int k)) n \<longleftrightarrow> ?ok"
    using Cons.prems(2,3) by (intro stored_step)
  have head: "map cr_chunk_index (row # rows) = map int [k..<k + length (row # rows)] \<longleftrightarrow>
      cr_chunk_index row = int k \<and> map cr_chunk_index rows = map int [Suc k..<Suc k + length rows]"
    by (simp add: upt_conv_Cons del: upt_Suc)
  show ?case
    unfolding storedEvidence_loop.simps
  proof (intro wp_intros)
    fix fs fs'
    assume go: "\<not> (cr_chunk_index row \<noteq> int k \<or> \<not> validChunk (cr_content row) (of_int (cr_chunk_index row)) n)"
    then have ok: "cr_chunk_index row = int k" ?ok using valid by auto
    note nxt = stored_next [OF Cons.prems(2), of "length (cr_content row)"]
    have "same_db s0 (s\<lparr>faults := fs, faults := fs'\<rparr>)" using Cons.prems(1) by (auto elim: same_db_trans)
    then have "wp (storedEvidence_loop n rows (int (Suc k)) (of_nat (length (hashed @ cr_content row))) (hashed @ cr_content row))
      (\<lambda>(z, h) s'. same_db s0 s' \<and> z = n \<and> h = sha256_hex ((hashed @ cr_content row) @ evidence_of rows)
         \<and> map cr_chunk_index rows = map int [Suc k..<Suc k + length rows]
         \<and> valid_chunks (unat n - length (hashed @ cr_content row)) (map cr_content rows))
      (\<lambda>_ s'. same_db s0 s') (s\<lparr>faults := fs, faults := fs'\<rparr>)"
      using nxt ok by (intro Cons.IH) simp_all
    then show "wp (storedEvidence_loop n rows (int k + 1) (sz + of_nat (length (cr_content row))) (hashed @ cr_content row))
      (\<lambda>(z, h) s'. same_db s0 s' \<and> z = n \<and> h = sha256_hex (hashed @ evidence_of (row # rows))
         \<and> map cr_chunk_index (row # rows) = map int [k..<k + length (row # rows)]
         \<and> valid_chunks (unat n - length hashed) (map cr_content (row # rows)))
      (\<lambda>_ s'. same_db s0 s') (s\<lparr>faults := fs, faults := fs'\<rparr>)"
      unfolding head using ok nxt Cons.prems(4)
      by (simp add: evidence_of_def add.commute split: prod.splits)
  qed (use Cons.prems(1) in \<open>auto elim: same_db_trans\<close>)
qed

lemma storedEvidence_wp:
  assumes "working s = Some d"
  shows "wp (storedEvidence i n)
    (\<lambda>(z, h) s'. same_db s s' \<and> z = n \<and> h = sha256_hex (evidence_of (select_chunks i d)) \<and> canonical n (select_chunks i d))
    (\<lambda>_ s'. same_db s s') s"
  unfolding storedEvidence_def
proof (intro wp_intros)
  fix fs d'
  assume "working s = Some d'"
  with assms have d: "d' = d" by simp
  show "wp (storedEvidence_loop n (select_chunks i d') 0 0 [])
    (\<lambda>(z, h) s'. same_db s s' \<and> z = n \<and> h = sha256_hex (evidence_of (select_chunks i d)) \<and> canonical n (select_chunks i d))
    (\<lambda>_ s'. same_db s s') (s\<lparr>faults := fs\<rparr>)"
    unfolding d
    using storedEvidence_loop_wp [of s "s\<lparr>faults := fs\<rparr>" "[]" 0 n 0 "select_chunks i d"]
    by (auto simp: canonical_valid split: prod.splits elim!: wp_mono)
qed simp

lemma storedEvidence_calm:
  assumes "faults s = []" and "working s = Some d"
  shows "storedEvidence i n s
    = (if canonical n (select_chunks i d) then Inr (n, sha256_hex (evidence_of (select_chunks i d))) else Inl ErrEventConflict, s)"
  using storedEvidence_loop_calm [of s "[]" 0 n 0 "select_chunks i d"] assms
  by (simp add: storedEvidence_def run_simps calm_simps canonical_valid)

section \<open>Consuming evidence from a reader\<close>

text \<open>One iteration: \<open>A\<close> holds after the look at the context, \<open>B\<close> after the callback.\<close>

lemma consume_step:
  assumes rd: "rd (unat (minUint64 ChunkSize remaining)) r = (chunk, err, r1)"
    and len: "length chunk \<le> unat (minUint64 ChunkSize remaining)" and "remaining \<noteq> 0"
    and ctx: "wp ctx_check (\<lambda>_. A) (\<lambda>e s'. E e (s', r)) s"
    and callback: "\<And>s1. A s1 \<Longrightarrow> chunk \<noteq> [] \<Longrightarrow> wp (consume idx chunk) (\<lambda>_. B) (\<lambda>e s'. E e (s', r1)) s1"
    and empty: "\<And>s1 e. A s1 \<Longrightarrow> chunk = [] \<Longrightarrow> E e (s1, r1)"
    and failed: "\<And>s2 e. B s2 \<Longrightarrow> err \<noteq> None \<Longrightarrow> E e (s2, r1)"
    and rest: "\<And>s2. B s2 \<Longrightarrow> chunk \<noteq> [] \<Longrightarrow>
      wp (consumeEvidence_loop rd consume (remaining - of_nat (length chunk)) (idx + 1) (hashed @ chunk)) Q E (s2, r1)"
  shows "wp (consumeEvidence_loop rd consume remaining idx hashed) Q E (s, r)"
proof -
  obtain res s1 where cc: "ctx_check s = (res, s1)" by (cases "ctx_check s")
  obtain res2 s2 where cb: "consume idx chunk s1 = (res2, s2)" by (cases "consume idx chunk s1")
  show ?thesis
  proof (cases res)
    case (Inl e)
    with cc ctx assms(3) show ?thesis by (simp add: wp_def consumeEvidence_loop.simps [of rd consume remaining])
  next
    case (Inr u)
    with cc ctx have A: "A s1" by (simp add: wp_def)
    show ?thesis
    proof (cases "chunk = []")
      case True
      with Inr cc rd assms(3) empty [OF A] show ?thesis
        by (simp add: wp_def consumeEvidence_loop.simps [of rd consume remaining] Let_def)
    next
      case False
      with Inr cc rd len cb assms(3) callback [OF A False] failed rest show ?thesis
        by (cases res2; cases err)
          (auto simp: wp_def consumeEvidence_loop.simps [of rd consume remaining] Let_def not_less)
    qed
  qed
qed

text \<open>
  The rule for the loop.  \<open>I cs s\<close> is what holds after the chunks \<open>cs\<close> have been consumed,
  \<open>EI\<close> what holds when the loop fails.
\<close>

context io_reader
begin

lemma consume_loop_wp:
  assumes ctx: "\<And>cs s. I cs s \<Longrightarrow> wp ctx_check (\<lambda>_ s'. I cs s') (\<lambda>_ s'. EI s') s"
    and callback: "\<And>cs c s. I cs s \<Longrightarrow> c \<noteq> [] \<Longrightarrow> wp (consume (int (length cs)) c) (\<lambda>_ s'. I (cs @ [c]) s') (\<lambda>_ s'. EI s') s"
    and fail: "\<And>cs s. I cs s \<Longrightarrow> EI s"
  shows "I cs0 s \<Longrightarrow>
    wp (consumeEvidence_loop rd consume remaining (int (length cs0)) (concat cs0))
      (\<lambda>h (s', r'). \<exists>cs. I (cs0 @ cs) s' \<and> h = concat (cs0 @ cs) \<and> [] \<notin> set cs
         \<and> length (concat cs) = unat remaining \<and> pend r = concat cs @ pend r')
      (\<lambda>_ (s', r'). EI s') (s, r)"
proof (induction "unat remaining" arbitrary: remaining cs0 s r rule: less_induct)
  case less
  show ?case
  proof (cases "remaining = 0")
    case True
    with less.prems show ?thesis by (simp add: wp_def exI [of _ "[]"])
  next
    case False
    let ?k = "unat (minUint64 ChunkSize remaining)"
    obtain chunk err r1 where rd: "rd ?k r = (chunk, err, r1)" by (cases "rd ?k r")
    have len: "length chunk \<le> ?k" and pend: "pend r = chunk @ pend r1"
      using rd_length [OF rd] rd_pend [OF rd] by simp_all
    note dec = unat_remaining_chunk [OF len]
    show ?thesis
    proof (rule consume_step [where chunk = chunk and err = err and ?r1.0 = r1 and A = "I cs0" and B = "I (cs0 @ [chunk])"])
      fix s2 assume I2: "I (cs0 @ [chunk]) s2" and ne: "chunk \<noteq> []"
      have "0 < unat remaining" using False by (simp add: unat_gt_0)
      then have smaller: "unat (remaining - of_nat (length chunk)) < unat remaining" using dec ne by simp
      have "wp (consumeEvidence_loop rd consume (remaining - of_nat (length chunk)) (int (length cs0) + 1) (concat cs0 @ chunk))
        (\<lambda>h (s', r'). \<exists>cs. I (cs0 @ chunk # cs) s' \<and> h = concat (cs0 @ chunk # cs) \<and> [] \<notin> set cs
           \<and> length (concat cs) = unat (remaining - of_nat (length chunk)) \<and> pend r1 = concat cs @ pend r')
        (\<lambda>_ (s', r'). EI s') (s2, r1)"
        using less.hyps [OF smaller I2, of r1] by (simp add: add.commute)
      then show "wp (consumeEvidence_loop rd consume (remaining - of_nat (length chunk)) (int (length cs0) + 1) (concat cs0 @ chunk))
        (\<lambda>h (s', r'). \<exists>cs. I (cs0 @ cs) s' \<and> h = concat (cs0 @ cs) \<and> [] \<notin> set cs
           \<and> length (concat cs) = unat remaining \<and> pend r = concat cs @ pend r')
        (\<lambda>_ (s', r'). EI s') (s2, r1)"
      proof (rule wp_mono, goal_cases)
        case (1 h sr)
        then obtain cs where "I (cs0 @ chunk # cs) (fst sr)" "h = concat (cs0 @ chunk # cs)" "[] \<notin> set cs"
          "length (concat cs) = unat (remaining - of_nat (length chunk))" "pend r1 = concat cs @ pend (snd sr)"
          by (auto split: prod.splits)
        with dec pend ne show ?case by (auto split: prod.splits intro!: exI [of _ "chunk # cs"])
      qed auto
    qed (use rd len False ctx [OF less.prems] callback fail in auto)
  qed
qed

end

text \<open>A reader that fills its buffers yields the canonical chunks.\<close>

lemma chunks_of_take:
  assumes "k = min 32768 m" and "0 < m" and "m \<le> length d"
  shows "chunks_of (take m d) = take k d # chunks_of (take (m - k) (drop k d))"
proof -
  have "take m d \<noteq> []" using assms by auto
  then have "chunks_of (take m d) = take 32768 (take m d) # chunks_of (drop 32768 (take m d))"
    by (rule chunks_of_nonempty)
  moreover have "take 32768 (take m d) = take k d" using assms by simp
  moreover have "drop 32768 (take m d) = take (m - k) (drop k d)"
    using assms by (simp add: drop_take min_def)
  ultimately show ?thesis by simp
qed

lemma unat_minUint64_chunk: "unat (minUint64 ChunkSize remaining) = min 32768 (unat remaining)"
  by (simp add: minUint64_def ChunkSize_def word_less_nat_alt min_def)

context full_reader
begin

lemma consume_loop_full_wp:
  assumes ctx: "\<And>cs s. I cs s \<Longrightarrow> wp ctx_check (\<lambda>_ s'. I cs s') (\<lambda>_ s'. EI s') s"
    and callback: "\<And>cs c s. I cs s \<Longrightarrow> c \<noteq> [] \<Longrightarrow> wp (consume (int (length cs)) c) (\<lambda>_ s'. I (cs @ [c]) s') (\<lambda>_ s'. EI s') s"
  shows "I cs0 s \<Longrightarrow> good r \<Longrightarrow> unat remaining \<le> length (pend r) \<Longrightarrow>
    wp (consumeEvidence_loop rd consume remaining (int (length cs0)) (concat cs0))
      (\<lambda>h (s', r'). I (cs0 @ chunks_of (take (unat remaining) (pend r))) s'
         \<and> h = concat cs0 @ take (unat remaining) (pend r) \<and> pend r' = drop (unat remaining) (pend r) \<and> good r')
      (\<lambda>_ (s', r'). EI s') (s, r)"
proof (induction "unat remaining" arbitrary: remaining cs0 s r rule: less_induct)
  case less
  show ?case
  proof (cases "remaining = 0")
    case True
    with less.prems show ?thesis by (simp add: wp_def)
  next
    case False
    define k where "k = unat (minUint64 ChunkSize remaining)"
    have kmin: "k = min 32768 (unat remaining)" by (simp add: k_def unat_minUint64_chunk)
    have pos: "0 < unat remaining" using False by (simp add: unat_gt_0)
    obtain chunk err r1 where rd: "rd k r = (chunk, err, r1)" by (cases "rd k r")
    have full: "chunk = take k (pend r)" "pend r1 = drop k (pend r)" "err = None" "good r1"
      using rd_take [OF less.prems(2) _ _ rd] kmin pos less.prems(3) by simp_all
    have len: "length chunk = k" and ne: "chunk \<noteq> []" using full(1) kmin pos less.prems(3) by auto
    note dec = unat_remaining_chunk [of k remaining, folded k_def, OF order_refl]
    note split = chunks_of_take [OF kmin pos less.prems(3)]
    show ?thesis
    proof (rule consume_step [where chunk = chunk and err = err and ?r1.0 = r1 and A = "I cs0" and B = "I (cs0 @ [chunk])"])
      fix s2 assume I2: "I (cs0 @ [chunk]) s2"
      have smaller: "unat (remaining - of_nat k) < unat remaining" using dec kmin pos by simp
      have "wp (consumeEvidence_loop rd consume (remaining - of_nat k) (int (length cs0) + 1) (concat cs0 @ chunk))
        (\<lambda>h (s', r'). I (cs0 @ chunk # chunks_of (take (unat (remaining - of_nat k)) (pend r1))) s'
           \<and> h = concat cs0 @ chunk @ take (unat (remaining - of_nat k)) (pend r1)
           \<and> pend r' = drop (unat (remaining - of_nat k)) (pend r1) \<and> good r')
        (\<lambda>_ (s', r'). EI s') (s2, r1)"
        using less.hyps [OF smaller I2 full(4)] less.prems(3) dec full(2) by (simp add: add.commute)
      moreover have "take (unat remaining) (pend r) = chunk @ take (unat remaining - k) (drop k (pend r))"
        using full(1) dec(2) by (metis le_add_diff_inverse take_add)
      ultimately show "wp (consumeEvidence_loop rd consume (remaining - of_nat (length chunk)) (int (length cs0) + 1) (concat cs0 @ chunk))
        (\<lambda>h (s', r'). I (cs0 @ chunks_of (take (unat remaining) (pend r))) s'
           \<and> h = concat cs0 @ take (unat remaining) (pend r) \<and> pend r' = drop (unat remaining) (pend r) \<and> good r')
        (\<lambda>_ (s', r'). EI s') (s2, r1)"
        using split full dec len by simp
    qed (use rd len False ctx [OF less.prems(1)] callback full(3) ne in \<open>auto simp: k_def\<close>)
  qed
qed

end

section \<open>The database after an append\<close>

definition chunk_rows :: "string \<Rightarrow> bytes list \<Rightarrow> chunk_row list" where
  "chunk_rows i cs = map2 (\<lambda>k c. \<lparr>cr_event_id = i, cr_chunk_index = int k, cr_content = c\<rparr>) [0..<length cs] cs"

definition fts_rows :: "event \<Rightarrow> bytes list \<Rightarrow> fts_row list" where
  "fts_rows ev cs = map (\<lambda>c. \<lparr>fr_event_id = ev_ID ev, fr_project_id = ev_ProjectID ev, fr_session_id = ev_SessionID ev,
     fr_exchange_id = nullable (ev_ExchangeID ev), fr_content = c\<rparr>) (filter utf8_valid cs)"

definition add_chunks :: "event \<Rightarrow> bytes list \<Rightarrow> database \<Rightarrow> database" where
  "add_chunks ev cs d = d\<lparr>capture_event_chunks := capture_event_chunks d @ chunk_rows (ev_ID ev) cs,
     capture_fts := capture_fts d @ fts_rows ev cs\<rparr>"

lemma chunk_rows_snoc:
  "chunk_rows i (cs @ [c]) = chunk_rows i cs @ [\<lparr>cr_event_id = i, cr_chunk_index = int (length cs), cr_content = c\<rparr>]"
  by (simp add: chunk_rows_def)

lemma add_chunks_Nil [simp]: "add_chunks ev [] d = d"
  by (simp add: add_chunks_def chunk_rows_def fts_rows_def)

lemma add_chunks_snoc:
  "add_chunks ev (cs @ [c]) d =
     (let d' = add_chunks ev cs d in
      d'\<lparr>capture_event_chunks := capture_event_chunks d' @ [\<lparr>cr_event_id = ev_ID ev, cr_chunk_index = int (length cs), cr_content = c\<rparr>],
         capture_fts := capture_fts d' @ fts_rows ev [c]\<rparr>)"
  by (simp add: add_chunks_def chunk_rows_snoc fts_rows_def)

lemma add_chunks_fields [simp]:
  "capture_events (add_chunks ev cs d) = capture_events d" "projects (add_chunks ev cs d) = projects d"
  "sessions (add_chunks ev cs d) = sessions d" "capture_attempts (add_chunks ev cs d) = capture_attempts d"
  by (simp_all add: add_chunks_def)

definition stamped_project :: "string \<Rightarrow> time_text \<Rightarrow> database \<Rightarrow> database" where
  "stamped_project i now d = (case insert_project i now d of Inr d' \<Rightarrow> d' | Inl _ \<Rightarrow> d)"

definition stamped_session :: "string \<Rightarrow> string \<Rightarrow> time_text \<Rightarrow> database \<Rightarrow> database" where
  "stamped_session i p now d = (case insert_session i p now d of Inr d' \<Rightarrow> d' | Inl _ \<Rightarrow> d)"

text \<open>The complete row, once size and hash are set.\<close>

definition sealed_row :: "event \<Rightarrow> time_text \<Rightarrow> time_text \<Rightarrow> u64 \<Rightarrow> bytes \<Rightarrow> event_row" where
  "sealed_row ev occurred now n data =
     (event_row_of ev occurred now n)\<lparr>er_actual_size := n, er_payload_sha256 := sha256_hex data\<rparr>"

definition occurred_text :: "event \<Rightarrow> time_text \<Rightarrow> time_text" where
  "occurred_text ev now = (if IsZero (ev_OccurredAt ev) then now else format_utc (UTC (ev_OccurredAt ev)))"

definition appended_db :: "event \<Rightarrow> u64 \<Rightarrow> time_text \<Rightarrow> bytes list \<Rightarrow> database \<Rightarrow> database" where
  "appended_db ev n now cs d =
     (let d1 = stamped_session (ev_SessionID ev) (ev_ProjectID ev) now (stamped_project (ev_ProjectID ev) now d) in
      add_chunks ev cs (d1\<lparr>capture_events := capture_events d @ [sealed_row ev (occurred_text ev now) now n (concat cs)]\<rparr>))"

section \<open>What an append does\<close>

lemma insert_project_stamped: "insert_project i now d = Inr d' \<Longrightarrow> d' = stamped_project i now d"
  by (simp add: stamped_project_def)

lemma insert_session_stamped: "insert_session i p now d = Inr d' \<Longrightarrow> d' = stamped_session i p now d"
  by (simp add: stamped_session_def)

lemma stamped_fields [simp]:
  "capture_events (stamped_project i now d) = capture_events d"
  "capture_event_chunks (stamped_project i now d) = capture_event_chunks d"
  "capture_fts (stamped_project i now d) = capture_fts d"
  "capture_attempts (stamped_project i now d) = capture_attempts d"
  "sessions (stamped_project i now d) = sessions d"
  "capture_events (stamped_session i p now d) = capture_events d"
  "capture_event_chunks (stamped_session i p now d) = capture_event_chunks d"
  "capture_fts (stamped_session i p now d) = capture_fts d"
  "capture_attempts (stamped_session i p now d) = capture_attempts d"
  "projects (stamped_session i p now d) = projects d"
  by (simp_all add: stamped_project_def stamped_session_def insert_project_def insert_session_def)

text \<open>The callback: one chunk row, and one FTS row when the chunk is text.\<close>

lemma insert_evidence_chunk_wp:
  assumes "working s = Some (add_chunks ev cs d)"
  shows "wp (insert_evidence_chunk ev (int (length cs)) c)
    (\<lambda>_ s'. working s' = Some (add_chunks ev (cs @ [c]) d) \<and> committed s' = committed s)
    (\<lambda>_ s'. committed s' = committed s) s"
  unfolding insert_evidence_chunk_def
  by (intro wp_intros)
    (auto simp: assms insert_chunk_def insert_fts_def add_chunks_snoc fts_rows_def Let_def split: if_splits)

text \<open>
  The update of size and hash touches the new row only: every other row has another ID.
\<close>

lemma update_event_integrity_new:
  assumes "er_id row = i" and "i \<notin> set (map er_id rows)" and "capture_events d = rows @ [row]"
    and "update_event_integrity i sz h d = Inr d'"
  shows "d' = d\<lparr>capture_events := rows @ [row\<lparr>er_actual_size := sz, er_payload_sha256 := h\<rparr>]\<rparr>"
proof -
  have "map (\<lambda>r. if er_id r = i then r\<lparr>er_actual_size := sz, er_payload_sha256 := h\<rparr> else r) rows = rows"
    using assms(2) by (intro map_idI) auto
  with assms show ?thesis by (auto simp: update_event_integrity_def split: if_splits)
qed

lemma appended_db_steps:
  assumes "insert_project (ev_ProjectID ev) now d = Inr d1"
    and "insert_session (ev_SessionID ev) (ev_ProjectID ev) now d1 = Inr d2"
    and "insert_event (event_row_of ev (occurred_text ev now) now n) d2 = Inr d3"
    and "update_event_integrity (ev_ID ev) n (sha256_hex (concat cs)) (add_chunks ev cs d3) = Inr d4"
  shows "d4 = appended_db ev n now cs d" and "ev_ID ev \<notin> set (map er_id (capture_events d))"
proof -
  let ?row = "event_row_of ev (occurred_text ev now) now n"
  have d2: "d2 = stamped_session (ev_SessionID ev) (ev_ProjectID ev) now (stamped_project (ev_ProjectID ev) now d)"
    using assms(1,2) by (simp add: stamped_project_def stamped_session_def)
  have new: "ev_ID ev \<notin> set (map er_id (capture_events d2))" and d3: "d3 = d2\<lparr>capture_events := capture_events d2 @ [?row]\<rparr>"
    using assms(3) by (auto simp: insert_event_def event_row_of_def split: if_splits)
  then show "ev_ID ev \<notin> set (map er_id (capture_events d))" by (simp add: d2)
  have "d4 = (add_chunks ev cs d3)\<lparr>capture_events := capture_events d2
      @ [?row\<lparr>er_actual_size := n, er_payload_sha256 := sha256_hex (concat cs)\<rparr>]\<rparr>"
    using assms(4) new by (intro update_event_integrity_new) (simp_all add: d3 event_row_of_def)
  then show "d4 = appended_db ev n now cs d"
    by (simp add: appended_db_def Let_def d3 d2 [symmetric] sealed_row_def add_chunks_def) (simp add: d2)
qed

context io_reader
begin

lemma consume_insert_wp:
  assumes "working s = Some d"
  shows "wp (consumeEvidence rd (insert_evidence_chunk ev) n)
    (\<lambda>(z, h) (s', r'). \<exists>cs. z = n \<and> h = sha256_hex (concat cs) \<and> [] \<notin> set cs \<and> pend r = concat cs @ pend r'
       \<and> length (concat cs) = unat n \<and> working s' = Some (add_chunks ev cs d) \<and> committed s' = committed s)
    (\<lambda>_ (s', r'). committed s' = committed s) (s, r)"
proof -
  let ?I = "\<lambda>cs s'. working s' = Some (add_chunks ev cs d) \<and> committed s' = committed s"
  have callback: "wp (insert_evidence_chunk ev (int (length cs)) c) (\<lambda>_. ?I (cs @ [c])) (\<lambda>_ s''. committed s'' = committed s) s'"
    if "?I cs s'" for cs c s'
    using insert_evidence_chunk_wp [of s' ev cs d c] that by simp
  have "wp (consumeEvidence_loop rd (insert_evidence_chunk ev) n (int (length ([] :: bytes list))) (concat []))
    (\<lambda>h (s', r'). \<exists>cs. ?I ([] @ cs) s' \<and> h = concat ([] @ cs) \<and> [] \<notin> set cs
       \<and> length (concat cs) = unat n \<and> pend r = concat cs @ pend r')
    (\<lambda>_ (s', r'). committed s' = committed s) (s, r)"
    by (rule consume_loop_wp [where I = ?I and EI = "\<lambda>s'. committed s' = committed s"])
      (auto simp: assms intro!: wp_ctx_check callback)
  then show ?thesis
    unfolding consumeEvidence_def by (intro wp_intros) (auto elim!: wp_mono intro!: wp_intros)
qed

lemma append_new_wp:
  assumes "working s = Some d"
  shows "wp (append_new rd ev n)
    (\<lambda>res (s', r'). working s' = None \<and> (\<exists>cs now. [] \<notin> set cs \<and> pend r = concat cs @ pend r'
        \<and> length (concat cs) = unat n \<and> res = \<lparr>AlreadyPresent = False, ActualSize = n, ResultSHA256 = sha256_hex (concat cs)\<rparr>
        \<and> ev_ID ev \<notin> set (map er_id (capture_events d)) \<and> committed s' = appended_db ev n now cs d))
    (\<lambda>_ (s', r'). committed s' = committed s) (s, r)"
  unfolding append_new_def Let_def occurred_text_def [symmetric]
proof (intro wp_intros, goal_cases)
  case (1 fs1 d0 d1 fs2 d1' d2 fs3 d2' d3)
  let ?now = "format_utc \<lparr>instant = clock s, zone = 0\<rparr>"
  from 1 assms have steps: "insert_project (ev_ProjectID ev) ?now d = Inr d1"
    "insert_session (ev_SessionID ev) (ev_ProjectID ev) ?now d1 = Inr d2"
    "insert_event (event_row_of ev (occurred_text ev ?now) ?now n) d2 = Inr d3" by simp_all
  show ?case
  proof (rule wp_mono [OF consume_insert_wp [where d = d3]], goal_cases)
    case 1 show ?case by simp
  next
    case (2 zh sr)
    obtain z h s' r' where zh: "zh = (z, h)" and sr: "sr = (s', r')" by (cases zh, cases sr)
    from 2 zh sr obtain cs where cs: "z = n" "h = sha256_hex (concat cs)" "[] \<notin> set cs" "pend r = concat cs @ pend r'"
      "length (concat cs) = unat n" "working s' = Some (add_chunks ev cs d3)" by auto
    show ?case unfolding zh sr prod.case
    proof (intro wp_intros, goal_cases)
      case (1 fs4 d3' d4 fs5 d5)
      with cs have "update_event_integrity (ev_ID ev) n (sha256_hex (concat cs)) (add_chunks ev cs d3) = Inr d4" by simp
      note final = appended_db_steps [OF steps this]
      show ?case using cs final 1 by (auto intro!: exI [of _ cs])
    qed (use 2 zh sr in auto)
  qed auto
qed simp_all

lemma consume_skip_wp:
  "wp (consumeEvidence rd (\<lambda>_ _. gret ()) n)
    (\<lambda>(z, h) (s', r'). same_db s s' \<and> z = n \<and> (\<exists>data. h = sha256_hex data \<and> pend r = data @ pend r' \<and> length data = unat n))
    (\<lambda>_ (s', r'). same_db s s') (s, r)"
proof -
  have "wp (consumeEvidence_loop rd (\<lambda>_ _. gret ()) n (int (length ([] :: bytes list))) (concat []))
    (\<lambda>h (s', r'). \<exists>cs. same_db s s' \<and> h = concat ([] @ cs) \<and> [] \<notin> set cs
       \<and> length (concat cs) = unat n \<and> pend r = concat cs @ pend r')
    (\<lambda>_ (s', r'). same_db s s') (s, r)"
    by (rule consume_loop_wp [where I = "\<lambda>_. same_db s" and EI = "same_db s"])
      (auto intro!: wp_ctx_check wp_gret [THEN iffD2] elim: same_db_trans)
  then show ?thesis
    unfolding consumeEvidence_def by (intro wp_intros) (fastforce elim!: wp_mono intro!: wp_intros)
qed

end

text \<open>When the answer is that the event is present, the stored evidence is intact and has the new evidence's size and hash.\<close>

definition already_stored :: "event \<Rightarrow> u64 \<Rightarrow> string \<Rightarrow> database \<Rightarrow> bool" where
  "already_stored ev n hash d =
     (case select_event (ev_ID ev) d of
        None \<Rightarrow> False
      | Some row \<Rightarrow> er_declared_size row = n \<and> er_actual_size row = n \<and> er_payload_sha256 row = hash
          \<and> canonical n (select_chunks (ev_ID ev) d) \<and> sha256_hex (evidence_of (select_chunks (ev_ID ev) d)) = hash)"

context io_reader
begin

lemma append_existing_wp:
  assumes "working s = Some d" and "select_event (ev_ID ev) d = Some row"
  shows "wp (append_existing rd ev n (er_declared_size row, er_actual_size row, er_payload_sha256 row))
    (\<lambda>res (s', r'). same_db s s' \<and> (\<exists>data. pend r = data @ pend r' \<and> length data = unat n
       \<and> res = \<lparr>AlreadyPresent = True, ActualSize = n, ResultSHA256 = sha256_hex data\<rparr> \<and> already_stored ev n (sha256_hex data) d))
    (\<lambda>_ (s', r'). same_db s s') (s, r)"
  unfolding append_existing_def prod.case
proof (intro wp_intros, rule wp_mono [OF consume_skip_wp], goal_cases)
  case (1 zh sr)
  obtain z h s' r' where zh: "zh = (z, h)" and sr: "sr = (s', r')" by (cases zh, cases sr)
  from 1 zh sr obtain data where same: "same_db s s'" and z: "z = n" and h: "h = sha256_hex data"
    and data: "pend r = data @ pend r'" "length data = unat n" by auto
  have "working s' = Some d" using same assms(1) by (simp add: same_db_fields)
  from storedEvidence_wp [OF this, of "ev_ID ev" "er_declared_size row"]
  have stored: "wp (storedEvidence (ev_ID ev) (er_declared_size row))
      (\<lambda>(z, h) s''. same_db s s'' \<and> z = er_declared_size row \<and> h = sha256_hex (evidence_of (select_chunks (ev_ID ev) d))
         \<and> canonical (er_declared_size row) (select_chunks (ev_ID ev) d)) (\<lambda>_ s''. same_db s s'') s'"
    by (rule wp_mono) (use same in \<open>auto elim: same_db_trans\<close>)
  show ?case unfolding zh sr prod.case
  proof (intro wp_intros, rule wp_mono [OF stored], goal_cases)
    case (1 st s'')
    with data z h assms(2) show ?case
      by (cases st) (auto simp: wp_simps already_stored_def)
  qed (simp add: wp_simps)
qed auto

end

text \<open>
  The outcome of an append that succeeds on the database \<open>d\<close>, leaving \<open>d'\<close>: the evidence is
  the given chunks, and either it has been stored or it was stored already.
\<close>

definition append_outcome :: "event \<Rightarrow> u64 \<Rightarrow> bytes list \<Rightarrow> append_result \<Rightarrow> database \<Rightarrow> database \<Rightarrow> bool" where
  "append_outcome ev n cs res d d' =
     ([] \<notin> set cs \<and> length (concat cs) = unat n \<and> ActualSize res = n \<and> ResultSHA256 res = sha256_hex (concat cs)
      \<and> (if AlreadyPresent res then d' = d \<and> already_stored ev n (sha256_hex (concat cs)) d
         else ev_ID ev \<notin> set (map er_id (capture_events d)) \<and> (\<exists>now. d' = appended_db ev n now cs d)))"

context io_reader
begin

text \<open>
  \<open>AppendEvent\<close> for every reader and fault script: either it has stored the evidence, or it
  found it stored, and has consumed exactly the declared bytes; or it failed and has not
  changed the database.
\<close>

lemma AppendEvent_wp:
  "wp (AppendEvent (Some rd) ev n)
    (\<lambda>res (s', r'). working s' = None
       \<and> (\<exists>cs. pend r = concat cs @ pend r' \<and> append_outcome ev n cs res (committed s) (committed s')))
    (\<lambda>_ (s', r'). committed s' = committed s \<and> (working s' = None \<or> working s' = working s)) (s, r)"
proof -
  have existing: "wp (append_existing rd ev n (er_declared_size row, er_actual_size row, er_payload_sha256 row))
      (\<lambda>res (s', r'). \<exists>cs. pend r = concat cs @ pend r' \<and> append_outcome ev n cs res (committed s) (committed s'))
      (\<lambda>_ (s', r'). committed s' = committed s) (t, r)"
    if "working t = Some (committed s)" "committed t = committed s" "select_event (ev_ID ev) (committed s) = Some row" for t row
  proof (rule wp_mono [OF append_existing_wp [OF that(1,3)]], goal_cases)
    case (1 res sr)
    then obtain data where "pend r = data @ pend (snd sr)" "length data = unat n" "same_db t (fst sr)"
      "res = \<lparr>AlreadyPresent = True, ActualSize = n, ResultSHA256 = sha256_hex data\<rparr>"
      "already_stored ev n (sha256_hex data) (committed s)" by (auto split: prod.splits)
    with that(2) show ?case
      by (auto simp: append_outcome_def same_db_fields Nil_notin_chunks_of split: prod.splits intro!: exI [of _ "chunks_of data"])
  qed (use that(2) in \<open>auto simp: same_db_fields\<close>)
  have new: "wp (append_new rd ev n)
      (\<lambda>res (s', r'). \<exists>cs. pend r = concat cs @ pend r' \<and> append_outcome ev n cs res (committed s) (committed s'))
      (\<lambda>_ (s', r'). committed s' = committed s) (t, r)"
    if "working t = Some (committed s)" "committed t = committed s" for t
    by (rule wp_mono [OF append_new_wp [OF that(1)]]) (use that(2) in \<open>fastforce simp: append_outcome_def\<close>)+
  show ?thesis
    unfolding AppendEvent_def option.case
  proof (intro wp_intros wp_with_tx, goal_cases)
    case (2 fs fsa fsb d row)
    then show ?case by (intro wp_mono [OF existing [of _ row]]) auto
  next
    case (4 fs fsa fsb d)
    then show ?case by (intro wp_mono [OF new]) auto
  next
    case (6 fs fsa e fsb)
    then show ?case by (intro wp_mono [OF new]) auto
  qed auto
qed

end

end
