(* ===== verification/Integrity.thy ===== *)
theory Integrity
  imports Evidence
begin

text \<open>
  The integrity invariant of the database: keys are unique, references resolve, every event
  is sealed and its chunks are the evidence that its size and hash announce.  An append keeps
  it, and keeps every event that was there before with its chunks: the store is append-only.
\<close>

section \<open>The invariant\<close>

text \<open>
  What the chunks of a stored event look like.  The sizes of the chunks are not part of it:
  see \<open>canonical\<close> for the stronger condition that the readers ask for.
\<close>

definition intact :: "event_row \<Rightarrow> chunk_row list \<Rightarrow> bool" where
  "intact row rows =
     (map cr_chunk_index rows = map int [0..<length rows] \<and> [] \<notin> set (map cr_content rows)
      \<and> er_actual_size row = er_declared_size row \<and> length (evidence_of rows) = unat (er_actual_size row)
      \<and> er_payload_sha256 row = sha256_hex (evidence_of rows))"

definition keys_ok :: "database \<Rightarrow> bool" where
  "keys_ok d =
     (distinct (map pr_id (projects d)) \<and> distinct (map se_id (sessions d)) \<and> distinct (map er_id (capture_events d))
      \<and> distinct (map (\<lambda>c. (cr_event_id c, cr_chunk_index c)) (capture_event_chunks d))
      \<and> distinct (map ar_attempt_id (capture_attempts d)))"

definition references_ok :: "database \<Rightarrow> bool" where
  "references_ok d =
     ((\<forall>s \<in> set (sessions d). se_project_id s \<in> set (map pr_id (projects d)))
      \<and> (\<forall>r \<in> set (capture_events d). er_project_id r \<in> set (map pr_id (projects d)) \<and> er_session_id r \<in> set (map se_id (sessions d)))
      \<and> (\<forall>c \<in> set (capture_event_chunks d). cr_event_id c \<in> set (map er_id (capture_events d))))"

definition events_ok :: "database \<Rightarrow> bool" where
  "events_ok d = (\<forall>r \<in> set (capture_events d). intact r (select_chunks (er_id r) d))"

definition db_ok :: "database \<Rightarrow> bool" where
  "db_ok d = (keys_ok d \<and> references_ok d \<and> events_ok d)"

text \<open>Every event of \<open>d\<close> is in \<open>d'\<close>, with the same metadata and the same chunks.\<close>

definition preserved :: "database \<Rightarrow> database \<Rightarrow> bool" where
  "preserved d d' = (\<forall>i row. select_event i d = Some row \<longrightarrow> select_event i d' = Some row \<and> select_chunks i d' = select_chunks i d)"

lemma preserved_refl [simp]: "preserved d d"
  by (simp add: preserved_def)

lemma preserved_trans: "preserved d1 d2 \<Longrightarrow> preserved d2 d3 \<Longrightarrow> preserved d1 d3"
  by (fastforce simp: preserved_def)

lemma db_ok_empty [simp]: "db_ok empty_database"
  by (simp add: db_ok_def keys_ok_def references_ok_def events_ok_def empty_database_def)

section \<open>Selecting\<close>

lemma select_event_Some: "select_event i d = Some r \<Longrightarrow> r \<in> set (capture_events d) \<and> er_id r = i"
  by (auto simp: select_event_def find_Some_iff)

lemma select_event_None: "select_event i d = None \<longleftrightarrow> i \<notin> set (map er_id (capture_events d))"
  by (auto simp: select_event_def find_None_iff)

lemma find_append: "find P (xs @ ys) = (case find P xs of None \<Rightarrow> find P ys | Some x \<Rightarrow> Some x)"
  by (induction xs) auto

lemma find_distinct:
  assumes "distinct (map f xs)" and "x \<in> set xs"
  shows "find (\<lambda>y. f y = f x) xs = Some x"
  using assms by (induction xs) (auto simp: rev_image_eqI)

lemma select_event_mem: "keys_ok d \<Longrightarrow> r \<in> set (capture_events d) \<Longrightarrow> select_event (er_id r) d = Some r"
  unfolding select_event_def keys_ok_def by (intro find_distinct) auto

lemma db_ok_intact: "db_ok d \<Longrightarrow> select_event i d = Some r \<Longrightarrow> intact r (select_chunks i d)"
  using select_event_Some [of i d r] by (auto simp: db_ok_def events_ok_def)

lemma no_chunk_of:
  assumes "references_ok d" and "i \<notin> set (map er_id (capture_events d))" and "c \<in> set (capture_event_chunks d)"
  shows "cr_event_id c \<noteq> i"
proof -
  have "cr_event_id c \<in> set (map er_id (capture_events d))" using assms(1,3) by (simp add: references_ok_def)
  with assms(2) show ?thesis by metis
qed

lemma select_chunks_none:
  assumes "references_ok d" and "i \<notin> set (map er_id (capture_events d))"
  shows "select_chunks i d = []"
proof -
  have "filter (\<lambda>c. cr_event_id c = i) (capture_event_chunks d) = []"
    using no_chunk_of [OF assms] by (simp add: filter_empty_conv)
  then show ?thesis by (simp add: select_chunks_def)
qed

lemma select_chunks_cong: "capture_event_chunks d = capture_event_chunks d' \<Longrightarrow> select_chunks i d = select_chunks i d'"
  by (simp add: select_chunks_def)

section \<open>The rows of an append\<close>

lemma chunk_rows_simps [simp]:
  "length (chunk_rows i cs) = length cs"
  "map cr_content (chunk_rows i cs) = cs"
  "map cr_chunk_index (chunk_rows i cs) = map int [0..<length cs]"
  "map cr_event_id (chunk_rows i cs) = replicate (length cs) i"
  by (induction cs rule: rev_induct) (simp_all add: chunk_rows_def replicate_append_same)

lemma chunk_rows_id: "c \<in> set (chunk_rows i cs) \<Longrightarrow> cr_event_id c = i"
  using chunk_rows_simps(4) [of i cs] by (metis in_set_conv_nth length_map length_replicate nth_map nth_replicate)

lemma filter_chunk_rows [simp]:
  "filter (\<lambda>c. cr_event_id c = j) (chunk_rows i cs) = (if i = j then chunk_rows i cs else [])"
  by (auto simp: filter_id_conv filter_empty_conv dest: chunk_rows_id)

lemma chunk_keys: "map (\<lambda>c. (cr_event_id c, cr_chunk_index c)) (chunk_rows i cs) = map (\<lambda>k. (i, int k)) [0..<length cs]"
  by (induction cs rule: rev_induct) (simp_all add: chunk_rows_def)

lemma sort_chunk_rows [simp]: "sort_key cr_chunk_index (chunk_rows i cs) = chunk_rows i cs"
proof -
  have "sorted (map cr_chunk_index (chunk_rows i cs))" by (simp add: sorted_wrt_map sorted_wrt_upt)
  then show ?thesis by (rule sort_key_id_if_sorted)
qed

lemma appended_db_fields [simp]:
  "capture_events (appended_db ev n now cs d) = capture_events d @ [sealed_row ev (occurred_text ev now) now n (concat cs)]"
  "capture_event_chunks (appended_db ev n now cs d) = capture_event_chunks d @ chunk_rows (ev_ID ev) cs"
  "capture_attempts (appended_db ev n now cs d) = capture_attempts d"
  "projects (appended_db ev n now cs d) = projects (stamped_project (ev_ProjectID ev) now d)"
  "sessions (appended_db ev n now cs d)
     = sessions (stamped_session (ev_SessionID ev) (ev_ProjectID ev) now (stamped_project (ev_ProjectID ev) now d))"
  by (simp_all add: appended_db_def Let_def add_chunks_def)

lemma sealed_row_fields [simp]:
  "er_id (sealed_row ev occ now n data) = ev_ID ev" "er_project_id (sealed_row ev occ now n data) = ev_ProjectID ev"
  "er_session_id (sealed_row ev occ now n data) = ev_SessionID ev" "er_actual_size (sealed_row ev occ now n data) = n"
  "er_declared_size (sealed_row ev occ now n data) = n" "er_payload_sha256 (sealed_row ev occ now n data) = sha256_hex data"
  by (simp_all add: sealed_row_def event_row_of_def)

lemma appended_select_event:
  assumes "ev_ID ev \<notin> set (map er_id (capture_events d))"
  shows "select_event (ev_ID ev) (appended_db ev n now cs d) = Some (sealed_row ev (occurred_text ev now) now n (concat cs))"
    and "select_event i d = Some row \<Longrightarrow> select_event i (appended_db ev n now cs d) = Some row"
proof -
  have "find (\<lambda>r. er_id r = ev_ID ev) (capture_events d) = None" using assms by (auto simp: find_None_iff image_iff)
  then show "select_event (ev_ID ev) (appended_db ev n now cs d) = Some (sealed_row ev (occurred_text ev now) now n (concat cs))"
    by (simp add: select_event_def find_append)
qed (simp add: select_event_def find_append)

lemma appended_select_chunks:
  assumes "references_ok d" and "ev_ID ev \<notin> set (map er_id (capture_events d))"
  shows "select_chunks (ev_ID ev) (appended_db ev n now cs d) = chunk_rows (ev_ID ev) cs"
    and "i \<noteq> ev_ID ev \<Longrightarrow> select_chunks i (appended_db ev n now cs d) = select_chunks i d"
proof -
  have "filter (\<lambda>c. cr_event_id c = ev_ID ev) (capture_event_chunks d) = []"
    using no_chunk_of [OF assms] by (simp add: filter_empty_conv)
  then show "select_chunks (ev_ID ev) (appended_db ev n now cs d) = chunk_rows (ev_ID ev) cs"
    by (simp add: select_chunks_def)
qed (simp add: select_chunks_def)

lemma stamped_keys [simp]:
  "set (map pr_id (projects (stamped_project i now d))) = insert i (set (map pr_id (projects d)))"
  "distinct (map pr_id (projects (stamped_project i now d))) = distinct (map pr_id (projects d))"
  "set (map se_id (sessions (stamped_session i p now d))) \<subseteq> insert i (set (map se_id (sessions d)))"
  "distinct (map se_id (sessions (stamped_session i p now d))) = distinct (map se_id (sessions d))"
  by (auto simp: stamped_project_def stamped_session_def insert_project_def insert_session_def)

lemma stamped_sessions:
  assumes "p \<in> set (map pr_id (projects d))"
  shows "set (map se_id (sessions (stamped_session i p now d))) = insert i (set (map se_id (sessions d)))"
    and "s \<in> set (sessions (stamped_session i p now d)) \<Longrightarrow> s \<in> set (sessions d) \<or> se_project_id s = p"
  using assms by (auto simp: stamped_session_def insert_session_def split: if_splits)

section \<open>Appending keeps the invariant\<close>

lemma intact_chunk_rows:
  assumes "[] \<notin> set cs" and "length (concat cs) = unat n"
  shows "intact (sealed_row ev occ now n (concat cs)) (chunk_rows i cs)"
  using assms by (simp add: intact_def evidence_of_def)

lemma appended_preserved:
  assumes "db_ok d" and "ev_ID ev \<notin> set (map er_id (capture_events d))"
  shows "preserved d (appended_db ev n now cs d)"
  unfolding preserved_def
proof (intro allI impI conjI)
  fix i row assume sel: "select_event i d = Some row"
  then show "select_event i (appended_db ev n now cs d) = Some row" using assms(2) by (rule appended_select_event(2)[rotated])
  have "i \<noteq> ev_ID ev" using select_event_Some [OF sel] assms(2) by (auto simp: image_iff)
  then show "select_chunks i (appended_db ev n now cs d) = select_chunks i d"
    using appended_select_chunks(2) assms by (simp add: db_ok_def)
qed

lemma appended_keys:
  assumes "keys_ok d" and "references_ok d" and "ev_ID ev \<notin> set (map er_id (capture_events d))"
  shows "keys_ok (appended_db ev n now cs d)"
proof -
  have "distinct (map (\<lambda>k. (ev_ID ev, int k)) [0..<length cs])" by (simp add: distinct_map inj_on_def)
  moreover have "(\<lambda>c. (cr_event_id c, cr_chunk_index c)) ` set (capture_event_chunks d) \<inter> (\<lambda>k. (ev_ID ev, int k)) ` {0..<length cs} = {}"
    using no_chunk_of [OF assms(2,3)] by auto
  moreover have "(\<lambda>c. (cr_event_id c, cr_chunk_index c)) ` set (chunk_rows (ev_ID ev) cs) = (\<lambda>k. (ev_ID ev, int k)) ` {0..<length cs}"
    using arg_cong [OF chunk_keys, of set "ev_ID ev" cs] by simp
  ultimately show ?thesis
    using assms by (simp add: keys_ok_def chunk_keys)
qed

lemma appended_references:
  assumes "references_ok d"
  shows "references_ok (appended_db ev n now cs d)"
proof -
  let ?d1 = "stamped_project (ev_ProjectID ev) now d"
  have pr: "ev_ProjectID ev \<in> set (map pr_id (projects ?d1))" by (simp only: stamped_keys insertI1)
  note sessions = stamped_sessions [OF pr, where i = "ev_SessionID ev" and now = now]
  have keep: "set (map pr_id (projects d)) \<subseteq> set (map pr_id (projects ?d1))" by (simp only: stamped_keys) blast
  show ?thesis
    unfolding references_ok_def
  proof (intro conjI ballI, goal_cases)
    case (1 s) then show ?case using sessions(2) [where s = s] pr keep assms by (auto simp: references_ok_def)
  next
    case (2 r) then show ?case using pr keep assms by (auto simp: references_ok_def)
  next
    case (3 r) then show ?case unfolding appended_db_fields sessions(1) using assms by (auto simp: references_ok_def)
  next
    case (4 c) then show ?case using assms by (auto simp: references_ok_def dest: chunk_rows_id)
  qed
qed

lemma appended_db_ok:
  assumes ok: "db_ok d" and new: "ev_ID ev \<notin> set (map er_id (capture_events d))"
    and cs: "[] \<notin> set cs" "length (concat cs) = unat n"
  shows "db_ok (appended_db ev n now cs d)"
proof -
  have "intact r (select_chunks (er_id r) (appended_db ev n now cs d))"
    if "r \<in> set (capture_events (appended_db ev n now cs d))" for r
  proof (cases "er_id r = ev_ID ev")
    case True
    with that new have "r = sealed_row ev (occurred_text ev now) now n (concat cs)" by (auto simp: image_iff)
    with ok new intact_chunk_rows [OF cs] show ?thesis by (simp add: appended_select_chunks db_ok_def)
  next
    case False
    with that have "r \<in> set (capture_events d)" by auto
    with False ok new show ?thesis by (simp add: appended_select_chunks db_ok_def events_ok_def)
  qed
  with ok new show ?thesis
    by (simp add: db_ok_def events_ok_def appended_keys appended_references)
qed

end
