(* ===== verification/Appending.thy ===== *)
theory Appending
  imports Integrity
begin

text \<open>
  Properties of \<open>AppendEvent\<close>: what a successful and a failed append do for every reader and
  every fault script, that it succeeds when nothing fails, that it keeps the integrity
  invariant and every stored event, and what happens to evidence that arrives in short reads.
\<close>

section \<open>A calm append\<close>

lemma wp_run: "m s = (Inr x, s') \<Longrightarrow> Q x s' \<Longrightarrow> wp m Q E s"
  by (simp add: wp_def)

lemma wp_never:
  assumes "wp m Q E s" and "\<And>e s'. \<not> E e s'"
  obtains x s' where "m s = (Inr x, s')" and "Q x s'"
  using assms by (auto simp: wp_def split: prod.splits sum.splits)

lemma chunk_rows_index: "c \<in> set (chunk_rows i cs) \<Longrightarrow> cr_chunk_index c < int (length cs)"
proof -
  assume "c \<in> set (chunk_rows i cs)"
  then have "cr_chunk_index c \<in> set (map cr_chunk_index (chunk_rows i cs))" by (simp only: set_map imageI)
  then show ?thesis unfolding chunk_rows_simps by auto
qed

lemma insert_evidence_chunk_calm:
  assumes "faults s = []" and "\<forall>c \<in> set (capture_event_chunks d). cr_event_id c \<noteq> ev_ID ev"
    and "ev_ID ev \<in> set (map er_id (capture_events d))"
  shows "insert_evidence_chunk ev (int (length cs)) c (s\<lparr>working := Some (add_chunks ev cs d)\<rparr>)
    = (Inr (), s\<lparr>working := Some (add_chunks ev (cs @ [c]) d)\<rparr>)"
proof -
  have "(ev_ID ev, int (length cs)) \<notin> (\<lambda>c. (cr_event_id c, cr_chunk_index c)) ` set (capture_event_chunks (add_chunks ev cs d))"
    using assms(2) chunk_rows_index [of _ "ev_ID ev" cs] by (force simp: add_chunks_def)
  then have "insert_chunk \<lparr>cr_event_id = ev_ID ev, cr_chunk_index = int (length cs), cr_content = c\<rparr> (add_chunks ev cs d)
      = Inr ((add_chunks ev cs d)\<lparr>capture_event_chunks := capture_event_chunks (add_chunks ev cs d)
          @ [\<lparr>cr_event_id = ev_ID ev, cr_chunk_index = int (length cs), cr_content = c\<rparr>]\<rparr>)"
    using assms(3) by (simp add: insert_chunk_def)
  with assms(1) show ?thesis
    by (simp add: insert_evidence_chunk_def run_simps calm_simps insert_fts_def add_chunks_snoc Let_def fts_rows_def)
qed

lemma update_event_integrity_seal:
  assumes "capture_events d = rows @ [row]" and "er_id row = i" and "i \<notin> set (map er_id rows)" and "er_payload_sha256 row = ''''"
  shows "\<exists>d'. update_event_integrity i sz h d = Inr d'"
  using assms by (auto simp: update_event_integrity_def image_iff)

text \<open>
  When nothing fails and the ID is new, an append whose evidence arrives as the chunks \<open>cs\<close>
  stores them.
\<close>

lemma AppendEvent_chunks:
  assumes calm: "faults s = []" "working s = None" and refs: "references_ok (committed s)"
    and new: "ev_ID ev \<notin> set (map er_id (capture_events (committed s)))" and fits: "n \<le> maxInt"
    and consumed: "\<And>d3. \<forall>c \<in> set (capture_event_chunks d3). cr_event_id c \<noteq> ev_ID ev \<Longrightarrow> ev_ID ev \<in> set (map er_id (capture_events d3)) \<Longrightarrow>
      \<exists>r'. consumeEvidence rd (insert_evidence_chunk ev) n (s\<lparr>clock := clock s + 1, working := Some d3\<rparr>, r)
        = (Inr (n, sha256_hex (concat cs)), (s\<lparr>clock := clock s + 1, working := Some (add_chunks ev cs d3)\<rparr>, r')) \<and> R r'"
  shows "\<exists>r'. AppendEvent (Some rd) ev n (s, r)
      = (Inr \<lparr>AlreadyPresent = False, ActualSize = n, ResultSHA256 = sha256_hex (concat cs)\<rparr>,
         (s\<lparr>committed := appended_db ev n (RFC3339Nano (clock s)) cs (committed s), clock := clock s + 1\<rparr>, r')) \<and> R r'"
proof -
  let ?d = "committed s" and ?now = "RFC3339Nano (clock s)"
  define d1 where "d1 = stamped_project (ev_ProjectID ev) ?now ?d"
  define d2 where "d2 = stamped_session (ev_SessionID ev) (ev_ProjectID ev) ?now d1"
  define row where "row = event_row_of ev (occurred_text ev ?now) ?now n"
  define d3 where "d3 = d2\<lparr>capture_events := capture_events d2 @ [row]\<rparr>"
  have pr: "ev_ProjectID ev \<in> set (map pr_id (projects d1))" unfolding d1_def by (simp only: stamped_keys insertI1)
  have p1: "insert_project (ev_ProjectID ev) ?now ?d = Inr d1"
    by (simp add: d1_def stamped_project_def insert_project_def)
  have p2: "insert_session (ev_SessionID ev) (ev_ProjectID ev) ?now d1 = Inr d2"
    using pr by (simp add: d2_def stamped_session_def insert_session_def)
  have "ev_SessionID ev \<in> set (map se_id (sessions d2))" unfolding d2_def stamped_sessions(1) [OF pr] by simp
  then have p3: "insert_event row d2 = Inr d3"
    using pr new by (simp add: insert_event_def d3_def row_def event_row_of_def) (simp add: d2_def d1_def)
  have chunks: "\<forall>c \<in> set (capture_event_chunks d3). cr_event_id c \<noteq> ev_ID ev"
    using no_chunk_of [OF refs new] by (simp add: d3_def d2_def d1_def)
  have known: "ev_ID ev \<in> set (map er_id (capture_events d3))" by (simp add: d3_def row_def event_row_of_def)
  have "\<exists>d4. update_event_integrity (ev_ID ev) n (sha256_hex (concat cs)) (add_chunks ev cs d3) = Inr d4"
    using new by (intro update_event_integrity_seal [where rows = "capture_events ?d" and row = row])
      (simp_all add: d3_def d2_def d1_def row_def event_row_of_def)
  then obtain d4 where p4: "update_event_integrity (ev_ID ev) n (sha256_hex (concat cs)) (add_chunks ev cs d3) = Inr d4"
    by auto
  have d4: "d4 = appended_db ev n ?now cs ?d"
    using appended_db_steps(1) [OF p1 p2 p3 [unfolded row_def] p4] .
  have none: "select_event (ev_ID ev) ?d = None" using new by (simp add: select_event_None)
  obtain r' where "consumeEvidence rd (insert_evidence_chunk ev) n (s\<lparr>clock := clock s + 1, working := Some d3\<rparr>, r)
      = (Inr (n, sha256_hex (concat cs)), (s\<lparr>clock := clock s + 1, working := Some (add_chunks ev cs d3)\<rparr>, r'))" and "R r'"
    using consumed [OF chunks known] by blast
  then show ?thesis
    using calm fits none p1 p2 p3 p4
    by (intro exI [of _ r']) (simp add: AppendEvent_def append_new_def run_simps calm_simps time_now_def not_less Let_def
        occurred_text_def [symmetric] format_utc_def row_def d4)
qed

context full_reader
begin

lemma consume_insert_calm:
  assumes "faults s = []" and "\<forall>c \<in> set (capture_event_chunks d). cr_event_id c \<noteq> ev_ID ev"
    and "ev_ID ev \<in> set (map er_id (capture_events d))" and "good r" and "unat n \<le> length (pend r)"
  obtains r' where "consumeEvidence rd (insert_evidence_chunk ev) n (s\<lparr>working := Some d\<rparr>, r)
      = (Inr (n, sha256_hex (take (unat n) (pend r))),
         (s\<lparr>working := Some (add_chunks ev (chunks_of (take (unat n) (pend r))) d)\<rparr>, r'))"
    and "pend r' = drop (unat n) (pend r)" and "good r'"
proof -
  let ?I = "\<lambda>cs s'. s' = s\<lparr>working := Some (add_chunks ev cs d)\<rparr>"
  have "wp (consumeEvidence_loop rd (insert_evidence_chunk ev) n (int (length ([] :: bytes list))) (concat []))
    (\<lambda>h (s', r'). ?I ([] @ chunks_of (take (unat n) (pend r))) s' \<and> h = concat [] @ take (unat n) (pend r)
       \<and> pend r' = drop (unat n) (pend r) \<and> good r')
    (\<lambda>_ (s', r'). False) (s\<lparr>working := Some d\<rparr>, r)"
    by (rule consume_loop_full_wp [where I = ?I and EI = "\<lambda>_. False"])
      (auto simp: assms(1,4,5) calm_simps intro!: wp_run insert_evidence_chunk_calm [OF _ assms(2,3)])
  then obtain h sr where "consumeEvidence_loop rd (insert_evidence_chunk ev) n 0 [] (s\<lparr>working := Some d\<rparr>, r) = (Inr h, sr)"
    "fst sr = s\<lparr>working := Some (add_chunks ev (chunks_of (take (unat n) (pend r))) d)\<rparr>" "h = take (unat n) (pend r)"
    "pend (snd sr) = drop (unat n) (pend r)" "good (snd sr)"
    by (auto elim!: wp_never split: prod.splits)
  then show ?thesis by (cases sr, intro that [of "snd sr"]) (simp_all add: consumeEvidence_def run_simps)
qed

text \<open>A reader that fills its buffers yields canonical chunks.\<close>

lemma AppendEvent_calm:
  assumes calm: "faults s = []" "working s = None" and refs: "references_ok (committed s)"
    and new: "ev_ID ev \<notin> set (map er_id (capture_events (committed s)))"
    and fits: "n \<le> maxInt" and data: "good r" "unat n \<le> length (pend r)"
  obtains r' where "AppendEvent (Some rd) ev n (s, r)
      = (Inr \<lparr>AlreadyPresent = False, ActualSize = n, ResultSHA256 = sha256_hex (take (unat n) (pend r))\<rparr>,
         (s\<lparr>committed := appended_db ev n (RFC3339Nano (clock s)) (chunks_of (take (unat n) (pend r))) (committed s),
            clock := clock s + 1\<rparr>, r'))"
    and "pend r' = drop (unat n) (pend r)" and "good r'"
proof -
  let ?cs = "chunks_of (take (unat n) (pend r))" and ?R = "\<lambda>r'. pend r' = drop (unat n) (pend r) \<and> good r'"
  have "\<exists>r'. consumeEvidence rd (insert_evidence_chunk ev) n (s\<lparr>clock := clock s + 1, working := Some d3\<rparr>, r)
      = (Inr (n, sha256_hex (concat ?cs)), (s\<lparr>clock := clock s + 1, working := Some (add_chunks ev ?cs d3)\<rparr>, r')) \<and> ?R r'"
    if "\<forall>c \<in> set (capture_event_chunks d3). cr_event_id c \<noteq> ev_ID ev" "ev_ID ev \<in> set (map er_id (capture_events d3))" for d3
    by (rule consume_insert_calm [of "s\<lparr>clock := clock s + 1\<rparr>" d3 ev r n]) (use calm(1) that data in auto)
  from AppendEvent_chunks [OF calm refs new fits this] show ?thesis using that by auto
qed

text \<open>An ID that is already stored intact: the answer depends on size and hash alone.\<close>

lemma consume_skip_calm:
  assumes "faults s = []" and "good r" and "unat n \<le> length (pend r)"
  obtains r' where "consumeEvidence rd (\<lambda>_ _. gret ()) n (s, r) = (Inr (n, sha256_hex (take (unat n) (pend r))), (s, r'))"
    and "pend r' = drop (unat n) (pend r)" and "good r'"
proof -
  have "wp (consumeEvidence_loop rd (\<lambda>_ _. gret ()) n (int (length ([] :: bytes list))) (concat []))
    (\<lambda>h (s', r'). s' = s \<and> h = concat [] @ take (unat n) (pend r) \<and> pend r' = drop (unat n) (pend r) \<and> good r')
    (\<lambda>_ (s', r'). False) (s, r)"
    by (rule consume_loop_full_wp [where I = "\<lambda>_ s'. s' = s" and EI = "\<lambda>_. False"])
      (auto simp: assms calm_simps intro!: wp_run gret_run)
  then obtain h sr where "consumeEvidence_loop rd (\<lambda>_ _. gret ()) n 0 [] (s, r) = (Inr h, sr)" "fst sr = s"
    "h = take (unat n) (pend r)" "pend (snd sr) = drop (unat n) (pend r)" "good (snd sr)"
    by (auto elim!: wp_never split: prod.splits)
  then show ?thesis by (cases sr, intro that [of "snd sr"]) (simp_all add: consumeEvidence_def run_simps)
qed

lemma AppendEvent_again_calm:
  assumes calm: "faults s = []" "working s = None" and sel: "select_event (ev_ID ev) (committed s) = Some row"
    and fits: "n \<le> maxInt" and data: "good r" "unat n \<le> length (pend r)"
  obtains r' where "AppendEvent (Some rd) ev n (s, r)
      = (if already_stored ev n (sha256_hex (take (unat n) (pend r))) (committed s)
         then Inr \<lparr>AlreadyPresent = True, ActualSize = n, ResultSHA256 = sha256_hex (take (unat n) (pend r))\<rparr>
         else Inl ErrEventConflict, (s, r'))"
    and "pend r' = drop (unat n) (pend r)" and "good r'"
proof -
  let ?s = "s\<lparr>working := Some (committed s)\<rparr>"
  have calm1: "faults ?s = []" and work: "working ?s = Some (committed s)" using calm(1) by simp_all
  obtain r' where skip: "consumeEvidence rd (\<lambda>_ _. gret ()) n (?s, r) = (Inr (n, sha256_hex (take (unat n) (pend r))), (?s, r'))"
    and r': "pend r' = drop (unat n) (pend r)" "good r'"
    using consume_skip_calm [OF calm1 data] by blast
  have rolled: "rollback_tx ?s = s" using calm(2) by (simp add: rollback_tx_def)
  show ?thesis
  proof (rule that [OF _ r'])
    show "AppendEvent (Some rd) ev n (s, r)
      = (if already_stored ev n (sha256_hex (take (unat n) (pend r))) (committed s)
         then Inr \<lparr>AlreadyPresent = True, ActualSize = n, ResultSHA256 = sha256_hex (take (unat n) (pend r))\<rparr>
         else Inl ErrEventConflict, (s, r'))"
      using calm fits sel skip storedEvidence_calm [OF calm1 work] rolled
      by (auto simp add: AppendEvent_def append_existing_def run_simps calm_simps not_less already_stored_def)
  qed
qed

end

section \<open>Properties of appending\<close>

text \<open>The state that a run ends in.\<close>

lemma AppendEvent_run:
  assumes "AppendEvent (Some reader_read) ev n (s, r) = (res, (s', r'))"
  shows "case res of
      Inl e \<Rightarrow> committed s' = committed s
    | Inr a \<Rightarrow> \<exists>cs. stream r = concat cs @ stream r' \<and> append_outcome ev n cs a (committed s) (committed s')"
  using script.AppendEvent_wp [of ev n r s] assms by (auto simp: wp_def split: sum.splits)

lemma append_outcome_ok:
  assumes "append_outcome ev n cs a d d'" and "db_ok d"
  shows "db_ok d'" and "preserved d d'"
  using assms appended_db_ok [of d ev cs n] appended_preserved [of d ev n _ cs]
  by (auto simp: append_outcome_def split: if_splits)

text \<open>A store whose database is empty, and an event.\<close>

definition fresh_store :: store where
  "fresh_store = \<lparr>committed = empty_database, working = None, faults = [], clock = 1000\<rparr>"

definition sample_event :: event where
  "sample_event = \<lparr>ev_ID = ''e1'', ev_EventType = ''provider_request'', ev_ProjectID = ''p'', ev_SessionID = ''s'',
     ev_ExchangeID = '''', ev_Encoding = ''identity'', ev_ProtocolVersion = 1, ev_Sequence = 0,
     ev_OccurredAt = \<lparr>instant = 5, zone = 0\<rparr>\<rparr>"

lemma fresh_store_fields [simp]:
  "faults fresh_store = []" "working fresh_store = None" "committed fresh_store = empty_database"
  by (simp_all add: fresh_store_def)

definition fresh_after :: "event \<Rightarrow> bytes \<Rightarrow> store" where
  "fresh_after ev data = fresh_store\<lparr>committed :=
     appended_db ev (of_nat (length data)) (RFC3339Nano 1000) (chunks_of data) empty_database, clock := 1001\<rparr>"

lemma fresh_append:
  assumes "data \<noteq> []" and "length data \<le> 1000000"
  obtains r' where "AppendEvent (Some reader_read) ev (of_nat (length data)) (fresh_store, [(data @ rest, None)])
      = (Inr \<lparr>AlreadyPresent = False, ActualSize = of_nat (length data), ResultSHA256 = sha256_hex data\<rparr>, (fresh_after ev data, r'))"
    and "stream r' = rest"
proof (rule whole_script.AppendEvent_calm [of fresh_store ev "of_nat (length data)" "[(data @ rest, None)]"])
  show "references_ok (committed fresh_store)" using db_ok_empty by (simp add: db_ok_def)
  show "ev_ID ev \<notin> set (map er_id (capture_events (committed fresh_store)))" by (simp add: empty_database_def)
  show "of_nat (length data) \<le> maxInt" using assms(2) by (simp add: word_le_nat_alt maxInt_def)
qed (use assms that in \<open>simp_all add: fresh_store_def fresh_after_def\<close>)

text \<open>
  C4: \<open>AppendEvent\<close> is all or nothing, for every behaviour of the connection and every
  failure of the driver.  If it fails, the committed database is unchanged.  If it succeeds,
  it has taken exactly the declared number of bytes from the connection, and either the event
  was new and the database has gained its row, sealed with the size and the SHA-256 of these
  bytes, and its chunks, or the event was there with an intact copy of evidence of the same
  size and hash, and the database is unchanged.
\<close>

theorem append_all_or_nothing:
  assumes "AppendEvent (Some reader_read) ev n (s, r) = (res, (s', r'))"
  shows "case res of
      Inl e \<Rightarrow> committed s' = committed s
    | Inr a \<Rightarrow> \<exists>cs. stream r = concat cs @ stream r' \<and> length (concat cs) = unat n
        \<and> ActualSize a = n \<and> ResultSHA256 a = sha256_hex (concat cs)
        \<and> (if AlreadyPresent a then committed s' = committed s \<and> already_stored ev n (sha256_hex (concat cs)) (committed s)
           else select_event (ev_ID ev) (committed s) = None \<and> (\<exists>now. committed s' = appended_db ev n now cs (committed s)))"
  using AppendEvent_run [OF assms] by (auto simp: append_outcome_def select_event_None split: sum.splits if_splits)

theorem append_all_or_nothing_witness:
  "\<exists>cs. [1, 2, 3] = concat cs @ [3] \<and> length (concat cs) = 2
    \<and> (\<exists>now. committed (fresh_after sample_event [1, 2]) = appended_db sample_event 2 now cs empty_database)"
proof -
  obtain r' where run: "AppendEvent (Some reader_read) sample_event 2 (fresh_store, [([1, 2, 3], None)])
      = (Inr \<lparr>AlreadyPresent = False, ActualSize = 2, ResultSHA256 = sha256_hex [1, 2]\<rparr>, (fresh_after sample_event [1, 2], r'))"
    and "stream r' = [3]"
    by (rule fresh_append [of "[1, 2]" sample_event "[3]"]) simp_all
  with append_all_or_nothing [OF run] show ?thesis by auto
qed

text \<open>
  C5: whatever happens during an append, the integrity invariant of the database is kept
  (unique keys, resolved references, every event sealed with the size and hash of its chunks),
  and every event that was stored before is still there with the same metadata and evidence.
\<close>

theorem append_keeps_integrity:
  assumes "db_ok (committed s)" and "AppendEvent (Some reader_read) ev n (s, r) = (res, (s', r'))"
  shows "db_ok (committed s') \<and> preserved (committed s) (committed s')"
  using AppendEvent_run [OF assms(2)] append_outcome_ok assms(1) by (auto split: sum.splits)

theorem append_keeps_integrity_witness:
  "db_ok (committed (fresh_after sample_event [1, 2]))"
proof -
  obtain r' where "AppendEvent (Some reader_read) sample_event 2 (fresh_store, [([1, 2], None)])
      = (Inr \<lparr>AlreadyPresent = False, ActualSize = 2, ResultSHA256 = sha256_hex [1, 2]\<rparr>, (fresh_after sample_event [1, 2], r'))"
    by (rule fresh_append [of "[1, 2]" sample_event "[]"]) simp_all
  from append_keeps_integrity [OF _ this] show ?thesis by simp
qed

end
