(* ===== verification/Retrieval.thy ===== *)
theory Retrieval
  imports Appending Protocol
begin

text \<open>
  Paginated reads: \<open>ReadEventEvidence\<close> copies exactly the requested slice of the stored
  evidence to the destination, although it only looks at the chunks that intersect it.
\<close>

section \<open>Slices\<close>

text \<open>From \<open>off\<close> on, at most \<open>lim\<close> bytes, where a limit of 0 is none.\<close>

definition slice :: "nat \<Rightarrow> nat \<Rightarrow> bytes \<Rightarrow> bytes" where
  "slice off lim d = (if lim = 0 then drop off d else take lim (drop off d))"

text \<open>The rows \<open>k, k + 1, ...\<close> of the canonical chunking of \<open>data\<close>.\<close>

definition chunk_span :: "bytes \<Rightarrow> nat \<Rightarrow> chunk_row list \<Rightarrow> bool" where
  "chunk_span data k rows =
     (\<forall>j < length rows. cr_chunk_index (rows ! j) = int (k + j) \<and> cr_content (rows ! j) = take 32768 (drop ((k + j) * 32768) data))"

lemma chunk_span_Nil [simp]: "chunk_span data k []"
  by (simp add: chunk_span_def)

lemma chunk_span_Cons [simp]:
  "chunk_span data k (row # rows) \<longleftrightarrow>
     cr_chunk_index row = int k \<and> cr_content row = take 32768 (drop (k * 32768) data) \<and> chunk_span data (Suc k) rows"
  by (auto simp: chunk_span_def All_less_Suc2 ac_simps)

lemma chunk_span_take: "chunk_span data k rows \<Longrightarrow> chunk_span data k (take m rows)"
  by (simp add: chunk_span_def)

lemma chunk_span_drop: "chunk_span data k rows \<Longrightarrow> chunk_span data (k + m) (drop m rows)"
  by (auto simp: chunk_span_def add.assoc)

lemma chunks_of_nth:
  "j < length (chunks_of d) \<Longrightarrow> chunks_of d ! j = take 32768 (drop (j * 32768) d)"
proof (induction d arbitrary: j rule: chunks_of.induct)
  case (1 d)
  show ?case
  proof (cases "d = []")
    case True
    with 1 show ?thesis by simp
  next
    case False
    with 1 show ?thesis by (cases j) (simp_all add: chunks_of_nonempty add.commute)
  qed
qed

lemma length_chunks_of: "length (chunks_of d) * 32768 < length d + 32768 \<and> length d \<le> length (chunks_of d) * 32768"
proof (induction d rule: chunks_of.induct)
  case (1 d)
  show ?case
  proof (cases "d = []")
    case False
    with 1 show ?thesis by (cases "32768 \<le> length d") (auto simp: chunks_of_nonempty)
  qed simp
qed

lemma canonical_span:
  assumes "canonical n rows"
  shows "chunk_span (evidence_of rows) 0 rows" and "length rows = length (chunks_of (evidence_of rows))"
proof -
  have idx: "map cr_chunk_index rows = map int [0..<length rows]" and content: "map cr_content rows = chunks_of (evidence_of rows)"
    using assms by (simp_all add: canonical_def)
  from content show len: "length rows = length (chunks_of (evidence_of rows))" by (metis length_map)
  show "chunk_span (evidence_of rows) 0 rows"
    unfolding chunk_span_def
  proof (intro allI impI conjI)
    fix j assume j: "j < length rows"
    from j arg_cong [OF idx, of "\<lambda>l. l ! j"] show "cr_chunk_index (rows ! j) = int (0 + j)" by simp
    from j arg_cong [OF content, of "\<lambda>l. l ! j"] show "cr_content (rows ! j) = take 32768 (drop ((0 + j) * 32768) (evidence_of rows))"
      using chunks_of_nth [of j "evidence_of rows"] len by simp
  qed
qed

text \<open>Selecting a range of indices from the rows of a span.\<close>

lemma filter_span:
  "chunk_span data k rows \<Longrightarrow>
     filter (\<lambda>c. int a \<le> cr_chunk_index c \<and> cr_chunk_index c \<le> int b) rows = take (Suc b - max a k) (drop (a - k) rows)"
proof (induction rows arbitrary: k)
  case Nil
  show ?case by simp
next
  case (Cons row rows)
  then have idx: "cr_chunk_index row = int k" by simp
  have rest: "filter (\<lambda>c. int a \<le> cr_chunk_index c \<and> cr_chunk_index c \<le> int b) rows
      = take (Suc b - max a (Suc k)) (drop (a - Suc k) rows)"
    using Cons.IH [of "Suc k"] Cons.prems by simp
  consider "k < a" | "a \<le> k" "k \<le> b" | "b < k" "a \<le> k" by linarith
  then show ?case
  proof cases
    case 1
    then have "a - k = Suc (a - Suc k)" "max a k = max a (Suc k)" by auto
    with rest idx 1 show ?thesis by simp
  next
    case 2
    then have "Suc b - max a k = Suc (Suc b - max a (Suc k))" by auto
    with rest idx 2 show ?thesis by simp
  next
    case 3
    with rest idx show ?thesis by simp
  qed
qed

lemma select_range_span:
  assumes "canonical n (select_chunks i d)" and "unat a \<le> unat b" and "unat b < length (select_chunks i d)"
  shows "chunk_span (evidence_of (select_chunks i d)) (unat a) (select_chunk_range i a b d)"
    and "unat a + length (select_chunk_range i a b d) = Suc (unat b)"
proof -
  note span = canonical_span(1) [OF assms(1)]
  have range: "select_chunk_range i a b d = take (Suc (unat b) - unat a) (drop (unat a) (select_chunks i d))"
    using filter_span [OF span, of "unat a" "unat b"] by (simp add: select_chunk_range_def)
  show "chunk_span (evidence_of (select_chunks i d)) (unat a) (select_chunk_range i a b d)"
    unfolding range using chunk_span_take [OF chunk_span_drop [OF span, of "unat a"]] by simp
  show "unat a + length (select_chunk_range i a b d) = Suc (unat b)"
    unfolding range using assms(2,3) by simp
qed

section \<open>The loop over the rows\<close>

text \<open>The word arithmetic of one iteration, for the chunk \<open>k\<close> and the position \<open>pos\<close> in it.\<close>

lemma read_step_arith:
  fixes offset remaining :: u64
  assumes pos: "pos = max (unat offset) (k * 32768)" "pos < Suc k * 32768" and "0 < unat remaining"
    and fits: "pos + unat remaining \<le> m" "m < 18446744073709551616" and len: "len = min 32768 (m - k * 32768)"
    and start: "start = (if of_nat k * ChunkSize < offset then offset - of_nat k * ChunkSize else 0)"
    and avail: "avail = (if remaining < of_nat len - start then remaining else of_nat len - start)"
  shows "unat (of_nat k :: u64) = k" and "unat start = pos - k * 32768"
    and "unat avail = min (unat remaining) (min (Suc k * 32768) m - pos)" and "avail \<le> remaining"
proof -
  have k: "k * 32768 < 18446744073709551616" using assms by linarith
  then show uk: "unat (of_nat k :: u64) = k" by simp
  have prod: "unat (of_nat k * ChunkSize) = k * 32768"
    using k by (simp add: ChunkSize_def unat_word_ariths take_bit_nat_eq_self_iff)
  show s: "unat start = pos - k * 32768"
    unfolding start pos(1) by (simp add: word_less_nat_alt prod unat_sub word_le_nat_alt)
  have len_le: "len \<le> 32768" by (simp add: len)
  then have ul: "unat (of_nat len :: u64) = len" by simp
  have range: "k * 32768 \<le> pos" "pos < k * 32768 + 32768" "pos \<le> m" using pos fits(1) by auto
  then have "unat start \<le> len" unfolding s len by auto
  then have "unat (of_nat len - start) = len - (pos - k * 32768)" by (simp add: unat_sub word_le_nat_alt ul s)
  also have "\<dots> = min (Suc k * 32768) m - pos" unfolding len using range by (cases "m - k * 32768 \<le> 32768") auto
  finally have diff: "unat (of_nat len - start) = min (Suc k * 32768) m - pos" .
  then show "unat avail = min (unat remaining) (min (Suc k * 32768) m - pos)"
    unfolding avail by (simp add: word_less_nat_alt)
  show "avail \<le> remaining" unfolding avail by auto
qed

lemma take_chunk_part:
  assumes "k * 32768 \<le> pos" and "pos + a \<le> Suc k * 32768"
  shows "take a (drop (pos - k * 32768) (take 32768 (drop (k * 32768) data))) = take a (drop pos data)"
  using assms by (simp add: drop_take)

context io_writer
begin

text \<open>
  The loop, for any conditions \<open>I\<close> on the store and \<open>J\<close> on the destination that its calls
  keep: it ends with nothing left, and the destination has received the slice.
\<close>

lemma read_chunks_wp:
  assumes ctx: "\<And>s. I s \<Longrightarrow> wp ctx_check (\<lambda>_. I) (\<lambda>_. E) s" and step: "\<And>s. I s \<Longrightarrow> wp driver_step (\<lambda>_. I) (\<lambda>_. E) s"
    and dest: "\<And>s w p. I s \<Longrightarrow> J w \<Longrightarrow> wp (write_dest wr p) (\<lambda>_ (s', w'). I s' \<and> J w' \<and> sunk w' = sunk w @ p) (\<lambda>_ (s', w'). E s') (s, w)"
    and n: "unat n = length data"
  shows "chunk_span data k rows \<Longrightarrow> I s \<Longrightarrow> J w \<Longrightarrow> pos = max (unat offset) (k * 32768) \<Longrightarrow> pos < Suc k * 32768 \<Longrightarrow>
    0 < unat remaining \<Longrightarrow> pos + unat remaining \<le> length data \<Longrightarrow> pos + unat remaining \<le> (k + length rows) * 32768 \<Longrightarrow>
    wp (read_chunks wr n offset rows (of_nat k) written remaining)
      (\<lambda>(written', left) (s', w'). I s' \<and> J w' \<and> left = 0 \<and> written' = written + remaining
         \<and> sunk w' = sunk w @ take (unat remaining) (drop pos data))
      (\<lambda>_ (s', w'). E s') (s, w)"
proof (induction rows arbitrary: k s w pos written remaining)
  case Nil
  then show ?case by simp
next
  case (Cons row rows)
  define start where "start = (if of_nat k * ChunkSize < offset then offset - of_nat k * ChunkSize else 0)"
  define len where "len = length (cr_content row)"
  define avail where "avail = (if remaining < of_nat len - start then remaining else of_nat len - start)"
  have m: "length data < 18446744073709551616" using n unat_u64_bound [of n] by simp
  have row: "cr_chunk_index row = int k" "cr_content row = take 32768 (drop (k * 32768) data)" and span: "chunk_span data (Suc k) rows"
    using Cons.prems(1) by simp_all
  have len: "len = min 32768 (length data - k * 32768)" by (simp add: len_def row(2) min.commute)
  note arith = read_step_arith [OF Cons.prems(4-7) m len start_def avail_def]
  have valid: "validChunk (cr_content row) (of_nat k) n"
    unfolding validChunk_iff arith(1) n using len Cons.prems(4-7) by (simp add: len_def)
  have part: "take (unat avail) (drop (unat start) (cr_content row)) = take (unat avail) (drop pos data)"
    unfolding arith(2) row(2) using Cons.prems(4,5) arith(3) by (intro take_chunk_part) linarith+
  have left: "unat (remaining - avail) = unat remaining - unat avail" using arith(4) by (simp add: unat_sub)
  have rest: "wp (if remaining - avail = 0 then gret (written + avail, remaining - avail)
        else read_chunks wr n offset rows (of_nat k + 1) (written + avail) (remaining - avail))
      (\<lambda>(written', left) (s', w'). I s' \<and> J w' \<and> left = 0 \<and> written' = written + remaining
         \<and> sunk w' = sunk w @ take (unat remaining) (drop pos data))
      (\<lambda>_ (s', w'). E s') (s2, w2)"
    if "I s2" "J w2" "sunk w2 = sunk w @ take (unat avail) (drop pos data)" for s2 w2
  proof (cases "remaining - avail = 0")
    case True
    then have "remaining = avail" by simp
    with that show ?thesis by (simp add: wp_simps)
  next
    case False
    then have more: "0 < unat (remaining - avail)" by (simp add: unat_gt_0)
    with left have less: "unat avail < unat remaining" by simp
    with arith(3) Cons.prems(7) have a: "unat avail = Suc k * 32768 - pos" by linarith
    have pos': "Suc k * 32768 = max (unat offset) (Suc k * 32768)" "pos + unat avail = Suc k * 32768"
      using Cons.prems(4,5) a by auto
    have join: "take (unat avail) (drop pos data) @ take (unat (remaining - avail)) (drop (Suc k * 32768) data)
        = take (unat remaining) (drop pos data)"
    proof -
      have "take (unat avail + (unat remaining - unat avail)) (drop pos data)
          = take (unat avail) (drop pos data) @ take (unat remaining - unat avail) (drop (pos + unat avail) data)"
        by (simp add: take_add add.commute)
      with less show ?thesis unfolding left pos'(2) by simp
    qed
    have "wp (read_chunks wr n offset rows (of_nat (Suc k)) (written + avail) (remaining - avail))
      (\<lambda>(written', left) (s', w'). I s' \<and> J w' \<and> left = 0 \<and> written' = written + avail + (remaining - avail)
         \<and> sunk w' = sunk w2 @ take (unat (remaining - avail)) (drop (Suc k * 32768) data))
      (\<lambda>_ (s', w'). E s') (s2, w2)"
      using more left pos' a Cons.prems(7,8) less that by (intro Cons.IH [OF span]) simp_all
    with False show ?thesis using join that(3) by (simp add: add.commute)
  qed
  show ?case
    unfolding read_chunks.simps Let_def len_def [symmetric] start_def [symmetric] avail_def [symmetric]
  proof (rule wp_gbind [THEN iffD2], rule wp_lift_store, rule wp_mono [OF ctx [OF Cons.prems(2)]], goal_cases)
    case (1 u s1)
    show ?case
    proof (rule wp_gbind [THEN iffD2], rule wp_lift_store, rule wp_mono [OF step [OF 1]], goal_cases)
      case (1 u2 s2)
      have go: "\<not> (cr_chunk_index row < 0 \<or> of_int (cr_chunk_index row) \<noteq> (of_nat k :: u64) \<or> \<not> validChunk (cr_content row) (of_nat k) n)"
        using row(1) valid by simp
      show ?case
        unfolding if_not_P [OF go] part
      proof (rule wp_gbind [THEN iffD2], rule wp_mono [OF dest [OF 1 Cons.prems(3)]], goal_cases)
        case (1 u3 sw)
        then show ?case using rest [of "fst sw" "snd sw"] by (cases sw) (simp only: prod.case fst_conv snd_conv)
      qed simp
    qed simp
  qed simp
qed

end

section \<open>The whole read\<close>

lemma wp_query_db_step:
  assumes "wp driver_step (\<lambda>_. I) (\<lambda>_. E) s" and "\<And>s'. I s' \<Longrightarrow> committed s' = d"
  shows "wp (query_db f) (\<lambda>x s'. I s' \<and> x = f d) (\<lambda>_. E) s"
  unfolding query_db_def
  by (rule wp_gbind [THEN iffD2], rule wp_mono [OF assms(1)]) (use assms(2) in \<open>auto simp: wp_def\<close>)

lemma EventMetadata_wp:
  assumes ctx: "\<And>s. I s \<Longrightarrow> wp ctx_check (\<lambda>_. I) (\<lambda>_. E) s" and step: "\<And>s. I s \<Longrightarrow> wp driver_step (\<lambda>_. I) (\<lambda>_. E) s"
    and db: "\<And>s. I s \<Longrightarrow> committed s = d" and row: "select_event i d = Some row" and "I s"
  shows "wp (EventMetadata i) (\<lambda>m s'. I s' \<and> m = \<lparr>TotalSize = er_actual_size row, MetadataSHA256 = er_payload_sha256 row\<rparr>) (\<lambda>_. E) s"
  unfolding EventMetadata_def
proof (rule wp_gbind [THEN iffD2], rule wp_mono [OF ctx [OF \<open>I s\<close>]], goal_cases)
  case (1 u s1)
  show ?case
    by (rule wp_gtry_case, rule wp_gbind [THEN iffD2], rule wp_mono [OF wp_query_db_step [OF step [OF 1] db]])
      (auto simp: row wp_simps)
qed

text \<open>The 64-bit arithmetic before the loop.\<close>

lemma read_range_arith:
  fixes offset limit n :: u64
  assumes "offset < n"
    and rem: "remaining = (if limit \<noteq> 0 \<and> limit < n - offset then limit else n - offset)"
    and n: "unat n = length data"
  shows "unat remaining = length (slice (unat offset) (unat limit) data)" and "0 < unat remaining"
    and "unat offset + unat remaining \<le> unat n"
    and "unat (offset div ChunkSize) = unat offset div 32768"
    and "unat ((offset + remaining - 1) div ChunkSize) = (unat offset + unat remaining - 1) div 32768"
    and "\<not> (maxInt < offset div ChunkSize \<or> maxInt < (offset + remaining - 1) div ChunkSize)"
proof -
  have off: "unat offset < unat n" using assms(1) by (simp add: word_less_nat_alt)
  have diff: "unat (n - offset) = unat n - unat offset" using assms(1) by (simp add: unat_sub)
  have nz: "limit \<noteq> 0 \<longleftrightarrow> unat limit \<noteq> 0" by (simp add: unat_eq_zero)
  show len: "unat remaining = length (slice (unat offset) (unat limit) data)"
    unfolding rem nz using diff n by (auto simp: slice_def word_less_nat_alt)
  show pos: "0 < unat remaining" unfolding rem nz using diff off by (auto simp: word_less_nat_alt)
  show sum: "unat offset + unat remaining \<le> unat n"
    unfolding rem nz using diff off by (auto simp: word_less_nat_alt)
  note bound = unat_u64_bound [of n]
  have add: "unat (offset + remaining) = unat offset + unat remaining"
    using sum bound by (simp add: unat_word_ariths)
  then have "offset + remaining \<noteq> 0" using pos by (metis add_is_0 less_irrefl unat_0)
  then have last: "unat (offset + remaining - 1) = unat offset + unat remaining - 1"
    using add by (simp add: unat_minus_one)
  show f: "unat (offset div ChunkSize) = unat offset div 32768" by (simp add: unat_div ChunkSize_def)
  show l: "unat ((offset + remaining - 1) div ChunkSize) = (unat offset + unat remaining - 1) div 32768"
    by (simp add: unat_div ChunkSize_def last)
  have "unat offset div 32768 \<le> unat maxInt" "(unat offset + unat remaining - 1) div 32768 \<le> unat maxInt"
    using sum off bound by (auto simp: maxInt_def)
  then show "\<not> (maxInt < offset div ChunkSize \<or> maxInt < (offset + remaining - 1) div ChunkSize)"
    by (simp add: word_less_nat_alt f l not_less)
qed

context io_writer
begin

lemma ReadEventEvidence_rule:
  assumes ctx: "\<And>s. I s \<Longrightarrow> wp ctx_check (\<lambda>_. I) (\<lambda>_. E) s" and step: "\<And>s. I s \<Longrightarrow> wp driver_step (\<lambda>_. I) (\<lambda>_. E) s"
    and dest: "\<And>s w p. I s \<Longrightarrow> J w \<Longrightarrow> wp (write_dest wr p) (\<lambda>_ (s', w'). I s' \<and> J w' \<and> sunk w' = sunk w @ p) (\<lambda>_ (s', w'). E s') (s, w)"
    and db: "\<And>s. I s \<Longrightarrow> committed s = d" and row: "select_event i d = Some row"
    and canon: "canonical (er_actual_size row) (select_chunks i d)" and "I s" and "J w"
  shows "wp (ReadEventEvidence i offset limit (Some wr))
    (\<lambda>res (s', w'). I s' \<and> J w' \<and> sunk w' = sunk w @ slice (unat offset) (unat limit) (evidence_of (select_chunks i d))
       \<and> res = \<lparr>ReadTotalSize = er_actual_size row,
                BytesWritten = of_nat (length (slice (unat offset) (unat limit) (evidence_of (select_chunks i d)))),
                ReadSHA256 = er_payload_sha256 row\<rparr>)
    (\<lambda>_ (s', w'). E s') (s, w)"
proof -
  define data where "data = evidence_of (select_chunks i d)"
  define n where "n = er_actual_size row"
  have n: "unat n = length data" using canon by (simp add: canonical_def n_def data_def)
  define remaining where "remaining = (if limit \<noteq> 0 \<and> limit < n - offset then limit else n - offset)"
  have small: "slice (unat offset) (unat limit) data = []" if "n \<le> offset"
    using that n by (simp add: slice_def word_le_nat_alt)
  have loop: "wp (read_chunks wr n offset (select_chunk_range i (offset div ChunkSize) ((offset + remaining - 1) div ChunkSize) d)
        (offset div ChunkSize) 0 remaining)
      (\<lambda>(written', left) (s', w'). I s' \<and> J w' \<and> left = 0 \<and> written' = 0 + remaining
         \<and> sunk w' = sunk w @ take (unat remaining) (drop (unat offset) data))
      (\<lambda>_ (s', w'). E s') (s1, w)" if "I s1" and lt: "offset < n" for s1
  proof -
    note arith = read_range_arith [OF lt remaining_def n]
    have "(unat offset + unat remaining - 1) div 32768 < length (chunks_of data)"
      using length_chunks_of [of data] arith(2,3) n by (simp add: div_less_iff_less_mult, linarith)
    also have "\<dots> = length (select_chunks i d)" using canonical_span(2) [OF canon] by (simp add: data_def)
    finally have in_range: "unat ((offset + remaining - 1) div ChunkSize) < length (select_chunks i d)" by (simp only: arith(5))
    have order: "unat (offset div ChunkSize) \<le> unat ((offset + remaining - 1) div ChunkSize)"
      unfolding arith(4,5) using arith(2) by (intro div_le_mono) simp
    note range = select_range_span [OF canon order in_range, folded data_def]
    have "wp (read_chunks wr n offset (select_chunk_range i (offset div ChunkSize) ((offset + remaining - 1) div ChunkSize) d)
        (of_nat (unat (offset div ChunkSize))) 0 remaining)
      (\<lambda>(written', left) (s', w'). I s' \<and> J w' \<and> left = 0 \<and> written' = 0 + remaining
         \<and> sunk w' = sunk w @ take (unat remaining) (drop (unat offset) data))
      (\<lambda>_ (s', w'). E s') (s1, w)"
    proof (rule read_chunks_wp [OF ctx step dest n range(1)])
      show "unat offset = max (unat offset) (unat (offset div ChunkSize) * 32768)"
        unfolding arith(4) by (metis div_times_less_eq_dividend max.absorb1)
      show "unat offset < Suc (unat (offset div ChunkSize)) * 32768"
        unfolding arith(4) by (simp add: dividend_less_div_times)
      show "unat offset + unat remaining \<le> (unat (offset div ChunkSize) + length (select_chunk_range i (offset div ChunkSize) ((offset + remaining - 1) div ChunkSize) d)) * 32768"
        unfolding range(2) arith(5) using arith(2) by (simp add: dividend_less_div_times) 
    qed (use that arith(2,3) n \<open>J w\<close> in simp_all)
    then show ?thesis by simp
  qed
  show ?thesis
    unfolding ReadEventEvidence_def option.case data_def [symmetric]
  proof (rule wp_gbind [THEN iffD2], rule wp_lift_store, rule wp_mono [OF ctx [OF \<open>I s\<close>]], goal_cases)
    case (1 u s1)
    show ?case
    proof (rule wp_gbind [THEN iffD2], rule wp_lift_store, rule wp_mono [OF EventMetadata_wp [OF ctx step db row 1]], goal_cases)
      case (4 m s2)
      then have I2: "I s2" and m: "TotalSize m = n" "MetadataSHA256 m = er_payload_sha256 row" by (simp_all add: n_def)
      show ?case
      proof (cases "n \<le> offset")
        case True
        with I2 \<open>J w\<close> small m show ?thesis by (simp add: wp_simps n_def)
      next
        case False
        then have lt: "offset < n" by simp
        note arith = read_range_arith [OF lt remaining_def n]
        have total: "take (unat remaining) (drop (unat offset) data) = slice (unat offset) (unat limit) data"
          using arith(1) by (auto simp: slice_def min_def)
        show ?thesis
          unfolding Let_def m if_not_P [OF False] remaining_def [symmetric] if_not_P [OF arith(6)]
        proof (rule wp_gbind [THEN iffD2], rule wp_lift_store, rule wp_mono [OF wp_query_db_step [OF step [OF I2] db]], goal_cases)
          case (2 rows s3)
          then have I3: "I s3" and rows: "rows = select_chunk_range i (offset div ChunkSize) ((offset + remaining - 1) div ChunkSize) d"
            by simp_all
          show ?case unfolding rows
          proof (rule wp_gbind [THEN iffD2], rule wp_mono [OF loop [OF I3 lt]], goal_cases)
            case (1 wl sw)
            obtain s4 w4 where sw: "sw = (s4, w4)" by (cases sw)
            obtain wt lf where wl: "wl = (wt, lf)" by (cases wl)
            from 1 have I4: "I s4" and res: "J w4" "lf = 0" "wt = remaining" "sunk w4 = sunk w @ slice (unat offset) (unat limit) data"
              by (simp_all add: sw wl total)
            have "of_nat (length (slice (unat offset) (unat limit) data)) = remaining"
              using arith(1) by (metis of_nat_unat ucast_id)
            with res show ?case
              unfolding sw wl prod.case
              by (intro wp_gbind [THEN iffD2] wp_lift_store wp_mono [OF step [OF I4]]) (simp_all add: wp_simps n_def)
          qed simp
        qed simp_all
      qed
    qed simp_all
  qed simp
qed

end

text \<open>For any faults and any destination: what a successful read has delivered.\<close>

context io_writer
begin

lemma write_dest_wp: "wp (write_dest wr p) (\<lambda>_ (s', w'). s' = s \<and> sunk w' = sunk w @ p) (\<lambda>_ (s', w'). s' = s) (s, w)"
  using writeAll_done [of p w] by (auto simp: wp_def write_dest_def split: prod.splits option.splits)

lemma ReadEventEvidence_wp:
  assumes "select_event i (committed s) = Some row" and "canonical (er_actual_size row) (select_chunks i (committed s))"
  shows "wp (ReadEventEvidence i offset limit (Some wr))
    (\<lambda>res (s', w'). same_db s s' \<and> sunk w' = sunk w @ slice (unat offset) (unat limit) (evidence_of (select_chunks i (committed s)))
       \<and> res = \<lparr>ReadTotalSize = er_actual_size row,
                BytesWritten = of_nat (length (slice (unat offset) (unat limit) (evidence_of (select_chunks i (committed s))))),
                ReadSHA256 = er_payload_sha256 row\<rparr>)
    (\<lambda>_ (s', w'). same_db s s') (s, w)"
proof (rule wp_mono [OF ReadEventEvidence_rule [where I = "same_db s" and E = "same_db s" and J = "\<lambda>_. True" and d = "committed s"]], goal_cases)
  case (3 t v p)
  show ?case by (rule wp_mono [OF write_dest_wp]) (use 3 in auto)
qed (use assms in \<open>auto intro!: wp_ctx_check wp_driver_step elim: same_db_trans dest: same_db_fields\<close>)

end

text \<open>Without faults and with a reliable destination the read succeeds.\<close>

context reliable_writer
begin

lemma ReadEventEvidence_calm:
  assumes "faults s = []" and "fit w"
    and "select_event i (committed s) = Some row" and "canonical (er_actual_size row) (select_chunks i (committed s))"
  obtains w' where "ReadEventEvidence i offset limit (Some wr) (s, w)
      = (Inr \<lparr>ReadTotalSize = er_actual_size row,
              BytesWritten = of_nat (length (slice (unat offset) (unat limit) (evidence_of (select_chunks i (committed s))))),
              ReadSHA256 = er_payload_sha256 row\<rparr>, (s, w'))"
    and "sunk w' = sunk w @ slice (unat offset) (unat limit) (evidence_of (select_chunks i (committed s)))" and "fit w'"
proof -
  have dest: "wp (write_dest wr p) (\<lambda>_ (s', w'). s' = s \<and> fit w' \<and> sunk w' = sunk v @ p) (\<lambda>_ (s', w'). False) (s, v)" if "fit v" for v p
    by (rule writeAll_fit [OF that, of p]) (simp add: wp_def write_dest_def)
  have "wp (ReadEventEvidence i offset limit (Some wr))
    (\<lambda>res (s', w'). s' = s \<and> fit w' \<and> sunk w' = sunk w @ slice (unat offset) (unat limit) (evidence_of (select_chunks i (committed s)))
       \<and> res = \<lparr>ReadTotalSize = er_actual_size row,
                BytesWritten = of_nat (length (slice (unat offset) (unat limit) (evidence_of (select_chunks i (committed s))))),
                ReadSHA256 = er_payload_sha256 row\<rparr>)
    (\<lambda>_ (s', w'). False) (s, w)"
  proof (rule ReadEventEvidence_rule [where I = "\<lambda>s'. s' = s" and E = "\<lambda>_. False" and J = fit and d = "committed s"], goal_cases)
    case (3 t v p)
    with dest [of v p] show ?case by simp
  qed (use assms in \<open>auto simp: calm_simps intro!: wp_run\<close>)
  then show ?thesis by (auto elim!: wp_never split: prod.splits intro: that)
qed

end

section \<open>Properties of retrieval\<close>

lemma canonical_chunk_rows: "length data = unat n \<Longrightarrow> canonical n (chunk_rows i (chunks_of data))"
  by (simp add: canonical_def evidence_of_def)

lemma evidence_of_chunk_rows [simp]: "evidence_of (chunk_rows i cs) = concat cs"
  by (simp add: evidence_of_def)

lemma fresh_after_facts:
  "faults (fresh_after ev data) = []" "working (fresh_after ev data) = None"
  "select_chunks (ev_ID ev) (committed (fresh_after ev data)) = chunk_rows (ev_ID ev) (chunks_of data)"
  "select_event (ev_ID ev) (committed (fresh_after ev data))
     = Some (sealed_row ev (occurred_text ev (RFC3339Nano 1000)) (RFC3339Nano 1000) (of_nat (length data)) data)"
proof -
  have refs: "references_ok empty_database" using db_ok_empty by (simp add: db_ok_def)
  have new: "ev_ID ev \<notin> set (map er_id (capture_events empty_database))" by (simp add: empty_database_def)
  show "select_chunks (ev_ID ev) (committed (fresh_after ev data)) = chunk_rows (ev_ID ev) (chunks_of data)"
    by (simp add: fresh_after_def appended_select_chunks(1) [OF refs new])
  show "select_event (ev_ID ev) (committed (fresh_after ev data))
     = Some (sealed_row ev (occurred_text ev (RFC3339Nano 1000)) (RFC3339Nano 1000) (of_nat (length data)) data)"
    by (simp add: fresh_after_def appended_select_event(1) [OF new])
qed (simp_all add: fresh_after_def)

text \<open>
  C6: a successful \<open>ReadEventEvidence\<close> of an event whose chunks are canonical, under any
  driver faults and with any destination that honours \<open>io.Writer\<close>, has written exactly the
  requested slice (from the offset, at most the limit, a limit of 0 meaning none), reports
  the total size, the number of bytes written and the stored hash, and never changes the
  database.
\<close>

theorem read_exact_slice:
  assumes "select_event i (committed s) = Some row" and "canonical (er_actual_size row) (select_chunks i (committed s))"
    and "ReadEventEvidence i offset limit (Some writer_write) (s, w) = (res, (s', w'))"
  shows "committed s' = committed s \<and> (\<forall>a. res = Inr a \<longrightarrow>
    (let part = slice (unat offset) (unat limit) (evidence_of (select_chunks i (committed s))) in
       sink w' = sink w @ part \<and> ReadTotalSize a = er_actual_size row \<and> BytesWritten a = of_nat (length part)
       \<and> ReadSHA256 a = er_payload_sha256 row))"
  using script_writer.ReadEventEvidence_wp [OF assms(1,2), of offset limit w] assms(3)
  by (auto simp: wp_def same_db_fields split: sum.splits)

theorem read_exact_slice_witness:
  "\<exists>w'. ReadEventEvidence ''e1'' 1 1 (Some writer_write) (fresh_after sample_event [7, 8, 9], open_sink)
      = (Inr \<lparr>ReadTotalSize = 3, BytesWritten = 1, ReadSHA256 = sha256_hex [7, 8, 9]\<rparr>, (fresh_after sample_event [7, 8, 9], w'))
    \<and> sink w' = [8]"
proof -
  have id: "ev_ID sample_event = ''e1''" by (simp add: sample_event_def)
  note facts = fresh_after_facts [of sample_event "[7, 8, 9]", unfolded id]
  have canon: "canonical 3 (select_chunks ''e1'' (committed (fresh_after sample_event [7, 8, 9])))"
    unfolding facts(3) by (rule canonical_chunk_rows) simp
  obtain w' where run: "ReadEventEvidence ''e1'' 1 1 (Some writer_write) (fresh_after sample_event [7, 8, 9], open_sink)
      = (Inr \<lparr>ReadTotalSize = 3, BytesWritten = 1, ReadSHA256 = sha256_hex [7, 8, 9]\<rparr>, (fresh_after sample_event [7, 8, 9], w'))"
    by (rule open_writer.ReadEventEvidence_calm [OF facts(1) _ facts(4), of open_sink 1 1])
      (use canon in \<open>simp_all add: facts(3) slice_def\<close>)
  from read_exact_slice [OF facts(4) _ run] canon run show ?thesis by (simp add: facts(3) slice_def)
qed

text \<open>
  C7: evidence that reaches \<open>AppendEvent\<close> under a new ID through a reader that fills its
  buffers is read back unchanged: nothing failing, the append reports its size and hash,
  leaves the following bytes unread, keeps the integrity invariant, and every later
  \<open>ReadEventEvidence\<close> delivers exactly the requested slice of it.
\<close>

theorem append_read_roundtrip:
  assumes "faults s = []" and "working s = None" and "db_ok (committed s)"
    and "select_event (ev_ID ev) (committed s) = None" and "n \<le> maxInt" and "whole r" and "unat n \<le> length (stream r)"
    and "plan w = []"
  defines "data \<equiv> take (unat n) (stream r)"
  shows "\<exists>s1 r1 w1. AppendEvent (Some reader_read) ev n (s, r)
        = (Inr \<lparr>AlreadyPresent = False, ActualSize = n, ResultSHA256 = sha256_hex data\<rparr>, (s1, r1))
    \<and> stream r1 = drop (unat n) (stream r) \<and> db_ok (committed s1)
    \<and> ReadEventEvidence (ev_ID ev) offset limit (Some writer_write) (s1, w)
        = (Inr \<lparr>ReadTotalSize = n, BytesWritten = of_nat (length (slice (unat offset) (unat limit) data)), ReadSHA256 = sha256_hex data\<rparr>,
           (s1, w1))
    \<and> sink w1 = sink w @ slice (unat offset) (unat limit) data"
proof -
  have refs: "references_ok (committed s)" using assms(3) by (simp add: db_ok_def)
  have new: "ev_ID ev \<notin> set (map er_id (capture_events (committed s)))" using assms(4) by (simp add: select_event_None)
  have len: "length data = unat n" using assms(7) by (simp add: data_def)
  define d1 where "d1 = appended_db ev n (RFC3339Nano (clock s)) (chunks_of data) (committed s)"
  define s1 where "s1 = s\<lparr>committed := d1, clock := clock s + 1\<rparr>"
  obtain r1 where run: "AppendEvent (Some reader_read) ev n (s, r)
        = (Inr \<lparr>AlreadyPresent = False, ActualSize = n, ResultSHA256 = sha256_hex data\<rparr>, (s1, r1))"
    and r1: "stream r1 = drop (unat n) (stream r)"
    using whole_script.AppendEvent_calm [OF assms(1,2) refs new assms(5-7)] unfolding s1_def d1_def data_def by metis
  have ok: "db_ok d1" unfolding d1_def using assms(3) new len by (intro appended_db_ok) (simp_all add: Nil_notin_chunks_of)
  note rows = appended_select_chunks(1) [OF refs new, of n "RFC3339Nano (clock s)" "chunks_of data", folded d1_def]
  note row = appended_select_event(1) [OF new, of n "RFC3339Nano (clock s)" "chunks_of data", folded d1_def]
  have "\<exists>w1. ReadEventEvidence (ev_ID ev) offset limit (Some writer_write) (s1, w)
      = (Inr \<lparr>ReadTotalSize = n, BytesWritten = of_nat (length (slice (unat offset) (unat limit) data)), ReadSHA256 = sha256_hex data\<rparr>, (s1, w1))
      \<and> sink w1 = sink w @ slice (unat offset) (unat limit) data"
    by (rule open_writer.ReadEventEvidence_calm [of s1 w "ev_ID ev" _ offset limit])
      (use assms(1,8) rows row len canonical_chunk_rows in \<open>auto simp: s1_def\<close>)
  with run r1 ok show ?thesis by (auto simp: s1_def)
qed

theorem append_read_roundtrip_witness:
  "\<exists>s1 r1 w1. AppendEvent (Some reader_read) sample_event 2 (fresh_store, [([4, 5, 6], None)])
        = (Inr \<lparr>AlreadyPresent = False, ActualSize = 2, ResultSHA256 = sha256_hex [4, 5]\<rparr>, (s1, r1))
    \<and> stream r1 = [6] \<and> db_ok (committed s1)
    \<and> ReadEventEvidence ''e1'' 1 0 (Some writer_write) (s1, open_sink)
        = (Inr \<lparr>ReadTotalSize = 2, BytesWritten = 1, ReadSHA256 = sha256_hex [4, 5]\<rparr>, (s1, w1)) \<and> sink w1 = [5]"
proof -
  have id: "ev_ID sample_event = ''e1''" by (simp add: sample_event_def)
  have "select_event (ev_ID sample_event) (committed fresh_store) = None"
    by (simp add: select_event_def empty_database_def)
  from append_read_roundtrip [of fresh_store sample_event 2 "[([4, 5, 6], None)]" open_sink 1 0, OF _ _ _ this]
  show ?thesis by (simp add: maxInt_def slice_def id)
qed

text \<open>
  C8: appending under an ID that is already stored never changes the database.  When the
  declared size and the hash of the new evidence are those of the stored event, whose chunks
  are canonical and match its hash, the append succeeds and says that the event was present;
  otherwise it is refused with \<open>ErrEventConflict\<close>.  In both cases the declared bytes have
  been taken from the connection.
\<close>

theorem append_again:
  assumes "faults s = []" and "working s = None" and "select_event (ev_ID ev) (committed s) = Some row"
    and "n \<le> maxInt" and "whole r" and "unat n \<le> length (stream r)"
  shows "\<exists>r'. AppendEvent (Some reader_read) ev n (s, r)
      = (if already_stored ev n (sha256_hex (take (unat n) (stream r))) (committed s)
         then Inr \<lparr>AlreadyPresent = True, ActualSize = n, ResultSHA256 = sha256_hex (take (unat n) (stream r))\<rparr>
         else Inl ErrEventConflict, (s, r'))
    \<and> stream r' = drop (unat n) (stream r)"
  using whole_script.AppendEvent_again_calm [OF assms] by metis

theorem append_again_witness:
  "(\<exists>r'. AppendEvent (Some reader_read) sample_event 2 (fresh_after sample_event [4, 5], [([4, 5, 6], None)])
      = (Inr \<lparr>AlreadyPresent = True, ActualSize = 2, ResultSHA256 = sha256_hex [4, 5]\<rparr>, (fresh_after sample_event [4, 5], r'))
      \<and> stream r' = [6])
   \<and> (\<exists>r'. AppendEvent (Some reader_read) sample_event 1 (fresh_after sample_event [4, 5], [([4, 5, 6], None)])
      = (Inl ErrEventConflict, (fresh_after sample_event [4, 5], r')) \<and> stream r' = [5, 6])"
proof -
  note facts = fresh_after_facts [of sample_event "[4, 5]"]
  have stored: "already_stored sample_event 2 (sha256_hex [4, 5]) (committed (fresh_after sample_event [4, 5]))"
    "\<not> already_stored sample_event 1 h (committed (fresh_after sample_event [4, 5]))" for h
    using canonical_chunk_rows [of "[4, 5]" 2] by (simp_all add: already_stored_def facts)
  from append_again [OF facts(1,2,4), of 2 "[([4, 5, 6], None)]"] append_again [OF facts(1,2,4), of 1 "[([4, 5, 6], None)]"]
  show ?thesis using stored by (simp add: maxInt_def)
qed

section \<open>Short reads\<close>

text \<open>
  \<open>consumeEvidence\<close> stores one chunk per \<open>Read\<close>, and \<open>io.Reader\<close> allows a read to return
  less than the buffer.  The lemma runs an append whose evidence arrives in two reads.
\<close>

lemma consume_two_reads:
  assumes calm: "faults s = []" and chunks: "\<forall>c \<in> set (capture_event_chunks d). cr_event_id c \<noteq> ev_ID ev"
    and known: "ev_ID ev \<in> set (map er_id (capture_events d))" and ne: "a \<noteq> []" "b \<noteq> []" and small: "length a + length b \<le> 32768"
  shows "consumeEvidence reader_read (insert_evidence_chunk ev) (of_nat (length a + length b)) (s\<lparr>working := Some d\<rparr>, reader_of [a, b])
      = (Inr (of_nat (length a + length b), sha256_hex (concat [a, b])), (s\<lparr>working := Some (add_chunks ev [a, b] d)\<rparr>, []))"
proof -
  define n m :: u64 where "n = of_nat (length a + length b)" and "m = of_nat (length b)"
  have un: "unat n = length a + length b" "unat m = length b"
    using small unat_of_nat_len64 [of "length a + length b"] by (simp_all add: n_def m_def)
  have nz: "n \<noteq> 0" "m \<noteq> 0" using un ne by (auto simp flip: unat_gt_0)
  have buf: "unat (minUint64 ChunkSize n) = length a + length b" "unat (minUint64 ChunkSize m) = length b"
    unfolding unat_minUint64_chunk un using small by simp_all
  have dec: "n - of_nat (length a) = m" "m - of_nat (length b) = 0" by (simp_all add: n_def m_def)
  have chunk: "insert_evidence_chunk ev (int (length cs)) c (s\<lparr>working := Some (add_chunks ev cs d)\<rparr>)
    = (Inr (), s\<lparr>working := Some (add_chunks ev (cs @ [c]) d)\<rparr>)" for cs c
    using calm chunks known by (rule insert_evidence_chunk_calm)
  have first: "insert_evidence_chunk ev 0 a (s\<lparr>working := Some d\<rparr>) = (Inr (), s\<lparr>working := Some (add_chunks ev [a] d)\<rparr>)"
    using chunk [of "[]" a] by simp
  have second: "insert_evidence_chunk ev 1 b (s\<lparr>working := Some (add_chunks ev [a] d)\<rparr>) = (Inr (), s\<lparr>working := Some (add_chunks ev [a, b] d)\<rparr>)"
    using chunk [of "[a]" b] by simp
  have "consumeEvidence_loop reader_read (insert_evidence_chunk ev) m 1 a (s\<lparr>working := Some (add_chunks ev [a] d)\<rparr>, reader_of [b])
      = (Inr (a @ b), (s\<lparr>working := Some (add_chunks ev [a, b] d)\<rparr>, []))"
    using nz(2) buf(2) ne(2) second calm
    by (simp add: dec(2) consumeEvidence_loop.simps [of reader_read _ m] calm_simps Let_def)
  moreover have "consumeEvidence_loop reader_read (insert_evidence_chunk ev) n 0 [] (s\<lparr>working := Some d\<rparr>, reader_of [a, b])
      = consumeEvidence_loop reader_read (insert_evidence_chunk ev) m 1 a (s\<lparr>working := Some (add_chunks ev [a] d)\<rparr>, reader_of [b])"
    using nz(1) buf(1) ne(1) first calm dec(1)
    by (simp add: consumeEvidence_loop.simps [of reader_read _ n] calm_simps Let_def)
  ultimately show ?thesis unfolding n_def [symmetric] by (simp add: consumeEvidence_def run_simps)
qed

lemma short_rows_not_canonical:
  assumes "a \<noteq> []" "b \<noteq> []" and "length a + length b \<le> 32768"
  shows "\<not> canonical (of_nat (length a + length b)) (chunk_rows i [a, b])"
  using assms by (auto simp: canonical_valid)

lemma read_short_conflict:
  assumes "faults s = []" and row: "select_event i (committed s) = Some row" "er_actual_size row = of_nat (length a + length b)"
    and rows: "select_chunks i (committed s) = chunk_rows i [a, b]"
    and ne: "a \<noteq> []" "b \<noteq> []" and small: "length a + length b \<le> 32768"
  shows "ReadEventEvidence i 0 0 (Some wr) (s, w) = (Inl ErrEventConflict, (s, w))"
proof -
  let ?n = "of_nat (length a + length b) :: u64"
  have un: "unat ?n = length a + length b" using small unat_of_nat_len64 [of "length a + length b"] by simp
  have nz: "\<not> ?n \<le> 0" using un ne by (simp flip: unat_gt_0 add: word_le_nat_alt)
  have last: "(0 + ?n - 1) div ChunkSize = 0"
  proof -
    have "unat (?n - 1) < 32768" using un small nz by (simp add: unat_minus_one)
    then show ?thesis by (simp add: word_unat_eq_iff unat_div ChunkSize_def)
  qed
  have sel: "select_chunk_range i 0 0 (committed s) = [\<lparr>cr_event_id = i, cr_chunk_index = 0, cr_content = a\<rparr>]"
    by (simp add: select_chunk_range_def rows chunk_rows_def)
  have "\<not> validChunk a 0 ?n" unfolding validChunk_iff un using ne small by simp
  then show ?thesis
    unfolding ReadEventEvidence_def
    using assms(1) row nz sel last
    by (simp add: run_simps calm_simps EventMetadata_def Let_def ChunkSize_def maxInt_def)
qed



end
