(* ===== verification/Attempts.thy ===== *)
theory Attempts
  imports Retrieval
begin

text \<open>
  \<open>internal/storage/attempts.go\<close>: the capture attempts.  An attempt is recorded as pending
  before its evidence is framed, and ends as completed, once the stored event agrees with it
  and its evidence is intact, or as incomplete with the stage that failed.
  \<open>RecoverPendingCaptures\<close> does this for all pending attempts when the daemon starts.
\<close>

section \<open>Constants and data\<close>

abbreviation CaptureAttemptPending :: string where "CaptureAttemptPending \<equiv> ''pending''"
abbreviation CaptureAttemptCompleted :: string where "CaptureAttemptCompleted \<equiv> ''completed''"
abbreviation CaptureAttemptIncomplete :: string where "CaptureAttemptIncomplete \<equiv> ''capture_incomplete''"
abbreviation CaptureFailureHeader :: string where "CaptureFailureHeader \<equiv> ''header''"
abbreviation CaptureFailureAppend :: string where "CaptureFailureAppend \<equiv> ''append''"

record attempt =
  at_AttemptID :: string
  at_EventID :: string
  at_EventType :: string
  at_ProjectID :: string
  at_SessionID :: string
  at_ExchangeID :: string
  at_Encoding :: string
  at_ProtocolVersion :: int
  at_Sequence :: int
  at_OccurredAt :: go_time
  at_DeclaredSize :: u64
  at_Status :: string
  at_StartedAt :: go_time
  at_CompletedAt :: go_time
  at_FailureStage :: string

record recovery_result =
  Completed :: nat
  Incomplete :: nat

section \<open>Helpers\<close>

definition canonicalOccurredAt :: "go_time \<Rightarrow> go_time \<times> bool" where
  "canonicalOccurredAt v = (if IsZero v then (zero_time, False) else (UTC v, True))"

definition validAttempt :: "attempt \<Rightarrow> bool" where
  "validAttempt a \<longleftrightarrow> at_AttemptID a \<noteq> '''' \<and> at_EventID a \<noteq> '''' \<and> at_EventType a \<noteq> '''' \<and> 0 < at_ProtocolVersion a
     \<and> at_ProjectID a \<noteq> '''' \<and> at_SessionID a \<noteq> '''' \<and> 0 \<le> at_Sequence a \<and> \<not> IsZero (at_OccurredAt a) \<and> at_Encoding a \<noteq> ''''"

definition sameAttempt :: "attempt \<Rightarrow> attempt \<Rightarrow> bool" where
  "sameAttempt a b \<longleftrightarrow> at_AttemptID a = at_AttemptID b \<and> at_EventID a = at_EventID b \<and> at_EventType a = at_EventType b
     \<and> at_ProtocolVersion a = at_ProtocolVersion b \<and> at_ProjectID a = at_ProjectID b \<and> at_SessionID a = at_SessionID b
     \<and> at_ExchangeID a = at_ExchangeID b \<and> at_Sequence a = at_Sequence b \<and> time_equal (at_OccurredAt a) (at_OccurredAt b)
     \<and> at_Encoding a = at_Encoding b \<and> at_DeclaredSize a = at_DeclaredSize b"

definition validFailureStage :: "string \<Rightarrow> bool" where
  "validFailureStage stage = (stage = CaptureFailureHeader \<or> stage = CaptureFailureAppend)"

definition validSHA256 :: "string \<Rightarrow> bool" where
  "validSHA256 v = (if length v \<noteq> 64 then False else hex_decode v \<noteq> None)"

text \<open>The loop of \<open>contains\<close>, from position \<open>i\<close> on.\<close>

function contains_from :: "string \<Rightarrow> string \<Rightarrow> nat \<Rightarrow> bool" where
  "contains_from v part i =
     (if i + length part \<le> length v
      then (if take (length part) (drop i v) = part then True else contains_from v part (i + 1))
      else False)"
  by pat_completeness auto
termination
  by (relation "measure (\<lambda>(v, part, i). Suc (length v) - i)") auto

declare contains_from.simps [simp del]

definition contains :: "string \<Rightarrow> string \<Rightarrow> bool" where
  "contains v part = contains_from v part 0"

text \<open>\<open>Error()\<close>: the text of an error.\<close>

fun error_text :: "go_error \<Rightarrow> string" where
  "error_text EOF = ''EOF''"
| "error_text ErrUnexpectedEOF = ''unexpected EOF''"
| "error_text ErrNoProgress = ''multiple Read calls return no data or error''"
| "error_text ErrShortWrite = ''short write''"
| "error_text ErrNetClosed = ''use of closed network connection''"
| "error_text CtxCanceled = ''context canceled''"
| "error_text ErrNoRows = ''sql: no rows in result set''"
| "error_text ErrControlFrameTooLarge = ''protocol control frame length exceeds safety bound''"
| "error_text ErrEventNotFound = ''storage event not found''"
| "error_text ErrEventConflict = ''storage event ID conflicts with existing immutable evidence''"
| "error_text ErrAlreadyRunning = ''pi-token-smith daemon is already running''"
| "error_text ErrServerSingleUse = ''daemon server is single-use''"
| "error_text ErrClosed = ''daemon client is closed''"
| "error_text ErrInvalidArguments = ''invalid arguments''"
| "error_text (RPCError code msg) = code @ '': '' @ msg"
| "error_text (DriverErr msg) = msg"
| "error_text (SysErr msg) = msg"
| "error_text (ErrNew msg) = msg"
| "error_text (GoPanic msg) = msg"
| "error_text (Wrap msg e) = msg @ '': '' @ error_text e"

definition isConstraint :: "go_error \<Rightarrow> bool" where
  "isConstraint e = (contains (error_text e) ''UNIQUE constraint failed'' \<or> contains (error_text e) ''PRIMARY KEY'')"

section \<open>Scanning rows\<close>

definition parse_error :: go_error where
  "parse_error = ErrNew ''parsing time: cannot parse as RFC 3339''"

definition parse_or_wrap :: "string \<Rightarrow> time_text \<Rightarrow> go_error + go_time" where
  "parse_or_wrap msg t = (case parse_time t of None \<Rightarrow> Inl (Wrap msg parse_error) | Some v \<Rightarrow> Inr v)"

text \<open>\<open>scanAttempt\<close> on a row that has been found.\<close>

definition scanAttempt :: "attempt_row \<Rightarrow> go_error + attempt" where
  "scanAttempt row =
     (case parse_or_wrap ''parse attempt occurrence time'' (ar_occurred_at row) of
        Inl e \<Rightarrow> Inl e
      | Inr occurred \<Rightarrow>
     (case parse_or_wrap ''parse attempt start time'' (ar_started_at row) of
        Inl e \<Rightarrow> Inl e
      | Inr started \<Rightarrow>
     (case (case ar_completed_at row of None \<Rightarrow> Inr zero_time | Some t \<Rightarrow> parse_or_wrap ''parse attempt completion time'' t) of
        Inl e \<Rightarrow> Inl e
      | Inr finished \<Rightarrow>
          Inr \<lparr>at_AttemptID = ar_attempt_id row, at_EventID = ar_event_id row, at_EventType = ar_event_type row,
               at_ProjectID = ar_project_id row, at_SessionID = ar_session_id row, at_ExchangeID = coalesce (ar_exchange_id row),
               at_Encoding = ar_payload_encoding row, at_ProtocolVersion = ar_protocol_version row, at_Sequence = ar_sequence row,
               at_OccurredAt = UTC occurred, at_DeclaredSize = ar_declared_size row, at_Status = ar_status row,
               at_StartedAt = started, at_CompletedAt = finished, at_FailureStage = coalesce (ar_failure_stage row)\<rparr>)))"

definition of_sum :: "go_error + 'a \<Rightarrow> ('s, 'a) prog" where
  "of_sum r = (case r of Inl e \<Rightarrow> gthrow e | Inr x \<Rightarrow> gret x)"

definition scan_row :: "attempt_row option \<Rightarrow> attempt storep" where
  "scan_row r = (case r of None \<Rightarrow> gthrow ErrEventNotFound | Some row \<Rightarrow> of_sum (scanAttempt row))"

definition captureAttemptTx :: "string \<Rightarrow> attempt storep" where
  "captureAttemptTx attemptID = gbind (query_tx (select_attempt attemptID)) scan_row"

definition CaptureAttempt :: "string \<Rightarrow> attempt storep" where
  "CaptureAttempt attemptID = gbind ctx_check (\<lambda>_. gbind (query_db (select_attempt attemptID)) scan_row)"

section \<open>Checking the evidence of an attempt\<close>

definition completeEvidence :: "attempt \<Rightarrow> bool storep" where
  "completeEvidence attempt =
     gbind (query_tx (select_event (at_EventID attempt))) (\<lambda>found.
     case found of
       None \<Rightarrow> gret False
     | Some row \<Rightarrow>
         gbind (of_sum (parse_or_wrap ''parse event occurrence time'' (er_occurred_at row))) (\<lambda>occurredAt.
         if er_event_type row \<noteq> at_EventType attempt \<or> er_protocol_version row \<noteq> at_ProtocolVersion attempt
            \<or> er_project_id row \<noteq> at_ProjectID attempt \<or> er_session_id row \<noteq> at_SessionID attempt
            \<or> coalesce (er_exchange_id row) \<noteq> at_ExchangeID attempt \<or> er_sequence row \<noteq> at_Sequence attempt
            \<or> \<not> time_equal (UTC occurredAt) (at_OccurredAt attempt) \<or> er_payload_encoding row \<noteq> at_Encoding attempt
            \<or> er_declared_size row \<noteq> at_DeclaredSize attempt \<or> er_actual_size row \<noteq> er_declared_size row
            \<or> \<not> validSHA256 (er_payload_sha256 row)
         then gret False
         else gtry (storedEvidence (at_EventID attempt) (er_declared_size row)) (\<lambda>stored.
           case stored of
             Inl e \<Rightarrow> if errors_is e ErrEventConflict then gret False else gthrow e
           | Inr (sz, computed) \<Rightarrow> gret (sz = er_actual_size row \<and> computed = er_payload_sha256 row))))"

section \<open>Operations\<close>

definition attempt_row_of :: "attempt \<Rightarrow> go_time \<Rightarrow> attempt_row" where
  "attempt_row_of attempt now =
     \<lparr>ar_attempt_id = at_AttemptID attempt, ar_event_id = at_EventID attempt, ar_event_type = at_EventType attempt,
      ar_protocol_version = at_ProtocolVersion attempt, ar_project_id = at_ProjectID attempt,
      ar_session_id = at_SessionID attempt, ar_exchange_id = nullable (at_ExchangeID attempt),
      ar_sequence = at_Sequence attempt, ar_occurred_at = format_utc (at_OccurredAt attempt),
      ar_payload_encoding = at_Encoding attempt, ar_declared_size = at_DeclaredSize attempt,
      ar_status = CaptureAttemptPending, ar_started_at = format_utc now, ar_completed_at = None, ar_failure_stage = None\<rparr>"

definition BeginCaptureAttempt :: "attempt \<Rightarrow> unit storep" where
  "BeginCaptureAttempt given =
     gbind ctx_check (\<lambda>_.
     case canonicalOccurredAt (at_OccurredAt given) of (occurred, ok) \<Rightarrow>
     let attempt = given\<lparr>at_OccurredAt := occurred\<rparr> in
     if \<not> ok \<or> \<not> validAttempt attempt then gthrow ErrEventConflict
     else if maxInt < at_DeclaredSize attempt then gthrow ErrEventConflict
     else if at_Status attempt \<noteq> '''' \<and> at_Status attempt \<noteq> CaptureAttemptPending then gthrow ErrEventConflict
     else gbind time_now (\<lambda>now. with_store_tx (
       gtry (exec_tx (insert_attempt (attempt_row_of attempt now))) (\<lambda>r.
         case r of
           Inr _ \<Rightarrow> commit_tx
         | Inl err \<Rightarrow>
             if \<not> isConstraint err then gthrow err
             else gbind (captureAttemptTx (at_AttemptID attempt)) (\<lambda>existing.
               if sameAttempt existing attempt \<and> at_Status existing = CaptureAttemptPending then commit_tx
               else gthrow ErrEventConflict)))))"

definition CompleteCaptureAttempt :: "string \<Rightarrow> unit storep" where
  "CompleteCaptureAttempt attemptID =
     gbind ctx_check (\<lambda>_. with_store_tx (
     gbind (captureAttemptTx attemptID) (\<lambda>attempt.
     if at_Status attempt = CaptureAttemptCompleted then commit_tx
     else if at_Status attempt \<noteq> CaptureAttemptPending then gthrow ErrEventConflict
     else gbind (completeEvidence attempt) (\<lambda>valid.
       if \<not> valid then gthrow ErrEventConflict
       else gbind time_now (\<lambda>now.
         gbind (exec_tx (update_attempt (\<lambda>a. ar_attempt_id a = attemptID \<and> ar_status a = CaptureAttemptPending)
                           CaptureAttemptCompleted (format_utc now) None)) (\<lambda>_. commit_tx))))))"

definition MarkCaptureIncomplete :: "string \<Rightarrow> string \<Rightarrow> unit storep" where
  "MarkCaptureIncomplete attemptID stage =
     gbind ctx_check (\<lambda>_.
     if \<not> validFailureStage stage then gthrow ErrEventConflict
     else with_store_tx (
     gbind (captureAttemptTx attemptID) (\<lambda>attempt.
     if at_Status attempt = CaptureAttemptIncomplete \<and> at_FailureStage attempt = stage then commit_tx
     else if at_Status attempt \<noteq> CaptureAttemptPending then gthrow ErrEventConflict
     else gbind time_now (\<lambda>now.
       gbind (exec_tx (update_attempt (\<lambda>a. ar_attempt_id a = attemptID \<and> ar_status a = CaptureAttemptPending)
                         CaptureAttemptIncomplete (format_utc now) (Some stage))) (\<lambda>_. commit_tx)))))"

text \<open>\<open>... WHERE status = 'pending' ORDER BY attempt_id\<close>.\<close>

definition select_pending :: "database \<Rightarrow> attempt_row list" where
  "select_pending d = sort_key ar_attempt_id (filter (\<lambda>a. ar_status a = CaptureAttemptPending) (capture_attempts d))"

fun scan_all :: "attempt_row list \<Rightarrow> attempt list storep" where
  "scan_all [] = gbind driver_step (\<lambda>_. gret [])"
| "scan_all (row # rows) =
     gbind driver_step (\<lambda>_. gbind (of_sum (scanAttempt row)) (\<lambda>a. gbind (scan_all rows) (\<lambda>as. gret (a # as))))"

fun recover_all :: "attempt list \<Rightarrow> recovery_result \<Rightarrow> recovery_result storep" where
  "recover_all [] result = gret result"
| "recover_all (attempt # rest) result =
     gbind (completeEvidence attempt) (\<lambda>complete. gbind time_now (\<lambda>now.
       gbind (exec_tx (update_attempt (\<lambda>a. ar_attempt_id a = at_AttemptID attempt)
                (if complete then CaptureAttemptCompleted else CaptureAttemptIncomplete) (format_utc now)
                (if complete then None else Some CaptureFailureAppend))) (\<lambda>_.
         recover_all rest (if complete then result\<lparr>Completed := Completed result + 1\<rparr>
                           else result\<lparr>Incomplete := Incomplete result + 1\<rparr>))))"

definition RecoverPendingCaptures :: "recovery_result storep" where
  "RecoverPendingCaptures =
     gbind ctx_check (\<lambda>_. with_store_tx (
     gbind (query_tx select_pending) (\<lambda>rows.
     gbind (scan_all rows) (\<lambda>pending.
     gbind (recover_all pending \<lparr>Completed = 0, Incomplete = 0\<rparr>) (\<lambda>result.
     gbind commit_tx (\<lambda>_. gret result))))))"

end
