(* ===== verification/FaultMode.thy ===== *)
theory FaultMode
  imports Integrity
begin

text \<open>
  Weakest preconditions for the two ways of running a store program at once: with an
  arbitrary fault script, where any call may fail, and without faults (\<open>calm\<close>), where an
  error can only be one that the program or the database raises itself.  A lemma proved in
  the locale \<open>fault_mode\<close> is a safety statement in the interpretation \<open>stormy\<close> and a
  statement that the operation succeeds in the interpretation \<open>tranquil\<close>.
\<close>

definition quiet :: "bool \<Rightarrow> store \<Rightarrow> bool" where
  "quiet calm s = (calm \<longrightarrow> faults s = [])"

lemma quiet_update [simp]:
  "quiet calm (s\<lparr>working := w\<rparr>) = quiet calm s" "quiet calm (s\<lparr>committed := d\<rparr>) = quiet calm s"
  "quiet calm (s\<lparr>clock := c\<rparr>) = quiet calm s" "quiet calm (s\<lparr>faults := fs\<rparr>) = (calm \<longrightarrow> fs = [])"
  "quiet calm (rollback_tx s) = quiet calm s" "quiet False s"
  by (simp_all add: quiet_def)

lemma same_db_sym: "same_db s t \<Longrightarrow> same_db t s"
  unfolding same_db_def by (metis store.surjective store.update_convs(3))

locale fault_mode =
  fixes calm :: bool
begin

lemma driver_rule:
  assumes "quiet calm s" and "\<And>t. same_db s t \<Longrightarrow> quiet calm t \<Longrightarrow> Q () t" and "\<And>e t. same_db s t \<Longrightarrow> \<not> calm \<Longrightarrow> E e t"
  shows "wp driver_step Q E s"
proof (cases calm)
  case True
  with assms(1) have "driver_step s = (Inr (), s)" by (simp add: quiet_def calm_simps)
  with assms(1,2) show ?thesis by (simp add: wp_def)
next
  case False
  with assms show ?thesis by (intro wp_driver_step) (auto simp: quiet_def)
qed

lemma ctx_rule:
  assumes "quiet calm s" and "\<And>t. same_db s t \<Longrightarrow> quiet calm t \<Longrightarrow> Q () t" and "\<And>e t. same_db s t \<Longrightarrow> \<not> calm \<Longrightarrow> E e t"
  shows "wp ctx_check Q E s"
  unfolding ctx_check_def using assms by (rule driver_rule)

lemma tx_rule:
  assumes "quiet calm s"
    and "\<And>t. quiet calm t \<Longrightarrow> committed t = committed s \<Longrightarrow> working t = Some (committed s) \<Longrightarrow> clock t = clock s \<Longrightarrow>
      wp body (\<lambda>a t'. Q a (rollback_tx t')) (\<lambda>e t'. E e (rollback_tx t')) t"
    and "\<And>e t. same_db s t \<Longrightarrow> \<not> calm \<Longrightarrow> E e t"
  shows "wp (with_store_tx body) Q E s"
  unfolding with_store_tx_def begin_tx_def
proof (intro wp_gbind [THEN iffD2], rule driver_rule [OF assms(1)], goal_cases)
  case (1 t)
  then have "wp body (\<lambda>a t'. Q a (rollback_tx t')) (\<lambda>e t'. E e (rollback_tx t')) (t\<lparr>working := Some (committed t)\<rparr>)"
    using same_db_fields [OF 1(1)] by (intro assms(2)) simp_all
  then show ?case by (auto simp: wp_def split: prod.splits sum.splits)
qed (rule assms(3))

lemma query_rule:
  assumes "quiet calm s" and "working s = Some d" and "\<And>t. same_db s t \<Longrightarrow> quiet calm t \<Longrightarrow> Q (f d) t"
    and "\<And>e t. same_db s t \<Longrightarrow> \<not> calm \<Longrightarrow> E e t"
  shows "wp (query_tx f) Q E s"
  unfolding query_tx_def
proof (intro wp_gbind [THEN iffD2], rule driver_rule [OF assms(1)], goal_cases)
  case (1 t)
  then show ?case using same_db_fields [OF 1(1)] assms(2,3) by (simp add: wp_def)
qed (rule assms(4))

lemma exec_rule:
  assumes "quiet calm s" and "working s = Some d"
    and "\<And>t d'. stmt d = Inr d' \<Longrightarrow> quiet calm t \<Longrightarrow> committed t = committed s \<Longrightarrow> working t = Some d' \<Longrightarrow> clock t = clock s \<Longrightarrow> Q () t"
    and "\<And>e t. same_db s t \<Longrightarrow> quiet calm t \<Longrightarrow> \<not> calm \<or> stmt d = Inl e \<Longrightarrow> E e t"
  shows "wp (exec_tx stmt) Q E s"
  unfolding exec_tx_def
proof (intro wp_gbind [THEN iffD2], rule driver_rule [OF assms(1)], goal_cases)
  case (1 t)
  note fields = same_db_fields [OF 1(1)]
  show ?case
  proof (cases "stmt d")
    case (Inl e)
    with 1 fields assms(2,4) show ?thesis by (simp add: wp_def)
  next
    case (Inr d')
    with 1 fields assms(2,3) show ?thesis by (simp add: wp_def)
  qed
next
  case (2 e t)
  then show ?case using assms(4) by (simp add: quiet_def)
qed

lemma commit_rule:
  assumes "quiet calm s" and "working s = Some d"
    and "\<And>t. quiet calm t \<Longrightarrow> committed t = d \<Longrightarrow> working t = None \<Longrightarrow> clock t = clock s \<Longrightarrow> Q () t"
    and "\<And>e t. same_db s t \<Longrightarrow> \<not> calm \<Longrightarrow> E e t"
  shows "wp commit_tx Q E s"
  unfolding commit_tx_def
proof (intro wp_gbind [THEN iffD2], rule driver_rule [OF assms(1)], goal_cases)
  case (1 t)
  then show ?case using same_db_fields [OF 1(1)] assms(2,3) by (simp add: wp_def)
qed (rule assms(4))

lemma now_rule:
  assumes "Q \<lparr>instant = clock s, zone = 0\<rparr> (s\<lparr>clock := clock s + 1\<rparr>)"
  shows "wp time_now Q E s"
  using assms by (simp add: wp_def time_now_def)

text \<open>The stored evidence: an error is a driver fault or the conflict of rows that are not canonical.\<close>

lemma storedEvidence_rule:
  assumes "quiet calm s" and "working s = Some d"
    and "\<And>t. same_db s t \<Longrightarrow> quiet calm t \<Longrightarrow> canonical n (select_chunks i d) \<Longrightarrow> Q (n, sha256_hex (evidence_of (select_chunks i d))) t"
    and "\<And>e t. same_db s t \<Longrightarrow> quiet calm t \<Longrightarrow> calm \<longrightarrow> \<not> canonical n (select_chunks i d) \<and> e = ErrEventConflict \<Longrightarrow> E e t"
  shows "wp (storedEvidence i n) Q E s"
proof (cases calm)
  case True
  with assms(1) have "faults s = []" by (simp add: quiet_def)
  from storedEvidence_calm [OF this assms(2), of i n] assms show ?thesis by (auto simp: wp_def)
next
  case False
  show ?thesis
    by (rule wp_mono [OF storedEvidence_wp [OF assms(2)]]) (use False assms(3,4) in \<open>auto simp: quiet_def\<close>)
qed

end

interpretation stormy: fault_mode False .

interpretation tranquil: fault_mode True .

end
