(* ===== verification/AttemptFacts.thy ===== *)
theory AttemptFacts
  imports Attempts FaultMode "HOL-Library.Sublist"
begin

text \<open>
  The attempt operations against their specification.  \<open>evidence_complete\<close> says, without the
  loop over the chunks, when the stored event of an attempt agrees with it and is intact;
  \<open>attempt_move\<close> is the state machine of one attempt; the rules give for every operation
  what it has done when it succeeds and why it has failed, with and without driver faults.
\<close>

section \<open>Substrings\<close>

lemma contains_from_iff: "contains_from v p i \<longleftrightarrow> (\<exists>j \<ge> i. j + length p \<le> length v \<and> take (length p) (drop j v) = p)"
proof (induction v p i rule: contains_from.induct)
  case (1 v p i)
  show ?case
  proof (cases "i + length p \<le> length v \<and> take (length p) (drop i v) \<noteq> p")
    case True
    have "(\<exists>j \<ge> i. j + length p \<le> length v \<and> take (length p) (drop j v) = p)
        \<longleftrightarrow> (\<exists>j \<ge> i + 1. j + length p \<le> length v \<and> take (length p) (drop j v) = p)"
      using True by (metis Suc_eq_plus1 Suc_leD le_antisym not_less_eq_eq)
    with True 1 show ?thesis by (simp add: contains_from.simps [of v p i])
  next
    case False
    then show ?thesis by (auto simp: contains_from.simps [of v p i])
  qed
qed

text \<open>\<open>contains\<close> is the substring relation.\<close>

lemma contains_iff: "contains v p \<longleftrightarrow> sublist p v"
proof
  assume "contains v p"
  then obtain j where "take (length p) (drop j v) = p" by (auto simp: contains_def contains_from_iff)
  then show "sublist p v" by (metis sublist_take sublist_drop sublist_order.order.trans)
next
  assume "sublist p v"
  then obtain xs ys where "v = xs @ p @ ys" by (auto simp: sublist_def)
  then have "length xs + length p \<le> length v \<and> take (length p) (drop (length xs) v) = p" by simp
  then show "contains v p" unfolding contains_def contains_from_iff by blast
qed

lemma isConstraint_unique [simp]: "isConstraint (unique_failed column)"
proof -
  have "sublist ''UNIQUE constraint failed'' (''constraint failed: '' @ ''UNIQUE constraint failed'' @ '': '' @ column @ '' (1555)'')"
    by (rule sublist_appendI)
  then show ?thesis by (simp add: isConstraint_def unique_failed_def contains_iff)
qed

lemma select_attempt_None: "select_attempt i d = None \<longleftrightarrow> i \<notin> set (map ar_attempt_id (capture_attempts d))"
  by (auto simp: select_attempt_def find_None_iff)

lemma select_attempts_update [simp]:
  "select_event i (d\<lparr>capture_attempts := as\<rparr>) = select_event i d"
  "select_chunks i (d\<lparr>capture_attempts := as\<rparr>) = select_chunks i d"
  by (simp_all add: select_event_def select_chunks_def)

lemma insert_attempt_cases:
  assumes "ar_status row = CaptureAttemptPending"
  shows "insert_attempt row d = (case select_attempt (ar_attempt_id row) d of
      None \<Rightarrow> Inr (d\<lparr>capture_attempts := capture_attempts d @ [row]\<rparr>)
    | Some _ \<Rightarrow> Inl (unique_failed ''capture_attempts.attempt_id''))"
proof (cases "select_attempt (ar_attempt_id row) d")
  case None
  then have "ar_attempt_id row \<notin> set (map ar_attempt_id (capture_attempts d))" by (simp add: select_attempt_None)
  with None assms show ?thesis by (simp add: insert_attempt_def status_texts_def)
next
  case (Some a)
  then have "ar_attempt_id row \<in> set (map ar_attempt_id (capture_attempts d))"
    using select_attempt_None [of "ar_attempt_id row" d] by auto
  with Some show ?thesis by (simp add: insert_attempt_def)
qed

section \<open>Scanning\<close>

definition times_ok :: "attempt_row \<Rightarrow> bool" where
  "times_ok row = (parse_time (ar_occurred_at row) \<noteq> None \<and> parse_time (ar_started_at row) \<noteq> None
     \<and> (\<forall>t. ar_completed_at row = Some t \<longrightarrow> parse_time t \<noteq> None))"

definition scanned :: "attempt_row \<Rightarrow> attempt \<Rightarrow> bool" where
  "scanned row a \<longleftrightarrow> at_AttemptID a = ar_attempt_id row \<and> at_EventID a = ar_event_id row \<and> at_EventType a = ar_event_type row
     \<and> at_ProjectID a = ar_project_id row \<and> at_SessionID a = ar_session_id row \<and> at_ExchangeID a = coalesce (ar_exchange_id row)
     \<and> at_Encoding a = ar_payload_encoding row \<and> at_ProtocolVersion a = ar_protocol_version row
     \<and> at_Sequence a = ar_sequence row \<and> format_utc (at_OccurredAt a) = ar_occurred_at row
     \<and> at_DeclaredSize a = ar_declared_size row \<and> at_Status a = ar_status row \<and> at_FailureStage a = coalesce (ar_failure_stage row)"

lemma parse_format_back: "parse_time t = Some v \<Longrightarrow> format_utc v = t"
  by (cases t) (auto simp: format_utc_def split: if_splits)

lemma format_UTC [simp]: "format_utc (UTC v) = format_utc v"
  by (simp add: format_utc_def UTC_def)

lemma scanAttempt_Inr: "scanAttempt row = Inr a \<Longrightarrow> scanned row a"
  by (auto simp: scanAttempt_def parse_or_wrap_def scanned_def parse_format_back split: option.splits sum.splits)

lemma scanAttempt_ok: "(\<exists>a. scanAttempt row = Inr a) \<longleftrightarrow> times_ok row"
  by (auto simp: scanAttempt_def parse_or_wrap_def times_ok_def split: option.splits sum.splits)

lemma wp_of_sum: "(\<And>x. r = Inr x \<Longrightarrow> Q x s) \<Longrightarrow> (\<And>e. r = Inl e \<Longrightarrow> E e s) \<Longrightarrow> wp (of_sum r) Q E s"
  by (auto simp: of_sum_def wp_simps split: sum.splits)

lemma coalesce_nullable [simp]: "coalesce (nullable x) = x"
  by (simp add: coalesce_def nullable_def)

section \<open>The specification of complete evidence\<close>

definition evidence_complete :: "database \<Rightarrow> attempt_row \<Rightarrow> bool" where
  "evidence_complete d a =
     (case select_event (ar_event_id a) d of
        None \<Rightarrow> False
      | Some e \<Rightarrow> er_event_type e = ar_event_type a \<and> er_protocol_version e = ar_protocol_version a
          \<and> er_project_id e = ar_project_id a \<and> er_session_id e = ar_session_id a
          \<and> coalesce (er_exchange_id e) = coalesce (ar_exchange_id a) \<and> er_sequence e = ar_sequence a
          \<and> er_occurred_at e = ar_occurred_at a \<and> er_payload_encoding e = ar_payload_encoding a
          \<and> er_declared_size e = ar_declared_size a \<and> er_actual_size e = er_declared_size e
          \<and> canonical (er_declared_size e) (select_chunks (ar_event_id a) d)
          \<and> er_payload_sha256 e = sha256_hex (evidence_of (select_chunks (ar_event_id a) d)))"

definition event_time_ok :: "database \<Rightarrow> string \<Rightarrow> bool" where
  "event_time_ok d i = (\<forall>e. select_event i d = Some e \<longrightarrow> parse_time (er_occurred_at e) \<noteq> None)"

lemma validSHA256_hex [simp]: "validSHA256 (sha256_hex bs)"
  by (simp add: validSHA256_def)

lemma evidence_complete_attempts [simp]:
  "evidence_complete (d\<lparr>capture_attempts := as\<rparr>) a = evidence_complete d a"
  "event_time_ok (d\<lparr>capture_attempts := as\<rparr>) i = event_time_ok d i"
  by (simp_all add: evidence_complete_def event_time_ok_def split: option.split)

text \<open>The metadata part of the comparison.\<close>

lemma metadata_test:
  assumes "scanned row a" and "parse_time (er_occurred_at e) = Some occ"
  shows "time_equal (UTC occ) (at_OccurredAt a) \<longleftrightarrow> er_occurred_at e = ar_occurred_at row"
proof -
  have "ar_occurred_at row = RFC3339Nano (instant (at_OccurredAt a))" using assms(1) by (auto simp: scanned_def format_utc_def)
  moreover have "er_occurred_at e = RFC3339Nano (instant occ)" using parse_format_back [OF assms(2)] by (simp add: format_utc_def)
  ultimately show ?thesis by (simp add: time_equal_def UTC_def)
qed

context fault_mode
begin

lemma completeEvidence_rule:
  assumes "quiet calm s" and "working s = Some d" and row: "scanned row a"
    and Q: "\<And>b t. same_db s t \<Longrightarrow> quiet calm t \<Longrightarrow> b \<longrightarrow> evidence_complete d row \<Longrightarrow> calm \<longrightarrow> b = evidence_complete d row \<Longrightarrow> Q b t"
    and E: "\<And>e t. same_db s t \<Longrightarrow> \<not> calm \<or> \<not> event_time_ok d (ar_event_id row) \<Longrightarrow> E e t"
  shows "wp (completeEvidence a) Q E s"
  unfolding completeEvidence_def
proof (intro wp_gbind [THEN iffD2], rule query_rule [OF assms(1,2)], goal_cases)
  case (1 t)
  have id: "at_EventID a = ar_event_id row" using row by (simp add: scanned_def)
  have work: "working t = Some d" using same_db_fields [OF 1(1)] assms(2) by simp
  show ?case
  proof (cases "select_event (ar_event_id row) d")
    case None
    with 1 show ?thesis by (simp add: id wp_simps Q evidence_complete_def)
  next
    case (Some e)
    show ?thesis
      unfolding id Some option.case
    proof (rule wp_gbind [THEN iffD2], rule wp_of_sum, goal_cases)
      case (1 occ)
      then have occ: "parse_time (er_occurred_at e) = Some occ" by (simp add: parse_or_wrap_def split: option.splits)
      note same = metadata_test [OF row occ]
      show ?case
      proof (rule wp_ifI, goal_cases)
        case 1
        then have "\<not> evidence_complete d row"
          using row Some same by (auto simp: evidence_complete_def scanned_def)
        with \<open>same_db s t\<close> \<open>quiet calm t\<close> show ?case by (simp add: wp_simps Q)
      next
        case 2
        with row Some same have meta: "evidence_complete d row \<longleftrightarrow> canonical (er_declared_size e) (select_chunks (ar_event_id row) d)
            \<and> er_payload_sha256 e = sha256_hex (evidence_of (select_chunks (ar_event_id row) d))"
          and size: "er_actual_size e = er_declared_size e"
          by (auto simp: evidence_complete_def scanned_def)
        show ?case
        proof (rule wp_gtry_case, rule storedEvidence_rule [OF \<open>quiet calm t\<close> work], goal_cases)
          case (1 u)
          then have "same_db s u" using \<open>same_db s t\<close> by (blast intro: same_db_trans)
          with 1 meta size show ?case by (auto simp: wp_simps intro!: Q)
        next
          case (2 e' u)
          then have "same_db s u" using \<open>same_db s t\<close> by (blast intro: same_db_trans)
          with 2 meta show ?case by (auto simp: wp_simps intro!: Q E)
        qed
      qed
    next
      case (2 e')
      then have "\<not> event_time_ok d (ar_event_id row)"
        using Some by (auto simp: event_time_ok_def parse_or_wrap_def split: option.splits)
      with \<open>same_db s t\<close> show ?case by (simp add: E)
    qed
  qed
qed (use E in blast)

end

section \<open>Operations\<close>

text \<open>The effect of an \<open>UPDATE capture_attempts\<close>.\<close>

definition settled :: "(attempt_row \<Rightarrow> bool) \<Rightarrow> string \<Rightarrow> time_text \<Rightarrow> string option \<Rightarrow> database \<Rightarrow> database" where
  "settled which status now stage d = d\<lparr>capture_attempts := map (\<lambda>a. if which a
     then a\<lparr>ar_status := status, ar_completed_at := Some now, ar_failure_stage := stage\<rparr> else a) (capture_attempts d)\<rparr>"

lemma update_attempt_settled:
  "status \<in> set status_texts \<Longrightarrow> update_attempt which status now stage d = Inr (settled which status now stage d)"
  by (simp add: update_attempt_def settled_def)

lemma status_texts_simps [simp]:
  "CaptureAttemptPending \<in> set status_texts" "CaptureAttemptCompleted \<in> set status_texts" "CaptureAttemptIncomplete \<in> set status_texts"
  by (simp_all add: status_texts_def)

text \<open>What \<open>BeginCaptureAttempt\<close> accepts, and when a stored row is the same attempt.\<close>

definition acceptable :: "attempt \<Rightarrow> bool" where
  "acceptable a \<longleftrightarrow> validAttempt a \<and> at_DeclaredSize a \<le> maxInt \<and> (at_Status a = '''' \<or> at_Status a = CaptureAttemptPending)"

definition row_matches :: "attempt_row \<Rightarrow> attempt \<Rightarrow> bool" where
  "row_matches row a \<longleftrightarrow> ar_attempt_id row = at_AttemptID a \<and> ar_event_id row = at_EventID a \<and> ar_event_type row = at_EventType a
     \<and> ar_protocol_version row = at_ProtocolVersion a \<and> ar_project_id row = at_ProjectID a \<and> ar_session_id row = at_SessionID a
     \<and> coalesce (ar_exchange_id row) = at_ExchangeID a \<and> ar_sequence row = at_Sequence a
     \<and> ar_occurred_at row = format_utc (at_OccurredAt a) \<and> ar_payload_encoding row = at_Encoding a
     \<and> ar_declared_size row = at_DeclaredSize a"

lemma sameAttempt_matches: "scanned row a \<Longrightarrow> sameAttempt a b = row_matches row b"
  by (auto simp: scanned_def sameAttempt_def row_matches_def time_equal_def format_utc_def)

lemma IsZero_UTC [simp]: "IsZero (UTC t) = IsZero t"
  by (simp add: IsZero_def UTC_def)

lemma select_attempt_Some: "select_attempt i d = Some a \<Longrightarrow> a \<in> set (capture_attempts d) \<and> ar_attempt_id a = i"
  by (auto simp: select_attempt_def find_Some_iff)

context fault_mode
begin

lemma captureAttempt_rule:
  assumes "quiet calm s" and "working s = Some d"
    and "\<And>t row a. same_db s t \<Longrightarrow> quiet calm t \<Longrightarrow> select_attempt i d = Some row \<Longrightarrow> scanned row a \<Longrightarrow> times_ok row \<Longrightarrow> Q a t"
    and "\<And>e t. same_db s t \<Longrightarrow> calm \<longrightarrow> (select_attempt i d = None \<and> e = ErrEventNotFound)
           \<or> (\<exists>row. select_attempt i d = Some row \<and> \<not> times_ok row) \<Longrightarrow> E e t"
  shows "wp (captureAttemptTx i) Q E s"
  unfolding captureAttemptTx_def scan_row_def
proof (intro wp_gbind [THEN iffD2], rule query_rule [OF assms(1,2)], goal_cases)
  case (1 t)
  show ?case
  proof (rule wp_case_optionI, goal_cases)
    case 1
    with \<open>same_db s t\<close> show ?case by (simp add: wp_simps assms(4))
  next
    case (2 row)
    show ?case
    proof (rule wp_of_sum, goal_cases)
      case (1 a)
      with scanAttempt_ok [of row] have "times_ok row" by blast
      with 1 2 \<open>same_db s t\<close> \<open>quiet calm t\<close> show ?case by (intro assms(3) [of t row] scanAttempt_Inr)
    next
      case (2 e)
      then have "\<not> times_ok row" using scanAttempt_ok [of row] by auto
      with \<open>select_attempt i d = Some row\<close> \<open>same_db s t\<close> show ?case by (simp add: assms(4))
    qed
  qed
qed (use assms(4) in blast)

lemma Begin_rule:
  assumes "quiet calm s" and "committed s = d" and "working s = None"
  shows "wp (BeginCaptureAttempt given)
    (\<lambda>_ t. quiet calm t \<and> working t = None \<and> acceptable given
       \<and> (case select_attempt (at_AttemptID given) d of
            None \<Rightarrow> \<exists>now. committed t = d\<lparr>capture_attempts := capture_attempts d @ [attempt_row_of given now]\<rparr>
          | Some row \<Rightarrow> row_matches row given \<and> ar_status row = CaptureAttemptPending \<and> committed t = d))
    (\<lambda>e t. committed t = d \<and> working t = None \<and> (calm \<longrightarrow>
       (\<not> acceptable given \<and> e = ErrEventConflict)
       \<or> (\<exists>row. select_attempt (at_AttemptID given) d = Some row
            \<and> (\<not> times_ok row \<or> \<not> (row_matches row given \<and> ar_status row = CaptureAttemptPending) \<and> e = ErrEventConflict)))) s"
  unfolding BeginCaptureAttempt_def Let_def
proof (intro wp_gbind [THEN iffD2], rule ctx_rule [OF assms(1)], goal_cases)
  case (1 t)
  have t: "committed t = d" "working t = None" using same_db_fields [OF 1(1)] assms(2,3) by simp_all
  let ?a = "given\<lparr>at_OccurredAt := UTC (at_OccurredAt given)\<rparr>"
  show ?case
  proof (cases "acceptable given")
    case False
    with t show ?thesis
      by (auto simp: canonicalOccurredAt_def acceptable_def validAttempt_def wp_simps)
  next
    case True
    have go: "validAttempt ?a" "\<not> maxInt < at_DeclaredSize ?a" "\<not> (at_Status ?a \<noteq> '''' \<and> at_Status ?a \<noteq> CaptureAttemptPending)"
      "canonicalOccurredAt (at_OccurredAt given) = (UTC (at_OccurredAt given), True)"
      using True by (auto simp: acceptable_def validAttempt_def canonicalOccurredAt_def)
    have row_of: "attempt_row_of ?a now = attempt_row_of given now" for now by (simp add: attempt_row_of_def)
    have matches: "row_matches row ?a = row_matches row given" for row by (simp add: row_matches_def)
    have stmt: "insert_attempt (attempt_row_of given now) d = (case select_attempt (at_AttemptID given) d of
        None \<Rightarrow> Inr (d\<lparr>capture_attempts := capture_attempts d @ [attempt_row_of given now]\<rparr>)
      | Some _ \<Rightarrow> Inl (unique_failed ''capture_attempts.attempt_id''))" for now
      using insert_attempt_cases [of "attempt_row_of given now" d] by (simp add: attempt_row_of_def)
    have guards: "\<not> (\<not> True \<or> \<not> validAttempt ?a)" "\<not> maxInt < at_DeclaredSize ?a"
      "\<not> (at_Status ?a \<noteq> '''' \<and> at_Status ?a \<noteq> CaptureAttemptPending)" using go by simp_all
    have id: "at_AttemptID ?a = at_AttemptID given" by simp
    show ?thesis
      unfolding go(4) prod.case if_not_P [OF guards(1)] if_not_P [OF guards(2)] if_not_P [OF guards(3)] row_of id
    proof (rule wp_gbind [THEN iffD2], rule now_rule, rule tx_rule, goal_cases)
      case (2 u)
      then have u: "quiet calm u" "committed u = d" "working u = Some d" using t by simp_all
      show ?case
      proof (rule wp_gtry_case, rule exec_rule [OF u(1,3)], goal_cases)
        case (1 v d')
        then have none: "select_attempt (at_AttemptID given) d = None"
          and d': "\<exists>now. d' = d\<lparr>capture_attempts := capture_attempts d @ [attempt_row_of given now]\<rparr>"
          using stmt by (auto split: option.splits)
        have v: "committed v = d" using 1(3) u(2) by simp
        show ?case
        proof (rule commit_rule [OF 1(2,4)], goal_cases)
          case (1 w)
          with True none d' show ?case by simp
        next
          case (2 e w)
          with v show ?case using same_db_fields [OF 2(1)] by simp
        qed
      next
        case (2 e v)
        then have v: "quiet calm v" "committed v = d" "working v = Some d" using u same_db_fields [OF 2(1)] by simp_all
        show ?case
        proof (rule wp_ifI, goal_cases)
          case 1
          with 2 v stmt show ?case by (auto simp: wp_simps split: option.splits)
        next
          case refused: 2
          show ?case
          proof (rule wp_gbind [THEN iffD2], rule captureAttempt_rule [OF v(1,3)], goal_cases)
            case (1 w row a)
            then have w: "quiet calm w" "committed w = d" "working w = Some d" using v same_db_fields [OF 1(1)] by simp_all
            have status: "at_Status a = ar_status row" using 1(4) by (simp add: scanned_def)
            show ?case
              unfolding sameAttempt_matches [OF 1(4)] matches status
              by (rule wp_ifI, rule commit_rule [OF w(1,3)]) (use True 1 w same_db_fields in \<open>auto simp: wp_simps\<close>)
          next
            case (2 e' w)
            with v stmt \<open>\<not> calm \<or> _\<close> show ?case using same_db_fields [OF 2(1)] by (auto split: option.splits)
          qed
        qed
      qed
    qed (use 1 t same_db_fields in auto)
  qed
qed (use assms(2,3) same_db_fields in auto)

end

context fault_mode
begin

text \<open>The end of every operation that settles an attempt: the update and the commit.\<close>

lemma settle_rule:
  assumes "quiet calm s" and "working s = Some d" and "committed s = d0" and "status \<in> set status_texts"
    and "\<And>t. quiet calm t \<Longrightarrow> committed t = settled which status now stage d \<Longrightarrow> working t = None \<Longrightarrow> Q () t"
    and "\<And>e t. committed t = d0 \<Longrightarrow> \<not> calm \<Longrightarrow> E e t"
  shows "wp (gbind (exec_tx (update_attempt which status now stage)) (\<lambda>_. commit_tx)) Q E s"
proof (intro wp_gbind [THEN iffD2], rule exec_rule [OF assms(1,2)], goal_cases)
  case (1 t d')
  then have d': "d' = settled which status now stage d" by (simp add: update_attempt_settled [OF assms(4)])
  show ?case
  proof (rule commit_rule [OF 1(2,4)], goal_cases)
    case (1 u)
    with d' show ?case by (intro assms(5)) simp_all
  next
    case (2 e u)
    have "committed u = d0" using same_db_fields [OF 2(1)] 1(3) assms(3) by simp
    then show ?case using 2(2) by (rule assms(6))
  qed
next
  case (2 e t)
  have "committed t = d0" using same_db_fields [OF 2(1)] assms(3) by simp
  then show ?case using 2(3) by (intro assms(6)) (simp_all add: update_attempt_settled [OF assms(4)])
qed

lemma Complete_rule:
  assumes "quiet calm s" and "committed s = d" and "working s = None"
  shows "wp (CompleteCaptureAttempt i)
    (\<lambda>_ t. quiet calm t \<and> working t = None \<and> (\<exists>row. select_attempt i d = Some row \<and> times_ok row
       \<and> (ar_status row = CaptureAttemptCompleted \<and> committed t = d
          \<or> ar_status row = CaptureAttemptPending \<and> evidence_complete d row
            \<and> (\<exists>now. committed t = settled (\<lambda>a. ar_attempt_id a = i \<and> ar_status a = CaptureAttemptPending) CaptureAttemptCompleted now None d))))
    (\<lambda>e t. committed t = d \<and> working t = None \<and> (calm \<longrightarrow>
       (select_attempt i d = None \<and> e = ErrEventNotFound)
       \<or> (\<exists>row. select_attempt i d = Some row \<and> (\<not> times_ok row \<or> \<not> event_time_ok d (ar_event_id row)
            \<or> ar_status row \<noteq> CaptureAttemptCompleted
              \<and> \<not> (ar_status row = CaptureAttemptPending \<and> evidence_complete d row) \<and> e = ErrEventConflict)))) s"
  unfolding CompleteCaptureAttempt_def
proof (rule wp_gbind [THEN iffD2], rule ctx_rule [OF assms(1)], goal_cases)
  case (1 t)
  have t: "committed t = d" "working t = None" using same_db_fields [OF 1(1)] assms(2,3) by simp_all
  show ?case
  proof (rule tx_rule [OF 1(2)], goal_cases)
    case (1 u)
    then have u: "quiet calm u" "committed u = d" "working u = Some d" using t by simp_all
    show ?case
    proof (rule wp_gbind [THEN iffD2], rule captureAttempt_rule [OF u(1,3)], goal_cases)
      case (1 v row a)
      then have v: "quiet calm v" "committed v = d" "working v = Some d" using u same_db_fields [OF 1(1)] by simp_all
      have status: "at_Status a = ar_status row" using 1(4) by (simp add: scanned_def)
      show ?case
        unfolding status
      proof (rule wp_ifI, goal_cases)
        case 1
        show ?case by (rule commit_rule [OF v(1,3)]) (use 1 v \<open>select_attempt i d = Some row\<close> \<open>times_ok row\<close> same_db_fields in auto)
      next
        case unfinished: 2
        show ?case
        proof (rule wp_ifI, goal_cases)
          case 1
          with v unfinished \<open>select_attempt i d = Some row\<close> \<open>times_ok row\<close> show ?case by (simp add: wp_simps)
        next
          case pending: 2
          show ?case
          proof (rule wp_gbind [THEN iffD2], rule completeEvidence_rule [OF v(1,3) \<open>scanned row a\<close>], goal_cases)
            case (1 b w)
            then have w: "quiet calm w" "committed w = d" "working w = Some d" using v same_db_fields [OF 1(1)] by simp_all
            show ?case
            proof (rule wp_ifI, goal_cases)
              case invalid: 1
              with 1 w unfinished \<open>select_attempt i d = Some row\<close> \<open>times_ok row\<close> show ?case by (simp add: wp_simps)
            next
              case valid: 2
              show ?case
                by (rule wp_gbind [THEN iffD2], rule now_rule, rule settle_rule [where d = d and ?d0.0 = d])
                  (use w valid pending 1 \<open>select_attempt i d = Some row\<close> \<open>times_ok row\<close> in auto)
            qed
          next
            case (2 e w)
            with v \<open>select_attempt i d = Some row\<close> \<open>times_ok row\<close> show ?case using same_db_fields [OF 2(1)] by auto
          qed
        qed
      qed
    next
      case (2 e v)
      with u show ?case using same_db_fields [OF 2(1)] by auto
    qed
  next
    case (2 e u)
    with t show ?case using same_db_fields [OF 2(1)] by simp
  qed
next
  case (2 e t)
  with assms show ?case using same_db_fields [OF 2(1)] by simp
qed

lemma MarkIncomplete_rule:
  assumes "quiet calm s" and "committed s = d" and "working s = None"
  shows "wp (MarkCaptureIncomplete i stage)
    (\<lambda>_ t. quiet calm t \<and> working t = None \<and> validFailureStage stage \<and> (\<exists>row. select_attempt i d = Some row \<and> times_ok row
       \<and> (ar_status row = CaptureAttemptIncomplete \<and> coalesce (ar_failure_stage row) = stage \<and> committed t = d
          \<or> ar_status row = CaptureAttemptPending
            \<and> (\<exists>now. committed t = settled (\<lambda>a. ar_attempt_id a = i \<and> ar_status a = CaptureAttemptPending)
                 CaptureAttemptIncomplete now (Some stage) d))))
    (\<lambda>e t. committed t = d \<and> working t = None \<and> (calm \<longrightarrow>
       (\<not> validFailureStage stage \<and> e = ErrEventConflict)
       \<or> (select_attempt i d = None \<and> e = ErrEventNotFound)
       \<or> (\<exists>row. select_attempt i d = Some row \<and> (\<not> times_ok row
            \<or> \<not> (ar_status row = CaptureAttemptIncomplete \<and> coalesce (ar_failure_stage row) = stage)
              \<and> ar_status row \<noteq> CaptureAttemptPending \<and> e = ErrEventConflict)))) s"
  unfolding MarkCaptureIncomplete_def
proof (rule wp_gbind [THEN iffD2], rule ctx_rule [OF assms(1)], goal_cases)
  case (1 t)
  have t: "committed t = d" "working t = None" using same_db_fields [OF 1(1)] assms(2,3) by simp_all
  show ?case
  proof (rule wp_ifI, goal_cases)
    case 1
    with t show ?case by (simp add: wp_simps)
  next
    case valid: 2
    show ?case
    proof (rule tx_rule [OF 1(2)], goal_cases)
      case (1 u)
      then have u: "quiet calm u" "committed u = d" "working u = Some d" using t by simp_all
      show ?case
      proof (rule wp_gbind [THEN iffD2], rule captureAttempt_rule [OF u(1,3)], goal_cases)
        case (1 v row a)
        then have v: "quiet calm v" "committed v = d" "working v = Some d" using u same_db_fields [OF 1(1)] by simp_all
        have fields: "at_Status a = ar_status row" "at_FailureStage a = coalesce (ar_failure_stage row)"
          using 1(4) by (simp_all add: scanned_def)
        show ?case
          unfolding fields
        proof (rule wp_ifI, goal_cases)
          case 1
          show ?case by (rule commit_rule [OF v(1,3)]) (use 1 v valid \<open>select_attempt i d = Some row\<close> \<open>times_ok row\<close> same_db_fields in auto)
        next
          case unfinished: 2
          show ?case
          proof (rule wp_ifI, goal_cases)
            case 1
            with v unfinished \<open>select_attempt i d = Some row\<close> \<open>times_ok row\<close> show ?case by (auto simp: wp_simps)
          next
            case pending: 2
            show ?case
              by (rule wp_gbind [THEN iffD2], rule now_rule, rule settle_rule [where d = d and ?d0.0 = d])
                (use v valid pending \<open>select_attempt i d = Some row\<close> \<open>times_ok row\<close> in auto)
          qed
        qed
      next
        case (2 e v)
        with u show ?case using same_db_fields [OF 2(1)] by auto
      qed
    next
      case (2 e u)
      with t show ?case using same_db_fields [OF 2(1)] by simp
    qed
  qed
next
  case (2 e t)
  with assms show ?case using same_db_fields [OF 2(1)] by simp
qed

end

end
