(* ===== verification/Recovery.thy ===== *)
theory Recovery
  imports AttemptFacts "HOL-Library.Multiset"
begin

text \<open>
  \<open>RecoverPendingCaptures\<close> against its specification, the state machine of the store that all
  operations of \<open>internal/storage\<close> follow, its invariants by rule induction, and the
  properties of the capture attempts.
\<close>

section \<open>Recovering\<close>

definition settle_one :: "bool \<Rightarrow> time_text \<Rightarrow> attempt_row \<Rightarrow> attempt_row" where
  "settle_one complete now a = a\<lparr>ar_status := (if complete then CaptureAttemptCompleted else CaptureAttemptIncomplete),
     ar_completed_at := Some now, ar_failure_stage := (if complete then None else Some CaptureFailureAppend)\<rparr>"

lemma settle_one_id [simp]: "ar_attempt_id (settle_one b now a) = ar_attempt_id a"
  by (simp add: settle_one_def)

lemma settled_one:
  "settled which (if b then CaptureAttemptCompleted else CaptureAttemptIncomplete) now (if b then None else Some CaptureFailureAppend) d
     = d\<lparr>capture_attempts := map (\<lambda>a. if which a then settle_one b now a else a) (capture_attempts d)\<rparr>"
  unfolding settled_def settle_one_def ..

text \<open>
  How the attempts \<open>xs\<close> have become \<open>xs'\<close> once the attempts with the identifiers \<open>ids\<close> have
  been settled: as complete only with complete evidence, and without faults exactly then.
\<close>

definition recovered :: "bool \<Rightarrow> database \<Rightarrow> string set \<Rightarrow> attempt_row list \<Rightarrow> attempt_row list \<Rightarrow> bool" where
  "recovered calm d ids = list_all2 (\<lambda>a a'.
     if ar_attempt_id a \<in> ids
     then \<exists>b now. a' = settle_one b now a \<and> (b \<longrightarrow> evidence_complete d a) \<and> (calm \<longrightarrow> b = evidence_complete d a)
     else a' = a)"

lemma recovered_none [simp]: "recovered calm d {} xs xs' \<longleftrightarrow> xs' = xs"
  by (auto simp: recovered_def list_all2_conv_all_nth intro: nth_equalityI)

lemma recovered_step:
  assumes first: "i \<notin> ids" and unique: "\<forall>a \<in> set xs. ar_attempt_id a = i \<longrightarrow> a = row"
    and b: "b \<longrightarrow> evidence_complete d row" "calm \<longrightarrow> b = evidence_complete d row"
    and rest: "recovered calm d ids (map (\<lambda>a. if ar_attempt_id a = i then settle_one b now a else a) xs) xs'"
  shows "recovered calm d (insert i ids) xs xs'"
  using rest unique
proof (induction xs arbitrary: xs')
  case Nil
  then show ?case by (simp add: recovered_def)
next
  case (Cons a xs)
  then obtain y ys where xs': "xs' = y # ys" by (auto simp: recovered_def list_all2_Cons1)
  with Cons have "recovered calm d (insert i ids) xs ys" by (simp add: recovered_def)
  moreover have "a = row" if "ar_attempt_id a = i" using that Cons.prems(2) by simp
  ultimately show ?case
    using Cons.prems(1) first b by (cases "ar_attempt_id a = i") (auto simp: recovered_def xs')
qed

context fault_mode
begin

lemma scan_all_rule:
  assumes "quiet calm s"
    and "\<And>as t. same_db s t \<Longrightarrow> quiet calm t \<Longrightarrow> list_all2 scanned rows as \<Longrightarrow> \<forall>row \<in> set rows. times_ok row \<Longrightarrow> Q as t"
    and "\<And>e t. same_db s t \<Longrightarrow> \<not> calm \<or> (\<exists>row \<in> set rows. \<not> times_ok row) \<Longrightarrow> E e t"
  shows "wp (scan_all rows) Q E s"
  using assms
proof (induction rows arbitrary: s Q)
  case Nil
  then show ?case unfolding scan_all.simps by (intro wp_gbind [THEN iffD2] driver_rule [OF Nil(1)]) (auto simp: wp_simps)
next
  case (Cons row rows)
  show ?case
    unfolding scan_all.simps
  proof (rule wp_gbind [THEN iffD2], rule driver_rule [OF Cons.prems(1)], goal_cases)
    case (1 t)
    show ?case
    proof (rule wp_gbind [THEN iffD2], rule wp_of_sum, goal_cases)
      case (1 a)
      then have a: "scanned row a" "times_ok row" using scanAttempt_Inr [of row a] scanAttempt_ok [of row] by blast+
      show ?case
      proof (rule wp_gbind [THEN iffD2], rule Cons.IH [OF \<open>quiet calm t\<close>], goal_cases)
        case (1 as u)
        with a \<open>same_db s t\<close> show ?case by (auto simp: wp_simps intro!: Cons.prems(2) elim: same_db_trans)
      next
        case (2 e u)
        with \<open>same_db s t\<close> show ?case by (intro Cons.prems(3)) (auto elim: same_db_trans)
      qed
    next
      case (2 e)
      then have "\<not> times_ok row" using scanAttempt_ok [of row] by auto
      with \<open>same_db s t\<close> show ?case by (intro Cons.prems(3)) auto
    qed
  qed (use Cons.prems(3) in blast)
qed

lemma recover_all_rule:
  assumes "quiet calm s" and "committed s = d0" and "working s = Some (d\<lparr>capture_attempts := xs\<rparr>)"
    and "list_all2 scanned rows as" and "distinct (map ar_attempt_id rows)"
    and "\<forall>row \<in> set rows. \<forall>a \<in> set xs. ar_attempt_id a = ar_attempt_id row \<longrightarrow> a = row"
    and "\<And>result' t xs'. quiet calm t \<Longrightarrow> committed t = d0 \<Longrightarrow> working t = Some (d\<lparr>capture_attempts := xs'\<rparr>) \<Longrightarrow>
       recovered calm d (ar_attempt_id ` set rows) xs xs' \<Longrightarrow>
       Completed result' + Incomplete result' = Completed result + Incomplete result + length rows \<Longrightarrow>
       calm \<longrightarrow> Completed result' = Completed result + length (filter (evidence_complete d) rows) \<Longrightarrow> Q result' t"
    and "\<And>e t. committed t = d0 \<Longrightarrow> \<not> calm \<or> (\<exists>row \<in> set rows. \<not> event_time_ok d (ar_event_id row)) \<Longrightarrow> E e t"
  shows "wp (recover_all as result) Q E s"
  using assms
proof (induction rows arbitrary: as result s xs Q)
  case Nil
  then show ?case by (simp add: wp_simps)
next
  case (Cons row rows)
  from Cons.prems(4) obtain a as' where as: "as = a # as'" and a: "scanned row a" and as': "list_all2 scanned rows as'"
    by (auto simp: list_all2_Cons1)
  have id: "at_AttemptID a = ar_attempt_id row" using a by (simp add: scanned_def)
  show ?case
    unfolding as recover_all.simps id
  proof (rule wp_gbind [THEN iffD2], rule completeEvidence_rule [OF Cons.prems(1,3) a], goal_cases)
    case (1 b t)
    then have t: "quiet calm t" "committed t = d0" "working t = Some (d\<lparr>capture_attempts := xs\<rparr>)"
      and b: "b \<longrightarrow> evidence_complete d row" "calm \<longrightarrow> b = evidence_complete d row"
      using Cons.prems(2,3) same_db_fields [OF 1(1)] by simp_all
    show ?case
    proof (rule wp_gbind [THEN iffD2], rule now_rule, rule wp_gbind [THEN iffD2],
        rule exec_rule [where d = "d\<lparr>capture_attempts := xs\<rparr>"], goal_cases)
      case 1
      show ?case using t(1) by simp
    next
      case 2
      show ?case using t(3) by simp
    next
      case (3 u d')
      let ?now = "format_utc \<lparr>instant = clock t, zone = 0\<rparr>"
      let ?ys = "map (\<lambda>x. if ar_attempt_id x = ar_attempt_id row then settle_one b ?now x else x) xs"
      from 3 have u: "quiet calm u" "committed u = d0" "working u = Some (d\<lparr>capture_attempts := ?ys\<rparr>)"
        using t by (simp_all add: update_attempt_settled settled_one)
      have fresh: "ar_attempt_id row \<notin> ar_attempt_id ` set rows" using Cons.prems(5) by simp
      show ?case
      proof (rule Cons.IH [OF u as'], goal_cases)
        case 1
        show ?case using Cons.prems(5) by simp
      next
        case 2
        show ?case using Cons.prems(6) fresh by (auto split: if_splits)
      next
        case (3 v xs' result')
        have "recovered calm d (insert (ar_attempt_id row) (ar_attempt_id ` set rows)) xs xs'"
          using 3(4) fresh Cons.prems(6) b by (intro recovered_step) auto
        with 3 b show ?case by (intro Cons.prems(7)) (auto split: if_splits)
      next
        case (4 e v)
        then show ?case by (intro Cons.prems(8)) auto
      qed
    next
      case (4 e u)
      have "\<not> calm" using 4(3) by (simp add: update_attempt_settled)
      with 4 t show ?case using same_db_fields [OF 4(1)] by (intro Cons.prems(8)) auto
    qed
  next
    case (2 e t)
    then show ?case using same_db_fields [OF 2(1)] Cons.prems(2) by (intro Cons.prems(8)) auto
  qed
qed

end

lemma select_pending_facts:
  "set (select_pending d) = {a \<in> set (capture_attempts d). ar_status a = CaptureAttemptPending}"
  "length (filter P (select_pending d)) = length (filter (\<lambda>a. ar_status a = CaptureAttemptPending \<and> P a) (capture_attempts d))"
  "keys_ok d \<Longrightarrow> distinct (map ar_attempt_id (select_pending d))"
proof -
  show "set (select_pending d) = {a \<in> set (capture_attempts d). ar_status a = CaptureAttemptPending}"
    by (auto simp: select_pending_def)
  have m: "mset (select_pending d) = mset (filter (\<lambda>a. ar_status a = CaptureAttemptPending) (capture_attempts d))"
    by (simp add: select_pending_def)
  have "mset (filter P (select_pending d)) = mset (filter P (filter (\<lambda>a. ar_status a = CaptureAttemptPending) (capture_attempts d)))"
    by (simp only: mset_filter m)
  from mset_eq_length [OF this]
  show "length (filter P (select_pending d)) = length (filter (\<lambda>a. ar_status a = CaptureAttemptPending \<and> P a) (capture_attempts d))"
    by simp
  assume "keys_ok d"
  then have "distinct (map ar_attempt_id (filter (\<lambda>a. ar_status a = CaptureAttemptPending) (capture_attempts d)))"
    by (simp add: keys_ok_def distinct_map_filter)
  moreover have "mset (map ar_attempt_id (select_pending d)) = mset (map ar_attempt_id (filter (\<lambda>a. ar_status a = CaptureAttemptPending) (capture_attempts d)))"
    using m by simp
  ultimately show "distinct (map ar_attempt_id (select_pending d))" by (metis mset_eq_imp_distinct_iff)
qed

lemma attempt_of_id: "keys_ok d \<Longrightarrow> a \<in> set (capture_attempts d) \<Longrightarrow> b \<in> set (capture_attempts d) \<Longrightarrow> ar_attempt_id a = ar_attempt_id b \<Longrightarrow> a = b"
  by (auto simp: keys_ok_def distinct_map dest: inj_onD)

context fault_mode
begin

lemma Recover_rule:
  assumes "quiet calm s" and "committed s = d" and "working s = None" and keys: "keys_ok d"
  shows "wp RecoverPendingCaptures
    (\<lambda>result t. quiet calm t \<and> working t = None
       \<and> (\<exists>xs'. committed t = d\<lparr>capture_attempts := xs'\<rparr>
            \<and> recovered calm d (ar_attempt_id ` set (select_pending d)) (capture_attempts d) xs')
       \<and> (\<forall>row \<in> set (select_pending d). times_ok row)
       \<and> Completed result + Incomplete result = length (select_pending d)
       \<and> (calm \<longrightarrow> Completed result = length (filter (evidence_complete d) (select_pending d))))
    (\<lambda>e t. committed t = d \<and> working t = None
       \<and> (calm \<longrightarrow> (\<exists>row \<in> set (select_pending d). \<not> times_ok row \<or> \<not> event_time_ok d (ar_event_id row)))) s"
  unfolding RecoverPendingCaptures_def
proof (rule wp_gbind [THEN iffD2], rule ctx_rule [OF assms(1)], goal_cases)
  case (1 t)
  have t: "committed t = d" "working t = None" using same_db_fields [OF 1(1)] assms(2,3) by simp_all
  show ?case
  proof (rule tx_rule [OF 1(2)], goal_cases)
    case (1 u)
    then have u: "quiet calm u" "committed u = d" "working u = Some d" using t by simp_all
    show ?case
    proof (rule wp_gbind [THEN iffD2], rule query_rule [OF u(1,3)], goal_cases)
      case (1 v)
      then have v: "quiet calm v" "committed v = d" "working v = Some d" using u same_db_fields [OF 1(1)] by simp_all
      show ?case
      proof (rule wp_gbind [THEN iffD2], rule scan_all_rule [OF v(1)], goal_cases)
        case (1 as w)
        then have w: "quiet calm w" "committed w = d" "working w = Some (d\<lparr>capture_attempts := capture_attempts d\<rparr>)"
          using v same_db_fields [OF 1(1)] by simp_all
        have unique: "\<forall>row \<in> set (select_pending d). \<forall>a \<in> set (capture_attempts d). ar_attempt_id a = ar_attempt_id row \<longrightarrow> a = row"
          using attempt_of_id [OF keys] by (auto simp: select_pending_facts(1))
        show ?case
        proof (rule wp_gbind [THEN iffD2], rule recover_all_rule [OF w 1(3) select_pending_facts(3) [OF keys] unique], goal_cases)
          case (1 result' x xs')
          show ?case
          proof (rule wp_gbind [THEN iffD2], rule commit_rule [OF 1(1,3)], goal_cases)
            case (1 y)
            with \<open>recovered calm d _ _ xs'\<close> \<open>\<forall>row \<in> set (select_pending d). times_ok row\<close> \<open>Completed result' + _ = _\<close> \<open>calm \<longrightarrow> Completed result' = _\<close>
            show ?case by (auto simp: wp_simps)
          next
            case (2 e y)
            with \<open>committed x = d\<close> show ?case using same_db_fields [OF 2(1)] by simp
          qed
        qed auto
      next
        case (2 e w)
        with v show ?case using same_db_fields [OF 2(1)] by auto
      qed
    next
      case (2 e v)
      with u show ?case using same_db_fields [OF 2(1)] by auto
    qed
  next
    case (2 e u)
    with t show ?case using same_db_fields [OF 2(1)] by simp
  qed
next
  case (2 e t)
  with assms show ?case using same_db_fields [OF 2(1)] by simp
qed

end

section \<open>The state machine of an attempt\<close>

text \<open>
  One step of one attempt, over the database \<open>d\<close> in which the step is decided: nothing, or
  from pending to completed, with complete evidence, or from pending to incomplete, with one of
  the two failure stages.  Completed and incomplete are final.
\<close>

inductive attempt_move :: "database \<Rightarrow> attempt_row \<Rightarrow> attempt_row \<Rightarrow> bool" for d where
  keep: "attempt_move d a a"
| complete: "ar_status a = CaptureAttemptPending \<Longrightarrow> evidence_complete d a \<Longrightarrow>
    attempt_move d a (a\<lparr>ar_status := CaptureAttemptCompleted, ar_completed_at := Some now, ar_failure_stage := None\<rparr>)"
| fail: "ar_status a = CaptureAttemptPending \<Longrightarrow> validFailureStage stage \<Longrightarrow>
    attempt_move d a (a\<lparr>ar_status := CaptureAttemptIncomplete, ar_completed_at := Some now, ar_failure_stage := Some stage\<rparr>)"

inductive_simps attempt_move_iff: "attempt_move d a b"

text \<open>One committed operation of the store: an append, a new attempt, or moves of attempts.\<close>

inductive store_step :: "database \<Rightarrow> database \<Rightarrow> bool" where
  append: "append_outcome ev n cs a d d' \<Longrightarrow> store_step d d'"
| start: "acceptable a \<Longrightarrow> select_attempt (at_AttemptID a) d = None \<Longrightarrow>
    store_step d (d\<lparr>capture_attempts := capture_attempts d @ [attempt_row_of a now]\<rparr>)"
| settle: "list_all2 (attempt_move d) (capture_attempts d) xs \<Longrightarrow> store_step d (d\<lparr>capture_attempts := xs\<rparr>)"

lemma store_step_refl: "store_step d d"
proof -
  have "list_all2 (attempt_move d) (capture_attempts d) (capture_attempts d)" by (simp add: list_all2_same keep)
  from settle [OF this] show ?thesis by simp
qed

lemma settled_moves:
  assumes "\<And>a. a \<in> set (capture_attempts d) \<Longrightarrow> which a \<Longrightarrow>
      attempt_move d a (a\<lparr>ar_status := status, ar_completed_at := Some now, ar_failure_stage := stage\<rparr>)"
  shows "store_step d (settled which status now stage d)"
  unfolding settled_def using assms by (intro settle) (auto simp: list_all2_map2 intro!: list.rel_refl_strong keep)

lemma recovered_moves:
  assumes "recovered calm d (ar_attempt_id ` set (select_pending d)) (capture_attempts d) xs" and "keys_ok d"
  shows "store_step d (d\<lparr>capture_attempts := xs\<rparr>)"
proof (rule settle, rule list.rel_mono_strong [OF assms(1) [unfolded recovered_def]])
  fix a a'
  assume a: "a \<in> set (capture_attempts d)"
    and step: "if ar_attempt_id a \<in> ar_attempt_id ` set (select_pending d)
      then \<exists>b now. a' = settle_one b now a \<and> (b \<longrightarrow> evidence_complete d a) \<and> (calm \<longrightarrow> b = evidence_complete d a)
      else a' = a"
  show "attempt_move d a a'"
  proof (cases "ar_attempt_id a \<in> ar_attempt_id ` set (select_pending d)")
    case True
    then have "ar_status a = CaptureAttemptPending"
      using attempt_of_id [OF assms(2) a] by (auto simp: select_pending_facts(1))
    moreover obtain b now where "a' = settle_one b now a" "b \<longrightarrow> evidence_complete d a" using True step by auto
    ultimately show ?thesis
      using attempt_move.complete [of a d now] attempt_move.fail [of a CaptureFailureAppend d now]
      by (cases b) (simp_all add: settle_one_def validFailureStage_def)
  next
    case False
    with step show ?thesis by (simp add: keep)
  qed
qed

section \<open>The invariant of the attempts\<close>

text \<open>Of one attempt: what its status says about its other fields and about the stored evidence.\<close>

definition attempt_ok :: "database \<Rightarrow> attempt_row \<Rightarrow> bool" where
  "attempt_ok d a \<longleftrightarrow>
     (ar_status a = CaptureAttemptPending \<and> ar_completed_at a = None \<and> ar_failure_stage a = None)
   \<or> (ar_status a = CaptureAttemptCompleted \<and> ar_completed_at a \<noteq> None \<and> ar_failure_stage a = None \<and> evidence_complete d a)
   \<or> (ar_status a = CaptureAttemptIncomplete \<and> ar_completed_at a \<noteq> None
      \<and> (\<exists>stage. ar_failure_stage a = Some stage \<and> validFailureStage stage))"

definition store_ok :: "database \<Rightarrow> bool" where
  "store_ok d = (db_ok d \<and> (\<forall>a \<in> set (capture_attempts d). attempt_ok d a))"

lemma store_ok_empty [simp]: "store_ok empty_database"
  by (simp add: store_ok_def) (simp add: empty_database_def)

lemma evidence_complete_preserved: "preserved d d' \<Longrightarrow> evidence_complete d a \<Longrightarrow> evidence_complete d' a"
  by (auto simp: evidence_complete_def preserved_def split: option.splits)

lemma attempt_ok_preserved: "preserved d d' \<Longrightarrow> attempt_ok d a \<Longrightarrow> attempt_ok d' a"
  by (auto simp: attempt_ok_def evidence_complete_preserved)

lemma evidence_complete_status [simp]:
  "evidence_complete d (a\<lparr>ar_status := st, ar_completed_at := t, ar_failure_stage := g\<rparr>) = evidence_complete d a"
  by (simp add: evidence_complete_def split: option.split)

lemma attempt_move_ok: "attempt_move d a b \<Longrightarrow> attempt_ok d a \<Longrightarrow> attempt_ok d b"
  by (induction rule: attempt_move.induct) (auto simp: attempt_ok_def)

lemma attempt_move_id: "attempt_move d a b \<Longrightarrow> ar_attempt_id b = ar_attempt_id a"
  by (induction rule: attempt_move.induct) simp_all

lemma db_ok_attempts: "db_ok d \<Longrightarrow> distinct (map ar_attempt_id xs) \<Longrightarrow> db_ok (d\<lparr>capture_attempts := xs\<rparr>)"
  by (simp add: db_ok_def keys_ok_def references_ok_def events_ok_def)

lemma moves_ids: "list_all2 (attempt_move d) xs ys \<Longrightarrow> map ar_attempt_id ys = map ar_attempt_id xs"
  by (induction rule: list_all2_induct) (simp_all add: attempt_move_id)

lemma append_outcome_attempts: "append_outcome ev n cs a d d' \<Longrightarrow> capture_attempts d' = capture_attempts d"
  by (auto simp: append_outcome_def split: if_splits)

text \<open>Every step keeps the invariant and every stored event.\<close>

lemma store_step_ok:
  assumes "store_step d d'" and "store_ok d"
  shows "store_ok d' \<and> preserved d d'"
  using assms
proof (induction rule: store_step.induct)
  case (append ev n cs a d d')
  have ok: "db_ok d" using append(2) by (simp add: store_ok_def)
  note pres = append_outcome_ok [OF append(1) ok] append_outcome_attempts [OF append(1)]
  with append(2) show ?case by (auto simp: store_ok_def intro: attempt_ok_preserved)
next
  case (start a d now)
  let ?d' = "d\<lparr>capture_attempts := capture_attempts d @ [attempt_row_of a now]\<rparr>"
  have pres: "preserved d ?d'" by (simp add: preserved_def)
  have "distinct (map ar_attempt_id (capture_attempts ?d'))"
    using start by (simp add: store_ok_def db_ok_def keys_ok_def select_attempt_None attempt_row_of_def)
  moreover have "attempt_ok ?d' (attempt_row_of a now)" by (simp add: attempt_ok_def attempt_row_of_def)
  ultimately show ?case using start(3) pres
    by (auto simp: store_ok_def intro!: db_ok_attempts intro: attempt_ok_preserved)
next
  case (settle d xs)
  have pres: "preserved d (d\<lparr>capture_attempts := xs\<rparr>)" by (simp add: preserved_def)
  have "attempt_ok d b" if "b \<in> set xs" for b
  proof -
    from that obtain k where "k < length xs" "b = xs ! k" by (auto simp: in_set_conv_nth)
    with settle(1) have "capture_attempts d ! k \<in> set (capture_attempts d)" "attempt_move d (capture_attempts d ! k) b"
      by (auto simp: list_all2_conv_all_nth)
    with settle(2) show ?thesis by (auto simp: store_ok_def intro: attempt_move_ok)
  qed
  moreover have "distinct (map ar_attempt_id xs)"
    using moves_ids [OF settle(1)] settle(2) by (simp add: store_ok_def db_ok_def keys_ok_def)
  ultimately show ?case using settle(2) pres
    by (auto simp: store_ok_def intro!: db_ok_attempts intro: attempt_ok_preserved)
qed

end
