(* ===== verification/StoreMachine.thy ===== *)
theory StoreMachine
  imports Recovery
begin

text \<open>
  The store as a machine whose steps are calls of its operations, with every possible
  behaviour of the driver and of the connections, and the properties of the capture attempts.
\<close>

section \<open>Calls\<close>

inductive op_call :: "store \<Rightarrow> store \<Rightarrow> bool" where
  call_append: "AppendEvent (Some reader_read) ev n (s, r) = (res, (s', r')) \<Longrightarrow> op_call s s'"
| call_capture: "AppendEvent (Some (limit_read reader_read)) ev n (s, nr) = (res, (s', nr')) \<Longrightarrow> op_call s s'"
| call_begin: "BeginCaptureAttempt a s = (res, s') \<Longrightarrow> op_call s s'"
| call_complete: "CompleteCaptureAttempt i s = (res, s') \<Longrightarrow> op_call s s'"
| call_mark: "MarkCaptureIncomplete i stage s = (res, s') \<Longrightarrow> op_call s s'"
| call_recover: "RecoverPendingCaptures s = (res, s') \<Longrightarrow> op_call s s'"
| call_attempt: "CaptureAttempt i s = (res, s') \<Longrightarrow> op_call s s'"
| call_metadata: "EventMetadata i s = (res, s') \<Longrightarrow> op_call s s'"
| call_read: "ReadEventEvidence i offset limit (Some writer_write) (s, w) = (res, (s', w')) \<Longrightarrow> op_call s s'"
| call_search: "SearchEvents fts query limit s = (found, s') \<Longrightarrow> op_call s s'"
| call_count: "EventCount i s = (num, s') \<Longrightarrow> op_call s s'"
| environment: "op_call s (s\<lparr>faults := fs\<rparr>)"

lemma same_db_faults_both [simp]:
  "same_db (s\<lparr>faults := fs\<rparr>) t = same_db s t" "same_db s (t\<lparr>faults := fs\<rparr>) = same_db s t"
proof -
  show "same_db (s\<lparr>faults := fs\<rparr>) t = same_db s t" by (simp add: same_db_def)
  have "t = s\<lparr>faults := faults t\<rparr>" if "t\<lparr>faults := fs\<rparr> = s\<lparr>faults := gs\<rparr>" for gs
    using that by (cases s, cases t) simp
  then show "same_db s (t\<lparr>faults := fs\<rparr>) = same_db s t" by (auto simp: same_db_def)
qed

text \<open>Queries change nothing but the position in the fault script.\<close>

lemma CaptureAttempt_wp: "wp (CaptureAttempt i) (\<lambda>_ t. same_db s t) (\<lambda>_ t. same_db s t) s"
  unfolding CaptureAttempt_def scan_row_def
  by (intro wp_intros wp_of_sum) (auto elim: same_db_trans)

lemma EventMetadata_wp_any: "wp (EventMetadata i) (\<lambda>_ t. same_db s t) (\<lambda>_ t. same_db s t) s"
  unfolding EventMetadata_def
  by (intro wp_intros) (auto elim: same_db_trans)

lemma read_chunks_wp_any:
  "wp (read_chunks wr n offset rows k written remaining) (\<lambda>_ (t, w'). same_db s t) (\<lambda>_ (t, w'). same_db s t) (s, w)"
proof (induction rows arbitrary: s w k written remaining)
  case Nil
  show ?case by (simp add: wp_simps)
next
  case (Cons row rows)
  have dest: "wp (write_dest wr p) (\<lambda>_ (t, w'). t = s) (\<lambda>_ (t, w'). t = s) (s, w)" for p s w
    by (auto simp: wp_def write_dest_def split: prod.splits option.splits)
  show ?case
    unfolding read_chunks.simps Let_def
    by (intro wp_intros wp_mono [OF dest])
      (auto simp: wp_simps elim: same_db_trans intro!: wp_mono [OF Cons.IH])
qed

lemma ReadEventEvidence_wp_any:
  "wp (ReadEventEvidence i offset limit (Some wr)) (\<lambda>_ (t, w'). same_db s t) (\<lambda>_ (t, w'). same_db s t) (s, w)"
  unfolding ReadEventEvidence_def option.case Let_def
  by (intro wp_intros wp_mono [OF EventMetadata_wp_any] wp_mono [OF read_chunks_wp_any])
    (auto elim: same_db_trans intro!: wp_intros)

lemma SearchEvents_wp_any: "wp (SearchEvents fts query limit) (\<lambda>_ t. same_db s t) (\<lambda>_ t. same_db s t) s"
proof -
  have scan: "wp (scan_references rs) (\<lambda>_ t. same_db s t) (\<lambda>_ t. same_db s t) s" for rs s
  proof (induction rs arbitrary: s)
    case Nil
    show ?case unfolding scan_references.simps by (intro wp_intros) auto
  next
    case (Cons r rs)
    show ?case unfolding scan_references.simps by (intro wp_intros wp_mono [OF Cons.IH]) auto
  qed
  show ?thesis
    unfolding SearchEvents_def by (intro wp_intros wp_mono [OF scan]) auto
qed

lemma EventCount_wp_any: "wp (EventCount i) (\<lambda>_ t. same_db s t) (\<lambda>_ t. same_db s t) s"
  unfolding EventCount_def by (intro wp_intros) auto

text \<open>Every call takes a committed step of the store, or none.\<close>

lemma wp_state: "wp m (\<lambda>_. P) (\<lambda>_. P) s \<Longrightarrow> m s = (res, s') \<Longrightarrow> P s'"
  by (cases res) (simp_all add: wp_def)

lemma op_call_step:
  assumes "op_call s s'" and "working s = None" and "keys_ok (committed s)"
  shows "working s' = None \<and> store_step (committed s) (committed s')"
  using assms
proof (induction rule: op_call.induct)
  case (call_append ev n s r res s' r')
  show ?case
    using script.AppendEvent_wp [of ev n r s] call_append
    by (auto simp: wp_def store_step_refl split: sum.splits intro: store_step.append)
next
  case (call_capture ev n s nr res s' nr')
  show ?case
    using limited_script.AppendEvent_wp [of ev n nr s] call_capture
    by (auto simp: wp_def store_step_refl split: sum.splits intro: store_step.append)
next
  case (call_begin a s res s')
  have "wp (BeginCaptureAttempt a) (\<lambda>_ t. working t = None \<and> store_step (committed s) (committed t))
      (\<lambda>_ t. working t = None \<and> store_step (committed s) (committed t)) s"
    by (rule wp_mono [OF stormy.Begin_rule [OF _ refl call_begin(2)]])
      (auto simp: store_step_refl split: option.splits intro: start)
  then show ?case using call_begin(1) by (rule wp_state)
next
  case (call_complete i s res s')
  have "wp (CompleteCaptureAttempt i) (\<lambda>_ t. working t = None \<and> store_step (committed s) (committed t))
      (\<lambda>_ t. working t = None \<and> store_step (committed s) (committed t)) s"
    by (rule wp_mono [OF stormy.Complete_rule [OF _ refl call_complete(2)]])
      (auto simp: store_step_refl dest!: select_attempt_Some dest: attempt_of_id [OF call_complete(3)]
        intro!: settled_moves attempt_move.complete)
  then show ?case using call_complete(1) by (rule wp_state)
next
  case (call_mark i stage s res s')
  have "wp (MarkCaptureIncomplete i stage) (\<lambda>_ t. working t = None \<and> store_step (committed s) (committed t))
      (\<lambda>_ t. working t = None \<and> store_step (committed s) (committed t)) s"
    by (rule wp_mono [OF stormy.MarkIncomplete_rule [OF _ refl call_mark(2)]])
      (auto simp: store_step_refl intro!: settled_moves attempt_move.fail)
  then show ?case using call_mark(1) by (rule wp_state)
next
  case (call_recover s res s')
  have "wp RecoverPendingCaptures (\<lambda>_ t. working t = None \<and> store_step (committed s) (committed t))
      (\<lambda>_ t. working t = None \<and> store_step (committed s) (committed t)) s"
    by (rule wp_mono [OF stormy.Recover_rule [OF _ refl call_recover(2,3)]])
      (auto simp: store_step_refl intro: recovered_moves [OF _ call_recover(3)])
  then show ?case using call_recover(1) by (rule wp_state)
next
  case (call_attempt i s res s')
  have "same_db s s'" using CaptureAttempt_wp call_attempt(1) by (rule wp_state)
  then show ?case using call_attempt(2) by (simp add: same_db_fields store_step_refl)
next
  case (call_metadata i s res s')
  have "same_db s s'" using EventMetadata_wp_any call_metadata(1) by (rule wp_state)
  then show ?case using call_metadata(2) by (simp add: same_db_fields store_step_refl)
next
  case (call_read i offset limit s w res s' w')
  have "same_db s s'" using ReadEventEvidence_wp_any [of i offset limit writer_write s w] call_read(1)
    by (auto simp: wp_def split: sum.splits)
  then show ?case using call_read(2) by (simp add: same_db_fields store_step_refl)
next
  case (call_search fts query limit s found s')
  have "same_db s s'" using SearchEvents_wp_any call_search(1) by (rule wp_state)
  then show ?case using call_search(2) by (simp add: same_db_fields store_step_refl)
next
  case (call_count i s num s')
  have "same_db s s'" using EventCount_wp_any call_count(1) by (rule wp_state)
  then show ?case using call_count(2) by (simp add: same_db_fields store_step_refl)
next
  case (environment s fs)
  then show ?case by (simp add: store_step_refl)
qed

lemma op_calls_ok:
  assumes "op_call\<^sup>*\<^sup>* s s'" and "working s = None" and "store_ok (committed s)"
  shows "working s' = None \<and> store_ok (committed s') \<and> preserved (committed s) (committed s')"
  using assms
proof (induction rule: rtranclp_induct)
  case base
  then show ?case by simp
next
  case (step t u)
  then have t: "working t = None" "store_ok (committed t)" "preserved (committed s) (committed t)" by simp_all
  then have "keys_ok (committed t)" by (simp add: store_ok_def db_ok_def)
  from op_call_step [OF step(2) t(1) this] store_step_ok t show ?case by (blast intro: preserved_trans)
qed

lemma op_call_ok:
  assumes "op_call s s'" and "working s = None" and "store_ok (committed s)"
  shows "store_ok (committed s')"
  using op_calls_ok [of s s'] assms by blast

section \<open>The life of an attempt\<close>

definition same_metadata :: "attempt_row \<Rightarrow> attempt_row \<Rightarrow> bool" where
  "same_metadata a b \<longleftrightarrow> b = a\<lparr>ar_status := ar_status b, ar_completed_at := ar_completed_at b, ar_failure_stage := ar_failure_stage b\<rparr>"

lemma attempt_move_life:
  "attempt_move d a b \<Longrightarrow> same_metadata a b \<and> (ar_status a \<noteq> CaptureAttemptPending \<longrightarrow> b = a)"
  by (induction rule: attempt_move.induct) (simp_all add: same_metadata_def)

lemma select_attempt_moves:
  "list_all2 (attempt_move d) xs ys \<Longrightarrow> find (\<lambda>a. ar_attempt_id a = i) xs = Some a \<Longrightarrow>
     \<exists>b. find (\<lambda>a. ar_attempt_id a = i) ys = Some b \<and> attempt_move d a b"
  by (induction rule: list_all2_induct) (auto simp: attempt_move_id split: if_splits)

lemma store_step_attempt:
  assumes "store_step d d'" and "select_attempt i d = Some a"
  shows "\<exists>b. select_attempt i d' = Some b \<and> same_metadata a b \<and> (ar_status a \<noteq> CaptureAttemptPending \<longrightarrow> b = a)"
  using assms
proof (induction rule: store_step.induct)
  case (append ev n cs r d d')
  then show ?case by (auto simp: select_attempt_def append_outcome_attempts same_metadata_def)
next
  case (start x d now)
  then show ?case by (auto simp: select_attempt_def find_append same_metadata_def)
next
  case (settle d xs)
  then show ?case using select_attempt_moves [OF settle(1)] attempt_move_life by (fastforce simp: select_attempt_def)
qed

lemma same_metadata_trans: "same_metadata a b \<Longrightarrow> same_metadata b c \<Longrightarrow> same_metadata a c"
  unfolding same_metadata_def by (cases a, cases b, cases c) simp

text \<open>
  C10: whatever calls the store receives, in any order, with any driver failures, any
  connections and any client data, starting from a database that satisfies the invariant: it is
  kept (unique keys, resolved references, sealed events that match their chunks, every
  completed attempt backed by intact evidence of its own metadata, every incomplete one with
  one of the two failure stages), no transaction stays open, and every stored event stays as it
  was.
\<close>

theorem calls_keep_invariant:
  assumes "op_call\<^sup>*\<^sup>* s s'" and "working s = None" and "store_ok (committed s)"
  shows "working s' = None \<and> store_ok (committed s') \<and> preserved (committed s) (committed s')"
  using assms by (rule op_calls_ok)

theorem calls_keep_invariant_witness:
  "store_ok (committed (fresh_after sample_event [1, 2]))"
proof -
  obtain r' where "AppendEvent (Some reader_read) sample_event 2 (fresh_store, [([1, 2], None)])
      = (Inr \<lparr>AlreadyPresent = False, ActualSize = 2, ResultSHA256 = sha256_hex [1, 2]\<rparr>, (fresh_after sample_event [1, 2], r'))"
    by (rule fresh_append [of "[1, 2]" sample_event "[]"]) simp_all
  then have "op_call\<^sup>*\<^sup>* fresh_store (fresh_after sample_event [1, 2])" by (intro r_into_rtranclp call_append)
  from calls_keep_invariant [OF this] show ?thesis by simp
qed

text \<open>
  C11: under any calls and failures an attempt that has been recorded is never lost and keeps
  its metadata for ever, and once it is completed or incomplete its whole row never changes
  again: only a pending attempt can be settled, and only once.
\<close>

theorem attempt_settled_once:
  assumes "op_call\<^sup>*\<^sup>* s s'" and "working s = None" and "store_ok (committed s)" and "select_attempt i (committed s) = Some a"
  shows "\<exists>b. select_attempt i (committed s') = Some b \<and> same_metadata a b
    \<and> (ar_status a \<noteq> CaptureAttemptPending \<longrightarrow> b = a)"
  using assms
proof (induction rule: rtranclp_induct)
  case base
  then show ?case by (simp add: same_metadata_def)
next
  case (step t u)
  then obtain b where b: "select_attempt i (committed t) = Some b" "same_metadata a b" "ar_status a \<noteq> CaptureAttemptPending \<longrightarrow> b = a"
    by auto
  have t: "working t = None" "store_ok (committed t)" using op_calls_ok [OF step(1)] step(4,5) by simp_all
  then have "store_step (committed t) (committed u)"
    using op_call_step [OF step(2)] by (simp add: store_ok_def db_ok_def)
  from store_step_attempt [OF this b(1)] b(2,3) show ?case by (auto intro: same_metadata_trans)
qed

section \<open>Calm runs of the attempt operations\<close>

lemma calm_run:
  assumes "wp m Q E s"
  obtains (ok) x s' where "m s = (Inr x, s')" and "Q x s'" | (error) e s' where "m s = (Inl e, s')" and "E e s'"
  using assms by (auto simp: wp_def split: prod.splits sum.splits)

definition begin_accepts :: "database \<Rightarrow> attempt \<Rightarrow> bool" where
  "begin_accepts d a \<longleftrightarrow> acceptable a \<and> (case select_attempt (at_AttemptID a) d of
     None \<Rightarrow> True | Some row \<Rightarrow> row_matches row a \<and> ar_status row = CaptureAttemptPending)"

lemma Begin_calm:
  assumes "faults s = []" and "working s = None" and "\<forall>row. select_attempt (at_AttemptID a) (committed s) = Some row \<longrightarrow> times_ok row"
  shows "\<exists>s'. BeginCaptureAttempt a s = (if begin_accepts (committed s) a then Inr () else Inl ErrEventConflict, s')
    \<and> (if begin_accepts (committed s) a \<and> select_attempt (at_AttemptID a) (committed s) = None
       then \<exists>now. committed s' = (committed s)\<lparr>capture_attempts := capture_attempts (committed s) @ [attempt_row_of a now]\<rparr>
              \<and> faults s' = [] \<and> working s' = None
       else committed s' = committed s)"
proof (rule calm_run [OF tranquil.Begin_rule [OF _ refl assms(2), of a]], goal_cases)
  case 1
  show ?case using assms(1) by (simp add: quiet_def)
next
  case (2 u s')
  then show ?case by (auto simp: begin_accepts_def quiet_def split: option.splits)
next
  case (3 e s')
  with assms(3) show ?case by (auto simp: begin_accepts_def)
qed

text \<open>An attempt for the sample event, and the store after it has been recorded.\<close>

definition sample_attempt :: attempt where
  "sample_attempt = \<lparr>at_AttemptID = ''a1'', at_EventID = ''e1'', at_EventType = ''provider_request'', at_ProjectID = ''p'',
     at_SessionID = ''s'', at_ExchangeID = '''', at_Encoding = ''identity'', at_ProtocolVersion = 1, at_Sequence = 0,
     at_OccurredAt = \<lparr>instant = 5, zone = 0\<rparr>, at_DeclaredSize = 2, at_Status = '''',
     at_StartedAt = zero_time, at_CompletedAt = zero_time, at_FailureStage = ''''\<rparr>"

lemma sample_acceptable [simp]: "acceptable sample_attempt"
  by (simp add: sample_attempt_def acceptable_def validAttempt_def IsZero_def maxInt_def)

lemma sample_begun:
  assumes "faults s = []" and "working s = None" and "select_attempt ''a1'' (committed s) = None"
  obtains s' now where "BeginCaptureAttempt sample_attempt s = (Inr (), s')" and "faults s' = []" and "working s' = None"
    and "committed s' = (committed s)\<lparr>capture_attempts := capture_attempts (committed s) @ [attempt_row_of sample_attempt now]\<rparr>"
proof -
  have id: "at_AttemptID sample_attempt = ''a1''" by (simp add: sample_attempt_def)
  have "begin_accepts (committed s) sample_attempt" using assms(3) by (simp add: begin_accepts_def id)
  with Begin_calm [OF assms(1,2), of sample_attempt] assms(3) that show ?thesis by (auto simp: id)
qed

theorem attempt_settled_once_witness:
  "\<exists>s now. committed s = empty_database\<lparr>capture_attempts := [attempt_row_of sample_attempt now]\<rparr>
    \<and> (\<exists>b. select_attempt ''a1'' (committed (snd (MarkCaptureIncomplete ''a1'' ''header'' s))) = Some b
         \<and> same_metadata (attempt_row_of sample_attempt now) b)"
proof -
  have none: "select_attempt ''a1'' (committed fresh_store) = None" by (simp add: select_attempt_def empty_database_def)
  obtain s now where run: "BeginCaptureAttempt sample_attempt fresh_store = (Inr (), s)" "working s = None"
    and db: "committed s = empty_database\<lparr>capture_attempts := [attempt_row_of sample_attempt now]\<rparr>"
    by (rule sample_begun [OF _ _ none]) (simp_all add: empty_database_def)
  have sel: "select_attempt ''a1'' (committed s) = Some (attempt_row_of sample_attempt now)"
    by (simp add: db select_attempt_def attempt_row_of_def sample_attempt_def)
  have "op_call\<^sup>*\<^sup>* fresh_store s" using run(1) by (intro r_into_rtranclp call_begin)
  from op_calls_ok [OF this] have ok: "store_ok (committed s)" by simp
  have "op_call\<^sup>*\<^sup>* s (snd (MarkCaptureIncomplete ''a1'' ''header'' s))"
    by (intro r_into_rtranclp call_mark [OF prod.collapse [symmetric]])
  from attempt_settled_once [OF this run(2) ok sel] db show ?thesis by blast
qed

section \<open>Properties of the attempt operations\<close>

text \<open>
  C12: \<open>BeginCaptureAttempt\<close> records an acceptable attempt under a new identifier as pending
  with exactly the given metadata; called again with the same metadata while the attempt is
  pending it succeeds and changes nothing; in every other case (metadata that is not
  acceptable, an identifier in use for another attempt, an attempt that is settled) it is
  refused with \<open>ErrEventConflict\<close> and changes nothing.
\<close>

theorem begin_is_idempotent:
  assumes "faults s = []" and "working s = None" and "\<forall>row. select_attempt (at_AttemptID a) (committed s) = Some row \<longrightarrow> times_ok row"
  shows "\<exists>s'. BeginCaptureAttempt a s = (if begin_accepts (committed s) a then Inr () else Inl ErrEventConflict, s')
    \<and> (if begin_accepts (committed s) a \<and> select_attempt (at_AttemptID a) (committed s) = None
       then \<exists>now. committed s' = (committed s)\<lparr>capture_attempts := capture_attempts (committed s) @ [attempt_row_of a now]\<rparr>
              \<and> faults s' = [] \<and> working s' = None
       else committed s' = committed s)"
  using assms by (rule Begin_calm)

theorem begin_is_idempotent_witness:
  "\<exists>s1 s2 s3. BeginCaptureAttempt sample_attempt fresh_store = (Inr (), s1)
    \<and> BeginCaptureAttempt sample_attempt s1 = (Inr (), s2) \<and> committed s2 = committed s1
    \<and> BeginCaptureAttempt (sample_attempt\<lparr>at_DeclaredSize := 3\<rparr>) s1 = (Inl ErrEventConflict, s3) \<and> committed s3 = committed s1"
proof -
  have id: "at_AttemptID sample_attempt = ''a1''" by (simp add: sample_attempt_def)
  have none: "select_attempt ''a1'' empty_database = None" by (simp add: select_attempt_def empty_database_def)
  have now: "BeginCaptureAttempt sample_attempt fresh_store
      = (Inr (), fresh_store\<lparr>committed := empty_database\<lparr>capture_attempts := [attempt_row_of sample_attempt \<lparr>instant = 1000, zone = 0\<rparr>]\<rparr>, clock := 1001\<rparr>)"
    by (simp add: BeginCaptureAttempt_def run_simps calm_simps time_now_def canonicalOccurredAt_def sample_attempt_def IsZero_def
        UTC_def validAttempt_def maxInt_def insert_attempt_def empty_database_def fresh_store_def attempt_row_of_def
        rollback_tx_def status_texts_def format_utc_def Let_def)
  define row where "row = attempt_row_of sample_attempt \<lparr>instant = 1000, zone = 0\<rparr>"
  define s1 where "s1 = fresh_store\<lparr>committed := empty_database\<lparr>capture_attempts := [row]\<rparr>, clock := 1001\<rparr>"
  have s1: "faults s1 = []" "working s1 = None" by (simp_all add: s1_def)
  have sel: "select_attempt ''a1'' (committed s1) = Some row"
    by (simp add: s1_def row_def select_attempt_def attempt_row_of_def sample_attempt_def)
  have row: "times_ok row" "row_matches row sample_attempt" "\<not> row_matches row (sample_attempt\<lparr>at_DeclaredSize := 3\<rparr>)"
    "ar_status row = CaptureAttemptPending"
    by (simp_all add: row_def attempt_row_of_def sample_attempt_def times_ok_def format_utc_def year_0_def year_10000_def row_matches_def)
  have first: "BeginCaptureAttempt sample_attempt fresh_store = (Inr (), s1)" using now by (simp add: s1_def row_def)
  have "\<exists>s2. BeginCaptureAttempt sample_attempt s1 = (Inr (), s2) \<and> committed s2 = committed s1"
    using begin_is_idempotent [OF s1, of sample_attempt] sel row by (auto simp: id begin_accepts_def)
  moreover have "\<exists>s3. BeginCaptureAttempt (sample_attempt\<lparr>at_DeclaredSize := 3\<rparr>) s1 = (Inl ErrEventConflict, s3) \<and> committed s3 = committed s1"
    using begin_is_idempotent [OF s1, of "sample_attempt\<lparr>at_DeclaredSize := 3\<rparr>"] sel row by (auto simp: id begin_accepts_def)
  ultimately show ?thesis using first by blast
qed

text \<open>
  C13: \<open>CompleteCaptureAttempt\<close> settles a pending attempt as completed exactly when the stored
  event has all of the attempt's metadata and its evidence is intact (canonical chunks of the
  declared size with the stored SHA-256); repeating it on a completed attempt succeeds and
  changes nothing; otherwise it is refused with \<open>ErrEventConflict\<close> and the attempt stays as
  it is.
\<close>

theorem complete_exactly_when_intact:
  assumes "faults s = []" and "working s = None" and "select_attempt i (committed s) = Some row"
    and "times_ok row" and "event_time_ok (committed s) (ar_event_id row)"
  shows "\<exists>s'. CompleteCaptureAttempt i s
      = (if ar_status row = CaptureAttemptCompleted \<or> ar_status row = CaptureAttemptPending \<and> evidence_complete (committed s) row
         then Inr () else Inl ErrEventConflict, s')
    \<and> (if ar_status row = CaptureAttemptPending \<and> evidence_complete (committed s) row
       then \<exists>now. committed s' = settled (\<lambda>a. ar_attempt_id a = i \<and> ar_status a = CaptureAttemptPending) CaptureAttemptCompleted now None (committed s)
       else committed s' = committed s)"
proof (rule calm_run [OF tranquil.Complete_rule [OF _ refl assms(2), of i]], goal_cases)
  case 1
  show ?case using assms(1) by (simp add: quiet_def)
qed (use assms in auto)

definition sample_begun_store :: store where
  "sample_begun_store = snd (BeginCaptureAttempt sample_attempt (fresh_after sample_event [1, 2]))"

definition sample_row :: attempt_row where
  "sample_row = attempt_row_of sample_attempt \<lparr>instant = 1001, zone = 0\<rparr>"

lemma sample_row_fields [simp]:
  "ar_status sample_row = CaptureAttemptPending" "ar_event_id sample_row = ''e1''" "ar_attempt_id sample_row = ''a1''"
  by (simp_all add: sample_row_def attempt_row_of_def sample_attempt_def)

lemma sample_begun_facts:
  shows "faults sample_begun_store = []" and "working sample_begun_store = None"
    and "committed sample_begun_store = (committed (fresh_after sample_event [1, 2]))\<lparr>capture_attempts := [sample_row]\<rparr>"
    and "evidence_complete (committed sample_begun_store) sample_row"
    and "event_time_ok (committed sample_begun_store) ''e1''"
    and "times_ok sample_row"
proof -
  let ?s = "fresh_after sample_event [1, 2]" and ?row = sample_row
  have attempts: "capture_attempts (committed ?s) = []" by (simp add: fresh_after_def empty_database_def)
  have base: "faults ?s = []" "working ?s = None" "clock ?s = 1001" by (simp_all add: fresh_after_def)
  have run: "BeginCaptureAttempt sample_attempt ?s = (Inr (), ?s\<lparr>committed := (committed ?s)\<lparr>capture_attempts := [?row]\<rparr>, clock := 1002\<rparr>)"
    using base attempts
    by (simp add: BeginCaptureAttempt_def run_simps calm_simps time_now_def canonicalOccurredAt_def sample_attempt_def IsZero_def
        UTC_def validAttempt_def maxInt_def insert_attempt_def sample_row_def attempt_row_of_def rollback_tx_def status_texts_def format_utc_def Let_def)
  have id: "ev_ID sample_event = ''e1''" by (simp add: sample_event_def)
  note facts = fresh_after_facts [of sample_event "[1, 2]", unfolded id]
  have rid: "ar_event_id ?row = ''e1''" by (simp add: sample_row_def attempt_row_of_def sample_attempt_def)
  have canon: "canonical 2 (chunk_rows ''e1'' (chunks_of [1, 2]))" by (rule canonical_chunk_rows) simp
  have complete: "evidence_complete (committed ?s) ?row"
    using canon unfolding evidence_complete_def rid facts option.case
    by (simp add: sample_row_def attempt_row_of_def sample_attempt_def sealed_row_def event_row_of_def sample_event_def
        occurred_text_def IsZero_def UTC_def format_utc_def)
  have occurs: "event_time_ok (committed ?s) ''e1''"
    unfolding event_time_ok_def facts
    by (simp add: sealed_row_def event_row_of_def occurred_text_def sample_event_def IsZero_def
        format_utc_def UTC_def year_0_def year_10000_def)
  have times: "times_ok ?row"
    by (simp add: times_ok_def sample_row_def attempt_row_of_def sample_attempt_def format_utc_def year_0_def year_10000_def)
  show "faults sample_begun_store = []" "working sample_begun_store = None"
    "committed sample_begun_store = (committed (fresh_after sample_event [1, 2]))\<lparr>capture_attempts := [sample_row]\<rparr>"
    "evidence_complete (committed sample_begun_store) sample_row" "event_time_ok (committed sample_begun_store) ''e1''" "times_ok sample_row"
    using run base complete occurs times by (simp_all add: sample_begun_store_def)
qed

theorem complete_exactly_when_intact_witness:
  "\<exists>s'. CompleteCaptureAttempt ''a1'' sample_begun_store = (Inr (), s')"
proof -
  have sel: "select_attempt ''a1'' (committed sample_begun_store) = Some sample_row"
    by (simp add: sample_begun_facts(3) select_attempt_def)
  from complete_exactly_when_intact [OF sample_begun_facts(1,2) sel] sample_begun_facts(4-6) show ?thesis by auto
qed

text \<open>
  \<open>MarkCaptureIncomplete\<close> settles a pending attempt as incomplete with the given failure
  stage, which must be \<open>header\<close> or \<open>append\<close>; repeating it with the same stage succeeds and
  changes nothing; an unknown stage, another stage for an incomplete attempt and a completed
  attempt are refused with \<open>ErrEventConflict\<close>.
\<close>

theorem mark_incomplete_spec:
  assumes "faults s = []" and "working s = None" and "select_attempt i (committed s) = Some row" and "times_ok row"
  shows "\<exists>s'. MarkCaptureIncomplete i stage s
      = (if validFailureStage stage \<and> (ar_status row = CaptureAttemptPending
             \<or> ar_status row = CaptureAttemptIncomplete \<and> coalesce (ar_failure_stage row) = stage)
         then Inr () else Inl ErrEventConflict, s')
    \<and> (if validFailureStage stage \<and> ar_status row = CaptureAttemptPending
       then \<exists>now. committed s' = settled (\<lambda>a. ar_attempt_id a = i \<and> ar_status a = CaptureAttemptPending)
              CaptureAttemptIncomplete now (Some stage) (committed s)
       else committed s' = committed s)"
proof (rule calm_run [OF tranquil.MarkIncomplete_rule [OF _ refl assms(2), of i stage]], goal_cases)
  case 1
  show ?case using assms(1) by (simp add: quiet_def)
qed (use assms in auto)

theorem mark_incomplete_spec_witness:
  "\<exists>s'. MarkCaptureIncomplete ''a1'' ''header'' sample_begun_store = (Inr (), s')"
proof -
  have sel: "select_attempt ''a1'' (committed sample_begun_store) = Some sample_row"
    by (simp add: sample_begun_facts(3) select_attempt_def)
  from mark_incomplete_spec [OF sample_begun_facts(1,2) sel sample_begun_facts(6), of "''header''"]
  show ?thesis by (auto simp: validFailureStage_def)
qed

section \<open>Properties of recovery\<close>

lemma recovered_pending:
  assumes "recovered calm d (ar_attempt_id ` set (select_pending d)) (capture_attempts d) xs" and "keys_ok d"
  shows "list_all2 (\<lambda>a a'. if ar_status a = CaptureAttemptPending
      then \<exists>b now. a' = settle_one b now a \<and> (b \<longrightarrow> evidence_complete d a) \<and> (calm \<longrightarrow> b = evidence_complete d a)
      else a' = a) (capture_attempts d) xs"
proof (rule list.rel_mono_strong [OF assms(1) [unfolded recovered_def]])
  fix a a'
  assume a: "a \<in> set (capture_attempts d)"
    and step: "if ar_attempt_id a \<in> ar_attempt_id ` set (select_pending d)
      then \<exists>b now. a' = settle_one b now a \<and> (b \<longrightarrow> evidence_complete d a) \<and> (calm \<longrightarrow> b = evidence_complete d a)
      else a' = a"
  have "ar_attempt_id a \<in> ar_attempt_id ` set (select_pending d) \<longleftrightarrow> ar_status a = CaptureAttemptPending"
    using attempt_of_id [OF assms(2) a] a by (force simp: select_pending_facts(1))
  with step show "if ar_status a = CaptureAttemptPending
      then \<exists>b now. a' = settle_one b now a \<and> (b \<longrightarrow> evidence_complete d a) \<and> (calm \<longrightarrow> b = evidence_complete d a)
      else a' = a" by (simp split: if_splits)
qed

lemma none_pending: "select_pending d = [] \<longleftrightarrow> (\<forall>a \<in> set (capture_attempts d). ar_status a \<noteq> CaptureAttemptPending)"
  unfolding set_empty [symmetric] select_pending_facts(1) by auto

lemma settled_none_pending:
  assumes "list_all2 (\<lambda>a a'. if ar_status a = CaptureAttemptPending then \<exists>b now. a' = settle_one b now a \<and> P b a else a' = a) as xs"
  shows "select_pending (d\<lparr>capture_attempts := xs\<rparr>) = []"
proof -
  have "\<forall>x \<in> set xs. ar_status x \<noteq> CaptureAttemptPending"
    if "list_all2 (\<lambda>a a'. if ar_status a = CaptureAttemptPending then \<exists>b now. a' = settle_one b now a \<and> P b a else a' = a) as xs" for as xs
    using that by (induction rule: list_all2_induct) (auto simp: settle_one_def split: if_splits)
  from this [OF assms] show ?thesis by (simp add: none_pending)
qed

lemma sample_begun_ok: "store_ok (committed sample_begun_store)"
proof -
  obtain r' where "AppendEvent (Some reader_read) sample_event 2 (fresh_store, [([1, 2], None)])
      = (Inr \<lparr>AlreadyPresent = False, ActualSize = 2, ResultSHA256 = sha256_hex [1, 2]\<rparr>, (fresh_after sample_event [1, 2], r'))"
    by (rule fresh_append [of "[1, 2]" sample_event "[]"]) simp_all
  then have "op_call fresh_store (fresh_after sample_event [1, 2])" by (rule call_append)
  then have ok: "store_ok (committed (fresh_after sample_event [1, 2]))" by (rule op_call_ok) simp_all
  have "op_call (fresh_after sample_event [1, 2]) sample_begun_store"
    unfolding sample_begun_store_def by (rule call_begin [OF prod.collapse [symmetric]])
  then show ?thesis using fresh_after_facts(2) ok by (rule op_call_ok)
qed

text \<open>
  C14: \<open>RecoverPendingCaptures\<close> is atomic under every failure of the driver: when it fails, the
  database is unchanged; when it succeeds, no attempt is pending any more, every attempt
  that was pending has been settled, as completed only with intact evidence of its metadata,
  every other attempt and all events are unchanged, and the two counts add up to the number
  of pending attempts.
\<close>

theorem recovery_is_atomic:
  assumes "RecoverPendingCaptures s = (res, s')" and "working s = None" and "store_ok (committed s)"
  shows "case res of
      Inl e \<Rightarrow> committed s' = committed s
    | Inr result \<Rightarrow> select_pending (committed s') = []
        \<and> Completed result + Incomplete result = length (select_pending (committed s))
        \<and> (\<exists>xs. committed s' = (committed s)\<lparr>capture_attempts := xs\<rparr> \<and> list_all2 (\<lambda>a a'.
             if ar_status a = CaptureAttemptPending
             then \<exists>b now. a' = settle_one b now a \<and> (b \<longrightarrow> evidence_complete (committed s) a)
             else a' = a) (capture_attempts (committed s)) xs)"
proof -
  have keys: "keys_ok (committed s)" using assms(3) by (simp add: store_ok_def db_ok_def)
  show ?thesis
  proof (cases res)
    case (Inl e)
    with wp_Inl [OF stormy.Recover_rule [OF _ refl assms(2) keys]] assms(1) show ?thesis by simp
  next
    case (Inr result)
    from wp_Inr [OF stormy.Recover_rule [OF _ refl assms(2) keys]] assms(1) Inr obtain xs where
      xs: "committed s' = (committed s)\<lparr>capture_attempts := xs\<rparr>"
        "recovered False (committed s) (ar_attempt_id ` set (select_pending (committed s))) (capture_attempts (committed s)) xs"
      and count: "Completed result + Incomplete result = length (select_pending (committed s))" by auto
    have moves: "list_all2 (\<lambda>a a'. if ar_status a = CaptureAttemptPending
        then \<exists>b now. a' = settle_one b now a \<and> (b \<longrightarrow> evidence_complete (committed s) a) else a' = a) (capture_attempts (committed s)) xs"
      using recovered_pending [OF xs(2) keys] by (simp only: simp_thms)
    have "select_pending (committed s') = []" unfolding xs(1) by (rule settled_none_pending [OF moves])
    with moves xs(1) count show ?thesis unfolding Inr sum.case by blast
  qed
qed

theorem recovery_is_atomic_witness:
  "\<exists>e s'. RecoverPendingCaptures (sample_begun_store\<lparr>faults := [None, None, None, Some CtxCanceled]\<rparr>) = (Inl e, s')
    \<and> committed s' = committed sample_begun_store"
proof -
  let ?s = "sample_begun_store\<lparr>faults := [None, None, None, Some CtxCanceled]\<rparr>"
  have ok: "store_ok (committed ?s)" using sample_begun_ok by simp
  obtain s' where run: "RecoverPendingCaptures ?s = (Inl CtxCanceled, s')"
    using sample_begun_facts(2,3)
    by (simp add: RecoverPendingCaptures_def run_simps ctx_check_def driver_step_def with_store_tx_def begin_tx_def query_tx_def
        select_pending_def)
  from recovery_is_atomic [OF run _ ok] sample_begun_facts(2) run show ?thesis by simp
qed

text \<open>
  C15: nothing failing, recovery succeeds whenever the stored times can be parsed, and decides
  exactly: an attempt that was pending becomes completed if and only if its evidence is
  intact, and incomplete with the stage \<open>append\<close> otherwise; the counts are the numbers of the
  two kinds.  A second recovery finds nothing to do and changes nothing.
\<close>

theorem recovery_is_exact:
  assumes "faults s = []" and "working s = None" and "store_ok (committed s)"
    and "\<forall>row \<in> set (select_pending (committed s)). times_ok row \<and> event_time_ok (committed s) (ar_event_id row)"
  shows "\<exists>result s1 xs s2. RecoverPendingCaptures s = (Inr result, s1)
    \<and> committed s1 = (committed s)\<lparr>capture_attempts := xs\<rparr>
    \<and> list_all2 (\<lambda>a a'. if ar_status a = CaptureAttemptPending
         then \<exists>now. a' = settle_one (evidence_complete (committed s) a) now a else a' = a) (capture_attempts (committed s)) xs
    \<and> Completed result = length (filter (evidence_complete (committed s)) (select_pending (committed s)))
    \<and> Incomplete result = length (filter (\<lambda>a. \<not> evidence_complete (committed s) a) (select_pending (committed s)))
    \<and> RecoverPendingCaptures s1 = (Inr \<lparr>Completed = 0, Incomplete = 0\<rparr>, s2) \<and> committed s2 = committed s1"
proof -
  have keys: "keys_ok (committed s)" using assms(3) by (simp add: store_ok_def db_ok_def)
  have quiet: "quiet True s" using assms(1) by (simp add: quiet_def)
  from tranquil.Recover_rule [OF quiet refl assms(2) keys] obtain result s1 xs where
    run: "RecoverPendingCaptures s = (Inr result, s1)" and q1: "quiet True s1" "working s1 = None"
    and db: "committed s1 = (committed s)\<lparr>capture_attempts := xs\<rparr>"
    and rec: "recovered True (committed s) (ar_attempt_id ` set (select_pending (committed s))) (capture_attempts (committed s)) xs"
    and count: "Completed result + Incomplete result = length (select_pending (committed s))"
      "Completed result = length (filter (evidence_complete (committed s)) (select_pending (committed s)))"
    by (rule calm_run) (use assms(4) in auto)
  have moves: "list_all2 (\<lambda>a a'. if ar_status a = CaptureAttemptPending
      then \<exists>now. a' = settle_one (evidence_complete (committed s) a) now a else a' = a) (capture_attempts (committed s)) xs"
    by (rule list.rel_mono_strong [OF recovered_pending [OF rec keys]]) auto
  have "list_all2 (\<lambda>a a'. if ar_status a = CaptureAttemptPending then \<exists>b now. a' = settle_one b now a \<and> True else a' = a)
      (capture_attempts (committed s)) xs"
    by (rule list.rel_mono_strong [OF moves]) auto
  then have none: "select_pending (committed s1) = []" unfolding db by (rule settled_none_pending)
  have inc: "Incomplete result = length (filter (\<lambda>a. \<not> evidence_complete (committed s) a) (select_pending (committed s)))"
    using count sum_length_filter_compl [of "evidence_complete (committed s)" "select_pending (committed s)"] by simp
  have "store_ok (committed s1)"
    using call_recover [OF run] assms(2,3) by (rule op_call_ok)
  then have keys1: "keys_ok (committed s1)" by (simp add: store_ok_def db_ok_def)
  from tranquil.Recover_rule [OF q1(1) refl q1(2) keys1] obtain result2 s2 where
    run2: "RecoverPendingCaptures s1 = (Inr result2, s2)" and "Completed result2 + Incomplete result2 = 0"
    and "committed s2 = committed s1"
    by (rule calm_run) (use none in auto)
  then have "result2 = \<lparr>Completed = 0, Incomplete = 0\<rparr>" by (cases result2) simp
  with run db moves count inc run2 \<open>committed s2 = committed s1\<close> show ?thesis by blast
qed

theorem recovery_is_exact_witness:
  "\<exists>result s1. RecoverPendingCaptures sample_begun_store = (Inr result, s1) \<and> Completed result = 1 \<and> Incomplete result = 0"
proof -
  have pending: "select_pending (committed sample_begun_store) = [sample_row]"
    by (simp add: sample_begun_facts(3) select_pending_def)
  have "\<forall>row \<in> set (select_pending (committed sample_begun_store)). times_ok row \<and> event_time_ok (committed sample_begun_store) (ar_event_id row)"
    using sample_begun_facts(5,6) by (simp add: pending)
  from recovery_is_exact [OF sample_begun_facts(1,2) sample_begun_ok this] sample_begun_facts(4)
  show ?thesis by (auto simp: pending)
qed



end
