(* ===== verification/Search.thy ===== *)
theory Search
  imports StoreMachine
begin

text \<open>
  The full-text projection: \<open>capture_fts\<close> holds exactly the chunks that are valid UTF-8
  (an invariant of every call), so \<open>SearchEvents\<close> finds exactly the events that have such a
  chunk which matches the query.
\<close>

section \<open>The projection follows the chunks\<close>

definition index_ok :: "database \<Rightarrow> bool" where
  "index_ok d = (map (\<lambda>f. (fr_event_id f, fr_content f)) (capture_fts d)
     = map (\<lambda>c. (cr_event_id c, cr_content c)) (filter (\<lambda>c. utf8_valid (cr_content c)) (capture_event_chunks d)))"

lemma index_ok_empty [simp]: "index_ok empty_database"
  by (simp add: index_ok_def empty_database_def)

lemma indexed_chunk_rows:
  "map (\<lambda>c. (cr_event_id c, cr_content c)) (filter (\<lambda>c. utf8_valid (cr_content c)) (chunk_rows i cs))
     = map (\<lambda>c. (i, c)) (filter utf8_valid cs)"
proof (induction cs rule: rev_induct)
  case Nil
  show ?case by (simp add: chunk_rows_def)
qed (simp add: chunk_rows_snoc)

lemma stamped_fts [simp]:
  "capture_fts (appended_db ev n now cs d) = capture_fts d @ fts_rows ev cs"
  by (simp add: appended_db_def Let_def add_chunks_def)

lemma store_step_index: "store_step d d' \<Longrightarrow> index_ok d \<Longrightarrow> index_ok d'"
proof (induction rule: store_step.induct)
  case (append ev n cs a d d')
  then show ?case
    by (auto simp: append_outcome_def index_ok_def indexed_chunk_rows fts_rows_def split: if_splits)
qed (simp_all add: index_ok_def)

lemma op_calls_index:
  assumes "op_call\<^sup>*\<^sup>* s s'" and "working s = None" and "store_ok (committed s)" and "index_ok (committed s)"
  shows "index_ok (committed s')"
  using assms
proof (induction rule: rtranclp_induct)
  case base
  then show ?case by simp
next
  case (step t u)
  have "working t = None" "keys_ok (committed t)"
    using op_calls_ok [OF step(1,4,5)] by (simp_all add: store_ok_def db_ok_def)
  from op_call_step [OF step(2) this] step.IH step.prems show ?case by (blast intro: store_step_index)
qed

section \<open>What a search returns\<close>

definition matching_events :: "(bytes \<Rightarrow> bool) \<Rightarrow> database \<Rightarrow> event_row set" where
  "matching_events match d = {e \<in> set (capture_events d).
     \<exists>c \<in> set (select_chunks (er_id e) d). utf8_valid (cr_content c) \<and> match (cr_content c)}"

lemma select_chunks_set: "set (select_chunks i d) = {c \<in> set (capture_event_chunks d). cr_event_id c = i}"
  by (auto simp: select_chunks_def)

lemma indexed_pairs:
  "index_ok d \<Longrightarrow> (\<exists>f \<in> set (capture_fts d). fr_event_id f = i \<and> P (fr_content f))
     \<longleftrightarrow> (\<exists>c \<in> set (select_chunks i d). utf8_valid (cr_content c) \<and> P (cr_content c))"
proof -
  assume ok: "index_ok d"
  have "(\<exists>f \<in> set (capture_fts d). fr_event_id f = i \<and> P (fr_content f))
      \<longleftrightarrow> (\<exists>p \<in> set (map (\<lambda>f. (fr_event_id f, fr_content f)) (capture_fts d)). fst p = i \<and> P (snd p))" by auto
  also have "\<dots> \<longleftrightarrow> (\<exists>c \<in> set (select_chunks i d). utf8_valid (cr_content c) \<and> P (cr_content c))"
    unfolding ok [unfolded index_ok_def] select_chunks_set by auto
  finally show ?thesis .
qed

lemma found_references_spec:
  assumes "index_ok d"
  shows "set (found_references match d) = reference_of ` matching_events match d"
    and "distinct (found_references match d)" and "sorted (map reference_key (found_references match d))"
proof -
  have "set (found_references match d)
      = reference_of ` {e \<in> set (capture_events d). \<exists>f \<in> set (capture_fts d). fr_event_id f = er_id e \<and> match (fr_content f)}"
    by (fastforce simp: found_references_def)
  then show "set (found_references match d) = reference_of ` matching_events match d"
    by (simp add: indexed_pairs [OF assms] matching_events_def)
qed (simp_all add: found_references_def distinct_sort)

lemma scan_references_Inr:
  "scan_references rs s = (Inr found, s') \<Longrightarrow> found = rs \<and> same_db s s'"
proof (induction rs arbitrary: s found)
  case Nil
  then show ?case by (auto simp: run_simps driver_step_def split: list.splits option.splits)
next
  case (Cons r rs)
  from Cons.prems obtain s1 found' where "driver_step s = (Inr (), s1)" and rest: "scan_references rs s1 = (Inr found', s')"
    and found: "found = r # found'"
    by (auto simp: run_simps split: prod.splits sum.splits)
  moreover from this have "same_db s s1" by (auto simp: driver_step_def split: list.splits option.splits)
  ultimately show ?case using Cons.IH [OF rest] by (auto intro: same_db_trans)
qed

lemma scan_references_calm: "faults s = [] \<Longrightarrow> scan_references rs s = (Inr rs, s)"
  by (induction rs) (simp_all add: run_simps calm_simps)

lemma SearchEvents_Inr:
  assumes "SearchEvents fts query limit s = (Inr found, s')"
  shows "0 < limit \<and> (\<exists>match. fts query = Inr match \<and> found = take (nat limit) (found_references match (committed s)))"
proof -
  from assms obtain match s1 where "0 < limit" "fts query = Inr match"
    and "query_db (select_references match limit) s = (Inr (select_references match limit (committed s)), s1)"
    and "scan_references (select_references match limit (committed s)) s1 = (Inr found, s')"
    by (auto simp: SearchEvents_def run_simps query_db_def driver_step_def split: if_splits sum.splits prod.splits list.splits option.splits)
  with scan_references_Inr show ?thesis by (auto simp: select_references_def)
qed

text \<open>
  C17: after any calls on a new database, with any failures before, \<open>SearchEvents\<close> with a
  positive limit finds exactly the events one of whose chunks is valid UTF-8 and matches the
  query, each of them once, ordered by project, session, sequence and ID, and cut at the limit.
  A result that is returned under failures is never incomplete, and without failures there is a
  result unless FTS5 refuses the query.
\<close>

theorem search_exact:
  assumes "op_call\<^sup>*\<^sup>* s0 s" and "working s0 = None" and "committed s0 = empty_database" and "0 < limit"
  shows "case fts query of
      Inl e \<Rightarrow> \<forall>found s'. SearchEvents fts query limit s \<noteq> (Inr found, s')
    | Inr match \<Rightarrow> \<exists>refs. set refs = reference_of ` matching_events match (committed s) \<and> distinct refs
        \<and> sorted (map reference_key refs)
        \<and> (\<forall>found s'. SearchEvents fts query limit s = (Inr found, s') \<longrightarrow> found = take (nat limit) refs)
        \<and> (faults s = [] \<longrightarrow> SearchEvents fts query limit s = (Inr (take (nat limit) refs), s))"
proof (cases "fts query")
  case (Inl e)
  then show ?thesis using SearchEvents_Inr by fastforce
next
  case (Inr match)
  have ok: "index_ok (committed s)" using op_calls_index [OF assms(1,2)] assms(3) by simp
  have "SearchEvents fts query limit s = (Inr (take (nat limit) (found_references match (committed s))), s)" if "faults s = []"
    using that assms(4) Inr by (simp add: SearchEvents_def run_simps calm_simps scan_references_calm select_references_def)
  moreover have "found = take (nat limit) (found_references match (committed s))"
    if "SearchEvents fts query limit s = (Inr found, s')" for found s'
    using SearchEvents_Inr [OF that] Inr by simp
  ultimately show ?thesis
    unfolding Inr sum.case using found_references_spec [OF ok, of match] by blast
qed

theorem search_exact_witness:
  "SearchEvents (\<lambda>_. Inr (\<lambda>c. c = [104, 105])) ''hi'' 5 (fresh_after sample_event [104, 105])
     = (Inr [\<lparr>ref_ID = ''e1'', ref_ProjectID = ''p'', ref_SessionID = ''s'', ref_ExchangeID = '''', ref_Sequence = 0\<rparr>],
        fresh_after sample_event [104, 105])"
proof -
  let ?s = "fresh_after sample_event [104, 105]" and ?m = "\<lambda>c. c = ([104, 105] :: bytes)"
    and ?ref = "\<lparr>ref_ID = ''e1'', ref_ProjectID = ''p'', ref_SessionID = ''s'', ref_ExchangeID = '''', ref_Sequence = 0\<rparr>"
  obtain r' where "AppendEvent (Some reader_read) sample_event 2 (fresh_store, [([104, 105], None)])
      = (Inr \<lparr>AlreadyPresent = False, ActualSize = 2, ResultSHA256 = sha256_hex [104, 105]\<rparr>, (?s, r'))"
    by (rule fresh_append [of "[104, 105]" sample_event "[]"]) simp_all
  then have calls: "op_call\<^sup>*\<^sup>* fresh_store ?s" by (intro r_into_rtranclp call_append)
  have utf8: "utf8_valid [104, 105]" by code_simp
  have "matching_events ?m (committed ?s)
      = {sealed_row sample_event (occurred_text sample_event (RFC3339Nano 1000)) (RFC3339Nano 1000) 2 [104, 105]}"
    using utf8 fresh_after_facts(3) [of sample_event "[104, 105]"]
    by (auto simp: matching_events_def fresh_after_def empty_database_def chunks_of.simps chunk_rows_def)
  then have image: "reference_of ` matching_events ?m (committed ?s) = {?ref}"
    by (simp add: reference_of_def sealed_row_def event_row_of_def sample_event_def coalesce_def nullable_def)
  have single: "refs = [x]" if "set refs = {x}" "distinct refs" for refs and x :: event_reference
    using that by (cases refs) (auto simp: subset_singleton_iff)
  have "working fresh_store = None" "committed fresh_store = empty_database" "0 < (5 :: int)" by simp_all
  from search_exact [OF calls this, of "\<lambda>_. Inr ?m" "''hi''"] obtain refs where
    "set refs = reference_of ` matching_events ?m (committed ?s)" "distinct refs"
    and result: "faults ?s = [] \<longrightarrow> SearchEvents (\<lambda>_. Inr ?m) ''hi'' 5 ?s = (Inr (take (nat 5) refs), ?s)"
    unfolding sum.case by blast
  then have "refs = [?ref]" unfolding image by (intro single)
  with result fresh_after_facts(1) show ?thesis by simp
qed

end
