(* ===== verification/Handlers.thy ===== *)
theory Handlers
  imports Messages Search
begin

text \<open>
  The request handlers of \<open>internal/daemon/server.go\<close>.  A handler works on the store and on
  its connection, and returns whether the connection must be closed.  A connection is what it
  will still deliver and what has been written to it, each with its script of failures (a
  deadline that expires is one of them).  \<open>fts\<close> is what FTS5 does with a query.
\<close>

section \<open>Connections and responses\<close>

record conn =
  cn_in :: reader
  cn_out :: writer

type_synonym handler = "store \<times> conn \<Rightarrow> bool \<times> store \<times> conn"

definition send :: "protocol_response \<Rightarrow> conn \<Rightarrow> bool \<times> conn" where
  "send response c =
     (case Encode writer_write (Some (response_json response)) (cn_out c) of
        (err, w) \<Rightarrow> (err \<noteq> None, c\<lparr>cn_out := w\<rparr>))"

definition ok_response :: "string \<Rightarrow> json \<Rightarrow> protocol_response" where
  "ok_response i body = \<lparr>rs_ProtocolVersion = Version, rs_RequestID = i, rs_Status = ''ok'', rs_Body = Some body, rs_Error = None\<rparr>"

definition error_response :: "string \<Rightarrow> string \<Rightarrow> string \<Rightarrow> protocol_response" where
  "error_response i code msg =
     \<lparr>rs_ProtocolVersion = Version, rs_RequestID = i, rs_Status = ''error'', rs_Body = None,
      rs_Error = Some \<lparr>err_Code = code, err_Message = msg\<rparr>\<rparr>"

text \<open>\<open>map[string]any\<close> prints its keys in order, so the bodies below list them sorted.\<close>

definition writeOK :: "string \<Rightarrow> json \<Rightarrow> handler" where
  "writeOK i body = (\<lambda>(s, c). case send (ok_response i body) c of (b, c') \<Rightarrow> (b, s, c'))"

definition writeError :: "string \<Rightarrow> string \<Rightarrow> string \<Rightarrow> handler" where
  "writeError i code msg = (\<lambda>(s, c). case send (error_response i code msg) c of (b, c') \<Rightarrow> (b, s, c'))"

text \<open>\<open>_ = s.writeError(...); return true\<close>.\<close>

definition writeError_close :: "string \<Rightarrow> string \<Rightarrow> string \<Rightarrow> handler" where
  "writeError_close i code msg sc = (True, snd (writeError i code msg sc))"

definition storage_code :: "go_error \<Rightarrow> string \<times> string" where
  "storage_code err =
     (if errors_is err ErrEventNotFound then (''not_found'', ''event was not found'')
      else if errors_is err ErrEventConflict then (''conflict'', ''event conflicts with stored evidence'')
      else (''internal'', ''internal server error''))"

definition writeStorageError :: "string \<Rightarrow> go_error \<Rightarrow> handler" where
  "writeStorageError i err = (case storage_code err of (code, msg) \<Rightarrow> writeError i code msg)"

definition writeStorageError_close :: "string \<Rightarrow> go_error \<Rightarrow> handler" where
  "writeStorageError_close i err sc = (True, snd (writeStorageError i err sc))"

section \<open>Capturing\<close>

record capture_request =
  cp_EventID :: string
  cp_EventType :: string
  cp_ProjectID :: string
  cp_SessionID :: string
  cp_ExchangeID :: string
  cp_Sequence :: int
  cp_OccurredAt :: go_time
  cp_Encoding :: string
  cp_PayloadSize :: u64

definition capture_fields :: "string list" where
  "capture_fields = [''event_id'', ''event_type'', ''project_id'', ''session_id'', ''exchange_id'', ''sequence'',
     ''occurred_at'', ''encoding'', ''payload_size'']"

definition decode_capture :: "json \<Rightarrow> capture_request option" where
  "decode_capture v =
     Option.bind (struct_members v) (\<lambda>ms.
     Option.bind (field capture_fields ms decode_string '''' ''event_id'') (\<lambda>event_id.
     Option.bind (field capture_fields ms decode_string '''' ''event_type'') (\<lambda>event_type.
     Option.bind (field capture_fields ms decode_string '''' ''project_id'') (\<lambda>project_id.
     Option.bind (field capture_fields ms decode_string '''' ''session_id'') (\<lambda>session_id.
     Option.bind (field capture_fields ms decode_string '''' ''exchange_id'') (\<lambda>exchange_id.
     Option.bind (field capture_fields ms decode_int 0 ''sequence'') (\<lambda>sequence.
     Option.bind (field capture_fields ms decode_time zero_time ''occurred_at'') (\<lambda>occurred_at.
     Option.bind (field capture_fields ms decode_string '''' ''encoding'') (\<lambda>encoding.
     Option.bind (field capture_fields ms decode_uint64 0 ''payload_size'') (\<lambda>payload_size.
       Some \<lparr>cp_EventID = event_id, cp_EventType = event_type, cp_ProjectID = project_id, cp_SessionID = session_id,
             cp_ExchangeID = exchange_id, cp_Sequence = sequence, cp_OccurredAt = occurred_at, cp_Encoding = encoding,
             cp_PayloadSize = payload_size\<rparr>))))))))))"

definition validCapture :: "capture_request \<Rightarrow> bool" where
  "validCapture b \<longleftrightarrow> cp_EventID b \<noteq> '''' \<and> cp_EventType b \<noteq> '''' \<and> cp_ProjectID b \<noteq> '''' \<and> cp_SessionID b \<noteq> ''''
     \<and> cp_Encoding b \<noteq> '''' \<and> 0 \<le> cp_Sequence b \<and> \<not> IsZero (cp_OccurredAt b)"

definition capture_attempt :: "protocol_request \<Rightarrow> capture_request \<Rightarrow> attempt" where
  "capture_attempt rq b =
     \<lparr>at_AttemptID = rq_RequestID rq, at_EventID = cp_EventID b, at_EventType = cp_EventType b, at_ProjectID = cp_ProjectID b,
      at_SessionID = cp_SessionID b, at_ExchangeID = cp_ExchangeID b, at_Encoding = cp_Encoding b,
      at_ProtocolVersion = rq_ProtocolVersion rq, at_Sequence = cp_Sequence b, at_OccurredAt = UTC (cp_OccurredAt b),
      at_DeclaredSize = cp_PayloadSize b, at_Status = '''', at_StartedAt = zero_time, at_CompletedAt = zero_time,
      at_FailureStage = ''''\<rparr>"

definition capture_event :: "protocol_request \<Rightarrow> capture_request \<Rightarrow> event" where
  "capture_event rq b =
     \<lparr>ev_ID = cp_EventID b, ev_EventType = cp_EventType b, ev_ProjectID = cp_ProjectID b, ev_SessionID = cp_SessionID b,
      ev_ExchangeID = cp_ExchangeID b, ev_Encoding = cp_Encoding b, ev_ProtocolVersion = rq_ProtocolVersion rq,
      ev_Sequence = cp_Sequence b, ev_OccurredAt = cp_OccurredAt b\<rparr>"

definition capture_body :: "append_result \<Rightarrow> json" where
  "capture_body r = jobject [(''actual_size'', juint (ActualSize r)), (''already_present'', JBool (AlreadyPresent r)),
     (''sha256'', jstr (ResultSHA256 r))]"

definition captureAppend :: "protocol_request \<Rightarrow> handler" where
  "captureAppend rq sc =
     (let i = rq_RequestID rq in
      case unmarshal_raw decode_capture (rq_Body rq) of
        None \<Rightarrow> writeError_close i ''invalid_request'' ''capture request is invalid'' sc
      | Some body \<Rightarrow>
      if \<not> validCapture body then writeError_close i ''invalid_request'' ''capture request is invalid'' sc
      else case sc of (s, c) \<Rightarrow>
      (case BeginCaptureAttempt (capture_attempt rq body) s of
         (Inl err, s1) \<Rightarrow> writeStorageError_close i err (s1, c)
       | (Inr _, s1) \<Rightarrow>
      (case ReadEvidenceHeader (cn_in c) of (header, in1) \<Rightarrow>
       let c1 = c\<lparr>cn_in := in1\<rparr>; declared = (case header of Inr n \<Rightarrow> n | Inl _ \<Rightarrow> 0) in
       if (case header of Inl _ \<Rightarrow> True | Inr _ \<Rightarrow> declared \<noteq> cp_PayloadSize body \<or> maxInt < declared)
         then writeError_close i ''invalid_request'' ''capture evidence is invalid''
                (snd (MarkCaptureIncomplete i CaptureFailureHeader s1), c1)
       else case AppendEvent (Some (limit_read reader_read)) (capture_event rq body) declared (s1, (unat declared, in1)) of
         (result, (s2, (_, in2))) \<Rightarrow>
           let c2 = c1\<lparr>cn_in := in2\<rparr> in
           (case result of
              Inl err \<Rightarrow> writeStorageError_close i err (snd (MarkCaptureIncomplete i CaptureFailureAppend s2), c2)
            | Inr r \<Rightarrow>
                (case CompleteCaptureAttempt i s2 of
                   (Inl _, s3) \<Rightarrow> writeError_close i ''internal'' ''internal server error'' (s3, c2)
                 | (Inr _, s3) \<Rightarrow> writeOK i (capture_body r) (s3, c2))))))"

section \<open>Metadata and payloads\<close>

definition event_id_fields :: "string list" where
  "event_id_fields = [''event_id'']"

definition decode_event_id :: "json \<Rightarrow> string option" where
  "decode_event_id v = Option.bind (struct_members v) (\<lambda>ms. field event_id_fields ms decode_string '''' ''event_id'')"

definition eventMetadata :: "protocol_request \<Rightarrow> handler" where
  "eventMetadata rq sc =
     (let i = rq_RequestID rq in
      case unmarshal_raw decode_event_id (rq_Body rq) of
        None \<Rightarrow> writeError i ''invalid_request'' ''event metadata request is invalid'' sc
      | Some eventID \<Rightarrow>
      if eventID = '''' then writeError i ''invalid_request'' ''event metadata request is invalid'' sc
      else case sc of (s, c) \<Rightarrow>
      (case EventMetadata eventID s of
         (Inl err, s1) \<Rightarrow> writeStorageError i err (s1, c)
       | (Inr m, s1) \<Rightarrow> writeOK i (jobject [(''event_id'', jstr eventID), (''sha256'', jstr (MetadataSHA256 m)),
                              (''total_size'', juint (TotalSize m))]) (s1, c)))"

record payload_request =
  pl_EventID :: string
  pl_Offset :: u64
  pl_Limit :: u64

definition payload_fields :: "string list" where
  "payload_fields = [''event_id'', ''offset'', ''limit'']"

definition decode_payload :: "json \<Rightarrow> payload_request option" where
  "decode_payload v =
     Option.bind (struct_members v) (\<lambda>ms.
     Option.bind (field payload_fields ms decode_string '''' ''event_id'') (\<lambda>event_id.
     Option.bind (field payload_fields ms decode_uint64 0 ''offset'') (\<lambda>offset.
     Option.bind (field payload_fields ms decode_uint64 0 ''limit'') (\<lambda>limit.
       Some \<lparr>pl_EventID = event_id, pl_Offset = offset, pl_Limit = limit\<rparr>))))"

definition payload_length :: "u64 \<Rightarrow> u64 \<Rightarrow> u64 \<Rightarrow> u64" where
  "payload_length total_size offset limit =
     (let len = (if total_size \<le> offset then 0 else total_size - offset) in
      if limit \<noteq> 0 \<and> limit < len then limit else len)"

definition payload_body :: "payload_request \<Rightarrow> event_metadata \<Rightarrow> json" where
  "payload_body b m = jobject [(''event_id'', jstr (pl_EventID b)), (''limit'', juint (pl_Limit b)), (''offset'', juint (pl_Offset b)),
     (''sha256'', jstr (MetadataSHA256 m)), (''total_size'', juint (TotalSize m))]"

definition readPayload :: "protocol_request \<Rightarrow> handler" where
  "readPayload rq sc =
     (let i = rq_RequestID rq in
      case unmarshal_raw decode_payload (rq_Body rq) of
        None \<Rightarrow> writeError i ''invalid_request'' ''payload request is invalid'' sc
      | Some body \<Rightarrow>
      if pl_EventID body = '''' then writeError i ''invalid_request'' ''payload request is invalid'' sc
      else case sc of (s, c) \<Rightarrow>
      (case EventMetadata (pl_EventID body) s of
         (Inl err, s1) \<Rightarrow> writeStorageError i err (s1, c)
       | (Inr m, s1) \<Rightarrow>
      (case writeOK i (payload_body body m) (s1, c) of (failed, s2, c2) \<Rightarrow>
       if failed then (True, s2, c2)
       else case WriteEvidenceHeader writer_write (payload_length (TotalSize m) (pl_Offset body) (pl_Limit body)) (cn_out c2) of
         (Some _, w3) \<Rightarrow> (True, s2, c2\<lparr>cn_out := w3\<rparr>)
       | (None, w3) \<Rightarrow>
           (case ReadEventEvidence (pl_EventID body) (pl_Offset body) (pl_Limit body) (Some writer_write) (s2, w3) of
              (Inl _, (s4, w4)) \<Rightarrow> (True, s4, c2\<lparr>cn_out := w4\<rparr>)
            | (Inr _, (s4, w4)) \<Rightarrow> (False, s4, c2\<lparr>cn_out := w4\<rparr>)))))"

section \<open>Searching\<close>

definition maxSearchQueryLength :: nat where
  "maxSearchQueryLength = 4096"

definition maxSearchResults :: int where
  "maxSearchResults = 100"

record search_request =
  sq_Query :: string
  sq_Limit :: int

definition search_fields :: "string list" where
  "search_fields = [''query'', ''limit'']"

definition decode_search :: "json \<Rightarrow> search_request option" where
  "decode_search v =
     Option.bind (struct_members v) (\<lambda>ms.
     Option.bind (field search_fields ms decode_string '''' ''query'') (\<lambda>query.
     Option.bind (field search_fields ms decode_int 0 ''limit'') (\<lambda>limit.
       Some \<lparr>sq_Query = query, sq_Limit = limit\<rparr>)))"

definition reference_json :: "event_reference \<Rightarrow> json" where
  "reference_json r = jobject [(''id'', jstr (ref_ID r)), (''project_id'', jstr (ref_ProjectID r)),
     (''session_id'', jstr (ref_SessionID r)), (''exchange_id'', jstr (ref_ExchangeID r)), (''sequence'', jint (ref_Sequence r))]"

text \<open>A search without results returns the nil slice, which prints as \<open>null\<close>.\<close>

definition search_body :: "event_reference list \<Rightarrow> json" where
  "search_body events = jobject [(''events'', if events = [] then JNull else JArr (map reference_json events))]"

definition searchEvents :: "full_text \<Rightarrow> protocol_request \<Rightarrow> handler" where
  "searchEvents fts rq sc =
     (let i = rq_RequestID rq in
      case unmarshal_raw decode_search (rq_Body rq) of
        None \<Rightarrow> writeError i ''invalid_request'' ''search request is invalid'' sc
      | Some body \<Rightarrow>
      if sq_Query body = '''' \<or> maxSearchQueryLength < length (sq_Query body) \<or> sq_Limit body < 0 \<or> maxSearchResults < sq_Limit body
        then writeError i ''invalid_request'' ''search request is invalid'' sc
      else let limit = (if sq_Limit body = 0 then maxSearchResults else sq_Limit body) in
      case sc of (s, c) \<Rightarrow>
      (case SearchEvents fts (sq_Query body) limit s of
         (Inl err, s1) \<Rightarrow> writeStorageError i err (s1, c)
       | (Inr events, s1) \<Rightarrow> writeOK i (search_body events) (s1, c)))"

section \<open>Dispatch\<close>

text \<open>\<open>running\<close> is what \<open>s.running()\<close> answers while the request is handled.\<close>

definition health_body :: json where
  "health_body = jobject [(''status'', jstr ''healthy''), (''version'', jint Version)]"

definition info_body :: json where
  "info_body = jobject [(''version'', jint Version)]"

definition handleRequest :: "full_text \<Rightarrow> bool \<Rightarrow> protocol_request \<Rightarrow> handler" where
  "handleRequest fts running rq sc =
     (let i = rq_RequestID rq; op = rq_Operation rq in
      if rq_ProtocolVersion rq \<noteq> Version then writeError i ''unsupported_protocol'' ''protocol version is not supported'' sc
      else if i = '''' \<or> op = '''' then writeError i ''invalid_request'' ''request is invalid'' sc
      else if op = ''system.hello'' \<or> op = ''system.health''
        then (if \<not> running then (True, sc) else writeOK i health_body sc)
      else if op = ''system.info'' then (if \<not> running then (True, sc) else writeOK i info_body sc)
      else if op = ''capture.append'' then captureAppend rq sc
      else if op = ''event.metadata'' then eventMetadata rq sc
      else if op = ''event.read_payload'' then readPayload rq sc
      else if op = ''search.events'' then searchEvents fts rq sc
      else writeError i ''unsupported_operation'' ''operation is not supported'' sc)"

end
