(* ===== verification/Serving.thy ===== *)
theory Serving
  imports Handlers
begin

text \<open>
  What the handlers do to the two things they share with the rest of the daemon: the store only
  sees calls of its operations, and the connection is only read forward.  The second makes the
  loop of \<open>serveConnection\<close> end, as every request takes at least the eight bytes of a header.
\<close>

section \<open>Reading forward\<close>

definition forward :: "reader \<Rightarrow> reader \<Rightarrow> bool" where
  "forward r r' = (\<exists>d. stream r = d @ stream r')"

lemma forward_refl [simp]: "forward r r"
  by (simp add: forward_def)

lemma forward_trans: "forward r s \<Longrightarrow> forward s t \<Longrightarrow> forward r t"
  unfolding forward_def by (metis append.assoc)

lemma forward_length: "forward r r' \<Longrightarrow> length (stream r') \<le> length (stream r)"
  by (auto simp: forward_def)

lemma read_full_from_forward: "read_full_from got k r = (res, r') \<Longrightarrow> forward r r'"
proof (induction got k r rule: read_full_from.induct)
  case (1 got k r)
  show ?case
  proof (cases "k \<le> length got")
    case True
    with "1.prems" show ?thesis by (simp add: read_full_from.simps [of got k r])
  next
    case False
    obtain d e r1 where rd: "reader_read (k - length got) r = (d, e, r1)" by (cases "reader_read (k - length got) r")
    have step: "forward r r1" using script.rd_pend [OF rd] by (auto simp: forward_def)
    show ?thesis
    proof (cases e)
      case None
      with "1.prems" rd False "1.IH" [OF False rd [symmetric] refl None] step show ?thesis
        by (auto simp: read_full_from.simps [of got k r] intro: forward_trans)
    next
      case (Some err)
      with "1.prems" rd False step show ?thesis
        by (auto simp: read_full_from.simps [of got k r] split: if_splits)
    qed
  qed
qed

lemma read_full_forward: "read_full k r = (res, r') \<Longrightarrow> forward r r'"
  unfolding read_full_def by (rule read_full_from_forward)

lemma ReadEvidenceHeader_forward: "ReadEvidenceHeader r = (res, r') \<Longrightarrow> forward r r'"
  by (auto simp: ReadEvidenceHeader_def split: prod.splits sum.splits dest: read_full_forward)

lemma ReadFrame_forward: "ReadFrame r = (res, r') \<Longrightarrow> forward r r'"
  by (auto simp: ReadFrame_def Let_def split: prod.splits sum.splits if_splits
      dest!: read_full_forward intro: forward_trans)

text \<open>A frame that was read took its header at least.\<close>

lemma ReadFrame_consumes:
  assumes "ReadFrame r = (Inr payload, r')"
  shows "length (stream r') < length (stream r)"
proof -
  from assms obtain header r1 where hd: "read_full 8 r = (Inr header, r1)" and rest: "forward r1 r'"
    by (auto simp: ReadFrame_def Let_def split: prod.splits sum.splits if_splits dest: read_full_forward)
  from read_full_sound [OF hd] have "length (stream r) = 8 + length (stream r1)" by simp
  with forward_length [OF rest] show ?thesis by simp
qed

lemma Decode_consumes: "Decode dec r = (Inr x, r') \<Longrightarrow> length (stream r') < length (stream r)"
  by (auto simp: Decode_def split: prod.splits sum.splits option.splits dest: ReadFrame_consumes)

section \<open>Appending reads forward, also when it fails\<close>

context io_reader
begin

lemma consume_loop_forward:
  "wp (consumeEvidence_loop rd consume remaining idx hashed) (\<lambda>_ (s', r'). \<exists>d. pend r = d @ pend r')
     (\<lambda>_ (s', r'). \<exists>d. pend r = d @ pend r') (s, r)"
proof (induction "unat remaining" arbitrary: remaining idx hashed s r rule: less_induct)
  case less
  show ?case
  proof (cases "remaining = 0")
    case True
    then show ?thesis by (simp add: wp_def)
  next
    case False
    let ?k = "unat (minUint64 ChunkSize remaining)"
    obtain ch s1 where ctx: "ctx_check s = (ch, s1)" by (cases "ctx_check s")
    obtain chunk err r1 where rd: "rd ?k r = (chunk, err, r1)" by (cases "rd ?k r")
    obtain res s2 where cb: "(if 0 < length chunk then consume idx chunk s1 else (Inr (), s1)) = (res, s2)"
      by (cases "if 0 < length chunk then consume idx chunk s1 else (Inr (), s1)")
    have pend: "pend r = chunk @ pend r1" and len: "length chunk \<le> ?k" using rd_pend [OF rd] rd_length [OF rd] by simp_all
    have again: "wp (consumeEvidence_loop rd consume (remaining - of_nat (length chunk)) (idx + 1) (hashed @ chunk))
        (\<lambda>_ (s', r'). \<exists>d. pend r = d @ pend r') (\<lambda>_ (s', r'). \<exists>d. pend r = d @ pend r') (s2, r1)" if "chunk \<noteq> []"
    proof -
      have "unat (remaining - of_nat (length chunk)) < unat remaining"
        using unat_remaining_chunk [OF len] that False by (simp add: unat_gt_0 diff_less)
      from less.hyps [OF this] show ?thesis
        by (rule wp_mono) (auto simp: pend)
    qed
    show ?thesis
      using False ctx rd cb pend again
      by (auto simp: consumeEvidence_loop.simps [of rd consume remaining] wp_def Let_def split: sum.splits)
  qed
qed

lemma consumeEvidence_forward:
  "wp (consumeEvidence rd consume n) (\<lambda>_ (s', r'). \<exists>d. pend r = d @ pend r') (\<lambda>_ (s', r'). \<exists>d. pend r = d @ pend r') (s, r)"
  unfolding consumeEvidence_def by (intro wp_intros wp_mono [OF consume_loop_forward]) (auto simp: wp_simps)

end

text \<open>A program on a store and a reader that only reads on, whatever its result.\<close>

definition reads_on :: "('r \<Rightarrow> bytes) \<Rightarrow> (store \<times> 'r, 'a) prog \<Rightarrow> bool" where
  "reads_on pend m = (\<forall>s r. wp m (\<lambda>_ (s', r'). \<exists>d. pend r = d @ pend r') (\<lambda>_ (s', r'). \<exists>d. pend r = d @ pend r') (s, r))"

named_theorems reads_intros "programs that only read on"

lemma reads_lift [reads_intros]: "reads_on pend (lift_store m)"
  by (auto simp: reads_on_def wp_def lift_store_def split: prod.splits sum.splits)

lemma reads_gret [reads_intros]: "reads_on pend (gret x)" and reads_gthrow [reads_intros]: "reads_on pend (gthrow e)"
  by (simp_all add: reads_on_def wp_simps)

lemma reads_step:
  assumes "reads_on pend m" and "pend r0 = d0 @ pend r"
  shows "wp m (\<lambda>_ (s', r'). \<exists>d. pend r0 = d @ pend r') (\<lambda>_ (s', r'). \<exists>d. pend r0 = d @ pend r') (s, r)"
  by (rule wp_mono [OF assms(1) [unfolded reads_on_def, rule_format]]) (auto simp: assms(2))

lemma reads_gbind [reads_intros]:
  assumes "reads_on pend m" and "\<And>x. reads_on pend (f x)"
  shows "reads_on pend (gbind m f)"
  unfolding reads_on_def wp_gbind
proof (intro allI, rule wp_mono [OF assms(1) [unfolded reads_on_def, rule_format]], goal_cases)
  case (1 s r x s')
  then show ?case by (auto intro: reads_step [OF assms(2)])
qed auto

lemma reads_gtry [reads_intros]:
  assumes "reads_on pend m" and "\<And>x. reads_on pend (f x)"
  shows "reads_on pend (gtry m f)"
  unfolding reads_on_def wp_gtry
proof (intro allI, rule wp_mono [OF assms(1) [unfolded reads_on_def, rule_format]], goal_cases)
  case (1 s r x s')
  then show ?case by (auto intro: reads_step [OF assms(2)])
next
  case (2 s r e s')
  then show ?case by (auto intro: reads_step [OF assms(2)])
qed

lemma reads_with_tx [reads_intros]: "reads_on pend m \<Longrightarrow> reads_on pend (with_tx m)"
  unfolding with_tx_def
  by (rule reads_gbind [OF reads_lift]) (fastforce simp: reads_on_def wp_def split: prod.splits sum.splits)

lemma reads_if [reads_intros]: "reads_on pend m \<Longrightarrow> reads_on pend n \<Longrightarrow> reads_on pend (if b then m else n)"
  by simp

lemma reads_case_sum [reads_intros]:
  "(\<And>e. reads_on pend (f e)) \<Longrightarrow> (\<And>x. reads_on pend (g x)) \<Longrightarrow> reads_on pend (case r of Inl e \<Rightarrow> f e | Inr x \<Rightarrow> g x)"
  by (cases r) simp_all

lemma reads_case_prod [reads_intros]:
  "(\<And>a b. reads_on pend (f a b)) \<Longrightarrow> reads_on pend (case p of (a, b) \<Rightarrow> f a b)"
  by (cases p) simp

context io_reader
begin

lemma reads_consume: "reads_on pend (consumeEvidence rd consume n)"
  unfolding reads_on_def using consumeEvidence_forward by blast

lemma AppendEvent_forward: "reads_on pend (AppendEvent (Some rd) ev n)"
  unfolding AppendEvent_def append_existing_def append_new_def option.case Let_def
  by (intro reads_intros reads_consume)

end

text \<open>The limited connection delivers the next part of the connection itself.\<close>

interpretation limited_rest: io_reader "limit_read reader_read" "\<lambda>nr. stream (snd nr)"
proof unfold_locales
  fix k nr d e nr'
  assume read: "limit_read reader_read k nr = (d, e, nr')"
  then show "length d \<le> k" by (rule script.limit_read_length)
  from read show "stream (snd nr) = d @ stream (snd nr')"
    by (auto simp: limit_read_def split: prod.splits if_splits dest: script.rd_pend)
qed

lemma AppendEvent_limited_forward:
  assumes "AppendEvent (Some (limit_read reader_read)) ev n (s, nr) = (res, (s', nr'))"
  shows "forward (snd nr) (snd nr')"
  using limited_rest.AppendEvent_forward [of ev n, unfolded reads_on_def, THEN spec [of _ s], THEN spec [of _ nr]] assms
  by (auto simp: wp_def forward_def split: sum.splits)

section \<open>Handlers read forward\<close>

lemma send_in: "send rs c = (b, c') \<Longrightarrow> cn_in c' = cn_in c"
  by (auto simp: send_def split: prod.splits)

lemma writeOK_keeps: "writeOK i body (s, c) = (b, s', c') \<Longrightarrow> s' = s \<and> cn_in c' = cn_in c"
  by (auto simp: writeOK_def split: prod.splits dest: send_in)

lemma writeError_keeps: "writeError i code msg (s, c) = (b, s', c') \<Longrightarrow> s' = s \<and> cn_in c' = cn_in c"
  by (auto simp: writeError_def split: prod.splits dest: send_in)

lemma writeStorageError_keeps: "writeStorageError i err (s, c) = (b, s', c') \<Longrightarrow> s' = s \<and> cn_in c' = cn_in c"
  by (auto simp: writeStorageError_def split: prod.splits dest: writeError_keeps)

lemma close_keeps:
  "writeError_close i code msg (s, c) = (b, s', c') \<Longrightarrow> b \<and> s' = s \<and> cn_in c' = cn_in c"
  "writeStorageError_close i err (s, c) = (b, s', c') \<Longrightarrow> b \<and> s' = s \<and> cn_in c' = cn_in c"
  by (cases "writeError i code msg (s, c)", use writeError_keeps in \<open>fastforce simp: writeError_close_def\<close>)
    (cases "writeStorageError i err (s, c)", use writeStorageError_keeps in \<open>fastforce simp: writeStorageError_close_def\<close>)

lemmas write_keeps = writeOK_keeps writeError_keeps writeStorageError_keeps close_keeps

text \<open>What a handler does to the store and the connection, whatever happens.\<close>

definition well_behaved :: "handler \<Rightarrow> bool" where
  "well_behaved h = (\<forall>s c b s' c'. h (s, c) = (b, s', c') \<longrightarrow> op_call\<^sup>*\<^sup>* s s' \<and> forward (cn_in c) (cn_in c'))"

lemma mark_call: "op_call s (snd (MarkCaptureIncomplete i stage s))"
  by (rule call_mark [OF prod.collapse [symmetric]])

lemma captureAppend_behaved: "well_behaved (captureAppend rq)"
  unfolding well_behaved_def
proof (intro allI impI)
  fix s c b s' c'
  assume run: "captureAppend rq (s, c) = (b, s', c')"
  let ?i = "rq_RequestID rq"
  show "op_call\<^sup>*\<^sup>* s s' \<and> forward (cn_in c) (cn_in c')"
  proof (cases "unmarshal_raw decode_capture (rq_Body rq)")
    case None
    with run show ?thesis by (auto simp: captureAppend_def dest: write_keeps)
  next
    case (Some body)
    show ?thesis
    proof (cases "validCapture body")
      case False
      with run Some show ?thesis by (auto simp: captureAppend_def dest: write_keeps)
    next
      case True
      obtain began s1 where began: "BeginCaptureAttempt (capture_attempt rq body) s = (began, s1)"
        by (cases "BeginCaptureAttempt (capture_attempt rq body) s")
      then have s1: "op_call\<^sup>*\<^sup>* s s1" by (intro r_into_rtranclp call_begin)
      obtain hd in1 where hd: "ReadEvidenceHeader (cn_in c) = (hd, in1)" by (cases "ReadEvidenceHeader (cn_in c)")
      note in1 = ReadEvidenceHeader_forward [OF hd]
      let ?n = "case hd of Inr n \<Rightarrow> n | Inl _ \<Rightarrow> 0"
      obtain res s2 k in2 where app: "AppendEvent (Some (limit_read reader_read)) (capture_event rq body) ?n (s1, (unat ?n, in1))
          = (res, (s2, (k, in2)))" by (metis prod_cases3 prod.collapse)
      have in2: "forward in1 in2" using AppendEvent_limited_forward [OF app] by simp
      have s2: "op_call s1 s2" using app by (rule call_capture)
      obtain fin s3 where fin: "CompleteCaptureAttempt ?i s2 = (fin, s3)" by (cases "CompleteCaptureAttempt ?i s2")
      then have s3: "op_call s2 s3" by (rule call_complete)
      show ?thesis
        using run Some True s1 in1 in2 began hd app fin rtranclp.rtrancl_into_rtrancl [OF s1 s2] s3 mark_call [of s1] mark_call [of s2]
        by (auto simp: captureAppend_def Let_def split: sum.splits if_splits dest!: write_keeps
            intro: rtranclp.rtrancl_into_rtrancl forward_trans)
    qed
  qed
qed

lemma writes_behaved:
  "well_behaved (writeOK i body)" "well_behaved (writeError i code msg)"
  by (auto simp: well_behaved_def dest: write_keeps)

lemma eventMetadata_behaved: "well_behaved (eventMetadata rq)"
  by (auto simp: well_behaved_def eventMetadata_def Let_def split: option.splits if_splits sum.splits prod.splits
      dest!: write_keeps dest: call_metadata)

lemma searchEvents_behaved: "well_behaved (searchEvents fts rq)"
  by (auto simp: well_behaved_def searchEvents_def Let_def split: option.splits if_splits sum.splits prod.splits
      dest!: write_keeps dest: call_search)

lemma readPayload_behaved: "well_behaved (readPayload rq)"
  by (auto simp: well_behaved_def readPayload_def Let_def split: option.splits if_splits sum.splits prod.splits
      dest!: write_keeps dest: call_metadata call_read intro: rtranclp.rtrancl_into_rtrancl [OF r_into_rtranclp])

lemma handleRequest_behaved: "well_behaved (handleRequest fts running rq)"
  unfolding handleRequest_def Let_def
  by (auto simp: well_behaved_def split: if_splits dest: writes_behaved [unfolded well_behaved_def, rule_format]
      captureAppend_behaved [unfolded well_behaved_def, rule_format] eventMetadata_behaved [unfolded well_behaved_def, rule_format]
      searchEvents_behaved [unfolded well_behaved_def, rule_format] readPayload_behaved [unfolded well_behaved_def, rule_format])

section \<open>The connection loop\<close>

text \<open>
  \<open>serveConnection\<close>: \<open>running n\<close> is what \<open>s.running()\<close> answers during the \<open>n\<close>-th request.
\<close>

function serveConnection :: "full_text \<Rightarrow> (nat \<Rightarrow> bool) \<Rightarrow> nat \<Rightarrow> store \<times> conn \<Rightarrow> store \<times> conn" where
  "serveConnection fts running n (s, c) =
     (case Decode decode_request (cn_in c) of
        (Inl _, in1) \<Rightarrow> (s, c\<lparr>cn_in := in1\<rparr>)
      | (Inr rq, in1) \<Rightarrow>
          (case handleRequest fts (running n) rq (s, c\<lparr>cn_in := in1\<rparr>) of
             (closing, sc) \<Rightarrow> if closing then sc else serveConnection fts running (n + 1) sc))"
  by pat_completeness auto

termination
proof (relation "measure (\<lambda>(fts, running, n, s, c). length (stream (cn_in c)))", goal_cases)
  case 1
  show ?case by simp
next
  case (2 fts running n s c p in1 rq closing sc)
  then have "Decode decode_request (cn_in c) = (Inr rq, in1)"
    and "handleRequest fts (running n) rq (s, c\<lparr>cn_in := in1\<rparr>) = (closing, sc)" by simp_all
  moreover obtain s' c' where "sc = (s', c')" by (cases sc)
  ultimately show ?case
    using Decode_consumes handleRequest_behaved [unfolded well_behaved_def, rule_format]
    by (fastforce dest!: forward_length)
qed

declare serveConnection.simps [simp del]

lemma handlers_behaved:
  "handleRequest fts running rq (s, c) = (b, s', c') \<Longrightarrow> op_call\<^sup>*\<^sup>* s s' \<and> forward (cn_in c) (cn_in c')"
  using handleRequest_behaved [of fts running rq] by (simp add: well_behaved_def)

lemma serveConnection_calls:
  "serveConnection fts running n (s, c) = (s', c') \<Longrightarrow> op_call\<^sup>*\<^sup>* s s' \<and> forward (cn_in c) (cn_in c')"
proof (induction "length (stream (cn_in c))" arbitrary: n s c rule: less_induct)
  case less
  obtain req in1 where dec: "Decode decode_request (cn_in c) = (req, in1)" by (cases "Decode decode_request (cn_in c)")
  have in1: "forward (cn_in c) in1" using dec
    by (auto simp: Decode_def split: prod.splits sum.splits option.splits dest: ReadFrame_forward)
  show ?case
  proof (cases req)
    case (Inl e)
    with less.prems dec in1 show ?thesis by (auto simp: serveConnection.simps [of fts running n s c])
  next
    case (Inr rq)
    obtain b s1 c1 where h: "handleRequest fts (running n) rq (s, c\<lparr>cn_in := in1\<rparr>) = (b, s1, c1)"
      by (cases "handleRequest fts (running n) rq (s, c\<lparr>cn_in := in1\<rparr>)")
    have step: "op_call\<^sup>*\<^sup>* s s1" "forward in1 (cn_in c1)" using handlers_behaved [OF h] by simp_all
    show ?thesis
    proof (cases b)
      case True
      with less.prems dec Inr h step in1 show ?thesis
        by (auto simp: serveConnection.simps [of fts running n s c] intro: forward_trans)
    next
      case False
      have "length (stream (cn_in c1)) < length (stream (cn_in c))"
        using Decode_consumes [OF dec [unfolded Inr]] forward_length [OF step(2)] by simp
      moreover from less.prems dec Inr h False have "serveConnection fts running (n + 1) (s1, c1) = (s', c')"
        by (simp add: serveConnection.simps [of fts running n s c])
      ultimately have "op_call\<^sup>*\<^sup>* s1 s' \<and> forward (cn_in c1) (cn_in c')" by (rule less.hyps)
      with step in1 show ?thesis by (auto intro: forward_trans rtranclp_trans)
    qed
  qed
qed

section \<open>What is sent\<close>

text \<open>The bytes of a control frame.\<close>

definition frame :: "bytes \<Rightarrow> bytes" where
  "frame payload = put_uint64 (of_nat (length payload)) @ payload"

definition response_frame :: "protocol_response \<Rightarrow> bytes" where
  "response_frame rs = frame (json_text (response_json rs))"

lemma WriteFrame_done:
  "WriteFrame writer_write payload w = (None, w') \<Longrightarrow>
     sink w' = sink w @ frame payload \<and> length payload \<le> MaxControlFrameLength"
  by (auto simp: WriteFrame_def frame_def split: if_splits prod.splits option.splits dest!: script_writer.writeAll_done)

lemma send_done: "send rs c = (False, c') \<Longrightarrow> sink (cn_out c') = sink (cn_out c) @ response_frame rs \<and> cn_in c' = cn_in c"
  by (auto simp: send_def Encode_def response_frame_def split: prod.splits dest: WriteFrame_done)

lemma writeOK_done:
  "writeOK i body (s, c) = (False, s', c') \<Longrightarrow>
     s' = s \<and> cn_in c' = cn_in c \<and> sink (cn_out c') = sink (cn_out c) @ response_frame (ok_response i body)"
  by (auto simp: writeOK_def split: prod.splits dest: send_done)

lemma writeError_done:
  "writeError i code msg (s, c) = (False, s', c') \<Longrightarrow>
     s' = s \<and> cn_in c' = cn_in c \<and> sink (cn_out c') = sink (cn_out c) @ response_frame (error_response i code msg)"
  by (auto simp: writeError_def split: prod.splits dest: send_done)

lemma writeStorageError_done:
  "writeStorageError i err (s, c) = (False, s', c') \<Longrightarrow>
     s' = s \<and> cn_in c' = cn_in c
     \<and> sink (cn_out c') = sink (cn_out c) @ response_frame (error_response i (fst (storage_code err)) (snd (storage_code err)))"
  by (auto simp: writeStorageError_def split: prod.splits dest: writeError_done)

lemma close_never: "writeError_close i code msg sc \<noteq> (False, t)" "writeStorageError_close i err sc \<noteq> (False, t)"
  by (simp_all add: writeError_close_def writeStorageError_close_def)

lemmas sent = writeOK_done writeError_done writeStorageError_done

text \<open>An open connection: nothing fails on the way out.\<close>

lemma WriteFrame_fits:
  "plan w = [] \<Longrightarrow> length payload \<le> MaxControlFrameLength \<Longrightarrow>
     WriteFrame writer_write payload w = (None, w\<lparr>sink := sink w @ frame payload\<rparr>)"
  by (simp add: WriteFrame_open frame_def)

lemma send_open:
  assumes "plan (cn_out c) = []" and "length (json_text (response_json rs)) \<le> MaxControlFrameLength"
  shows "send rs c = (False, c\<lparr>cn_out := (cn_out c)\<lparr>sink := sink (cn_out c) @ response_frame rs\<rparr>\<rparr>)"
  using assms by (simp add: send_def Encode_def WriteFrame_fits response_frame_def)

section \<open>Properties of serving\<close>

text \<open>
  C18: the loop that serves a connection ends on every input, and whatever the client sends and
  whatever fails, all it does to the store are calls of the store's operations: the store keeps
  its invariant and every stored event, and the connection is only read forward.
\<close>

theorem serving_refines_store:
  assumes "serveConnection fts running n (s, c) = (s', c')" and "working s = None" and "store_ok (committed s)"
  shows "op_call\<^sup>*\<^sup>* s s' \<and> working s' = None \<and> store_ok (committed s') \<and> preserved (committed s) (committed s')
    \<and> (\<exists>d. stream (cn_in c) = d @ stream (cn_in c'))"
  using serveConnection_calls [OF assms(1)] op_calls_ok [OF _ assms(2,3)] by (auto simp: forward_def)

theorem serving_refines_store_witness:
  "store_ok (committed (fst (serveConnection (\<lambda>_. Inl EOF) (\<lambda>_. True) 0 (fresh_store, \<lparr>cn_in = [([0, 0], None)], cn_out = open_sink\<rparr>))))"
proof -
  let ?r = "serveConnection (\<lambda>_. Inl EOF) (\<lambda>_. True) 0 (fresh_store, \<lparr>cn_in = [([0, 0], None)], cn_out = open_sink\<rparr>)"
  have "?r = (fst ?r, snd ?r)" by simp
  from serving_refines_store [OF this] show ?thesis by simp
qed

end
