(* ===== verification/Transport.thy ===== *)
theory Transport
  imports Times Serving
begin

text \<open>
  Messages in their frames: a request or a response that one side encodes is decoded by the other
  side, however the connection cuts it into pieces.
\<close>

section \<open>Requests\<close>

definition request_ok :: "protocol_request \<Rightarrow> bool" where
  "request_ok rq \<longleftrightarrow> int64 (rq_ProtocolVersion rq) \<and> is_text (rq_RequestID rq) \<and> is_text (rq_Operation rq)
     \<and> year_0 \<le> instant (rq_SentAt rq) \<and> instant (rq_SentAt rq) < year_10000
     \<and> (\<forall>v. rq_Body rq = Some v \<longrightarrow> json_ok (max_nesting - 1) v)"

definition received_request :: "protocol_request \<Rightarrow> protocol_request" where
  "received_request rq = rq\<lparr>rq_SentAt := UTC (rq_SentAt rq), rq_Body := Some (raw_json (rq_Body rq))\<rparr>"

lemma request_back:
  assumes "request_ok rq"
  obtains v where "request_json rq = Some v" and "json_ok max_nesting v" and "decode_request v = Some (received_request rq)"
proof -
  obtain s where s: "time_text_of (rq_SentAt rq) = Some s" "is_text s" "decode_time (jstr s) zero_time = Some (UTC (rq_SentAt rq))"
    using decode_time_back [of "rq_SentAt rq" zero_time] assms by (auto simp: request_ok_def)
  let ?v = "jobject
     [(''protocol_version'', jint (rq_ProtocolVersion rq)), (''request_id'', jstr (rq_RequestID rq)),
      (''operation'', jstr (rq_Operation rq)), (''sent_at'', jstr s), (''body'', raw_json (rq_Body rq))]"
  have "json_ok max_nesting ?v"
    by (rule json_ok_jobject) (use assms s(2) in \<open>auto simp: request_ok_def raw_json_def max_nesting_def split: option.split\<close>)
  moreover have "decode_request ?v = Some (received_request rq)"
    using assms s(2,3)
    by (simp add: decode_request_def struct_members_jobject field_jobject known_def request_fields_def request_ok_def
        received_request_def decode_raw_def)
  ultimately show ?thesis using s(1) by (intro that [of ?v]) (simp_all add: request_json_def)
qed

text \<open>Requests with short texts fit into a frame.\<close>

lemma request_fits:
  assumes "request_ok rq" and "length (rq_RequestID rq) \<le> 10000" and "length (rq_Operation rq) \<le> 10000"
    and "length (json_text (raw_json (rq_Body rq))) \<le> 800000" and "rq_ProtocolVersion rq = Version"
  obtains v where "request_json rq = Some v" and "length (json_text v) \<le> MaxControlFrameLength"
proof -
  obtain s where s: "time_text_of (rq_SentAt rq) = Some s" "length s \<le> 30"
    using decode_time_back [of "rq_SentAt rq" zero_time] assms(1) by (auto simp: request_ok_def)
  let ?v = "jobject
     [(''protocol_version'', jint (rq_ProtocolVersion rq)), (''request_id'', jstr (rq_RequestID rq)),
      (''operation'', jstr (rq_Operation rq)), (''sent_at'', jstr s), (''body'', raw_json (rq_Body rq))]"
  have "length (json_text ?v) \<le> MaxControlFrameLength"
    by (rule order_trans [OF length_jobject])
      (use assms(2-5) s(2) length_jstr [of "rq_RequestID rq"] length_jstr [of "rq_Operation rq"] length_jstr [of s] in
        \<open>simp add: MaxControlFrameLength_def Version_def jint_def decimal.simps\<close>)
  with s(1) show ?thesis by (intro that [of ?v]) (simp_all add: request_json_def)
qed

lemma unmarshal_text: "json_ok max_nesting v \<Longrightarrow> unmarshal dec (json_text v) = dec v"
  by (simp add: unmarshal_def json_parse_text)

section \<open>Frames on a connection in pieces\<close>

lemma Decode_segments:
  assumes "length (json_text v) \<le> MaxControlFrameLength" and "unmarshal dec (json_text v) = Some x"
    and "concat cs = frame (json_text v) @ rest"
  obtains cs' where "Decode dec (reader_of cs) = (Inr x, reader_of cs')" and "concat cs' = rest"
proof -
  obtain cs' where "ReadFrame (reader_of cs) = (Inr (json_text v), reader_of cs')" and rest: "concat cs' = rest"
    using ReadFrame_segments [OF assms(1), of cs rest] assms(3) by (auto simp: frame_def)
  then show ?thesis using assms(2) by (intro that [OF _ rest]) (simp add: Decode_def)
qed

lemma Encode_open:
  "plan w = [] \<Longrightarrow> length (json_text v) \<le> MaxControlFrameLength \<Longrightarrow>
     Encode writer_write (Some v) w = (None, w\<lparr>sink := sink w @ frame (json_text v)\<rparr>)"
  by (simp add: Encode_def WriteFrame_fits)

section \<open>Properties of the transport\<close>

text \<open>
  C28: a request arrives as it was sent: the message that \<open>Encode\<close> puts on the connection is
  decoded to the same request by the other side, for every segmentation of the bytes, and the
  bytes behind it stay on the connection.  Only the zone of the time is lost and a nil body
  arrives as \<open>null\<close>.
\<close>

theorem request_roundtrip:
  assumes "request_ok rq" and "request_json rq = Some v" and "length (json_text v) \<le> MaxControlFrameLength"
    and "concat cs = sink (snd (Encode writer_write (request_json rq) open_sink)) @ rest"
  shows "fst (Encode writer_write (request_json rq) open_sink) = None
    \<and> (\<exists>cs'. Decode decode_request (reader_of cs) = (Inr (received_request rq), reader_of cs') \<and> concat cs' = rest)"
proof -
  obtain u where u: "request_json rq = Some u" "json_ok max_nesting u" "decode_request u = Some (received_request rq)"
    by (rule request_back [OF assms(1)])
  with assms(2) have v: "json_ok max_nesting v" "decode_request v = Some (received_request rq)" by simp_all
  have enc: "Encode writer_write (request_json rq) open_sink = (None, open_sink\<lparr>sink := sink open_sink @ frame (json_text v)\<rparr>)"
    unfolding assms(2) by (rule Encode_open [OF _ assms(3)]) simp
  have "unmarshal decode_request (json_text v) = Some (received_request rq)" using v by (simp add: unmarshal_text)
  from Decode_segments [OF assms(3) this, of cs rest] assms(4) enc show ?thesis by auto
qed

definition sample_request :: protocol_request where
  "sample_request = \<lparr>rq_ProtocolVersion = 1, rq_RequestID = ''a1'', rq_Operation = ''system.health'',
     rq_SentAt = \<lparr>instant = 63902919845000000000, zone = 3600\<rparr>, rq_Body = Some (jobject [])\<rparr>"

theorem request_roundtrip_witness:
  "\<exists>v cs'. request_json sample_request = Some v \<and> concat cs' = [9]
     \<and> Decode decode_request (reader_of [frame (json_text v), [9]])
         = (Inr (sample_request\<lparr>rq_SentAt := \<lparr>instant = 63902919845000000000, zone = 0\<rparr>\<rparr>), reader_of cs')"
proof -
  have ok: "request_ok sample_request"
    by (simp add: request_ok_def sample_request_def int64_def max_int64_def ascii_text year_0_def year_10000_def max_nesting_def
        json_ok_jobject)
  obtain v where v: "request_json sample_request = Some v" "length (json_text v) \<le> MaxControlFrameLength"
    by (rule request_fits [OF ok, of thesis]) (simp_all add: sample_request_def jobject_def raw_json_def Version_def)
  have "Encode writer_write (request_json sample_request) open_sink = (None, open_sink\<lparr>sink := sink open_sink @ frame (json_text v)\<rparr>)"
    unfolding v(1) by (rule Encode_open [OF _ v(2)]) simp
  with request_roundtrip [OF ok v, of "[frame (json_text v), [9]]" "[9]"] v(1) show ?thesis
    by (simp add: received_request_def sample_request_def UTC_def raw_json_def) blast
qed

text \<open>
  Likewise for a response, with any body, with or without an error.
\<close>

theorem response_roundtrip:
  assumes "response_ok rs" and "length (json_text (response_json rs)) \<le> MaxControlFrameLength"
    and "concat cs = sink (snd (Encode writer_write (Some (response_json rs)) open_sink)) @ rest"
  shows "fst (Encode writer_write (Some (response_json rs)) open_sink) = None
    \<and> (\<exists>cs'. Decode decode_response (reader_of cs) = (Inr (received_response rs), reader_of cs') \<and> concat cs' = rest)"
proof -
  have "Encode writer_write (Some (response_json rs)) open_sink
      = (None, open_sink\<lparr>sink := sink open_sink @ frame (json_text (response_json rs))\<rparr>)"
    by (rule Encode_open [OF _ assms(2)]) simp
  with Decode_segments [OF assms(2) unmarshal_response [OF assms(1)], of cs rest] assms(3) show ?thesis by auto
qed

theorem response_roundtrip_witness:
  "\<exists>cs'. concat cs' = [9] \<and> Decode decode_response (reader_of [response_frame (ok_response ''a1'' (jobject [])), [9]])
     = (Inr (ok_response ''a1'' (jobject [])), reader_of cs')"
proof -
  let ?rs = "ok_response ''a1'' (jobject [])"
  have ok: "response_ok ?rs"
    by (simp add: response_ok_def ok_response_def int64_def max_int64_def Version_def ascii_text max_nesting_def json_ok_jobject)
  have fits: "length (json_text (response_json ?rs)) \<le> MaxControlFrameLength"
    unfolding response_json_def
    by (rule order_trans [OF length_jobject])
      (use length_jstr [of "''a1''"] length_jstr [of "''ok''"] in \<open>simp add: ok_response_def raw_json_def
         MaxControlFrameLength_def Version_def jint_def decimal.simps jobject_def\<close>)
  have "Encode writer_write (Some (response_json ?rs)) open_sink
      = (None, open_sink\<lparr>sink := sink open_sink @ response_frame ?rs\<rparr>)"
    unfolding response_frame_def by (rule Encode_open [OF _ fits]) simp
  with response_roundtrip [OF ok fits, of "[response_frame ?rs, [9]]" "[9]"] show ?thesis
    by (simp add: received_response_def ok_response_def raw_json_def) blast
qed

end
