(* ===== verification/Capturing.thy ===== *)
theory Capturing
  imports Serving JsonFacts
begin

text \<open>
  What a client may conclude from the answers of \<open>captureAppend\<close>, \<open>readPayload\<close> and the other
  handlers of the daemon.
\<close>

section \<open>A capture that was answered with success\<close>

lemma captureAppend_ok:
  assumes "captureAppend rq (s, c) = (False, s', c')"
  obtains body s1 header in1 s2 k in2 r s3 where
    "unmarshal_raw decode_capture (rq_Body rq) = Some body" and "validCapture body"
    and "BeginCaptureAttempt (capture_attempt rq body) s = (Inr (), s1)"
    and "ReadEvidenceHeader (cn_in c) = (Inr (cp_PayloadSize body), in1)" and "cp_PayloadSize body \<le> maxInt"
    and "AppendEvent (Some (limit_read reader_read)) (capture_event rq body) (cp_PayloadSize body)
      (s1, (unat (cp_PayloadSize body), in1)) = (Inr r, (s2, (k, in2)))"
    and "CompleteCaptureAttempt (rq_RequestID rq) s2 = (Inr (), s3)" and "s' = s3" and "cn_in c' = in2"
    and "sink (cn_out c') = sink (cn_out c) @ response_frame (ok_response (rq_RequestID rq) (capture_body r))"
proof -
  from assms obtain body where body: "unmarshal_raw decode_capture (rq_Body rq) = Some body" and valid: "validCapture body"
    by (auto simp: captureAppend_def close_never Let_def split: option.splits if_splits)
  from assms body valid obtain s1 where began: "BeginCaptureAttempt (capture_attempt rq body) s = (Inr (), s1)"
    by (auto simp: captureAppend_def close_never Let_def split: prod.splits sum.splits)
  from assms body valid began obtain in1 where hd: "ReadEvidenceHeader (cn_in c) = (Inr (cp_PayloadSize body), in1)"
    and fits: "cp_PayloadSize body \<le> maxInt"
    by (auto simp: captureAppend_def close_never Let_def split: prod.splits sum.splits if_splits)
  from assms body valid began hd fits obtain r s2 k in2 where
    app: "AppendEvent (Some (limit_read reader_read)) (capture_event rq body) (cp_PayloadSize body)
      (s1, (unat (cp_PayloadSize body), in1)) = (Inr r, (s2, (k, in2)))"
    by (auto simp: captureAppend_def close_never Let_def split: prod.splits sum.splits if_splits)
  from assms body valid began hd fits app obtain s3 where fin: "CompleteCaptureAttempt (rq_RequestID rq) s2 = (Inr (), s3)"
    by (auto simp: captureAppend_def close_never Let_def split: prod.splits sum.splits if_splits)
  have "writeOK (rq_RequestID rq) (capture_body r) (s3, c\<lparr>cn_in := in2\<rparr>) = (False, s', c')"
    using assms body valid began hd fits app fin
    by (simp add: captureAppend_def Let_def fits [THEN leD])
  from writeOK_done [OF this] show ?thesis
    by (intro that [OF body valid began hd fits app fin]) simp_all
qed

lemma ReadEvidenceHeader_done:
  assumes "ReadEvidenceHeader r = (Inr n, r')"
  obtains header where "stream r = header @ stream r'" and "length header = 8" and "get_uint64 header = n"
  using assms read_full_sound [of 8 r] by (auto simp: ReadEvidenceHeader_def split: prod.splits sum.splits)

lemma Begin_done:
  assumes "BeginCaptureAttempt a s = (Inr (), t)" and "working s = None"
  obtains row where "working t = None" and "select_attempt (at_AttemptID a) (committed t) = Some row"
    and "row_matches row a" and "ar_status row = CaptureAttemptPending" and "capture_events (committed t) = capture_events (committed s)"
    and "acceptable a"
proof -
  from wp_Inr [OF stormy.Begin_rule [OF _ refl assms(2), of a] assms(1)] that show ?thesis
    by (fastforce simp: select_attempt_def find_append attempt_row_of_def row_matches_def split: option.splits)
qed

lemma find_update:
  assumes "\<And>a. P (f a) = P a" and "find P as = Some x" and "Q x"
  shows "find P (map (\<lambda>a. if P a \<and> Q a then f a else a) as) = Some (f x)"
  using assms(2) by (induction as) (use assms(1,3) in \<open>auto split: if_splits\<close>)

lemma Complete_done:
  assumes "CompleteCaptureAttempt i s = (Inr (), t)" and "working s = None" and "select_attempt i (committed s) = Some row"
    and "ar_status row = CaptureAttemptPending"
  obtains now where "evidence_complete (committed s) row" and "capture_events (committed t) = capture_events (committed s)"
    and "capture_event_chunks (committed t) = capture_event_chunks (committed s)"
    and "select_attempt i (committed t) = Some (row\<lparr>ar_status := CaptureAttemptCompleted, ar_completed_at := Some now, ar_failure_stage := None\<rparr>)"
proof -
  from wp_Inr [OF stormy.Complete_rule [OF _ refl assms(2), of i] assms(1)] assms(3,4) obtain now where
    fin: "evidence_complete (committed s) row"
    "committed t = settled (\<lambda>a. ar_attempt_id a = i \<and> ar_status a = CaptureAttemptPending) CaptureAttemptCompleted now None (committed s)"
    by auto
  let ?done = "\<lambda>a. a\<lparr>ar_status := CaptureAttemptCompleted, ar_completed_at := Some now, ar_failure_stage := None\<rparr>"
  have "select_attempt i (committed t) = Some (?done row)"
    unfolding fin(2) settled_def select_attempt_def
    using find_update [of "\<lambda>a. ar_attempt_id a = i" ?done "capture_attempts (committed s)" row "\<lambda>a. ar_status a = CaptureAttemptPending"]
      assms(3,4) by (simp add: select_attempt_def)
  with fin show ?thesis by (intro that [of now]) (simp_all add: settled_def)
qed

text \<open>The event that an append leaves behind, new or not.\<close>

lemma append_outcome_event:
  assumes "append_outcome ev n cs r d d'" and "references_ok d"
  obtains row where "select_event (ev_ID ev) d' = Some row" and "er_actual_size row = n" and "er_declared_size row = n"
    and "er_payload_sha256 row = sha256_hex (concat cs)"
    and "sha256_hex (evidence_of (select_chunks (ev_ID ev) d')) = sha256_hex (concat cs)"
    and "\<not> AlreadyPresent r \<Longrightarrow> evidence_of (select_chunks (ev_ID ev) d') = concat cs"
proof (cases "AlreadyPresent r")
  case True
  with assms(1) that show ?thesis by (auto simp: append_outcome_def already_stored_def split: option.splits)
next
  case False
  with assms(1) obtain now where new: "ev_ID ev \<notin> set (map er_id (capture_events d))" and d': "d' = appended_db ev n now cs d"
    by (auto simp: append_outcome_def)
  show ?thesis
    by (rule that [of "sealed_row ev (occurred_text ev now) now n (concat cs)"])
      (simp_all add: d' appended_select_event(1) [OF new] appended_select_chunks(1) [OF assms(2) new])
qed

text \<open>
  C19: when \<open>captureAppend\<close> leaves the connection open, then whatever failed on the way it has
  taken exactly a length header and the announced number of bytes from the connection, it has
  sent exactly one response with status \<open>ok\<close>, the size and the SHA-256 of these bytes, and both
  things it promises are committed: the event with this size and hash and intact chunks (the
  very bytes, unless the event was present before), and the attempt with the request's metadata,
  completed.
\<close>

theorem capture_ok_is_durable:
  assumes "captureAppend rq (s, c) = (False, s', c')" and "working s = None" and "store_ok (committed s)"
  shows "\<exists>body header data r row ev. unmarshal_raw decode_capture (rq_Body rq) = Some body
    \<and> stream (cn_in c) = header @ data @ stream (cn_in c') \<and> length header = 8
    \<and> get_uint64 header = cp_PayloadSize body \<and> length data = unat (cp_PayloadSize body)
    \<and> sink (cn_out c') = sink (cn_out c) @ response_frame (ok_response (rq_RequestID rq) (capture_body r))
    \<and> ActualSize r = cp_PayloadSize body \<and> ResultSHA256 r = sha256_hex data
    \<and> select_attempt (rq_RequestID rq) (committed s') = Some row \<and> ar_status row = CaptureAttemptCompleted
    \<and> row_matches row (capture_attempt rq body) \<and> evidence_complete (committed s') row
    \<and> select_event (cp_EventID body) (committed s') = Some ev \<and> er_actual_size ev = cp_PayloadSize body
    \<and> er_payload_sha256 ev = sha256_hex data
    \<and> (AlreadyPresent r \<or> evidence_of (select_chunks (cp_EventID body) (committed s')) = data)"
proof -
  obtain body s1 header in1 s2 k in2 r s3 where run:
    "unmarshal_raw decode_capture (rq_Body rq) = Some body" "validCapture body"
    "BeginCaptureAttempt (capture_attempt rq body) s = (Inr (), s1)"
    "ReadEvidenceHeader (cn_in c) = (Inr (cp_PayloadSize body), in1)" "cp_PayloadSize body \<le> maxInt"
    "AppendEvent (Some (limit_read reader_read)) (capture_event rq body) (cp_PayloadSize body)
      (s1, (unat (cp_PayloadSize body), in1)) = (Inr r, (s2, (k, in2)))"
    "CompleteCaptureAttempt (rq_RequestID rq) s2 = (Inr (), s3)" "s' = s3" "cn_in c' = in2"
    "sink (cn_out c') = sink (cn_out c) @ response_frame (ok_response (rq_RequestID rq) (capture_body r))"
    by (rule captureAppend_ok [OF assms(1)])
  let ?a = "capture_attempt rq body" and ?n = "cp_PayloadSize body" and ?i = "rq_RequestID rq"
  have ids: "at_AttemptID ?a = ?i" "ev_ID (capture_event rq body) = cp_EventID body" "at_EventID ?a = cp_EventID body"
    by (simp_all add: capture_attempt_def capture_event_def)
  obtain row where s1: "working s1 = None" "select_attempt ?i (committed s1) = Some row" "row_matches row ?a"
    "ar_status row = CaptureAttemptPending"
    using Begin_done [OF run(3) assms(2)] unfolding ids by metis
  have ok1: "store_ok (committed s1)" using op_call_ok [OF call_begin [OF run(3)] assms(2,3)] .
  obtain hd where hd: "stream (cn_in c) = hd @ stream in1" "length hd = 8" "get_uint64 hd = ?n"
    using ReadEvidenceHeader_done [OF run(4)] .
  from limited_rest.AppendEvent_wp [of "capture_event rq body" ?n "(unat ?n, in1)" s1] run(6) obtain cs where
    s2: "working s2 = None" and data: "stream in1 = concat cs @ stream in2"
    and out: "append_outcome (capture_event rq body) ?n cs r (committed s1) (committed s2)"
    by (auto simp: wp_def)
  have refs: "references_ok (committed s1)" using ok1 by (simp add: store_ok_def db_ok_def)
  obtain ev where ev: "select_event (cp_EventID body) (committed s2) = Some ev" "er_actual_size ev = ?n"
    "er_payload_sha256 ev = sha256_hex (concat cs)"
    "AlreadyPresent r \<or> evidence_of (select_chunks (cp_EventID body) (committed s2)) = concat cs"
    using append_outcome_event [OF out refs] unfolding ids by metis
  have sel2: "select_attempt ?i (committed s2) = Some row"
    using append_outcome_attempts [OF out] s1(2) by (simp add: select_attempt_def)
  obtain now where fin: "evidence_complete (committed s2) row" "capture_events (committed s3) = capture_events (committed s2)"
    "capture_event_chunks (committed s3) = capture_event_chunks (committed s2)"
    "select_attempt ?i (committed s3) = Some (row\<lparr>ar_status := CaptureAttemptCompleted, ar_completed_at := Some now, ar_failure_stage := None\<rparr>)"
    using Complete_done [OF run(7) s2 sel2 s1(4)] .
  let ?row = "row\<lparr>ar_status := CaptureAttemptCompleted, ar_completed_at := Some now, ar_failure_stage := None\<rparr>"
  have same: "select_event j (committed s3) = select_event j (committed s2)"
    "select_chunks j (committed s3) = select_chunks j (committed s2)" for j
    using fin(2,3) by (simp_all add: select_event_def select_chunks_def)
  have "evidence_complete (committed s3) row = evidence_complete (committed s2) row" by (simp only: evidence_complete_def same)
  then have "evidence_complete (committed s3) ?row" using fin(1) by simp
  moreover have "row_matches ?row ?a" using s1(3) by (simp add: row_matches_def)
  moreover have "length (concat cs) = unat ?n" "ActualSize r = ?n" "ResultSHA256 r = sha256_hex (concat cs)"
    using out by (auto simp: append_outcome_def)
  ultimately show ?thesis
    using run(1,8-10) hd data ev fin(4) same
    by (intro exI [of _ body] exI [of _ hd] exI [of _ "concat cs"] exI [of _ r] exI [of _ ?row] exI [of _ ev]) simp
qed

end
