(* ===== verification/ClientFacts.thy ===== *)
theory ClientFacts
  imports Client Transport Capturing
begin

text \<open>What a caller may conclude from the results of the client, whatever the connection does.\<close>

section \<open>One exchange\<close>

lemma exchange_done:
  assumes "exchange wt rt env rq conn c = (Inr (envelope, conn'), c')"
  obtains v where "request_json rq = Some v" and "sink (wire_out conn') = sink (wire_out conn) @ frame (json_text v)"
    and "Decode decode_response (wire_in conn) = (Inr envelope, wire_in conn')"
    and "validateResponse envelope (rq_RequestID rq) = None" and "c' = c\<lparr>kl_conn := Some conn'\<rparr>"
proof -
  obtain e w where enc: "Encode writer_write (request_json rq) (wire_out conn) = (e, w)"
    by (cases "Encode writer_write (request_json rq) (wire_out conn)")
  with assms have e: "e = None" by (cases e) (simp_all add: exchange_def)
  with enc obtain v where v: "request_json rq = Some v" and frame: "WriteFrame writer_write (json_text v) (wire_out conn) = (None, w)"
    by (auto simp: Encode_def split: option.splits)
  from assms enc e show ?thesis
    using WriteFrame_done [OF frame] v
    by (auto simp: exchange_def Let_def split: prod.splits sum.splits option.splits intro!: that)
qed

lemma exchange_failed: "exchange wt rt env rq conn c = (Inl err, c') \<Longrightarrow> c' = poison c"
  by (auto simp: exchange_def Let_def split: prod.splits sum.splits option.splits)

lemma connection_done:
  assumes "connection env c = (Inr conn, c1)"
  shows "kl_conn c1 = Some conn \<and> (kl_conn c = Some conn \<or> kl_conn c = None \<and> env_dial env = Inr conn)"
  using assms by (auto simp: connection_def split: if_splits option.splits sum.splits)

lemma connection_failed: "connection env c = (Inl err, c1) \<Longrightarrow> c1 = c \<or> c1 = client_Close c"
  by (auto simp: connection_def split: if_splits option.splits sum.splits)

lemma poisoned [simp]: "kl_conn (poison c) = None" "kl_conn (client_Close c) = None"
  by (simp_all add: poison_def client_Close_def)

section \<open>Copying\<close>

context io_writer
begin

lemma copy_write_done:
  assumes "copy_write wr d w = (None, m, w1)"
  shows "m = length d \<and> sunk w1 = sunk w @ d"
proof -
  obtain n err w2 where res: "wr d w = (n, err, w2)" by (cases "wr d w")
  with assms have "w2 = w1" "nat n = length d" "m = length d" by (auto simp: copy_write_def split: if_splits option.splits)
  with wr_sunk [OF res] show ?thesis by simp
qed

text \<open>A copy without an error has taken from the connection exactly what it has written.\<close>

lemma copy_limited_done:
  "copy_limited wr k m (n, r) w = ((total_written, None), r', w') \<Longrightarrow>
     \<exists>d. total_written = m + length d \<and> length d \<le> n \<and> stream r = d @ stream r' \<and> sunk w' = sunk w @ d"
proof (induction "n + length r" arbitrary: m n r w rule: less_induct)
  case less
  show ?case
  proof (cases "k = 0 \<or> n = 0")
    case True
    with less.prems show ?thesis by (auto simp: copy_limited.simps)
  next
    case False
    obtain d err r1 where rd: "reader_read (min k n) r = (d, err, r1)" by (cases "reader_read (min k n) r")
    have len: "length d \<le> n" and str: "stream r = d @ stream r1"
      using script.rd_length [OF rd] script.rd_pend [OF rd] by simp_all
    obtain e j w1 where wr: "(if d = [] then (None, 0, w) else copy_write wr d w) = (e, j, w1)"
      by (cases "if d = [] then (None, 0, w) else copy_write wr d w")
    with less.prems False rd have "e = None" by (cases e) (simp_all add: copy_limited.simps [of wr k m n r])
    with wr have j: "j = length d" "sunk w1 = sunk w @ d" by (auto split: if_splits dest: copy_write_done)
    show ?thesis
    proof (cases err)
      case (Some er)
      with less.prems False rd wr \<open>e = None\<close> have "r' = r1" "w' = w1" "total_written = m + j"
        by (simp_all add: copy_limited.simps [of wr k m n r])
      with j len str show ?thesis by auto
    next
      case None
      with less.prems False rd wr \<open>e = None\<close> have rest: "copy_limited wr k (m + j) (n - length d, r1) w1 = ((total_written, None), r', w')"
        by (simp add: copy_limited.simps [of wr k m n r])
      have "n - length d + length r1 < n + length r" by (rule copy_progress [OF rd [unfolded None]]) (use False in simp_all)
      from less.hyps [OF this rest] obtain d2 where d2: "total_written = m + j + length d2" "length d2 \<le> n - length d"
        "stream r1 = d2 @ stream r'" "sunk w' = sunk w1 @ d2" by blast
      with j len str show ?thesis by (intro exI [of _ "d @ d2"]) simp
    qed
  qed
qed

lemma readEvidenceAfterHeader_done:
  assumes "readEvidenceAfterHeader wr m n conn c w = (Inr m', c', w')"
  obtains data r where "length data = unat n" and "stream (wire_in conn) = data @ stream r" and "sunk w' = sunk w @ data"
    and "m' = m\<lparr>pm_BytesWritten := n\<rparr>" and "c' = c\<lparr>kl_conn := Some (conn\<lparr>wire_in := r\<rparr>)\<rparr>"
proof -
  obtain written err r w1 where copy: "copy_limited wr (min copyBufferSize (unat n)) 0 (unat n, wire_in conn) w = ((written, err), r, w1)"
    by (metis prod.collapse)
  with assms have ok: "err = None" "of_nat written = n" "m' = m\<lparr>pm_BytesWritten := n\<rparr>" "w' = w1"
    "c' = c\<lparr>kl_conn := Some (conn\<lparr>wire_in := r\<rparr>)\<rparr>"
    by (auto simp: readEvidenceAfterHeader_def split: if_splits option.splits)
  from copy_limited_done [OF copy [unfolded ok(1)]] obtain d where
    d: "written = length d" "length d \<le> unat n" "stream (wire_in conn) = d @ stream r" "sunk w1 = sunk w @ d" by auto
  have "written < 2 ^ 64" using d(1,2) unat_u64_bound [of n] by simp
  then have "unat (of_nat written :: u64) = written" by (simp add: unat_of_nat take_bit_eq_mod)
  with ok(2) d(1) have "length d = unat n" by simp
  with d(3,4) ok(3-5) show ?thesis by (intro that) simp_all
qed

text \<open>Even when it fails, it has only written what it had read.\<close>

lemma copy_write_grows: "copy_write wr d w = (e, m, w1) \<Longrightarrow> \<exists>p. sunk w1 = sunk w @ p"
  by (cases "wr d w") (auto simp: copy_write_def dest: wr_sunk split: if_splits option.splits)

lemma copy_limited_grows:
  "copy_limited wr k m (n, r) w = (res, r', w') \<Longrightarrow> \<exists>p. sunk w' = sunk w @ p"
proof (induction "n + length r" arbitrary: m n r w rule: less_induct)
  case less
  show ?case
  proof (cases "k = 0 \<or> n = 0")
    case True
    with less.prems show ?thesis by (auto simp: copy_limited.simps)
  next
    case False
    obtain d err r1 where rd: "reader_read (min k n) r = (d, err, r1)" by (cases "reader_read (min k n) r")
    obtain e j w1 where wr1: "(if d = [] then (None, 0, w) else copy_write wr d w) = (e, j, w1)"
      by (cases "if d = [] then (None, 0, w) else copy_write wr d w")
    then have grown: "\<exists>p. sunk w1 = sunk w @ p" by (auto split: if_splits dest: copy_write_grows)
    show ?thesis
    proof (cases "e = None \<and> err = None")
      case False
      with less.prems \<open>\<not> (k = 0 \<or> n = 0)\<close> rd wr1 have "w' = w1"
        by (auto simp: copy_limited.simps [of wr k m n r] split: option.splits)
      with grown show ?thesis by simp
    next
      case True
      with less.prems \<open>\<not> (k = 0 \<or> n = 0)\<close> rd wr1
      have rest: "copy_limited wr k (m + j) (n - length d, r1) w1 = (res, r', w')"
        by (simp add: copy_limited.simps [of wr k m n r])
      have "n - length d + length r1 < n + length r"
        by (rule copy_progress [of k n r d r1]) (use rd True \<open>\<not> (k = 0 \<or> n = 0)\<close> in simp_all)
      from less.hyps [OF this rest] grown show ?thesis by auto
    qed
  qed
qed

lemma readEvidenceAfterHeader_grows:
  "readEvidenceAfterHeader wr m n conn c w = (res, c', w') \<Longrightarrow> \<exists>p. sunk w' = sunk w @ p"
  by (auto simp: readEvidenceAfterHeader_def split: if_splits option.splits prod.splits dest: copy_limited_grows)

end

end
