(* ===== verification/CaptureRuns.thy ===== *)
theory CaptureRuns
  imports Capturing RoundTrip
begin

text \<open>
  Captures in which nothing fails: the whole way from the request to the answer, and a sample
  run for the witnesses.
\<close>

section \<open>The steps of a calm capture\<close>

lemma attempt_row_of_canonical: "attempt_row_of (a\<lparr>at_OccurredAt := UTC t\<rparr>) now = attempt_row_of (a\<lparr>at_OccurredAt := t\<rparr>) now"
  by (simp add: attempt_row_of_def)

lemma Begin_new_calm:
  assumes "faults s = []" and "working s = None" and "acceptable a" and "select_attempt (at_AttemptID a) (committed s) = None"
  shows "BeginCaptureAttempt a s = (Inr (), s\<lparr>committed := (committed s)\<lparr>capture_attempts :=
      capture_attempts (committed s) @ [attempt_row_of a \<lparr>instant = clock s, zone = 0\<rparr>]\<rparr>, clock := clock s + 1\<rparr>)"
proof -
  let ?a = "a\<lparr>at_OccurredAt := UTC (at_OccurredAt a)\<rparr>"
  have row: "attempt_row_of ?a now = attempt_row_of a now" for now by (simp add: attempt_row_of_canonical)
  have canon: "canonicalOccurredAt (at_OccurredAt a) = (UTC (at_OccurredAt a), True)"
    using assms(3) by (simp add: canonicalOccurredAt_def acceptable_def validAttempt_def)
  have valid: "validAttempt ?a" using assms(3) by (simp add: acceptable_def validAttempt_def)
  have new: "at_AttemptID a \<notin> set (map ar_attempt_id (capture_attempts (committed s)))"
    using assms(4) by (simp add: select_attempt_None)
  have fresh: "insert_attempt (attempt_row_of a now) (committed s)
      = Inr ((committed s)\<lparr>capture_attempts := capture_attempts (committed s) @ [attempt_row_of a now]\<rparr>)" for now
    using new by (simp add: insert_attempt_def attempt_row_of_def)
  show ?thesis
    using assms(1,2,3) fresh
    by (auto simp add: BeginCaptureAttempt_def canon valid row run_simps calm_simps time_now_def Let_def acceptable_def not_less rollback_tx_def)
qed

lemma ReadEvidenceHeader_whole:
  "\<exists>in1. ReadEvidenceHeader [(put_uint64 n @ rest, None)] = (Inr n, in1) \<and> whole in1 \<and> stream in1 = rest"
proof -
  have "read_full 8 [(put_uint64 n @ rest, None)] = (Inr (put_uint64 n), if rest = [] then [] else [(rest, None)])"
    by (auto simp: read_full_def read_full_from.simps)
  then show ?thesis by (simp add: ReadEvidenceHeader_def)
qed

lemma ok_response_fits:
  assumes "length i \<le> 100000" and "length (json_text body) \<le> 400000"
  shows "length (json_text (response_json (ok_response i body))) \<le> MaxControlFrameLength"
  unfolding response_json_def
  by (rule order_trans [OF length_jobject])
    (use assms length_jstr [of i] length_jstr [of "''ok''"] in \<open>simp add: ok_response_def raw_json_def
       MaxControlFrameLength_def Version_def jint_def decimal.simps\<close>)

lemma capture_body_short:
  "length (json_text (capture_body \<lparr>AlreadyPresent = b, ActualSize = n, ResultSHA256 = sha256_hex d\<rparr>)) \<le> 400000"
  unfolding capture_body_def
  by (rule order_trans [OF length_jobject]) (use length_juint [of n] length_jstr [of "sha256_hex d"] in simp)

lemma writeOK_open:
  assumes "plan (cn_out c) = []" and "length i \<le> 100000" and "length (json_text body) \<le> 400000"
  shows "writeOK i body (s, c)
    = (False, s, c\<lparr>cn_out := (cn_out c)\<lparr>sink := sink (cn_out c) @ response_frame (ok_response i body)\<rparr>\<rparr>)"
  by (simp add: writeOK_def send_open [OF assms(1) ok_response_fits [OF assms(2,3)]])

section \<open>A whole calm capture\<close>

text \<open>The request and its connection: everything is as the client should have it.\<close>

definition good_capture :: "store \<Rightarrow> protocol_request \<Rightarrow> capture_request \<Rightarrow> bytes \<Rightarrow> bool" where
  "good_capture s rq body data \<longleftrightarrow>
     faults s = [] \<and> working s = None \<and> store_ok (committed s) \<and> year_0 \<le> clock s \<and> clock s < year_10000
     \<and> unmarshal_raw decode_capture (rq_Body rq) = Some body \<and> validCapture body
     \<and> rq_RequestID rq \<noteq> '''' \<and> length (rq_RequestID rq) \<le> 100000 \<and> 0 < rq_ProtocolVersion rq
     \<and> cp_PayloadSize body \<le> maxInt \<and> length data = unat (cp_PayloadSize body)
     \<and> year_0 \<le> instant (cp_OccurredAt body) \<and> instant (cp_OccurredAt body) < year_10000
     \<and> select_attempt (rq_RequestID rq) (committed s) = None"

lemma captureAppend_calm:
  assumes good: "good_capture s rq body data" and new: "cp_EventID body \<notin> set (map er_id (capture_events (committed s)))"
    and conn: "cn_in c = [(put_uint64 (cp_PayloadSize body) @ data @ rest, None)]" "plan (cn_out c) = []"
  obtains s' c' row where "captureAppend rq (s, c) = (False, s', c')" and "faults s' = []"
    and "select_event (cp_EventID body) (committed s') = Some row" and "er_actual_size row = cp_PayloadSize body"
    and "er_payload_sha256 row = sha256_hex data"
    and "select_chunks (cp_EventID body) (committed s') = chunk_rows (cp_EventID body) (chunks_of data)"
    and "cn_out c' = (cn_out c)\<lparr>sink := sink (cn_out c) @ response_frame (ok_response (rq_RequestID rq)
      (capture_body \<lparr>AlreadyPresent = False, ActualSize = cp_PayloadSize body, ResultSHA256 = sha256_hex data\<rparr>))\<rparr>"
proof -
  let ?a = "capture_attempt rq body" and ?ev = "capture_event rq body" and ?n = "cp_PayloadSize body" and ?i = "rq_RequestID rq"
  let ?row = "attempt_row_of ?a \<lparr>instant = clock s, zone = 0\<rparr>"
  let ?d1 = "(committed s)\<lparr>capture_attempts := capture_attempts (committed s) @ [?row]\<rparr>"
  define s1 where "s1 = s\<lparr>committed := ?d1, clock := clock s + 1\<rparr>"
  have acc: "acceptable ?a" using good
    by (simp add: good_capture_def acceptable_def validAttempt_def capture_attempt_def validCapture_def)
  have began: "BeginCaptureAttempt ?a s = (Inr (), s1)"
    using Begin_new_calm [OF _ _ acc] good by (simp add: good_capture_def capture_attempt_def s1_def)
  have ok1: "store_ok (committed s1)" using call_begin [OF began] by (rule op_call_ok) (use good in \<open>simp_all add: good_capture_def\<close>)
  then have refs1: "references_ok (committed s1)" by (simp add: store_ok_def db_ok_def)
  have calm1: "faults s1 = []" "working s1 = None" using good by (simp_all add: good_capture_def s1_def)
  obtain in1 where hd: "ReadEvidenceHeader (cn_in c) = (Inr ?n, in1)" and in1: "whole in1" "stream in1 = data @ rest"
    unfolding conn(1) using ReadEvidenceHeader_whole [of ?n "data @ rest"] by blast
  have fits: "?n \<le> maxInt" and len: "length data = unat ?n" using good by (simp_all add: good_capture_def)
  have ids: "ev_ID ?ev = cp_EventID body" by (simp add: capture_event_def)
  have new1: "ev_ID ?ev \<notin> set (map er_id (capture_events (committed s1)))" using new by (simp add: ids s1_def)
  have pend: "limit_pend stream (unat ?n, in1) = data" using in1(2) len by (simp add: limit_pend_def)
  obtain kr where app: "AppendEvent (Some (limit_read reader_read)) ?ev ?n (s1, (unat ?n, in1))
      = (Inr \<lparr>AlreadyPresent = False, ActualSize = ?n, ResultSHA256 = sha256_hex data\<rparr>,
         (s1\<lparr>committed := appended_db ?ev ?n (RFC3339Nano (clock s1)) (chunks_of data) (committed s1), clock := clock s1 + 1\<rparr>, kr))"
    by (rule limited_whole.AppendEvent_calm [OF calm1 refs1 new1 fits, of "(unat ?n, in1)"]) (use in1(1) pend len in simp_all)
  define s2 where "s2 = s1\<lparr>committed := appended_db ?ev ?n (RFC3339Nano (clock s1)) (chunks_of data) (committed s1), clock := clock s1 + 1\<rparr>"
  have sel2: "select_attempt ?i (committed s2) = Some ?row"
    using good by (simp add: s2_def s1_def good_capture_def select_attempt_def find_append attempt_row_of_def capture_attempt_def)
  have chunks2: "select_chunks (cp_EventID body) (committed s2) = chunk_rows (cp_EventID body) (chunks_of data)"
    using appended_select_chunks(1) [OF refs1 new1] by (simp add: s2_def ids)
  have row_ev: "select_event (cp_EventID body) (committed s2)
      = Some (sealed_row ?ev (occurred_text ?ev (RFC3339Nano (clock s1))) (RFC3339Nano (clock s1)) ?n data)"
    using appended_select_event(1) [OF new1] by (simp add: s2_def ids)
  have occ: "occurred_text ?ev now = format_utc (cp_OccurredAt body)" for now
    using good by (simp add: occurred_text_def capture_event_def good_capture_def validCapture_def)
  have complete: "evidence_complete (committed s2) ?row"
  proof -
    have rid: "ar_event_id ?row = cp_EventID body" by (simp add: attempt_row_of_def capture_attempt_def)
    show ?thesis
      unfolding evidence_complete_def rid chunks2 row_ev occ option.case
      by (simp add: sealed_row_def event_row_of_def capture_event_def attempt_row_of_def capture_attempt_def canonical_chunk_rows len
          UTC_def format_utc_def)
  qed
  have times: "times_ok ?row" "event_time_ok (committed s2) (ar_event_id ?row)"
    using good by (simp_all add: times_ok_def attempt_row_of_def capture_attempt_def good_capture_def format_utc_def UTC_def
        event_time_ok_def row_ev occ sealed_row_def event_row_of_def)
  have q2: "quiet True s2" "working s2 = None" using calm1 by (simp_all add: s2_def quiet_def)
  obtain s3 where fin: "CompleteCaptureAttempt ?i s2 = (Inr (), s3)" and q3: "quiet True s3"
    by (rule calm_run [OF tranquil.Complete_rule [OF q2(1) refl q2(2), of ?i]])
      (use sel2 complete times in \<open>auto simp: attempt_row_of_def capture_attempt_def\<close>)
  have pending: "ar_status ?row = CaptureAttemptPending" by (simp add: attempt_row_of_def)
  have chunks3: "select_chunks (cp_EventID body) (committed s3) = select_chunks (cp_EventID body) (committed s2)"
    using Complete_done [OF fin q2(2) sel2 pending] by (metis select_chunks_cong)
  have row3: "select_event (cp_EventID body) (committed s3) = select_event (cp_EventID body) (committed s2)"
    using Complete_done [OF fin q2(2) sel2 pending] by (metis select_event_def)
  show ?thesis
  proof (rule that [of s3 _ "sealed_row ?ev (occurred_text ?ev (RFC3339Nano (clock s1))) (RFC3339Nano (clock s1)) ?n data"])
    show "captureAppend rq (s, c) = (False, s3, c\<lparr>cn_in := snd kr, cn_out := (cn_out c)\<lparr>sink := sink (cn_out c) @ response_frame
        (ok_response ?i (capture_body \<lparr>AlreadyPresent = False, ActualSize = ?n, ResultSHA256 = sha256_hex data\<rparr>))\<rparr>\<rparr>)"
      using good began hd app fin conn(2) fits
      by (cases kr) (simp add: captureAppend_def Let_def good_capture_def fits [THEN leD] s2_def writeOK_open capture_body_short)
  qed (use q3 chunks2 chunks3 row3 row_ev in \<open>simp_all add: quiet_def\<close>)
qed

section \<open>Reading back\<close>

lemma EventMetadata_calm:
  "faults s = [] \<Longrightarrow> select_event i (committed s) = Some row \<Longrightarrow>
     EventMetadata i s = (Inr \<lparr>TotalSize = er_actual_size row, MetadataSHA256 = er_payload_sha256 row\<rparr>, s)"
  by (simp add: EventMetadata_def run_simps calm_simps)

lemma payload_body_short:
  assumes "length (pl_EventID b) \<le> 50000"
  shows "length (json_text (payload_body b \<lparr>TotalSize = n, MetadataSHA256 = sha256_hex d\<rparr>)) \<le> 400000"
  unfolding payload_body_def
  by (rule order_trans [OF length_jobject])
    (use assms length_juint [of n] length_juint [of "pl_Limit b"] length_juint [of "pl_Offset b"]
      length_jstr [of "sha256_hex d"] length_jstr [of "pl_EventID b"] in simp)

lemma readPayload_calm:
  assumes "faults s = []" and "plan (cn_out c) = []" and "unmarshal_raw decode_payload (rq_Body rq) = Some b"
    and "pl_EventID b \<noteq> ''''" and "length (rq_RequestID rq) \<le> 100000" and "length (pl_EventID b) \<le> 50000"
    and "select_event (pl_EventID b) (committed s) = Some row" and "er_actual_size row = n" and "er_payload_sha256 row = sha256_hex data"
    and "select_chunks (pl_EventID b) (committed s) = chunk_rows (pl_EventID b) (chunks_of data)" and "length data = unat n"
  obtains c' where "readPayload rq (s, c) = (False, s, c')"
    and "sink (cn_out c') = sink (cn_out c) @ response_frame (ok_response (rq_RequestID rq)
        (payload_body b \<lparr>TotalSize = n, MetadataSHA256 = sha256_hex data\<rparr>))
      @ put_uint64 (payload_length n (pl_Offset b) (pl_Limit b)) @ slice (unat (pl_Offset b)) (unat (pl_Limit b)) data"
proof -
  let ?m = "\<lparr>TotalSize = n, MetadataSHA256 = sha256_hex data\<rparr>"
  let ?w = "(cn_out c)\<lparr>sink := sink (cn_out c) @ response_frame (ok_response (rq_RequestID rq) (payload_body b ?m))
      @ put_uint64 (payload_length n (pl_Offset b) (pl_Limit b))\<rparr>"
  have canon: "canonical (er_actual_size row) (select_chunks (pl_EventID b) (committed s))"
    using assms(8,10,11) by (simp add: canonical_chunk_rows)
  have open_w: "plan ?w = []" using assms(2) by simp
  obtain w' a where read: "ReadEventEvidence (pl_EventID b) (pl_Offset b) (pl_Limit b) (Some writer_write) (s, ?w) = (Inr a, (s, w'))"
    and w': "sink w' = sink ?w @ slice (unat (pl_Offset b)) (unat (pl_Limit b)) data"
    by (rule open_writer.ReadEventEvidence_calm [OF assms(1) open_w assms(7) canon, of "pl_Offset b" "pl_Limit b"])
      (use assms(10) in auto)
  show ?thesis
  proof (rule that)
    show "readPayload rq (s, c) = (False, s, c\<lparr>cn_out := w'\<rparr>)"
      using assms(2-5) EventMetadata_calm [OF assms(1,7)] assms(8,9) payload_body_short [OF assms(6), of n data] read
      by (simp add: readPayload_def Let_def writeOK_open WriteEvidenceHeader_open)
  qed (simp add: w')
qed

section \<open>A sample capture\<close>

definition sample_capture :: protocol_request where
  "sample_capture = \<lparr>rq_ProtocolVersion = 1, rq_RequestID = ''a1'', rq_Operation = ''capture.append'', rq_SentAt = zero_time,
     rq_Body = Some (jobject [(''event_id'', jstr ''e1''), (''event_type'', jstr ''provider_request''), (''project_id'', jstr ''p''),
       (''session_id'', jstr ''s''), (''encoding'', jstr ''identity''), (''occurred_at'', jstr ''2026-01-02T03:04:05Z''),
       (''payload_size'', juint 2)])\<rparr>"

definition sample_body :: capture_request where
  "sample_body = \<lparr>cp_EventID = ''e1'', cp_EventType = ''provider_request'', cp_ProjectID = ''p'', cp_SessionID = ''s'',
     cp_ExchangeID = '''', cp_Sequence = 0, cp_OccurredAt = \<lparr>instant = 63902919845000000000, zone = 0\<rparr>,
     cp_Encoding = ''identity'', cp_PayloadSize = 2\<rparr>"

lemma capture_keys [simp]:
  "is_text ''event_id''" "is_text ''event_type''" "is_text ''project_id''" "is_text ''session_id''" "is_text ''exchange_id''"
  "is_text ''sequence''" "is_text ''occurred_at''" "is_text ''encoding''" "is_text ''payload_size''" "is_text ''offset''"
  "is_text ''limit''"
  by (simp_all add: ascii_text)

lemma sample_time: "decode_time (jstr ''2026-01-02T03:04:05Z'') old = Some \<lparr>instant = 63902919845000000000, zone = 0\<rparr>"
proof -
  have "parse_rfc3339 (bytes_of ''2026-01-02T03:04:05Z'') = Some \<lparr>instant = 63902919845000000000, zone = 0\<rparr>"
    by code_simp
  moreover have "quote_text (bytes_of ''2026-01-02T03:04:05Z'') = bytes_of ''2026-01-02T03:04:05Z''"
    by (rule quote_plain) (simp add: bytes_of_def plain_def)
  ultimately show ?thesis by (simp add: decode_time_def)
qed

lemma sample_decodes: "unmarshal_raw decode_capture (rq_Body sample_capture) = Some sample_body"
  by (simp add: unmarshal_raw_def sample_capture_def decode_capture_def struct_members_jobject field_jobject known_def
      capture_fields_def ascii_text sample_time sample_body_def)

lemma sample_good: "good_capture fresh_store sample_capture sample_body [1, 2]"
  unfolding good_capture_def sample_decodes
  by (simp add: sample_capture_def sample_body_def fresh_store_def year_0_def year_10000_def validCapture_def IsZero_def maxInt_def
      select_attempt_def) (simp add: empty_database_def)

definition sample_conn :: conn where
  "sample_conn = \<lparr>cn_in = [(put_uint64 2 @ [1, 2] @ [], None)], cn_out = open_sink\<rparr>"

definition sample_read :: protocol_request where
  "sample_read = \<lparr>rq_ProtocolVersion = 1, rq_RequestID = ''a2'', rq_Operation = ''event.read_payload'', rq_SentAt = zero_time,
     rq_Body = Some (jobject [(''event_id'', jstr ''e1''), (''offset'', juint 1), (''limit'', juint 5)])\<rparr>"

lemma sample_read_decodes:
  "unmarshal_raw decode_payload (rq_Body sample_read) = Some \<lparr>pl_EventID = ''e1'', pl_Offset = 1, pl_Limit = 5\<rparr>"
  by (simp add: unmarshal_raw_def sample_read_def decode_payload_def struct_members_jobject field_jobject known_def
      payload_fields_def ascii_text)

lemma sample_facts:
  "cp_EventID sample_body = ''e1''" "cp_PayloadSize sample_body = 2" "rq_RequestID sample_capture = ''a1''"
  "rq_RequestID sample_read = ''a2''" "working fresh_store = None"
  "capture_events empty_database = []" "cn_in sample_conn = [(put_uint64 2 @ [1, 2] @ [], None)]"
  "plan (cn_out sample_conn) = []"
  by (simp_all add: sample_body_def sample_capture_def sample_read_def sample_conn_def empty_database_def)

theorem capture_ok_is_durable_witness:
  "\<exists>s c row. captureAppend sample_capture (fresh_store, sample_conn) = (False, s, c)
     \<and> select_attempt ''a1'' (committed s) = Some row \<and> ar_status row = CaptureAttemptCompleted"
proof -
  obtain s' c' where run: "captureAppend sample_capture (fresh_store, sample_conn) = (False, s', c')"
    by (rule captureAppend_calm [OF sample_good, of sample_conn "[]"]) (simp_all add: sample_facts)
  from capture_ok_is_durable [OF run] run show ?thesis by (auto simp: sample_facts)
qed



end
