(* ===== verification/ClientSteps.thy ===== *)
theory ClientSteps
  imports ClientFacts CaptureRuns
begin

text \<open>
  The client stays in step with the daemon: after an operation its connection is either given
  up or has carried whole messages only.
\<close>

section \<open>Whole messages\<close>

text \<open>Between two states of a connection exactly one frame was read, and it held this message.\<close>

definition received :: "(json \<Rightarrow> 'a option) \<Rightarrow> 'a \<Rightarrow> reader \<Rightarrow> reader \<Rightarrow> bool" where
  "received dec x r r' \<longleftrightarrow>
     (\<exists>header payload. stream r = header @ payload @ stream r' \<and> length header = 8
        \<and> unat (get_uint64 header) = length payload \<and> length payload \<le> MaxControlFrameLength \<and> unmarshal dec payload = Some x)"

lemma ReadFrame_done:
  assumes "ReadFrame r = (Inr payload, r')"
  obtains header where "stream r = header @ payload @ stream r'" and "length header = 8"
    and "unat (get_uint64 header) = length payload" and "length payload \<le> MaxControlFrameLength"
proof -
  from assms obtain header r1 where hd: "read_full 8 r = (Inr header, r1)"
    and small: "\<not> of_nat MaxControlFrameLength < get_uint64 header"
    and body: "read_full (unat (get_uint64 header)) r1 = (Inr payload, r')"
    by (auto simp: ReadFrame_def Let_def split: prod.splits sum.splits if_splits)
  have "unat (get_uint64 header) \<le> MaxControlFrameLength"
    using small by (simp add: not_less word_le_nat_alt MaxControlFrameLength_def)
  with read_full_sound [OF hd] read_full_sound [OF body] show ?thesis by (intro that [of header]) simp_all
qed

lemma Decode_done: "Decode dec r = (Inr x, r') \<Longrightarrow> received dec x r r'"
  unfolding Decode_def received_def
  by (auto split: prod.splits sum.splits option.splits elim!: ReadFrame_done)

text \<open>A request with its answer: one frame each way, and the answer belongs to the request.\<close>

definition answered :: "call_env \<Rightarrow> string \<Rightarrow> json \<Rightarrow> wire \<Rightarrow> wire \<Rightarrow> protocol_response \<Rightarrow> bool" where
  "answered env operation body conn conn' envelope \<longleftrightarrow>
     (\<exists>i v. requestID env = Inr i \<and> request_json (client_request env i operation body) = Some v
        \<and> sink (wire_out conn') = sink (wire_out conn) @ frame (json_text v)
        \<and> received decode_response envelope (wire_in conn) (wire_in conn') \<and> validateResponse envelope i = None)"

text \<open>The connection an operation runs on: the one the client has, or else the one it dials.\<close>

definition used_wire :: "call_env \<Rightarrow> client \<Rightarrow> wire \<Rightarrow> bool" where
  "used_wire env c conn \<longleftrightarrow> kl_conn c = Some conn \<or> kl_conn c = None \<and> env_dial env = Inr conn"

lemma connection_used:
  "connection env c = (Inr conn, c1) \<Longrightarrow> used_wire env c conn \<and> kl_conn c1 = Some conn \<and> kl_closed c1 = kl_closed c"
  by (auto simp: connection_def used_wire_def split: if_splits option.splits sum.splits)

lemma exchange_answered:
  assumes "exchange wt rt env (client_request env i operation body) conn c = (Inr (envelope, conn'), c')" and "requestID env = Inr i"
  shows "answered env operation body conn conn' envelope" and "c' = c\<lparr>kl_conn := Some conn'\<rparr>"
proof -
  obtain v where v: "request_json (client_request env i operation body) = Some v"
    "sink (wire_out conn') = sink (wire_out conn) @ frame (json_text v)"
    "Decode decode_response (wire_in conn) = (Inr envelope, wire_in conn')"
    "validateResponse envelope (rq_RequestID (client_request env i operation body)) = None" "c' = c\<lparr>kl_conn := Some conn'\<rparr>"
    by (rule exchange_done [OF assms(1)])
  then show "answered env operation body conn conn' envelope" "c' = c\<lparr>kl_conn := Some conn'\<rparr>"
    using assms(2) Decode_done [OF v(3)] by (auto simp: answered_def client_request_def)
qed

lemma answered_status: "answered env operation body conn conn' envelope \<Longrightarrow> rs_Status envelope = ''ok'' \<or> rs_Status envelope = ''error''"
  by (auto simp: answered_def validateResponse_def split: if_splits)

section \<open>Properties of the client\<close>


context io_writer
begin

text \<open>A payload is read from the bytes behind its response.\<close>

lemma client_ReadPayload_done:
  assumes "client_ReadPayload (Some wr) env i offset limit c w = (Inr m, c', w')"
  obtains conn conn1 conn' envelope header data where "used_wire env c conn"
    and "answered env ''event.read_payload''
      (jobject [(''event_id'', jstr i), (''limit'', juint limit), (''offset'', juint offset)]) conn conn1 envelope"
    and "rs_Status envelope = ''ok''" and "stream (wire_in conn1) = header @ data @ stream (wire_in conn')" and "length header = 8"
    and "get_uint64 header = pm_BytesWritten m" and "length data = unat (pm_BytesWritten m)"
    and "pm_BytesWritten m = expected_length (pm_TotalSize m) offset limit"
    and "sunk w' = sunk w @ data" and "wire_out conn' = wire_out conn1" and "kl_conn c' = Some conn'"
    and "pm_EventID m = i" and "pm_Offset m = offset" and "pm_Limit m = limit" and "length (pm_SHA256 m) = 64"
proof -
  let ?body = "jobject [(''event_id'', jstr i), (''limit'', juint limit), (''offset'', juint offset)]"
  from assms have i: "i \<noteq> ''''" and gates: "env_gate env = None" "env_ctx env = None"
    by (auto simp: client_ReadPayload_def split: if_splits option.splits)
  obtain conn c1 where conn: "connection env c = (Inr conn, c1)"
    using assms i gates by (cases "connection env c") (auto simp: client_ReadPayload_def split: sum.splits)
  obtain k where k: "requestID env = Inr k"
    using assms i gates conn by (cases "requestID env") (auto simp: client_ReadPayload_def)
  let ?ex = "exchange ''write payload request'' ''read payload metadata'' env (client_request env k ''event.read_payload'' ?body) conn c1"
  obtain envelope conn1 c2 where ex: "?ex = (Inr (envelope, conn1), c2)"
    using assms i gates conn k by (cases ?ex) (auto simp: client_ReadPayload_def split: sum.splits)
  note ans = exchange_answered [OF ex k]
  have noerr: "rs_Status envelope \<noteq> ''error''"
    using assms i gates conn k ex by (auto simp: client_ReadPayload_def)
  obtain m0 where m0: "unmarshal_raw decode_payload_metadata (rs_Body envelope) = Some m0"
    using assms i gates conn k ex noerr
    by (cases "unmarshal_raw decode_payload_metadata (rs_Body envelope)") (auto simp: client_ReadPayload_def)
  obtain declared r where hd: "ReadEvidenceHeader (wire_in conn1) = (Inr declared, r)"
    and ok: "pm_EventID m0 = i" "pm_Offset m0 = offset" "pm_Limit m0 = limit" "length (pm_SHA256 m0) = 64"
    and declared: "declared = expected_length (pm_TotalSize m0) offset limit"
    and rest: "readEvidenceAfterHeader wr m0 declared (conn1\<lparr>wire_in := r\<rparr>) c2 w = (Inr m, c', w')"
    using assms i gates conn k ex noerr m0
    by (auto simp: client_ReadPayload_def split: if_splits sum.splits prod.splits option.splits)
  obtain header where header: "stream (wire_in conn1) = header @ stream r" "length header = 8" "get_uint64 header = declared"
    by (rule ReadEvidenceHeader_done [OF hd])
  obtain data r' where "length data = unat declared" "stream r = data @ stream r'" "sunk w' = sunk w @ data"
    "m = m0\<lparr>pm_BytesWritten := declared\<rparr>" "c' = c2\<lparr>kl_conn := Some (conn1\<lparr>wire_in := r'\<rparr>)\<rparr>"
    using readEvidenceAfterHeader_done [OF rest] by auto
  with header ans declared ok noerr answered_status [OF ans(1)] connection_used [OF conn] show ?thesis
    by (intro that [of conn conn1 envelope header data "conn1\<lparr>wire_in := r'\<rparr>"]) simp_all
qed

end

end
