(* ===== verification/EndToEnd.thy ===== *)
theory EndToEnd
  imports ClientSteps
begin

text \<open>
  The client and the daemon together: a payload request on its whole way, and what an idle
  connection costs.
\<close>

section \<open>Reading from pieces\<close>

lemma reader_read_segments:
  assumes "cs \<noteq> []"
  obtains d cs' where "reader_read k (reader_of cs) = (d, None, reader_of cs')" and "concat cs = d @ concat cs'"
proof -
  obtain c cs0 where cs: "cs = c # cs0" using assms by (cases cs) simp_all
  show ?thesis
    by (cases "length c \<le> k") (simp_all add: cs that [of c cs0] that [of "take k c" "drop k c # cs0"])
qed

context reliable_writer
begin

lemma copy_write_fit:
  assumes "fit w"
  obtains w' where "copy_write wr d w = (None, length d, w')" and "fit w'" and "sunk w' = sunk w @ d"
proof -
  obtain n e w' where wr: "wr d w = (n, e, w')" by (cases "wr d w")
  from wr_all [OF assms wr] wr_sunk [OF wr] show ?thesis by (intro that [of w']) (simp_all add: copy_write_def wr)
qed

lemma copy_limited_segments:
  "0 < k \<Longrightarrow> fit w \<Longrightarrow> n \<le> length (concat cs) \<Longrightarrow>
     \<exists>cs' w'. copy_limited wr k m (n, reader_of cs) w = ((m + n, None), reader_of cs', w')
       \<and> fit w' \<and> sunk w' = sunk w @ take n (concat cs) \<and> concat cs' = drop n (concat cs)"
proof (induction "n + length (reader_of cs)" arbitrary: m n cs w rule: less_induct)
  case less
  show ?case
  proof (cases "n = 0")
    case True
    with less.prems show ?thesis by (auto simp: copy_limited.simps)
  next
    case False
    with less.prems have "cs \<noteq> []" by auto
    then obtain d cs1 where rd: "reader_read (min k n) (reader_of cs) = (d, None, reader_of cs1)" and cs: "concat cs = d @ concat cs1"
      by (rule reader_read_segments)
    have len: "length d \<le> n" using script.rd_length [OF rd] by simp
    obtain w1 where w1: "copy_write wr d w = (None, length d, w1)" "fit w1" "sunk w1 = sunk w @ d"
      using copy_write_fit [OF less.prems(2)] by blast
    define w2 where "w2 = (if d = [] then w else w1)"
    have wr: "(if d = [] then (None, 0, w) else copy_write wr d w) = (None, length d, w2)" by (simp add: w2_def w1(1))
    have w2: "fit w2" "sunk w2 = sunk w @ d" using less.prems(2) w1 by (simp_all add: w2_def)
    have step: "copy_limited wr k m (n, reader_of cs) w
        = copy_limited wr k (m + length d) (n - length d, reader_of cs1) w2"
      using False less.prems(1) rd wr by (simp add: copy_limited.simps [of wr k m n])
    have small: "n - length d + length (reader_of cs1) < n + length (reader_of cs)"
      by (rule copy_progress [OF rd]) (use False less.prems(1) in simp_all)
    have enough: "n - length d \<le> length (concat cs1)" using less.prems(3) cs by simp
    from less.hyps [OF small less.prems(1) w2(1) enough, of "m + length d"] len cs step w2(2) show ?thesis by simp
  qed
qed

end

lemma ReadEvidenceHeader_segments:
  assumes "concat cs = put_uint64 n @ rest"
  obtains cs' where "ReadEvidenceHeader (reader_of cs) = (Inr n, reader_of cs')" and "concat cs' = rest"
proof -
  have "8 \<le> length (concat cs)" using assms by simp
  then obtain cs1 where "read_full 8 (reader_of cs) = (Inr (take 8 (concat cs)), reader_of cs1)" "concat cs1 = drop 8 (concat cs)"
    by (rule read_full_segments)
  with assms show ?thesis by (intro that [of cs1]) (simp_all add: ReadEvidenceHeader_def)
qed


section \<open>The request and its answer\<close>

definition payload_request_of :: "call_env \<Rightarrow> string \<Rightarrow> string \<Rightarrow> u64 \<Rightarrow> u64 \<Rightarrow> protocol_request" where
  "payload_request_of env k i offset limit = client_request env k ''event.read_payload''
     (jobject [(''event_id'', jstr i), (''limit'', juint limit), (''offset'', juint offset)])"

definition payload_answer :: "string \<Rightarrow> string \<Rightarrow> u64 \<Rightarrow> u64 \<Rightarrow> u64 \<Rightarrow> bytes \<Rightarrow> bytes" where
  "payload_answer k i offset limit n data =
     response_frame (ok_response k (payload_body \<lparr>pl_EventID = i, pl_Offset = offset, pl_Limit = limit\<rparr>
       \<lparr>TotalSize = n, MetadataSHA256 = sha256_hex data\<rparr>))
     @ put_uint64 (payload_length n offset limit) @ slice (unat offset) (unat limit) data"

lemma expected_payload_length: "expected_length n offset limit = payload_length n offset limit"
  unfolding expected_length_def payload_length_def Let_def not_less [symmetric]
  by (cases "offset < n") (simp_all only: if_True if_False not_True_eq_False not_False_eq_True)

lemma payload_keys [simp]: "is_text ''sha256''" "is_text ''total_size''" "is_text ''bytes_written''"
  by (simp_all add: ascii_text)

lemma hex_char_ascii: "n < 16 \<Longrightarrow> of_char (hex_char n) < (128 :: nat)"
  using hex_value_char [of n] by (auto simp: hex_value_def Let_def split: if_splits)

lemma hex_byte_ascii: "c \<in> set (hex_byte b) \<Longrightarrow> of_char c < (128 :: nat)"
  using hex_char_ascii [of "unat b div 16"] hex_char_ascii [of "unat b mod 16"] unsigned_less [of b, where ?'a = nat]
  by (auto simp: hex_byte_def)

lemma hex_text [simp]: "is_text (hex_encode d)" "is_text (sha256_hex d)"
  by (rule ascii_text, auto simp: sha256_hex_def hex_encode_def list_all_iff dest: hex_byte_ascii)+

lemma decode_payload_request:
  "is_text i \<Longrightarrow> unmarshal_raw decode_payload (rq_Body (received_request (payload_request_of env k i offset limit)))
     = Some \<lparr>pl_EventID = i, pl_Offset = offset, pl_Limit = limit\<rparr>"
  by (simp add: unmarshal_raw_def received_request_def payload_request_of_def client_request_def raw_json_def decode_payload_def
      struct_members_jobject field_jobject known_def payload_fields_def)

lemma decode_payload_answer:
  "is_text i \<Longrightarrow> decode_payload_metadata (payload_body \<lparr>pl_EventID = i, pl_Offset = offset, pl_Limit = limit\<rparr>
       \<lparr>TotalSize = n, MetadataSHA256 = sha256_hex data\<rparr>)
     = Some \<lparr>pm_EventID = i, pm_TotalSize = n, pm_SHA256 = sha256_hex data, pm_Offset = offset, pm_Limit = limit, pm_BytesWritten = 0\<rparr>"
  by (simp add: payload_body_def decode_payload_metadata_def struct_members_jobject field_jobject known_def payload_metadata_fields_def)

lemma payload_request_ok:
  assumes "is_text i" and "is_text k" and "year_0 \<le> instant (env_now env)" and "instant (env_now env) < year_10000"
  shows "request_ok (payload_request_of env k i offset limit)"
  using assms
  by (simp add: request_ok_def payload_request_of_def client_request_def int64_def max_int64_def Version_def ascii_text UTC_def
      max_nesting_def json_ok_jobject)

lemma payload_request_fits:
  assumes "is_text i" and "length i \<le> 50000" and "is_text k" and "length k \<le> 10000"
    and "year_0 \<le> instant (env_now env)" and "instant (env_now env) < year_10000"
  obtains v where "request_json (payload_request_of env k i offset limit) = Some v" and "length (json_text v) \<le> MaxControlFrameLength"
proof -
  have ok: "request_ok (payload_request_of env k i offset limit)" using assms(1,3,5,6) by (rule payload_request_ok)
  have "length (json_text (jobject [(''event_id'', jstr i), (''limit'', juint limit), (''offset'', juint offset)])) \<le> 800000"
    by (rule order_trans [OF length_jobject])
      (use assms(2) length_juint [of limit] length_juint [of offset] length_jstr [of i] in simp)
  then show ?thesis
    using request_fits [OF ok] assms(4) that
    by (auto simp: payload_request_of_def client_request_def raw_json_def)
qed

lemma payload_answer_ok:
  assumes "is_text i" and "is_text k"
  shows "response_ok (ok_response k (payload_body \<lparr>pl_EventID = i, pl_Offset = offset, pl_Limit = limit\<rparr>
       \<lparr>TotalSize = n, MetadataSHA256 = sha256_hex data\<rparr>))"
  using assms
  by (simp add: response_ok_def ok_response_def int64_def max_int64_def Version_def ascii_text payload_body_def
      max_nesting_def json_ok_jobject)

section \<open>The daemon's half\<close>

text \<open>The store holds this evidence, whole.\<close>

definition holds_evidence :: "store \<Rightarrow> string \<Rightarrow> bytes \<Rightarrow> bool" where
  "holds_evidence s i data \<longleftrightarrow>
     (\<exists>row. select_event i (committed s) = Some row \<and> length data = unat (er_actual_size row)
        \<and> er_payload_sha256 row = sha256_hex data \<and> select_chunks i (committed s) = chunk_rows i (chunks_of data))"

lemma payload_answered:
  assumes "faults s = []" and "holds_evidence s i data" and "is_text i" and "i \<noteq> ''''" and "length i \<le> 50000"
    and "is_text k" and "k \<noteq> ''''" and "length k \<le> 100000" and "n = of_nat (length data)"
  obtains c where "handleRequest fts running (received_request (payload_request_of env k i offset limit))
      (s, \<lparr>cn_in = r, cn_out = open_sink\<rparr>) = (False, s, c)"
    and "sink (cn_out c) = payload_answer k i offset limit n data"
proof -
  let ?rq = "received_request (payload_request_of env k i offset limit)"
  let ?b = "\<lparr>pl_EventID = i, pl_Offset = offset, pl_Limit = limit\<rparr>"
  obtain row where row: "select_event i (committed s) = Some row" "length data = unat (er_actual_size row)"
    "er_payload_sha256 row = sha256_hex data" "select_chunks i (committed s) = chunk_rows i (chunks_of data)"
    using assms(2) by (auto simp: holds_evidence_def)
  have size: "er_actual_size row = n" using row(2) assms(9) by simp
  with row(2) have len: "length data = unat n" by simp
  have id: "rq_RequestID ?rq = k" by (simp add: received_request_def payload_request_of_def client_request_def)
  obtain c where c: "readPayload ?rq (s, \<lparr>cn_in = r, cn_out = open_sink\<rparr>) = (False, s, c)"
    "sink (cn_out c) = sink (cn_out \<lparr>cn_in = r, cn_out = open_sink\<rparr>) @ response_frame (ok_response (rq_RequestID ?rq)
        (payload_body ?b \<lparr>TotalSize = n, MetadataSHA256 = sha256_hex data\<rparr>))
      @ put_uint64 (payload_length n (pl_Offset ?b) (pl_Limit ?b)) @ slice (unat (pl_Offset ?b)) (unat (pl_Limit ?b)) data"
    by (rule readPayload_calm [where c = "\<lparr>cn_in = r, cn_out = open_sink\<rparr>", OF assms(1) _ decode_payload_request [OF assms(3), of env k offset limit] _ _ _ _ size row(3)])
      (use row(1,4) len assms(4,5,8) id in simp_all)
  have "handleRequest fts running ?rq sc = readPayload ?rq sc" for sc
    using assms(7)
    by (simp add: handleRequest_def Let_def received_request_def payload_request_of_def client_request_def)
  with c id show ?thesis by (intro that [of c]) (simp_all add: payload_answer_def)
qed

section \<open>The client's half\<close>

lemma exchange_open:
  assumes "request_json rq = Some v" and "length (json_text v) \<le> MaxControlFrameLength" and "response_ok rs"
    and "length (json_text (response_json rs)) \<le> MaxControlFrameLength"
    and "validateResponse (received_response rs) (rq_RequestID rq) = None" and "plan w0 = []" and "concat cs = response_frame rs @ rest"
  obtains cs' where "exchange wt rt env rq \<lparr>wire_in = reader_of cs, wire_out = w0\<rparr> c
      = (Inr (received_response rs, \<lparr>wire_in = reader_of cs', wire_out = w0\<lparr>sink := sink w0 @ frame (json_text v)\<rparr>\<rparr>),
         c\<lparr>kl_conn := Some \<lparr>wire_in = reader_of cs', wire_out = w0\<lparr>sink := sink w0 @ frame (json_text v)\<rparr>\<rparr>\<rparr>)"
    and "concat cs' = rest"
proof -
  obtain cs' where dec: "Decode decode_response (reader_of cs) = (Inr (received_response rs), reader_of cs')" and rest: "concat cs' = rest"
    by (rule Decode_segments [OF assms(4) unmarshal_response [OF assms(3)]]) (use assms(7) in \<open>simp add: response_frame_def\<close>)
  show ?thesis
    by (rule that [OF _ rest]) (use assms dec Encode_open [OF assms(6,2)] in \<open>simp add: exchange_def Let_def\<close>)
qed

context reliable_writer
begin

lemma evidence_received:
  assumes "length data \<le> unat maxInt" and "length data = unat n" and "fit dst" and "concat cs = data @ rest"
  obtains cs' dst' where "readEvidenceAfterHeader wr m n \<lparr>wire_in = reader_of cs, wire_out = w0\<rparr> c dst
      = (Inr (m\<lparr>pm_BytesWritten := n\<rparr>), c\<lparr>kl_conn := Some \<lparr>wire_in = reader_of cs', wire_out = w0\<rparr>\<rparr>, dst')"
    and "fit dst'" and "sunk dst' = sunk dst @ data" and "concat cs' = rest"
proof -
  have "n \<le> maxInt" using assms(1,2) by (simp add: word_le_nat_alt)
  moreover have "drop_bit 1 (-1 :: u64) = maxInt" by (simp add: maxInt_def mask_eq_exp_minus_1)
  ultimately have fits: "\<not> drop_bit 1 (-1 :: u64) < n" by (simp add: not_less)
  have n: "(of_nat (unat n) :: u64) = n" by simp
  show ?thesis
  proof (cases "n = 0")
    case True
    with assms(2) have "data = []" by simp
    with True assms(3,4) show ?thesis
      by (intro that [of cs dst]) (simp_all add: readEvidenceAfterHeader_def copy_limited.simps)
  next
    case False
    then have "0 < min copyBufferSize (unat n)" by (simp add: copyBufferSize_def unat_gt_0)
    from copy_limited_segments [OF this assms(3), of "unat n" cs 0] obtain cs' dst' where
      "copy_limited wr (min copyBufferSize (unat n)) 0 (unat n, reader_of cs) dst = ((unat n, None), reader_of cs', dst')"
      "fit dst'" "sunk dst' = sunk dst @ data" "concat cs' = rest"
      using assms(2,4) by auto
    with fits n show ?thesis by (intro that [of cs' dst']) (simp_all add: readEvidenceAfterHeader_def)
  qed
qed

end

section \<open>Both halves together\<close>

lemma payload_answer_length:
  assumes "length data \<le> unat maxInt"
  shows "length (slice (unat offset) (unat limit) data) = unat (payload_length (of_nat (length data)) offset limit)"
    and "length (slice (unat offset) (unat limit) data) \<le> unat maxInt"
proof -
  let ?n = "of_nat (length data) :: u64"
  have n: "unat ?n = length data" using assms by (simp add: maxInt_def)
  show "length (slice (unat offset) (unat limit) data) = unat (payload_length ?n offset limit)"
  proof (cases "offset < ?n")
    case True
    then have "(?n \<le> offset) = False" by (simp add: not_le)
    with read_range_arith(1) [OF True refl n, of limit] show ?thesis
      unfolding payload_length_def Let_def by (simp only: if_False)
  next
    case False
    then have "length data \<le> unat offset" by (simp add: not_less word_le_nat_alt n del: unat_of_nat)
    with False show ?thesis by (simp add: slice_def payload_length_def Let_def not_less)
  qed
  show "length (slice (unat offset) (unat limit) data) \<le> unat maxInt" using assms by (auto simp: slice_def)
qed

context reliable_writer
begin

lemma payload_received:
  assumes env: "env_gate env = None" "env_ctx env = None" "requestID env = Inr k"
    and k: "is_text k" "length k \<le> 10000" and i: "is_text i" "i \<noteq> ''''" "length i \<le> 50000"
    and v: "request_json (payload_request_of env k i offset limit) = Some v" "length (json_text v) \<le> MaxControlFrameLength"
    and data: "length data \<le> unat maxInt"
    and c: "\<not> kl_closed c" "kl_conn c = Some \<lparr>wire_in = reader_of cs, wire_out = w0\<rparr>" "plan w0 = []" "fit dst"
    and cs: "concat cs = payload_answer k i offset limit (of_nat (length data)) data @ rest"
  obtains cs' dst' where "client_ReadPayload (Some wr) env i offset limit c dst
      = (Inr \<lparr>pm_EventID = i, pm_TotalSize = of_nat (length data), pm_SHA256 = sha256_hex data, pm_Offset = offset, pm_Limit = limit,
           pm_BytesWritten = payload_length (of_nat (length data)) offset limit\<rparr>,
         c\<lparr>kl_conn := Some \<lparr>wire_in = reader_of cs', wire_out = w0\<lparr>sink := sink w0 @ frame (json_text v)\<rparr>\<rparr>\<rparr>,
         dst')"
    and "fit dst'" and "sunk dst' = sunk dst @ slice (unat offset) (unat limit) data" and "concat cs' = rest"
proof -
  let ?n = "of_nat (length data) :: u64" and ?part = "slice (unat offset) (unat limit) data"
  let ?b = "\<lparr>pl_EventID = i, pl_Offset = offset, pl_Limit = limit\<rparr>"
  let ?answer = "payload_body ?b \<lparr>TotalSize = ?n, MetadataSHA256 = sha256_hex data\<rparr>"
  let ?rs = "ok_response k ?answer" and ?w1 = "w0\<lparr>sink := sink w0 @ frame (json_text v)\<rparr>"
  have ok: "response_ok ?rs" using i(1) k(1) by (rule payload_answer_ok)
  have "length (json_text ?answer) \<le> 400000" by (rule payload_body_short) (use i(3) in simp)
  then have fits: "length (json_text (response_json ?rs)) \<le> MaxControlFrameLength" using k(2) by (simp add: ok_response_fits)
  have valid: "validateResponse (received_response ?rs) (rq_RequestID (payload_request_of env k i offset limit)) = None"
    by (simp add: validateResponse_def received_response_def ok_response_def payload_request_of_def client_request_def)
  have "concat cs = response_frame ?rs @ put_uint64 (payload_length ?n offset limit) @ ?part @ rest"
    using cs by (simp add: payload_answer_def)
  from exchange_open [OF v ok fits valid c(3) this, of "''write payload request''" "''read payload metadata''" env c]
  obtain cs1 where ex: "exchange ''write payload request'' ''read payload metadata'' env (payload_request_of env k i offset limit)
        \<lparr>wire_in = reader_of cs, wire_out = w0\<rparr> c
      = (Inr (received_response ?rs, \<lparr>wire_in = reader_of cs1, wire_out = ?w1\<rparr>), c\<lparr>kl_conn := Some \<lparr>wire_in = reader_of cs1, wire_out = ?w1\<rparr>\<rparr>)"
    and cs1: "concat cs1 = put_uint64 (payload_length ?n offset limit) @ ?part @ rest" .
  obtain cs2 where hd: "ReadEvidenceHeader (reader_of cs1) = (Inr (payload_length ?n offset limit), reader_of cs2)"
    and cs2: "concat cs2 = ?part @ rest" by (rule ReadEvidenceHeader_segments [OF cs1])
  let ?m = "\<lparr>pm_EventID = i, pm_TotalSize = ?n, pm_SHA256 = sha256_hex data, pm_Offset = offset, pm_Limit = limit, pm_BytesWritten = 0\<rparr>"
  obtain cs3 dst' where body: "readEvidenceAfterHeader wr ?m (payload_length ?n offset limit) \<lparr>wire_in = reader_of cs2, wire_out = ?w1\<rparr>
        (c\<lparr>kl_conn := Some \<lparr>wire_in = reader_of cs1, wire_out = ?w1\<rparr>\<rparr>) dst
      = (Inr (?m\<lparr>pm_BytesWritten := payload_length ?n offset limit\<rparr>),
         c\<lparr>kl_conn := Some \<lparr>wire_in = reader_of cs1, wire_out = ?w1\<rparr>, kl_conn := Some \<lparr>wire_in = reader_of cs3, wire_out = ?w1\<rparr>\<rparr>,
         dst')" and dst: "fit dst'" "sunk dst' = sunk dst @ ?part" and cs3: "concat cs3 = rest"
    by (rule evidence_received [OF payload_answer_length(2,1) [OF data] c(4) cs2])
  have conn: "connection env c = (Inr \<lparr>wire_in = reader_of cs, wire_out = w0\<rparr>, c)" using c(1,2) by (simp add: connection_def)
  have dec: "unmarshal_raw decode_payload_metadata (rs_Body (received_response ?rs)) = Some ?m"
    using decode_payload_answer [OF i(1)]
    by (simp add: unmarshal_raw_def received_response_def ok_response_def raw_json_def)
  have st: "rs_Status (received_response ?rs) \<noteq> ''error''" by (simp add: received_response_def ok_response_def)
  have "client_ReadPayload (Some wr) env i offset limit c dst
      = readEvidenceAfterHeader wr ?m (payload_length ?n offset limit) \<lparr>wire_in = reader_of cs2, wire_out = ?w1\<rparr>
        (c\<lparr>kl_conn := Some \<lparr>wire_in = reader_of cs1, wire_out = ?w1\<rparr>\<rparr>) dst"
    using env i(2) conn ex dec st hd
    by (simp add: client_ReadPayload_def payload_request_of_def expected_payload_length)
  with body dst cs3 show ?thesis by (intro that [of cs3 dst']) simp_all
qed

end

lemma Decode_empty:
  assumes "stream r = []"
  obtains e r' where "Decode dec r = (Inl e, r')"
  using Decode_consumes [of dec r] assms by (cases "Decode dec r"; cases "fst (Decode dec r)") auto

lemma serveConnection_end:
  assumes "stream (cn_in c) = []"
  obtains in1 where "serveConnection fts running n (s, c) = (s, c\<lparr>cn_in := in1\<rparr>)"
  using Decode_empty [OF assms, of decode_request] by (metis (no_types, lifting) serveConnection.simps old.prod.case sum.case(1))

section \<open>Properties of client and daemon\<close>

text \<open>
  C24: a payload on its whole way.  A client that asks for a part of a stored event sends bytes
  to which the daemon, in whatever pieces they reach it, answers with bytes that the client,
  in whatever pieces they reach it, turns into exactly that part of the evidence, with the
  metadata of the whole; its connection is then at the bytes behind the answer.
\<close>

theorem payload_end_to_end:
  assumes "faults s = []" and "holds_evidence s i data" and "length data \<le> unat maxInt"
    and "is_text i" and "i \<noteq> ''''" and "length i \<le> 50000"
    and "env_gate env = None" and "env_ctx env = None" and "env_random env = Inr rnd" and "length rnd = 16"
    and "year_0 \<le> instant (env_now env)" and "instant (env_now env) < year_10000"
  shows "\<exists>sent answer.
     (\<forall>ds. concat ds = sent \<longrightarrow> (\<exists>c. serveConnection fts running 0 (s, \<lparr>cn_in = reader_of ds, cn_out = open_sink\<rparr>) = (s, c)
          \<and> sink (cn_out c) = answer))
     \<and> (\<forall>cs rest c w0 dst. concat cs = answer @ rest \<and> \<not> kl_closed c \<and> kl_conn c = Some \<lparr>wire_in = reader_of cs, wire_out = w0\<rparr>
            \<and> plan w0 = [] \<and> plan dst = [] \<longrightarrow>
          (\<exists>m cs'. client_ReadPayload (Some writer_write) env i offset limit c dst
              = (Inr m, c\<lparr>kl_conn := Some \<lparr>wire_in = reader_of cs', wire_out = w0\<lparr>sink := sink w0 @ sent\<rparr>\<rparr>\<rparr>,
                 dst\<lparr>sink := sink dst @ slice (unat offset) (unat limit) data\<rparr>)
             \<and> concat cs' = rest \<and> pm_TotalSize m = of_nat (length data) \<and> pm_SHA256 m = sha256_hex data
             \<and> unat (pm_BytesWritten m) = length (slice (unat offset) (unat limit) data)))"
proof -
  let ?n = "of_nat (length data) :: u64" and ?k = "hex_encode rnd"
  let ?rq = "payload_request_of env ?k i offset limit" and ?answer = "payload_answer ?k i offset limit (of_nat (length data)) data"
  have id: "requestID env = Inr ?k" using assms(9) by (simp add: requestID_def)
  have k: "is_text ?k" "length ?k = 32" "?k \<noteq> ''''" using assms(10) by (auto simp flip: length_0_conv)
  have ok: "request_ok ?rq" using assms(4) k(1) assms(11,12) by (rule payload_request_ok)
  obtain v where v: "request_json ?rq = Some v" "length (json_text v) \<le> MaxControlFrameLength"
    by (rule payload_request_fits [OF assms(4,6) k(1) _ assms(11,12)]) (use k(2) in simp)
  have dec: "json_ok max_nesting v" "decode_request v = Some (received_request ?rq)"
    using request_back [OF ok] v(1) by auto
  have server: "\<exists>c. serveConnection fts running 0 (s, \<lparr>cn_in = reader_of ds, cn_out = open_sink\<rparr>) = (s, c) \<and> sink (cn_out c) = ?answer"
    if sent: "concat ds = frame (json_text v)" for ds
  proof -
    obtain ds' where rd: "Decode decode_request (reader_of ds) = (Inr (received_request ?rq), reader_of ds')" and "concat ds' = []"
      by (rule Decode_segments [OF v(2), of decode_request "received_request ?rq" ds "[]"])
        (use dec sent in \<open>simp_all add: unmarshal_text\<close>)
    obtain c where h: "handleRequest fts (running 0) (received_request ?rq) (s, \<lparr>cn_in = reader_of ds', cn_out = open_sink\<rparr>) = (False, s, c)"
      and out: "sink (cn_out c) = ?answer"
      by (rule payload_answered [OF assms(1,2,4,5,6) k(1,3) _ refl]) (use k(2) in simp)
    have "forward (reader_of ds') (cn_in c)" using handlers_behaved [OF h] by simp
    then have "stream (cn_in c) = []" using \<open>concat ds' = []\<close> by (simp add: forward_def)
    then obtain in1 where "serveConnection fts running 1 (s, c) = (s, c\<lparr>cn_in := in1\<rparr>)" by (rule serveConnection_end)
    then have "serveConnection fts running 0 (s, \<lparr>cn_in = reader_of ds, cn_out = open_sink\<rparr>) = (s, c\<lparr>cn_in := in1\<rparr>)"
      using rd h by (simp add: serveConnection.simps [of fts running 0])
    with out show ?thesis by auto
  qed
  have client: "\<exists>m cs'. client_ReadPayload (Some writer_write) env i offset limit c dst
              = (Inr m, c\<lparr>kl_conn := Some \<lparr>wire_in = reader_of cs', wire_out = w0\<lparr>sink := sink w0 @ frame (json_text v)\<rparr>\<rparr>\<rparr>,
                 dst\<lparr>sink := sink dst @ slice (unat offset) (unat limit) data\<rparr>)
             \<and> concat cs' = rest \<and> pm_TotalSize m = of_nat (length data) \<and> pm_SHA256 m = sha256_hex data
             \<and> unat (pm_BytesWritten m) = length (slice (unat offset) (unat limit) data)"
    if h: "concat cs = ?answer @ rest \<and> \<not> kl_closed c \<and> kl_conn c = Some \<lparr>wire_in = reader_of cs, wire_out = w0\<rparr>
      \<and> plan w0 = [] \<and> plan dst = []" for cs rest c w0 dst
  proof -
    from h have wires: "\<not> kl_closed c" "kl_conn c = Some \<lparr>wire_in = reader_of cs, wire_out = w0\<rparr>" "plan w0 = []" "plan dst = []"
      "concat cs = ?answer @ rest" by auto
    show ?thesis
      by (rule open_writer.payload_received [OF assms(7,8) id k(1) _ assms(4,5,6) v assms(3) wires])
        (use k(2) payload_answer_length(1) [OF assms(3), of offset limit] wires(4) in auto)
  qed
  show ?thesis
    by (intro exI [of _ "frame (json_text v)"] exI [of _ ?answer] conjI allI impI) (rule server client; assumption)+
qed

definition sample_env :: call_env where
  "sample_env = \<lparr>env_gate = None, env_ctx = None, env_dial = Inl EOF, env_closing = False, env_random = Inr (replicate 16 0),
     env_now = \<lparr>instant = 63902919845000000000, zone = 0\<rparr>, env_ctx_write = None, env_ctx_read = None\<rparr>"

definition sample_client :: "bytes list \<Rightarrow> client" where
  "sample_client cs = (client_New ''token-smith.sock'' \<lparr>DialTimeout = 0, ReadTimeout = 0, WriteTimeout = 0\<rparr>)
     \<lparr>kl_conn := Some \<lparr>wire_in = reader_of cs, wire_out = open_sink\<rparr>\<rparr>"

lemma sample_client_fields: "\<not> kl_closed (sample_client cs)" "kl_conn (sample_client cs) = Some \<lparr>wire_in = reader_of cs, wire_out = open_sink\<rparr>"
  by (simp_all add: sample_client_def client_New_def)

lemma sample_stored:
  obtains s where "faults s = []" and "holds_evidence s ''e1'' [1, 2]"
proof -
  obtain s' c' row where "captureAppend sample_capture (fresh_store, sample_conn) = (False, s', c')" "faults s' = []"
    "select_event (cp_EventID sample_body) (committed s') = Some row" "er_actual_size row = cp_PayloadSize sample_body"
    "er_payload_sha256 row = sha256_hex [1, 2]"
    "select_chunks (cp_EventID sample_body) (committed s') = chunk_rows (cp_EventID sample_body) (chunks_of [1, 2])"
    by (rule captureAppend_calm [OF sample_good, of sample_conn "[]"]) (simp_all add: sample_facts)
  then show ?thesis by (intro that [of s']) (auto simp: holds_evidence_def sample_facts)
qed

lemma sample_env_facts:
  "env_gate sample_env = None" "env_ctx sample_env = None" "env_random sample_env = Inr (replicate 16 0)"
  "length (replicate 16 0) = 16" "year_0 \<le> instant (env_now sample_env)" "instant (env_now sample_env) < year_10000"
  by (simp_all add: sample_env_def year_0_def year_10000_def)

theorem payload_end_to_end_witness:
  "\<exists>answer m c. client_ReadPayload (Some writer_write) sample_env ''e1'' 1 5 (sample_client [answer, [9]]) open_sink
     = (Inr m, c, \<lparr>sink = [2], plan = []\<rparr>) \<and> unat (pm_BytesWritten m) = 1"
proof -
  obtain s where s: "faults s = []" "holds_evidence s ''e1'' [1, 2]" by (rule sample_stored)
  have i: "length [1, 2 :: byte] \<le> unat maxInt" "is_text ''e1''" "''e1'' \<noteq> ''''" "length ''e1'' \<le> 50000"
    by (simp_all add: maxInt_def ascii_text)
  have part: "slice (unat (1 :: u64)) (unat (5 :: u64)) [1, 2 :: byte] = [2]" by (simp add: slice_def)
  from payload_end_to_end [OF s i sample_env_facts, of undefined undefined 1 5, unfolded part]
  obtain answer sent where run: "\<And>cs rest c w0 dst. concat cs = answer @ rest \<Longrightarrow> \<not> kl_closed c
      \<Longrightarrow> kl_conn c = Some \<lparr>wire_in = reader_of cs, wire_out = w0\<rparr> \<Longrightarrow> plan w0 = [] \<Longrightarrow> plan dst = []
      \<Longrightarrow> \<exists>m cs'. client_ReadPayload (Some writer_write) sample_env ''e1'' 1 5 c dst
              = (Inr m, c\<lparr>kl_conn := Some \<lparr>wire_in = reader_of cs', wire_out = w0\<lparr>sink := sink w0 @ sent\<rparr>\<rparr>\<rparr>, dst\<lparr>sink := sink dst @ [2]\<rparr>)
             \<and> unat (pm_BytesWritten m) = 1"
    by (elim exE conjE) (rule that, fastforce)
  from run [OF _ sample_client_fields, of "[answer, [9]]" "[9]" open_sink] show ?thesis by fastforce
qed

text \<open>
  C25: whatever the connection does, a payload that \<open>ReadPayload\<close> reports as read was answered:
  one request was sent and its own response received; the bytes behind this response are a
  header with the announced length, which is the length of the part asked for, and the data,
  which is exactly what the destination got.  The connection is kept right behind it.
\<close>

theorem client_payload_exact:
  assumes "client_ReadPayload (Some writer_write) env i offset limit c w = (Inr m, c', w')"
  shows "\<exists>conn conn1 conn' envelope header data. used_wire env c conn
    \<and> answered env ''event.read_payload''
        (jobject [(''event_id'', jstr i), (''limit'', juint limit), (''offset'', juint offset)]) conn conn1 envelope
    \<and> rs_Status envelope = ''ok'' \<and> stream (wire_in conn1) = header @ data @ stream (wire_in conn') \<and> length header = 8
    \<and> get_uint64 header = pm_BytesWritten m \<and> length data = unat (pm_BytesWritten m)
    \<and> pm_BytesWritten m = expected_length (pm_TotalSize m) offset limit
    \<and> sink w' = sink w @ data \<and> wire_out conn' = wire_out conn1 \<and> kl_conn c' = Some conn'
    \<and> pm_EventID m = i \<and> pm_Offset m = offset \<and> pm_Limit m = limit \<and> length (pm_SHA256 m) = 64"
  by (rule script_writer.client_ReadPayload_done [OF assms]) (intro exI conjI; assumption)

lemma sample_payload_run:
  obtains cs m c' where "client_ReadPayload (Some writer_write) sample_env ''e1'' 1 5 (sample_client cs) open_sink
    = (Inr m, c', \<lparr>sink = [2], plan = []\<rparr>)" and "pm_BytesWritten m = 1"
proof -
  let ?k = "hex_encode (replicate 16 0)" and ?data = "[1, 2 :: byte]"
  let ?rq = "payload_request_of sample_env ?k ''e1'' 1 5"
  have k: "is_text ?k" "length ?k \<le> 10000" by simp_all
  have i: "is_text ''e1''" "''e1'' \<noteq> ''''" "length ''e1'' \<le> 50000" by (simp_all add: ascii_text)
  obtain v where v: "request_json ?rq = Some v" "length (json_text v) \<le> MaxControlFrameLength"
    by (rule payload_request_fits [OF i(1,3) k sample_env_facts(5,6)])
  have part: "slice (Suc 0) 5 ?data = [2]" by (simp add: slice_def)
  have len: "payload_length 2 1 5 = 1" by (simp add: payload_length_def word_le_nat_alt)
  have id: "requestID sample_env = Inr ?k" by (simp add: requestID_def sample_env_facts)
  have data: "length ?data \<le> unat maxInt" by (simp add: maxInt_def)
  let ?cs = "[payload_answer ?k ''e1'' 1 5 (of_nat (length ?data)) ?data]"
  have cs: "concat ?cs = payload_answer ?k ''e1'' 1 5 (of_nat (length ?data)) ?data @ []" by simp
  obtain m c' dst' where run: "client_ReadPayload (Some writer_write) sample_env ''e1'' 1 5 (sample_client ?cs) open_sink = (Inr m, c', dst')"
    and dst: "plan dst' = []" "sink dst' = [2]" and m: "pm_BytesWritten m = 1"
    by (rule open_writer.payload_received [where dst = open_sink, OF sample_env_facts(1,2) id k i v data sample_client_fields _ _ cs])
      (simp, simp, rule that, assumption, simp_all add: part len)
  have "dst' = \<lparr>sink = [2], plan = []\<rparr>" using dst by (cases dst') simp
  with run m show ?thesis by (intro that [of ?cs m c']) simp_all
qed

theorem client_payload_exact_witness:
  "\<exists>cs m c. client_ReadPayload (Some writer_write) sample_env ''e1'' 1 5 (sample_client cs) open_sink = (Inr m, c, \<lparr>sink = [2], plan = []\<rparr>)
     \<and> (\<exists>rest. stream (reader_of cs) = rest \<and> 9 \<le> length rest)"
proof -
  obtain cs m c' where run: "client_ReadPayload (Some writer_write) sample_env ''e1'' 1 5 (sample_client cs) open_sink
    = (Inr m, c', \<lparr>sink = [2], plan = []\<rparr>)" and m: "pm_BytesWritten m = 1" by (rule sample_payload_run)
  from client_payload_exact [OF run] obtain conn conn1 and conn' :: wire and envelope header data where
    "used_wire sample_env (sample_client cs) conn" and "answered sample_env ''event.read_payload''
        (jobject [(''event_id'', jstr ''e1''), (''limit'', juint 5), (''offset'', juint 1)]) conn conn1 envelope"
    and "stream (wire_in conn1) = header @ data @ stream (wire_in conn')" "length header = 8" "length data = unat (pm_BytesWritten m)"
    by (elim exE conjE) (rule that; assumption)
  then have "9 \<le> length (stream (reader_of cs))"
    by (auto simp: used_wire_def sample_client_fields answered_def received_def m)
  with run show ?thesis by blast
qed



end
