(* ===== verification/Backend.thy ===== *)
theory Backend
  imports EndToEnd
begin

text \<open>
  The \<open>Client\<close> interface that the MCP server and the HTTP server call, with its contract: what a
  payload read promises to the writer it is given.  The daemon client is its implementation.
\<close>

section \<open>The interface\<close>

record ('c, 'w) backend =
  bk_Health :: "'c \<Rightarrow> (go_error + health) \<times> 'c"
  bk_Info :: "'c \<Rightarrow> (go_error + int) \<times> 'c"
  bk_Search :: "string \<Rightarrow> int \<Rightarrow> 'c \<Rightarrow> (go_error + client_reference list option) \<times> 'c"
  bk_EventMetadata :: "string \<Rightarrow> 'c \<Rightarrow> (go_error + client_metadata) \<times> 'c"
  bk_ReadPayload :: "'w write_fn \<Rightarrow> string \<Rightarrow> u64 \<Rightarrow> u64 \<Rightarrow> 'c \<Rightarrow> 'w \<Rightarrow> (go_error + payload_metadata) \<times> 'c \<times> 'w"

locale payload_backend = io_writer wr sunk
  for wr :: "'w write_fn" and sunk :: "'w \<Rightarrow> bytes" +
  fixes bk :: "('c, 'w) backend"
  assumes read_exact: "bk_ReadPayload bk wr i offset limit c w = (Inr m, c', w') \<Longrightarrow>
      \<exists>data. sunk w' = sunk w @ data \<and> length data = unat (pm_BytesWritten m)
        \<and> pm_BytesWritten m = expected_length (pm_TotalSize m) offset limit
        \<and> pm_EventID m = i \<and> pm_Offset m = offset \<and> pm_Limit m = limit"
    and read_grows: "bk_ReadPayload bk wr i offset limit c w = (res, c', w') \<Longrightarrow> \<exists>data. sunk w' = sunk w @ data"

section \<open>The client as backend\<close>

text \<open>What the \<open>n\<close>-th operation meets is \<open>envs n\<close>; the number of the operation is kept with the client.\<close>

definition client_backend :: "(nat \<Rightarrow> call_env) \<Rightarrow> (nat \<times> client, 'w) backend" where
  "client_backend envs =
     \<lparr>bk_Health = (\<lambda>(n, c). case client_Health (envs n) c of (res, c') \<Rightarrow> (res, (n + 1, c'))),
      bk_Info = (\<lambda>(n, c). case client_Info (envs n) c of (res, c') \<Rightarrow> (res, (n + 1, c'))),
      bk_Search = (\<lambda>query limit (n, c). case client_Search (envs n) query limit c of (res, c') \<Rightarrow> (res, (n + 1, c'))),
      bk_EventMetadata = (\<lambda>i (n, c). case client_EventMetadata (envs n) i c of (res, c') \<Rightarrow> (res, (n + 1, c'))),
      bk_ReadPayload = (\<lambda>wr i offset limit (n, c) w.
        case client_ReadPayload (Some wr) (envs n) i offset limit c w of (res, c', w') \<Rightarrow> (res, (n + 1, c'), w'))\<rparr>"

lemma backend_ReadPayload:
  "bk_ReadPayload (client_backend envs) wr i offset limit (n, c) w = (res, nc', w') \<longleftrightarrow>
     (\<exists>c'. client_ReadPayload (Some wr) (envs n) i offset limit c w = (res, c', w') \<and> nc' = (n + 1, c'))"
  by (auto simp: client_backend_def split: prod.splits)

context io_writer
begin

lemma client_ReadPayload_grows:
  "client_ReadPayload (Some wr) env i offset limit c w = (res, c', w') \<Longrightarrow> \<exists>data. sunk w' = sunk w @ data"
  by (auto simp: client_ReadPayload_def split: if_splits option.splits sum.splits prod.splits dest!: readEvidenceAfterHeader_grows)

lemma client_payload_backend: "payload_backend wr sunk (client_backend envs)"
proof (unfold_locales, goal_cases)
  case (1 i offset limit c w m c' w')
  obtain n k where c: "c = (n, k)" by (cases c)
  with 1 obtain k' where "client_ReadPayload (Some wr) (envs n) i offset limit k w = (Inr m, k', w')"
    by (auto simp: backend_ReadPayload)
  then show ?case by (rule client_ReadPayload_done) auto
next
  case (2 i offset limit c w res c' w')
  obtain n k where c: "c = (n, k)" by (cases c)
  with 2 show ?case by (auto simp: backend_ReadPayload dest: client_ReadPayload_grows)
qed

end

text \<open>\<open>bytes.Buffer\<close>: every write is taken whole.\<close>

definition buffer_write :: "bytes write_fn" where
  "buffer_write d w = (int (length d), None, w @ d)"

interpretation buffer: io_writer buffer_write "\<lambda>w. w"
  by unfold_locales (simp add: buffer_write_def)

interpretation full_buffer: reliable_writer buffer_write "\<lambda>w. w" "\<lambda>_. True"
  by unfold_locales (simp_all add: buffer_write_def)

interpretation client_buffer: payload_backend buffer_write "\<lambda>w. w" "client_backend envs"
  by (rule buffer.client_payload_backend)

end
