(* ===== verification/Base64.thy ===== *)
theory Base64
  imports Sha256
begin

text \<open>
  Base64 as \<open>encoding/base64\<close> has it: the standard alphabet with padding, in which the MCP server
  returns payloads, and the URL alphabet without padding of the HTTP token.
\<close>

section \<open>Six bits a character\<close>

definition std_digits :: string where
  "std_digits = ''ABCDEFGHIJKLMNOPQRSTUVWXYZabcdefghijklmnopqrstuvwxyz0123456789+/''"

definition url_digits :: string where
  "url_digits = ''ABCDEFGHIJKLMNOPQRSTUVWXYZabcdefghijklmnopqrstuvwxyz0123456789-_''"

fun digit_index :: "string \<Rightarrow> char \<Rightarrow> nat option" where
  "digit_index [] c = None"
| "digit_index (d # ds) c = (if d = c then Some 0 else map_option Suc (digit_index ds c))"

lemma digit_index_nth: "distinct ds \<Longrightarrow> n < length ds \<Longrightarrow> digit_index ds (ds ! n) = Some n"
  by (induction ds arbitrary: n) (auto simp: nth_Cons split: nat.split)

fun sextets :: "bytes \<Rightarrow> nat list" where
  "sextets (a # b # c # bs) = [unat a div 4, unat a mod 4 * 16 + unat b div 16, unat b mod 16 * 4 + unat c div 64, unat c mod 64] @ sextets bs"
| "sextets [a, b] = [unat a div 4, unat a mod 4 * 16 + unat b div 16, unat b mod 16 * 4]"
| "sextets [a] = [unat a div 4, unat a mod 4 * 16]"
| "sextets [] = []"

text \<open>The bits behind the last whole byte are not looked at.\<close>

fun octets :: "nat list \<Rightarrow> bytes option" where
  "octets (x # y # z # w # xs) =
     map_option (\<lambda>bs. [of_nat (x * 4 + y div 16), of_nat (y mod 16 * 16 + z div 4), of_nat (z mod 4 * 64 + w)] @ bs) (octets xs)"
| "octets [x, y, z] = Some [of_nat (x * 4 + y div 16), of_nat (y mod 16 * 16 + z div 4)]"
| "octets [x, y] = Some [of_nat (x * 4 + y div 16)]"
| "octets [x] = None"
| "octets [] = Some []"

definition base64_std :: "bytes \<Rightarrow> string" where
  "base64_std bs = map ((!) std_digits) (sextets bs) @ replicate ((3 - length bs mod 3) mod 3) (CHR ''='')"

definition base64_raw_url :: "bytes \<Rightarrow> string" where
  "base64_raw_url bs = map ((!) url_digits) (sextets bs)"

text \<open>Decoding passes over line breaks.\<close>

definition line_break :: "char \<Rightarrow> bool" where
  "line_break c \<longleftrightarrow> of_char c = (10 :: nat) \<or> of_char c = (13 :: nat)"

definition base64_raw_url_decode :: "string \<Rightarrow> bytes option" where
  "base64_raw_url_decode s =
     Option.bind (those (map (digit_index url_digits) (List.filter (\<lambda>c. \<not> line_break c) s))) octets"

section \<open>Round trip\<close>

lemma byte_bounds: "unat (a :: byte) < 256"
  using unsigned_less [of a, where ?'a = nat] by simp

lemma sextets_small: "n \<in> set (sextets bs) \<Longrightarrow> n < 64"
proof (induction bs rule: sextets.induct)
  case (1 a b c bs)
  then show ?case using byte_bounds [of a] byte_bounds [of b] byte_bounds [of c] by auto
next
  case (2 a b)
  then show ?case using byte_bounds [of a] byte_bounds [of b] by auto
next
  case (3 a)
  then show ?case using byte_bounds [of a] by auto
qed simp

lemma join_sextets:
  fixes a b c :: byte
  shows "of_nat (unat a div 4 * 4 + (unat a mod 4 * 16 + unat b div 16) div 16) = a"
    and "of_nat ((unat a mod 4 * 16 + unat b div 16) mod 16 * 16 + (unat b mod 16 * 4 + unat c div 64) div 4) = b"
    and "of_nat ((unat b mod 16 * 4 + unat c div 64) mod 4 * 64 + unat c mod 64) = c"
    and "of_nat (unat a div 4 * 4 + (unat a mod 4 * 16) div 16) = a"
    and "of_nat ((unat a mod 4 * 16 + unat b div 16) mod 16 * 16 + (unat b mod 16 * 4) div 4) = b"
proof -
  have small: "unat b div 16 < 16" "unat c div 64 < 4" using byte_bounds [of b] byte_bounds [of c] by auto
  have "unat a div 4 * 4 + (unat a mod 4 * 16 + unat b div 16) div 16 = unat a" using small by simp
  then show "of_nat (unat a div 4 * 4 + (unat a mod 4 * 16 + unat b div 16) div 16) = a" by simp
  have "(unat a mod 4 * 16 + unat b div 16) mod 16 = unat b div 16" using small by simp
  moreover have "(unat b mod 16 * 4 + unat c div 64) div 4 = unat b mod 16" using small by simp
  moreover have "unat b div 16 * 16 + unat b mod 16 = unat b" by simp
  ultimately show "of_nat ((unat a mod 4 * 16 + unat b div 16) mod 16 * 16 + (unat b mod 16 * 4 + unat c div 64) div 4) = b"
    and "of_nat ((unat a mod 4 * 16 + unat b div 16) mod 16 * 16 + (unat b mod 16 * 4) div 4) = b" by simp_all
  have "(unat b mod 16 * 4 + unat c div 64) mod 4 = unat c div 64" using small by simp
  then show "of_nat ((unat b mod 16 * 4 + unat c div 64) mod 4 * 64 + unat c mod 64) = c" by simp
  have "unat a div 4 * 4 + (unat a mod 4 * 16) div 16 = unat a" by simp
  then show "of_nat (unat a div 4 * 4 + (unat a mod 4 * 16) div 16) = a" by simp
qed

lemma octets_sextets: "octets (sextets bs) = Some bs"
  by (induction bs rule: sextets.induct) (simp_all only: sextets.simps octets.simps append.simps join_sextets option.map)

lemma those_map: "(\<And>x. x \<in> set xs \<Longrightarrow> f x = Some (g x)) \<Longrightarrow> those (map f xs) = Some (map g xs)"
  by (induction xs) simp_all

lemma url_digit:
  assumes "n < 64"
  shows "digit_index url_digits (url_digits ! n) = Some n" and "\<not> line_break (url_digits ! n)"
proof -
  have len: "length url_digits = 64" by (simp add: url_digits_def)
  have "distinct url_digits" by (simp add: url_digits_def)
  with assms len show "digit_index url_digits (url_digits ! n) = Some n" by (simp add: digit_index_nth)
  have "url_digits ! n \<in> set url_digits" using assms len by simp
  then show "\<not> line_break (url_digits ! n)" by (auto simp: url_digits_def line_break_def)
qed

lemma base64_raw_url_back: "base64_raw_url_decode (base64_raw_url bs) = Some bs"
proof -
  have "List.filter (\<lambda>c. \<not> line_break c) (base64_raw_url bs) = base64_raw_url bs"
    using sextets_small [of _ bs] url_digit(2) by (auto simp: base64_raw_url_def filter_id_conv)
  moreover have "those (map (digit_index url_digits) (base64_raw_url bs)) = Some (map id (sextets bs))"
    unfolding base64_raw_url_def map_map by (rule those_map) (simp add: url_digit(1) sextets_small)
  ultimately show ?thesis by (simp add: base64_raw_url_decode_def octets_sextets)
qed

lemma length_sextets: "length (sextets bs) = (4 * length bs + 2) div 3"
  by (induction bs rule: sextets.induct) simp_all

lemma length_base64_raw_url [simp]: "length (base64_raw_url bs) = (4 * length bs + 2) div 3"
  by (simp add: base64_raw_url_def length_sextets)

lemma base64_std_inj: "base64_std a = base64_std b \<Longrightarrow> a = b"
proof -
  assume eq: "base64_std a = base64_std b"
  have len: "length std_digits = 64" by (simp add: std_digits_def)
  have inj: "distinct std_digits" by (simp add: std_digits_def)
  have no_pad: "std_digits ! n \<noteq> CHR ''=''" if "n < 64" for n
  proof -
    have "std_digits ! n \<in> set std_digits" using that len by simp
    then show ?thesis by (auto simp: std_digits_def)
  qed
  have strip: "takeWhile (\<lambda>c. c \<noteq> CHR ''='') (base64_std x) = map ((!) std_digits) (sextets x)" for x
  proof -
    have "takeWhile (\<lambda>c. c \<noteq> CHR ''='') (map ((!) std_digits) (sextets x) @ rs) = map ((!) std_digits) (sextets x) @ takeWhile (\<lambda>c. c \<noteq> CHR ''='') rs" for rs
      using no_pad sextets_small [of _ x] by (intro takeWhile_append2) auto
    then show ?thesis by (simp add: base64_std_def takeWhile_replicate)
  qed
  have "map (digit_index std_digits) (map ((!) std_digits) (sextets x)) = map Some (sextets x)" for x
    using sextets_small [of _ x] by (simp add: digit_index_nth [OF inj] len)
  then have "map Some (sextets a) = map Some (sextets b)" using eq strip by metis
  then have "sextets a = sextets b" by simp
  then show ?thesis using octets_sextets by (metis option.inject)
qed

end
