(* ===== verification/Mcp.thy ===== *)
theory Mcp
  imports Complex_Main Backend Base64
begin

text \<open>
  The tools of \<open>internal/mcp/server.go\<close>: the checks of their arguments, the calls of the backend,
  and the results.  The transport is the MCP library's; a result is what is handed to it.
\<close>

section \<open>Requests and results\<close>

text \<open>
  An argument is a value that \<open>encoding/json\<close> made of JSON into \<open>any\<close>: numbers are \<open>float64\<close>, of
  which the checks see the exact value.
\<close>

datatype go_float = NaN | Infinite bool | Finite rat

datatype any_value = AnyNumber go_float | AnyString string | AnyOther

type_synonym arguments = "(string \<times> any_value) list"

text \<open>\<open>GetArguments\<close> is nil when the request has no object of arguments.\<close>

record tool_request =
  tr_Name :: string
  tr_Arguments :: "arguments option"

datatype tool_result = ToolError string | ToolJSON json

definition maxReadPayload :: nat where
  "maxReadPayload = 65536"

definition maxSearchLimit :: nat where
  "maxSearchLimit = 100"

definition maxJSONInteger :: u64 where
  "maxJSONInteger = push_bit 53 1 - 1"

definition toolError :: "go_error \<Rightarrow> tool_result" where
  "toolError err =
     (if errors_is err ErrInvalidArguments then ToolError ''invalid arguments''
      else if errors_is err CtxCanceled then ToolError ''request cancelled''
      else case errors_as_rpc err of
        Some (code, _) \<Rightarrow> if code = ''not_found'' then ToolError ''event not found'' else ToolError ''backend unavailable''
      | None \<Rightarrow> ToolError ''backend unavailable'')"

section \<open>Checks of arguments\<close>

definition emptyArguments :: "tool_request \<Rightarrow> bool" where
  "emptyArguments rq = (case tr_Arguments rq of None \<Rightarrow> False | Some args \<Rightarrow> args = [])"

definition strictArguments :: "tool_request \<Rightarrow> string list \<Rightarrow> arguments option" where
  "strictArguments rq allowed =
     (case tr_Arguments rq of None \<Rightarrow> None | Some args \<Rightarrow> if list_all (\<lambda>(k, _). k \<in> set allowed) args then Some args else None)"

definition requiredString :: "arguments \<Rightarrow> string \<Rightarrow> string option" where
  "requiredString args key =
     (case map_of args key of Some (AnyString s) \<Rightarrow> if s \<noteq> '''' then Some s else None | _ \<Rightarrow> None)"

definition nonnegativeInt :: "any_value option \<Rightarrow> u64 option" where
  "nonnegativeInt value =
     (case value of
        Some (AnyNumber (Finite x)) \<Rightarrow>
          if x < 0 \<or> of_nat (unat maxJSONInteger) < x \<or> of_int \<lfloor>x\<rfloor> \<noteq> x then None else Some (of_int \<lfloor>x\<rfloor>)
      | _ \<Rightarrow> None)"

definition positiveInt :: "any_value option \<Rightarrow> nat \<Rightarrow> nat \<Rightarrow> nat option" where
  "positiveInt value lo hi =
     (case nonnegativeInt value of
        None \<Rightarrow> None
      | Some n \<Rightarrow> if of_nat hi < n \<or> n < of_nat lo then None else Some (unat n))"

text \<open>The checks of the three tools with arguments.\<close>

definition search_arguments :: "tool_request \<Rightarrow> (string \<times> nat) option" where
  "search_arguments rq =
     (case strictArguments rq [''query'', ''limit''] of None \<Rightarrow> None | Some args \<Rightarrow>
      case requiredString args ''query'' of None \<Rightarrow> None | Some query \<Rightarrow>
      case map_of args ''limit'' of
        None \<Rightarrow> Some (query, maxSearchLimit)
      | Some value \<Rightarrow>
          (case positiveInt (Some value) 1 maxSearchLimit of None \<Rightarrow> None | Some limit \<Rightarrow> Some (query, limit)))"

definition event_arguments :: "tool_request \<Rightarrow> string option" where
  "event_arguments rq =
     (case strictArguments rq [''event_id''] of None \<Rightarrow> None | Some args \<Rightarrow> requiredString args ''event_id'')"

definition payload_arguments :: "tool_request \<Rightarrow> (string \<times> u64 \<times> nat \<times> string) option" where
  "payload_arguments rq =
     (case strictArguments rq [''event_id'', ''offset'', ''limit'', ''encoding''] of None \<Rightarrow> None | Some args \<Rightarrow>
      case (requiredString args ''event_id'', nonnegativeInt (map_of args ''offset''),
            positiveInt (map_of args ''limit'') 1 maxReadPayload, requiredString args ''encoding'') of
        (Some i, Some offset, Some limit, Some encoding) \<Rightarrow>
          if encoding \<noteq> ''utf8'' \<and> encoding \<noteq> ''base64'' then None else Some (i, offset, limit, encoding)
      | _ \<Rightarrow> None)"

section \<open>Tools\<close>

definition health_json :: "health \<Rightarrow> json" where
  "health_json h = jobject [(''version'', jint (hl_Version h)), (''status'', jstr (hl_Status h))]"

definition client_info_json :: "int \<Rightarrow> json" where
  "client_info_json v = jobject [(''version'', jint v)]"

definition client_reference_json :: "client_reference \<Rightarrow> json" where
  "client_reference_json r = jobject [(''id'', jstr (kr_ID r)), (''project_id'', jstr (kr_ProjectID r)),
     (''session_id'', jstr (kr_SessionID r)), (''exchange_id'', jstr (kr_ExchangeID r)), (''sequence'', jint (kr_Sequence r))]"

definition events_json :: "client_reference list option \<Rightarrow> json" where
  "events_json events =
     jobject [(''events'', case events of None \<Rightarrow> JNull | Some rs \<Rightarrow> JArr (map client_reference_json rs))]"

definition mcp_status :: "('c, 'w) backend \<Rightarrow> tool_request \<Rightarrow> 'c \<Rightarrow> tool_result \<times> 'c" where
  "mcp_status bk rq c =
     (if \<not> emptyArguments rq then (toolError ErrInvalidArguments, c)
      else case bk_Health bk c of
        (Inl err, c1) \<Rightarrow> (toolError err, c1)
      | (Inr health, c1) \<Rightarrow>
          (case bk_Info bk c1 of
             (Inl err, c2) \<Rightarrow> (toolError err, c2)
           | (Inr info, c2) \<Rightarrow> (ToolJSON (jobject [(''health'', health_json health), (''info'', client_info_json info)]), c2)))"

definition mcp_search :: "('c, 'w) backend \<Rightarrow> tool_request \<Rightarrow> 'c \<Rightarrow> tool_result \<times> 'c" where
  "mcp_search bk rq c =
     (case search_arguments rq of
        None \<Rightarrow> (toolError ErrInvalidArguments, c)
      | Some (query, limit) \<Rightarrow>
          (case bk_Search bk query (int limit) c of
             (Inl err, c1) \<Rightarrow> (toolError err, c1)
           | (Inr events, c1) \<Rightarrow> (ToolJSON (events_json events), c1)))"

definition metadata_json :: "client_metadata \<Rightarrow> json" where
  "metadata_json m = jobject [(''event_id'', jstr (km_EventID m)), (''total_size'', juint (km_TotalSize m)), (''sha256'', jstr (km_SHA256 m))]"

definition mcp_getEvent :: "('c, 'w) backend \<Rightarrow> tool_request \<Rightarrow> 'c \<Rightarrow> tool_result \<times> 'c" where
  "mcp_getEvent bk rq c =
     (case event_arguments rq of
        None \<Rightarrow> (toolError ErrInvalidArguments, c)
      | Some i \<Rightarrow>
          (case bk_EventMetadata bk i c of
             (Inl err, c1) \<Rightarrow> (toolError err, c1)
           | (Inr m, c1) \<Rightarrow> (ToolJSON (metadata_json m), c1)))"

definition validPayloadResponse :: "payload_metadata \<Rightarrow> string \<Rightarrow> u64 \<Rightarrow> u64 \<Rightarrow> bytes \<Rightarrow> bool" where
  "validPayloadResponse m i offset limit data =
     (if pm_EventID m \<noteq> i \<or> pm_Offset m \<noteq> offset \<or> pm_Limit m \<noteq> limit \<or> pm_TotalSize m < offset
         \<or> length (pm_SHA256 m) \<noteq> 64 then False
      else if hex_decode (pm_SHA256 m) = None then False
      else let expected = pm_TotalSize m - offset;
               expected' = (if limit < expected then limit else expected) in
           pm_BytesWritten m = of_nat (length data) \<and> pm_BytesWritten m = expected')"

definition payload_content_json :: "payload_metadata \<Rightarrow> string \<Rightarrow> string \<Rightarrow> json" where
  "payload_content_json m encoding content =
     jobject [(''event_id'', jstr (pm_EventID m)), (''total_size'', juint (pm_TotalSize m)), (''sha256'', jstr (pm_SHA256 m)),
       (''offset'', juint (pm_Offset m)), (''bytes_returned'', juint (pm_BytesWritten m)), (''encoding'', jstr encoding),
       (''content'', jstr content)]"

definition mcp_readPayload :: "('c, bytes) backend \<Rightarrow> tool_request \<Rightarrow> 'c \<Rightarrow> tool_result \<times> 'c" where
  "mcp_readPayload bk rq c =
     (case payload_arguments rq of
        None \<Rightarrow> (toolError ErrInvalidArguments, c)
      | Some (i, offset, limit, encoding) \<Rightarrow>
          (case bk_ReadPayload bk buffer_write i offset (of_nat limit) c [] of
             (Inl err, c1, _) \<Rightarrow> (toolError err, c1)
           | (Inr m, c1, data) \<Rightarrow>
               if \<not> validPayloadResponse m i offset (of_nat limit) data
                 then (toolError (ErrNew ''backend returned invalid payload metadata''), c1)
               else if encoding = ''utf8'' then
                 (if \<not> utf8_valid data then (ToolError ''payload is not valid UTF-8'', c1)
                  else (ToolJSON (payload_content_json m encoding (str_of data)), c1))
               else (ToolJSON (payload_content_json m encoding (base64_std data)), c1)))"

definition mcp_handle :: "go_error option \<Rightarrow> ('c, bytes) backend option \<Rightarrow> tool_request \<Rightarrow> 'c \<Rightarrow> tool_result \<times> 'c" where
  "mcp_handle ctx_err backend rq c =
     (case ctx_err of Some err \<Rightarrow> (toolError err, c) | None \<Rightarrow>
      case backend of None \<Rightarrow> (toolError (ErrNew ''backend unavailable''), c) | Some bk \<Rightarrow>
      if tr_Name rq = ''token_smith_status'' then mcp_status bk rq c
      else if tr_Name rq = ''token_smith_search'' then mcp_search bk rq c
      else if tr_Name rq = ''token_smith_get_event'' then mcp_getEvent bk rq c
      else if tr_Name rq = ''token_smith_read_payload'' then mcp_readPayload bk rq c
      else (toolError (ErrNew ''invalid tool request''), c))"

end
