(* ===== verification/McpFacts.thy ===== *)
theory McpFacts
  imports Mcp
begin

text \<open>
  The checks of the MCP tools against the JSON schemas they publish, and the contents they return.
\<close>

section \<open>The published schemas\<close>

text \<open>The part of JSON schema that \<open>New\<close> uses: an object without other properties.\<close>

datatype schema_type = MinLengthString nat | IntegerFrom int | IntegerBetween int int | StringEnum "string list"

record tool_schema =
  ts_properties :: "(string \<times> schema_type) list"
  ts_required :: "string list"

fun conforms :: "schema_type \<Rightarrow> any_value \<Rightarrow> bool" where
  "conforms (MinLengthString n) (AnyString s) = (n \<le> length s)"
| "conforms (IntegerFrom lo) (AnyNumber (Finite x)) = (of_int \<lfloor>x\<rfloor> = x \<and> lo \<le> \<lfloor>x\<rfloor>)"
| "conforms (IntegerBetween lo hi) (AnyNumber (Finite x)) = (of_int \<lfloor>x\<rfloor> = x \<and> lo \<le> \<lfloor>x\<rfloor> \<and> \<lfloor>x\<rfloor> \<le> hi)"
| "conforms (StringEnum ss) (AnyString s) = (s \<in> set ss)"
| "conforms _ _ = False"

definition schema_accepts :: "tool_schema \<Rightarrow> arguments \<Rightarrow> bool" where
  "schema_accepts sc args \<longleftrightarrow>
     list_all (\<lambda>(k, v). case map_of (ts_properties sc) k of None \<Rightarrow> False | Some ty \<Rightarrow> conforms ty v) args
     \<and> list_all (\<lambda>k. map_of args k \<noteq> None) (ts_required sc)"

definition status_schema :: tool_schema where
  "status_schema = \<lparr>ts_properties = [], ts_required = []\<rparr>"

definition search_schema :: tool_schema where
  "search_schema = \<lparr>ts_properties = [(''query'', MinLengthString 1), (''limit'', IntegerBetween 1 100)], ts_required = [''query'']\<rparr>"

definition event_schema :: tool_schema where
  "event_schema = \<lparr>ts_properties = [(''event_id'', MinLengthString 1)], ts_required = [''event_id'']\<rparr>"

definition payload_schema :: tool_schema where
  "payload_schema = \<lparr>ts_properties = [(''event_id'', MinLengthString 1), (''offset'', IntegerFrom 0),
      (''limit'', IntegerBetween 1 65536), (''encoding'', StringEnum [''utf8'', ''base64''])],
     ts_required = [''event_id'', ''offset'', ''limit'', ''encoding'']\<rparr>"

definition schema_of_tool :: "string \<Rightarrow> tool_schema option" where
  "schema_of_tool = map_of [(''token_smith_status'', status_schema), (''token_smith_search'', search_schema),
     (''token_smith_get_event'', event_schema), (''token_smith_read_payload'', payload_schema)]"

text \<open>Beyond the schema, an offset must be an integer that a JSON number carries exactly.\<close>

definition offset_exact :: "arguments \<Rightarrow> bool" where
  "offset_exact args \<longleftrightarrow> (case map_of args ''offset'' of Some (AnyNumber (Finite x)) \<Rightarrow> \<lfloor>x\<rfloor> \<le> 2 ^ 53 - 1 | _ \<Rightarrow> True)"

section \<open>Values that pass the checks\<close>

lemma maxJSONInteger_unat: "unat maxJSONInteger = 2 ^ 53 - 1"
  by (simp add: maxJSONInteger_def push_bit_eq_mult unat_minus_one)

lemma nonnegativeInt_number:
  "nonnegativeInt (Some (AnyNumber (Finite x))) = (if of_int \<lfloor>x\<rfloor> = x \<and> 0 \<le> \<lfloor>x\<rfloor> \<and> \<lfloor>x\<rfloor> \<le> 2 ^ 53 - 1 then Some (of_int \<lfloor>x\<rfloor>) else None)"
proof (cases "of_int \<lfloor>x\<rfloor> = x")
  case True
  then obtain z where x: "x = of_int z" by metis
  have "(of_nat (unat maxJSONInteger) < (of_int z :: rat)) = (2 ^ 53 - 1 < z)"
  proof -
    have "of_nat (unat maxJSONInteger) = (of_int 9007199254740991 :: rat)" unfolding maxJSONInteger_unat by simp
    then show ?thesis by (simp only: of_int_less_iff) simp
  qed
  then show ?thesis by (auto simp: nonnegativeInt_def x)
qed (simp add: nonnegativeInt_def)

lemma nonnegativeInt_other:
  "nonnegativeInt None = None" "nonnegativeInt (Some (AnyString s)) = None" "nonnegativeInt (Some AnyOther) = None"
  "nonnegativeInt (Some (AnyNumber NaN)) = None" "nonnegativeInt (Some (AnyNumber (Infinite b))) = None"
  by (simp_all add: nonnegativeInt_def)

lemma unat_small_int: "0 \<le> z \<Longrightarrow> z \<le> 2 ^ 53 - 1 \<Longrightarrow> unat (of_int z :: u64) = nat z"
proof -
  assume z: "0 \<le> z" "z \<le> 2 ^ 53 - 1"
  then have "(of_int z :: u64) = of_nat (nat z)" by simp
  moreover have "nat z < 2 ^ 64" using z by simp
  ultimately show ?thesis by (simp only: unat_of_nat take_bit_eq_mod) simp
qed

lemma nonnegativeInt_conforms:
  "nonnegativeInt (Some v) \<noteq> None \<longleftrightarrow>
     conforms (IntegerFrom 0) v \<and> (case v of AnyNumber (Finite x) \<Rightarrow> \<lfloor>x\<rfloor> \<le> 2 ^ 53 - 1 | _ \<Rightarrow> True)"
proof (cases v)
  case (AnyNumber f)
  then show ?thesis by (cases f) (auto simp: nonnegativeInt_number nonnegativeInt_other)
qed (simp_all add: nonnegativeInt_other)

lemma positiveInt_number:
  assumes "hi \<le> 65536" and "lo \<le> 65536"
  shows "positiveInt (Some (AnyNumber (Finite x))) lo hi
    = (if of_int \<lfloor>x\<rfloor> = x \<and> int lo \<le> \<lfloor>x\<rfloor> \<and> \<lfloor>x\<rfloor> \<le> int hi then Some (nat \<lfloor>x\<rfloor>) else None)"
proof (cases "of_int \<lfloor>x\<rfloor> = x \<and> 0 \<le> \<lfloor>x\<rfloor> \<and> \<lfloor>x\<rfloor> \<le> 2 ^ 53 - 1")
  case True
  then have z: "unat (of_int \<lfloor>x\<rfloor> :: u64) = nat \<lfloor>x\<rfloor>" by (intro unat_small_int) simp_all
  have hi: "unat (of_nat hi :: u64) = hi" using assms by (simp add: unat_of_nat take_bit_eq_mod)
  have above: "(of_nat hi < (of_int \<lfloor>x\<rfloor> :: u64)) = (int hi < \<lfloor>x\<rfloor>)" unfolding word_less_nat_alt hi z using True by auto
  have lo: "unat (of_nat lo :: u64) = lo" using assms by (simp add: unat_of_nat take_bit_eq_mod)
  have below: "((of_int \<lfloor>x\<rfloor> :: u64) < of_nat lo) = (\<lfloor>x\<rfloor> < int lo)" unfolding word_less_nat_alt lo z using True by auto
  show ?thesis using True above below z by (auto simp: positiveInt_def nonnegativeInt_number)
next
  case False
  then show ?thesis using assms by (auto simp: positiveInt_def nonnegativeInt_number)
qed

lemma positiveInt_other:
  "positiveInt None lo hi = None" "positiveInt (Some (AnyString s)) lo hi = None" "positiveInt (Some AnyOther) lo hi = None"
  "positiveInt (Some (AnyNumber NaN)) lo hi = None" "positiveInt (Some (AnyNumber (Infinite b))) lo hi = None"
  by (simp_all add: positiveInt_def nonnegativeInt_other)

lemma positiveInt_conforms:
  assumes "hi \<le> 65536" and "lo \<le> 65536"
  shows "positiveInt (Some v) lo hi \<noteq> None \<longleftrightarrow> conforms (IntegerBetween (int lo) (int hi)) v"
proof (cases v)
  case (AnyNumber f)
  then show ?thesis by (cases f) (auto simp: positiveInt_number [OF assms] positiveInt_other)
qed (simp_all add: positiveInt_other)

lemma positiveInt_range: "positiveInt v lo hi = Some n \<Longrightarrow> hi \<le> 65536 \<Longrightarrow> lo \<le> 65536 \<Longrightarrow> lo \<le> n \<and> n \<le> hi"
  by (auto simp: positiveInt_def word_less_nat_alt unat_of_nat take_bit_eq_mod split: option.splits if_splits)

lemma nonnegativeInt_range: "nonnegativeInt v = Some n \<Longrightarrow> n \<le> maxJSONInteger"
proof -
  assume *: "nonnegativeInt v = Some n"
  then obtain x where v: "v = Some (AnyNumber (Finite x))"
    by (cases v) (auto simp: nonnegativeInt_def split: any_value.splits go_float.splits)
  with * have "0 \<le> \<lfloor>x\<rfloor>" "\<lfloor>x\<rfloor> \<le> 2 ^ 53 - 1" "n = of_int \<lfloor>x\<rfloor>" by (auto simp: nonnegativeInt_number split: if_splits)
  then show ?thesis by (simp only: word_le_nat_alt maxJSONInteger_unat unat_small_int nat_le_iff) simp
qed

lemma requiredString_conforms:
  "requiredString args k \<noteq> None \<longleftrightarrow> (\<exists>v. map_of args k = Some v \<and> conforms (MinLengthString 1) v)"
  by (auto simp: requiredString_def Suc_le_eq split: option.splits any_value.splits elim!: conforms.elims)

section \<open>Checks and schemas\<close>

lemma schema_accepts_iff:
  assumes "distinct (map fst args)" and "distinct (map fst (ts_properties sc))"
  shows "schema_accepts sc args \<longleftrightarrow> list_all (\<lambda>(k, _). k \<in> fst ` set (ts_properties sc)) args
    \<and> (\<forall>(k, ty) \<in> set (ts_properties sc). \<forall>v. map_of args k = Some v \<longrightarrow> conforms ty v)
    \<and> (\<forall>k \<in> set (ts_required sc). map_of args k \<noteq> None)"
proof -
  have args: "map_of args k = Some v \<longleftrightarrow> (k, v) \<in> set args" for k v using assms(1) by (rule map_of_eq_Some_iff)
  have props: "map_of (ts_properties sc) k = Some ty \<longleftrightarrow> (k, ty) \<in> set (ts_properties sc)" for k ty
    using assms(2) by (rule map_of_eq_Some_iff)
  show ?thesis
    unfolding schema_accepts_def list_all_iff args
    by (auto split: option.splits simp: props map_of_eq_None_iff image_iff)
qed

definition well_typed :: "string \<Rightarrow> arguments \<Rightarrow> bool" where
  "well_typed tool args \<longleftrightarrow>
     (case schema_of_tool tool of None \<Rightarrow> False | Some sc \<Rightarrow> schema_accepts sc args)
     \<and> (tool = ''token_smith_read_payload'' \<longrightarrow> offset_exact args)"

lemma schemas_distinct:
  "distinct (map fst (ts_properties search_schema))" "distinct (map fst (ts_properties event_schema))"
  "distinct (map fst (ts_properties payload_schema))"
  by (simp_all add: search_schema_def event_schema_def payload_schema_def)

lemma status_typed: "emptyArguments \<lparr>tr_Name = n, tr_Arguments = Some args\<rparr> \<longleftrightarrow> schema_accepts status_schema args"
  by (cases args) (auto simp: emptyArguments_def schema_accepts_def status_schema_def)

lemma search_typed:
  assumes "distinct (map fst args)"
  shows "search_arguments \<lparr>tr_Name = n, tr_Arguments = Some args\<rparr> \<noteq> None \<longleftrightarrow> schema_accepts search_schema args"
proof -
  have acc: "schema_accepts search_schema args \<longleftrightarrow> list_all (\<lambda>(k, _). k \<in> set [''query'', ''limit'']) args
      \<and> (\<exists>v. map_of args ''query'' = Some v \<and> conforms (MinLengthString 1) v)
      \<and> (\<forall>v. map_of args ''limit'' = Some v \<longrightarrow> conforms (IntegerBetween 1 100) v)"
    unfolding schema_accepts_iff [OF assms schemas_distinct(1)] by (auto simp: search_schema_def)
  have lim: "positiveInt (Some v) 1 maxSearchLimit \<noteq> None \<longleftrightarrow> conforms (IntegerBetween 1 100) v" for v
    using positiveInt_conforms [of 100 1 v] by (simp add: maxSearchLimit_def)
  show ?thesis
    unfolding acc requiredString_conforms [symmetric] lim [symmetric]
    by (auto simp: search_arguments_def strictArguments_def split: option.splits)
qed

lemma event_typed:
  assumes "distinct (map fst args)"
  shows "event_arguments \<lparr>tr_Name = n, tr_Arguments = Some args\<rparr> \<noteq> None \<longleftrightarrow> schema_accepts event_schema args"
  unfolding schema_accepts_iff [OF assms schemas_distinct(2)]
  using requiredString_conforms [of args "''event_id''"]
  by (auto simp: event_arguments_def strictArguments_def event_schema_def split: option.splits)

lemma payload_typed:
  assumes "distinct (map fst args)"
  shows "payload_arguments \<lparr>tr_Name = n, tr_Arguments = Some args\<rparr> \<noteq> None \<longleftrightarrow> schema_accepts payload_schema args \<and> offset_exact args"
proof -
  have lim: "positiveInt (map_of args ''limit'') 1 maxReadPayload \<noteq> None
      \<longleftrightarrow> (\<exists>v. map_of args ''limit'' = Some v \<and> conforms (IntegerBetween 1 65536) v)"
    using positiveInt_conforms [of 65536 1] positiveInt_other(1) by (cases "map_of args ''limit''") (simp_all add: maxReadPayload_def)
  have off: "nonnegativeInt (map_of args ''offset'') \<noteq> None
      \<longleftrightarrow> (\<exists>v. map_of args ''offset'' = Some v \<and> conforms (IntegerFrom 0) v) \<and> offset_exact args"
    using nonnegativeInt_conforms nonnegativeInt_other(1)
    by (cases "map_of args ''offset''") (auto simp: offset_exact_def split: any_value.splits go_float.splits)
  have enc: "(\<exists>e. requiredString args ''encoding'' = Some e \<and> (e = ''utf8'' \<or> e = ''base64''))
      \<longleftrightarrow> (\<exists>v. map_of args ''encoding'' = Some v \<and> conforms (StringEnum [''utf8'', ''base64'']) v)"
    by (auto simp: requiredString_def split: option.splits any_value.splits elim!: conforms.elims)
  have "payload_arguments \<lparr>tr_Name = n, tr_Arguments = Some args\<rparr> \<noteq> None \<longleftrightarrow>
      list_all (\<lambda>(k, _). k \<in> set [''event_id'', ''offset'', ''limit'', ''encoding'']) args
      \<and> requiredString args ''event_id'' \<noteq> None \<and> nonnegativeInt (map_of args ''offset'') \<noteq> None
      \<and> positiveInt (map_of args ''limit'') 1 maxReadPayload \<noteq> None
      \<and> (\<exists>e. requiredString args ''encoding'' = Some e \<and> (e = ''utf8'' \<or> e = ''base64''))"
    by (auto simp: payload_arguments_def strictArguments_def split: option.splits)
  also have "\<dots> \<longleftrightarrow> schema_accepts payload_schema args \<and> offset_exact args"
    unfolding lim off enc requiredString_conforms schema_accepts_iff [OF assms schemas_distinct(3)]
    by (auto simp: payload_schema_def)
  finally show ?thesis .
qed

lemma tool_error_invalid: "toolError ErrInvalidArguments = ToolError ''invalid arguments''"
  by (simp add: toolError_def)

section \<open>Properties of the tools\<close>

text \<open>
  C29: the hand-written checks and the published schemas agree: a tool refuses arguments, without
  asking the backend, exactly when its JSON schema does, or when an offset is too large to be an
  exact JSON number.  Arguments that pass have the types and the bounds that the calls need.
\<close>

theorem tools_check_their_schema:
  assumes "distinct (map fst args)" and "schema_of_tool tool \<noteq> None"
  shows "(\<not> well_typed tool args \<longrightarrow>
      mcp_handle None (Some bk) \<lparr>tr_Name = tool, tr_Arguments = Some args\<rparr> c = (ToolError ''invalid arguments'', c))
    \<and> (well_typed tool args \<longrightarrow>
      (let rq = \<lparr>tr_Name = tool, tr_Arguments = Some args\<rparr> in
       tool = ''token_smith_status'' \<and> emptyArguments rq
       \<or> tool = ''token_smith_search'' \<and> (\<exists>query limit. search_arguments rq = Some (query, limit) \<and> query \<noteq> '''' \<and> 1 \<le> limit \<and> limit \<le> 100)
       \<or> tool = ''token_smith_get_event'' \<and> (\<exists>i. event_arguments rq = Some i \<and> i \<noteq> '''')
       \<or> tool = ''token_smith_read_payload'' \<and> (\<exists>i offset limit encoding. payload_arguments rq = Some (i, offset, limit, encoding)
           \<and> i \<noteq> '''' \<and> unat offset \<le> 2 ^ 53 - 1 \<and> 1 \<le> limit \<and> limit \<le> 65536 \<and> (encoding = ''utf8'' \<or> encoding = ''base64''))))"
proof -
  let ?rq = "\<lparr>tr_Name = tool, tr_Arguments = Some args\<rparr>"
  have typed_values:
    "search_arguments ?rq = Some (query, limit) \<Longrightarrow> query \<noteq> '''' \<and> 1 \<le> limit \<and> limit \<le> 100"
    "event_arguments ?rq = Some i \<Longrightarrow> i \<noteq> ''''"
    "payload_arguments ?rq = Some (i, offset, plimit, encoding) \<Longrightarrow>
       i \<noteq> '''' \<and> unat offset \<le> 2 ^ 53 - 1 \<and> 1 \<le> plimit \<and> plimit \<le> 65536 \<and> (encoding = ''utf8'' \<or> encoding = ''base64'')"
    for query limit i offset plimit encoding
    subgoal
      by (auto simp: search_arguments_def requiredString_def maxSearchLimit_def split: option.splits any_value.splits if_splits
          dest: positiveInt_range)
    subgoal
      by (auto simp: event_arguments_def requiredString_def split: option.splits any_value.splits if_splits)
    subgoal
      by (auto simp: payload_arguments_def requiredString_def maxReadPayload_def word_le_nat_alt maxJSONInteger_unat
          split: option.splits any_value.splits if_splits dest!: positiveInt_range nonnegativeInt_range)
    done
  consider (status) "tool = ''token_smith_status''" | (search) "tool = ''token_smith_search''"
    | (event) "tool = ''token_smith_get_event''" | (payload) "tool = ''token_smith_read_payload''"
    using assms(2) by (auto simp: schema_of_tool_def split: if_splits)
  then show ?thesis
  proof cases
    case status
    then show ?thesis using status_typed [of tool args]
      by (simp add: well_typed_def schema_of_tool_def mcp_handle_def mcp_status_def tool_error_invalid)
  next
    case search
    then show ?thesis using search_typed [OF assms(1), of tool] typed_values(1)
      by (cases "search_arguments ?rq") (auto simp: well_typed_def schema_of_tool_def mcp_handle_def mcp_search_def tool_error_invalid)
  next
    case event
    then show ?thesis using event_typed [OF assms(1), of tool] typed_values(2)
      by (cases "event_arguments ?rq") (auto simp: well_typed_def schema_of_tool_def mcp_handle_def mcp_getEvent_def tool_error_invalid)
  next
    case payload
    then show ?thesis using payload_typed [OF assms(1), of tool] typed_values(3)
      by (cases "payload_arguments ?rq") (auto simp: well_typed_def schema_of_tool_def mcp_handle_def mcp_readPayload_def tool_error_invalid)
  qed
qed

theorem tools_check_their_schema_witness:
  "mcp_handle None (Some (client_backend (\<lambda>_. sample_env)))
     \<lparr>tr_Name = ''token_smith_search'', tr_Arguments = Some [(''query'', AnyString ''x''), (''limit'', AnyNumber (Finite 101))]\<rparr>
     (0, sample_client []) = (ToolError ''invalid arguments'', (0, sample_client []))"
proof -
  let ?args = "[(''query'', AnyString ''x''), (''limit'', AnyNumber (Finite 101))]"
  have "distinct (map fst ?args)" "schema_of_tool ''token_smith_search'' \<noteq> None" by (simp_all add: schema_of_tool_def)
  moreover have "\<not> well_typed ''token_smith_search'' ?args"
    by (simp add: well_typed_def schema_of_tool_def schema_accepts_def search_schema_def)
  ultimately show ?thesis
    using tools_check_their_schema [of ?args "''token_smith_search''" "client_backend (\<lambda>_. sample_env)" "(0, sample_client [])"] by simp
qed

text \<open>
  C30: a payload through the tool.  When the daemon answers, in whatever pieces, what it holds, the
  tool returns exactly the part asked for with its hash and sizes: as text when it is valid
  UTF-8, else an error that says so; or in base64, from which it can be got back.  Only an offset
  behind the end is not answered with an empty part: the tool then says that the backend is
  unavailable.
\<close>

theorem mcp_payload_served:
  assumes "payload_arguments rq = Some (i, offset, limit, encoding)" and "tr_Name rq = ''token_smith_read_payload''"
    and "length data \<le> unat maxInt" and "is_text i" and "length i \<le> 50000"
    and "env_gate (envs n) = None" and "env_ctx (envs n) = None" and "env_random (envs n) = Inr rnd" and "length rnd = 16"
    and "year_0 \<le> instant (env_now (envs n))" and "instant (env_now (envs n)) < year_10000"
    and "\<not> kl_closed c" and "kl_conn c = Some \<lparr>wire_in = reader_of cs, wire_out = w0\<rparr>" and "plan w0 = []"
    and "concat cs = payload_answer (hex_encode rnd) i offset (of_nat limit) (of_nat (length data)) data @ rest"
  shows "\<exists>c'. mcp_handle None (Some (client_backend envs)) rq (n, c) =
     (let part = slice (unat offset) limit data;
          result = (\<lambda>content. ToolJSON (payload_content_json \<lparr>pm_EventID = i, pm_TotalSize = of_nat (length data),
             pm_SHA256 = sha256_hex data, pm_Offset = offset, pm_Limit = of_nat limit, pm_BytesWritten = of_nat (length part)\<rparr> encoding content)) in
      (if length data < unat offset then ToolError ''backend unavailable''
       else if encoding = ''utf8'' then (if utf8_valid part then result (str_of part) else ToolError ''payload is not valid UTF-8'')
       else result (base64_std part), (n + 1, c')))"
proof -
  let ?n = "of_nat (length data) :: u64" and ?lim = "of_nat limit :: u64" and ?k = "hex_encode rnd"
  let ?m = "\<lparr>pm_EventID = i, pm_TotalSize = ?n, pm_SHA256 = sha256_hex data, pm_Offset = offset, pm_Limit = ?lim,
      pm_BytesWritten = payload_length ?n offset ?lim\<rparr>"
  have args: "i \<noteq> ''''" "1 \<le> limit" "limit \<le> 65536"
    using assms(1) by (auto simp: payload_arguments_def requiredString_def maxReadPayload_def split: option.splits any_value.splits if_splits
        dest!: positiveInt_range)
  have lim: "unat ?lim = limit" using args(3) by (simp add: unat_of_nat take_bit_eq_mod)
  have total: "unat ?n = length data" using assms(3) by (simp add: maxInt_def)
  have id: "requestID (envs n) = Inr ?k" using assms(8) by (simp add: requestID_def)
  have k: "is_text ?k" "length ?k \<le> 10000" using assms(9) by simp_all
  obtain v where v: "request_json (payload_request_of (envs n) ?k i offset ?lim) = Some v" "length (json_text v) \<le> MaxControlFrameLength"
    by (rule payload_request_fits [OF assms(4,5) k assms(10,11)])
  obtain c' part where run: "client_ReadPayload (Some buffer_write) (envs n) i offset ?lim c [] = (Inr ?m, c', part)"
    and part: "part = slice (unat offset) limit data"
    by (rule full_buffer.payload_received [OF assms(6,7) id k assms(4) args(1) assms(5) v assms(3) assms(12-14) _ assms(15), of "[]"])
      (simp_all add: lim)
  have len: "length part = unat (payload_length ?n offset ?lim)"
    using payload_answer_length(1) [OF assms(3), of offset ?lim] by (simp add: part lim)
  then have written: "payload_length ?n offset ?lim = of_nat (length part)" by simp
  have valid: "validPayloadResponse ?m i offset ?lim part \<longleftrightarrow> \<not> length data < unat offset"
  proof (cases "?n < offset")
    case True
    then show ?thesis by (simp add: validPayloadResponse_def word_less_nat_alt total)
  next
    case False
    have "payload_length ?n offset ?lim = (if ?lim < ?n - offset then ?lim else ?n - offset)"
      using False lim args(2) by (auto simp: payload_length_def Let_def not_less dest: leD)
    then show ?thesis using False written by (simp add: validPayloadResponse_def word_less_nat_alt total Let_def)
  qed
  have name: "mcp_handle None (Some (client_backend envs)) rq (n, c) = mcp_readPayload (client_backend envs) rq (n, c)"
    using assms(2) by (simp add: mcp_handle_def)
  have bk: "bk_ReadPayload (client_backend envs) buffer_write i offset ?lim (n, c) [] = (Inr ?m, (n + 1, c'), part)"
    using run by (simp add: backend_ReadPayload)
  have bad: "toolError (ErrNew ''backend returned invalid payload metadata'') = ToolError ''backend unavailable''"
    by (simp add: toolError_def)
  show ?thesis
    unfolding name mcp_readPayload_def assms(1) option.case prod.case bk sum.case valid bad
    unfolding Let_def part [symmetric] written
    by auto
qed

lemma replicate_2_pad: "replicate 2 c = [c, c]"
  by (simp add: numeral_2_eq_2)

definition sample_tool :: tool_request where
  "sample_tool = \<lparr>tr_Name = ''token_smith_read_payload'', tr_Arguments = Some [(''event_id'', AnyString ''e1''),
     (''offset'', AnyNumber (Finite 1)), (''limit'', AnyNumber (Finite 5)), (''encoding'', AnyString ''base64'')]\<rparr>"

theorem mcp_payload_served_witness:
  "\<exists>cs c' m. mcp_handle None (Some (client_backend (\<lambda>_. sample_env))) sample_tool (0, sample_client cs)
     = (ToolJSON (payload_content_json m ''base64'' ''Ag==''), (1, c')) \<and> pm_TotalSize m = 2"
proof -
  have args: "payload_arguments sample_tool = Some (''e1'', 1, 5, ''base64'')"
    by (simp add: payload_arguments_def sample_tool_def strictArguments_def requiredString_def nonnegativeInt_number
        positiveInt_number maxReadPayload_def)
  have name: "tr_Name sample_tool = ''token_smith_read_payload''" by (simp add: sample_tool_def)
  have i: "length [1, 2 :: byte] \<le> unat maxInt" "is_text ''e1''" "length ''e1'' \<le> 50000" by (simp_all add: maxInt_def ascii_text)
  have content: "base64_std [2] = ''Ag==''" by (simp add: base64_std_def std_digits_def replicate_2_pad)
  have part: "slice (unat (1 :: u64)) 5 [1, 2 :: byte] = [2]" by (simp add: slice_def)
  let ?cs = "[payload_answer (hex_encode (replicate 16 0)) ''e1'' 1 (of_nat 5) (of_nat (length [1, 2 :: byte])) [1, 2]]"
  have cs: "concat ?cs = payload_answer (hex_encode (replicate 16 0)) ''e1'' 1 (of_nat 5) (of_nat (length [1, 2 :: byte])) [1, 2] @ []" by simp
  obtain c' where "mcp_handle None (Some (client_backend (\<lambda>_. sample_env))) sample_tool (0, sample_client ?cs)
      = (ToolJSON (payload_content_json \<lparr>pm_EventID = ''e1'', pm_TotalSize = of_nat (length [1, 2 :: byte]), pm_SHA256 = sha256_hex [1, 2],
          pm_Offset = 1, pm_Limit = of_nat 5, pm_BytesWritten = of_nat (length [2 :: byte])\<rparr> ''base64'' ''Ag==''), (0 + 1, c'))"
    using mcp_payload_served [OF args name i sample_env_facts sample_client_fields _ cs, unfolded part Let_def]
    by (auto simp: content)
  then show ?thesis by (intro exI) (auto simp del: of_nat_numeral)
qed

end
