(* ===== verification/GoStrings.thy ===== *)
theory GoStrings
  imports Json
begin

text \<open>
  What the program uses of \<open>strings\<close> and \<open>strconv\<close>; a string is the list of its bytes.
\<close>

section \<open>Letters\<close>

definition lower :: "char \<Rightarrow> char" where
  "lower c = (if CHR ''A'' \<le> c \<and> c \<le> CHR ''Z'' then char_of (of_char c + 32 :: nat) else c)"

definition upper :: "char \<Rightarrow> char" where
  "upper c = (if CHR ''a'' \<le> c \<and> c \<le> CHR ''z'' then char_of (of_char c - 32 :: nat) else c)"

section \<open>Comparing and cutting\<close>

text \<open>
  \<open>strings.EqualFold\<close> with an ASCII word: beside the two cases of a letter, the long s folds to s and
  the Kelvin sign to k.
\<close>

fun equal_fold :: "string \<Rightarrow> string \<Rightarrow> bool" where
  "equal_fold [] ts = (ts = [])"
| "equal_fold (c # cs) [] = False"
| "equal_fold (c # cs) (t # ts) =
     (if lower c = lower t then equal_fold cs ts
      else if lower t = CHR ''s'' \<and> c = CHR 0xC5 \<and> cs \<noteq> [] \<and> hd cs = CHR 0xBF then equal_fold (tl cs) ts
      else if lower t = CHR ''k'' \<and> c = CHR 0xE2 \<and> take 2 cs = [CHR 0x84, CHR 0xAA] then equal_fold (drop 2 cs) ts
      else False)"

definition has_prefix :: "string \<Rightarrow> string \<Rightarrow> bool" where
  "has_prefix s p = (take (length p) s = p)"

definition has_suffix :: "string \<Rightarrow> string \<Rightarrow> bool" where
  "has_suffix s p = (length p \<le> length s \<and> drop (length s - length p) s = p)"

definition trim_prefix :: "string \<Rightarrow> string \<Rightarrow> string" where
  "trim_prefix s p = (if has_prefix s p then drop (length p) s else s)"

definition trim_suffix :: "string \<Rightarrow> string \<Rightarrow> string" where
  "trim_suffix s p = (if has_suffix s p then take (length s - length p) s else s)"

definition contains_any :: "string \<Rightarrow> string \<Rightarrow> bool" where
  "contains_any s cs = (\<exists>c \<in> set s. c \<in> set cs)"

definition ascii_space :: "char \<Rightarrow> bool" where
  "ascii_space c = (c \<in> set [CHR 0x09, CHR 0x0A, CHR 0x0B, CHR 0x0C, CHR 0x0D, CHR '' ''])"

definition two_byte_space :: "char \<Rightarrow> char \<Rightarrow> bool" where
  "two_byte_space a b = (a = CHR 0xC2 \<and> (b = CHR 0x85 \<or> b = CHR 0xA0))"

definition three_byte_space :: "char \<Rightarrow> char \<Rightarrow> char \<Rightarrow> bool" where
  "three_byte_space a b c =
     ((a, b, c) = (CHR 0xE1, CHR 0x9A, CHR 0x80)
      \<or> (a, b) = (CHR 0xE2, CHR 0x80) \<and> (CHR 0x80 \<le> c \<and> c \<le> CHR 0x8A \<or> c = CHR 0xA8 \<or> c = CHR 0xA9 \<or> c = CHR 0xAF)
      \<or> (a, b, c) = (CHR 0xE2, CHR 0x81, CHR 0x9F) \<or> (a, b, c) = (CHR 0xE3, CHR 0x80, CHR 0x80))"

text \<open>\<open>strings.TrimSpace\<close> leaves nothing.\<close>

fun blank :: "string \<Rightarrow> bool" where
  "blank [] = True"
| "blank [a] = ascii_space a"
| "blank [a, b] = (ascii_space a \<and> ascii_space b \<or> two_byte_space a b)"
| "blank (a # b # c # r) =
     (if ascii_space a then blank (b # c # r)
      else if two_byte_space a b then blank (c # r)
      else three_byte_space a b c \<and> blank r)"

section \<open>Numbers\<close>

definition parse_uint :: "string \<Rightarrow> u64 option" where
  "parse_uint s = (case parse_decimal s of None \<Rightarrow> None | Some n \<Rightarrow> if n < 2 ^ 64 then Some (of_nat n) else None)"

definition atoi :: "string \<Rightarrow> int option" where
  "atoi s =
     (let (negative, digits) = (case s of [] \<Rightarrow> (False, [])
        | c # r \<Rightarrow> if c = CHR ''-'' then (True, r) else if c = CHR ''+'' then (False, r) else (False, s)) in
      case parse_decimal digits of
        None \<Rightarrow> None
      | Some n \<Rightarrow> if negative then (if n \<le> 2 ^ 63 then Some (- int n) else None) else if n < 2 ^ 63 then Some (int n) else None)"

end
