(* ===== verification/Http.thy ===== *)
theory Http
  imports Complex_Main Mcp GoStrings
begin

text \<open>
  \<open>internal/httpapi/httpapi.go\<close>: the authenticated read-only HTTP server, over the interface of the
  client.  \<open>net/http\<close> parses the request (headers and query are maps, here association lists with
  distinct keys) and prints the response.
\<close>

section \<open>Requests\<close>

record http_request =
  hq_Method :: string
  hq_Path :: string
  hq_Query :: "(string \<times> string list) list"
  hq_Header :: "(string \<times> string list) list"
  hq_Host :: string
  hq_ContentLength :: int
  hq_HasBody :: bool

section \<open>Responses\<close>

text \<open>
  The \<open>ResponseWriter\<close> of \<open>net/http\<close>: the header map as the handler sees it, the status and the
  headers once they are on their way, and the body, whose writes may fail.
\<close>

type_synonym header = "string \<Rightarrow> string list"

record response =
  rp_Header :: header
  rp_Sent :: "(nat \<times> header) option"
  rp_Body :: writer

text \<open>The canonical form of a header name.\<close>

fun canonical_from :: "bool \<Rightarrow> string \<Rightarrow> string" where
  "canonical_from up [] = []"
| "canonical_from up (c # cs) = (if up then upper c else lower c) # canonical_from (c = CHR ''-'') cs"

definition canonical_key :: "string \<Rightarrow> string" where
  "canonical_key = canonical_from True"

definition header_set :: "string \<Rightarrow> string \<Rightarrow> response \<Rightarrow> response" where
  "header_set k v r = r\<lparr>rp_Header := (rp_Header r)(canonical_key k := [v])\<rparr>"

definition header_add :: "string \<Rightarrow> string \<Rightarrow> response \<Rightarrow> response" where
  "header_add k v r = r\<lparr>rp_Header := (rp_Header r)(canonical_key k := rp_Header r (canonical_key k) @ [v])\<rparr>"

definition WriteHeader :: "nat \<Rightarrow> response \<Rightarrow> response" where
  "WriteHeader status r = (case rp_Sent r of None \<Rightarrow> r\<lparr>rp_Sent := Some (status, rp_Header r)\<rparr> | Some _ \<Rightarrow> r)"

definition response_write :: "response write_fn" where
  "response_write d r =
     (let r1 = WriteHeader 200 r in
      case writer_write d (rp_Body r1) of (n, e, w) \<Rightarrow> (n, e, r1\<lparr>rp_Body := w\<rparr>))"

text \<open>When the handler returns, the headers are sent if they have not been, and the declared trailers follow the body.\<close>

definition finished :: "response \<Rightarrow> response" where
  "finished = WriteHeader 200"

definition response_status :: "response \<Rightarrow> nat" where
  "response_status r = (case rp_Sent r of None \<Rightarrow> 200 | Some (status, _) \<Rightarrow> status)"

definition response_header :: "response \<Rightarrow> string \<Rightarrow> string list" where
  "response_header r k = (case rp_Sent r of None \<Rightarrow> [] | Some (_, h) \<Rightarrow> h (canonical_key k))"

definition response_trailer :: "response \<Rightarrow> string \<Rightarrow> string list" where
  "response_trailer r k =
     (if canonical_key k \<in> set (map canonical_key (response_header r ''Trailer'')) then rp_Header r (canonical_key k) else [])"

definition response_body :: "response \<Rightarrow> bytes" where
  "response_body r = sink (rp_Body r)"

definition fresh_response :: "(int \<times> go_error option) list \<Rightarrow> response" where
  "fresh_response ps = \<lparr>rp_Header = (\<lambda>_. []), rp_Sent = None, rp_Body = \<lparr>sink = [], plan = ps\<rparr>\<rparr>"

section \<open>Addresses\<close>

text \<open>\<open>net.SplitHostPort\<close> and \<open>net.JoinHostPort\<close>.\<close>

definition split_host_port :: "string \<Rightarrow> (string \<times> string) option" where
  "split_host_port s =
     (if CHR '':'' \<notin> set s then None
      else let port = rev (takeWhile (\<lambda>c. c \<noteq> CHR '':'') (rev s)); before = take (length s - length port - 1) s in
        if hd s = CHR ''['' then
          (let host = takeWhile (\<lambda>c. c \<noteq> CHR '']'') (tl s) in
           if CHR '']'' \<notin> set s \<or> length before \<noteq> length host + 2 \<or> CHR ''['' \<in> set (tl s) \<or> CHR '']'' \<in> set port then None
           else Some (host, port))
        else if CHR '':'' \<in> set before \<or> CHR ''['' \<in> set s \<or> CHR '']'' \<in> set s then None
        else Some (before, port))"

definition join_host_port :: "string \<Rightarrow> string \<Rightarrow> string" where
  "join_host_port host port =
     (if CHR '':'' \<in> set host then ''['' @ host @ '']:'' @ port else host @ '':'' @ port)"

section \<open>The server\<close>

record http_options =
  ho_Listen :: string
  ho_ReadHeaderTimeout :: int
  ho_ReadTimeout :: int
  ho_WriteTimeout :: int
  ho_IdleTimeout :: int
  ho_MaxHeaderBytes :: int

text \<open>The listener is its actual address; \<open>hs_HTTP\<close> holds the options that the running \<open>http.Server\<close> was given.\<close>

record http_server =
  hs_Token :: string
  hs_Options :: http_options
  hs_Listener :: "string option"
  hs_HTTP :: "http_options option"
  hs_Closed :: bool

text \<open>
  What the network answers: \<open>netip.ParseAddr\<close> (whether the address is a loopback address),
  \<open>net.LookupIP\<close> (each address with whether it is one), \<open>net.Listen\<close> and \<open>http.Server.Shutdown\<close>.
\<close>

record net_env =
  ne_ParseAddr :: "string \<Rightarrow> bool option"
  ne_LookupIP :: "string \<Rightarrow> go_error + (string \<times> bool) list"
  ne_Listen :: "string \<Rightarrow> go_error + string"
  ne_Shutdown :: "go_error option"

definition resolveLoopbackListen :: "net_env \<Rightarrow> string \<Rightarrow> go_error + string" where
  "resolveLoopbackListen env address =
     (case split_host_port address of
        None \<Rightarrow> Inl (ErrNew ''HTTP listen address must be loopback'')
      | Some (host, port) \<Rightarrow>
          if host = '''' then Inl (ErrNew ''HTTP listen address must be loopback'')
          else (case ne_ParseAddr env host of
            Some loopback \<Rightarrow> if \<not> loopback then Inl (ErrNew ''HTTP listen address must be loopback'') else Inr address
          | None \<Rightarrow>
              if \<not> equal_fold host ''localhost'' then Inl (ErrNew ''HTTP listen address must be loopback'')
              else (case ne_LookupIP env host of
                Inl _ \<Rightarrow> Inl (ErrNew ''resolve localhost for HTTP listen: unavailable'')
              | Inr [] \<Rightarrow> Inl (ErrNew ''resolve localhost for HTTP listen: unavailable'')
              | Inr (ip # ips) \<Rightarrow>
                  if \<not> list_all snd (ip # ips) then Inl (ErrNew ''resolve localhost for HTTP listen: non-loopback result'')
                  else Inr (join_host_port (fst ip) port))))"

definition second :: int where
  "second = 1000000000"

definition http_New :: "net_env \<Rightarrow> bool \<Rightarrow> string \<Rightarrow> http_options \<Rightarrow> go_error + http_server" where
  "http_New env has_client token options =
     (if \<not> has_client \<or> length token < 43 \<or> contains_any token [CHR 0x0D, CHR 0x0A]
        then Inl (ErrNew ''HTTP server configuration is invalid'')
      else case resolveLoopbackListen env (if ho_Listen options = '''' then ''127.0.0.1:0'' else ho_Listen options) of
        Inl err \<Rightarrow> Inl err
      | Inr listen \<Rightarrow> Inr \<lparr>hs_Token = token,
          hs_Options = options\<lparr>ho_Listen := listen,
            ho_ReadHeaderTimeout := (if ho_ReadHeaderTimeout options \<le> 0 then 5 * second else ho_ReadHeaderTimeout options),
            ho_ReadTimeout := (if ho_ReadTimeout options \<le> 0 then 30 * second else ho_ReadTimeout options),
            ho_IdleTimeout := (if ho_IdleTimeout options \<le> 0 then 60 * second else ho_IdleTimeout options),
            ho_MaxHeaderBytes := (if ho_MaxHeaderBytes options \<le> 0 then 16 * 1024 else ho_MaxHeaderBytes options)\<rparr>,
          hs_Listener = None, hs_HTTP = None, hs_Closed = False\<rparr>)"

definition http_Start :: "net_env \<Rightarrow> http_server \<Rightarrow> go_error option \<times> http_server" where
  "http_Start env s =
     (if hs_Closed s \<or> hs_Listener s \<noteq> None then (Some (ErrNew ''HTTP server is closed or started''), s)
      else case ne_Listen env (ho_Listen (hs_Options s)) of
        Inl err \<Rightarrow> (Some err, s)
      | Inr address \<Rightarrow> (None, s\<lparr>hs_Listener := Some address, hs_HTTP := Some (hs_Options s)\<rparr>))"

definition http_URL :: "http_server \<Rightarrow> string" where
  "http_URL s = (case hs_Listener s of None \<Rightarrow> '''' | Some address \<Rightarrow> ''http://'' @ address)"

definition http_Close :: "net_env \<Rightarrow> http_server \<Rightarrow> go_error option \<times> http_server" where
  "http_Close env s =
     (if hs_Closed s then (None, s)
      else (case hs_HTTP s of None \<Rightarrow> None | Some _ \<Rightarrow> ne_Shutdown env, s\<lparr>hs_Closed := True\<rparr>))"

section \<open>Answers\<close>

text \<open>\<open>json.NewEncoder(w).Encode\<close>: one write of the text with a newline, whose error is dropped.\<close>

definition write_json :: "json \<Rightarrow> response \<Rightarrow> response" where
  "write_json v r = snd (snd (response_write (json_text v @ [10]) r))"

definition http_error :: "nat \<Rightarrow> string \<Rightarrow> response \<Rightarrow> response" where
  "http_error status code r =
     write_json (jobject [(''code'', jstr code)]) (WriteHeader status (header_set ''Content-Type'' ''application/json'' r))"

definition http_json :: "nat \<Rightarrow> json option \<Rightarrow> response \<Rightarrow> response" where
  "http_json status value r =
     (case value of
        None \<Rightarrow> http_error 503 ''unavailable'' r
      | Some v \<Rightarrow> write_json v (WriteHeader status (header_set ''Content-Type'' ''application/json'' r)))"

section \<open>Queries\<close>

type_synonym url_values = "(string \<times> string list) list"

definition onlyQueryKeys :: "url_values \<Rightarrow> string list \<Rightarrow> bool" where
  "onlyQueryKeys query allowed = list_all (\<lambda>(key, _). key \<in> set allowed) query"

definition singleQueryValue :: "url_values \<Rightarrow> string \<Rightarrow> bool \<Rightarrow> string \<times> bool" where
  "singleQueryValue query key required =
     (case map_of query key of
        None \<Rightarrow> ('''', \<not> required)
      | Some vs \<Rightarrow> if length vs \<noteq> 1 \<or> hd vs = '''' then ('''', False) else (hd vs, True))"

definition uintQuery :: "url_values \<Rightarrow> string \<Rightarrow> u64 option" where
  "uintQuery query key = (case singleQueryValue query key True of (raw, ok) \<Rightarrow> if \<not> ok then None else parse_uint raw)"

section \<open>Handlers\<close>

definition mustHealth :: "('c, 'w) backend \<Rightarrow> 'c \<Rightarrow> json option \<times> 'c" where
  "mustHealth bk c = (case bk_Health bk c of (Inl _, c1) \<Rightarrow> (None, c1) | (Inr h, c1) \<Rightarrow> (Some (health_json h), c1))"

definition mustInfo :: "('c, 'w) backend \<Rightarrow> 'c \<Rightarrow> json option \<times> 'c" where
  "mustInfo bk c = (case bk_Info bk c of (Inl _, c1) \<Rightarrow> (None, c1) | (Inr v, c1) \<Rightarrow> (Some (client_info_json v), c1))"

definition http_maxSearchResults :: int where
  "http_maxSearchResults = 100"

definition search_limit :: "url_values \<Rightarrow> int option" where
  "search_limit query =
     (case singleQueryValue query ''limit'' False of (raw, ok) \<Rightarrow>
        if \<not> ok then None
        else if raw = '''' then Some 10
        else (case atoi raw of None \<Rightarrow> None | Some n \<Rightarrow> if n < 1 \<or> http_maxSearchResults < n then None else Some n))"

definition http_search :: "('c, 'w) backend \<Rightarrow> http_request \<Rightarrow> 'c \<Rightarrow> response \<Rightarrow> 'c \<times> response" where
  "http_search bk rq c r =
     (let query = hq_Query rq in
      if \<not> onlyQueryKeys query [''q'', ''limit''] then (c, http_error 400 ''invalid_request'' r)
      else case singleQueryValue query ''q'' True of (q, ok) \<Rightarrow>
      if \<not> ok \<or> blank q then (c, http_error 400 ''invalid_request'' r)
      else (case search_limit query of
        None \<Rightarrow> (c, http_error 400 ''invalid_request'' r)
      | Some limit \<Rightarrow>
          (case bk_Search bk q limit c of
             (Inl _, c1) \<Rightarrow> (c1, http_error 503 ''unavailable'' r)
           | (Inr events, c1) \<Rightarrow> (c1, http_json 200 (Some (events_json events)) r))))"

text \<open>The writer of payloads commits itself to a status with the first byte.\<close>

record payload_writer =
  pw_Response :: response
  pw_started :: bool

definition payload_header :: "response \<Rightarrow> response" where
  "payload_header r =
     header_add ''Trailer'' ''X-Payload-Error'' (header_add ''Trailer'' ''X-Payload-Bytes'' (header_add ''Trailer'' ''X-Payload-Offset''
       (header_add ''Trailer'' ''X-Payload-SHA256'' (header_add ''Trailer'' ''X-Payload-Size''
         (header_set ''Content-Type'' ''application/octet-stream'' r)))))"

definition commit :: "payload_writer \<Rightarrow> payload_writer" where
  "commit w = (if pw_started w then w else \<lparr>pw_Response = payload_header (pw_Response w), pw_started = True\<rparr>)"

definition payload_write :: "payload_writer write_fn" where
  "payload_write d w =
     (let w1 = (if d \<noteq> [] then commit w else w) in
      case response_write d (pw_Response w1) of (n, e, r) \<Rightarrow> (n, e, w1\<lparr>pw_Response := r\<rparr>))"

definition payloadError :: "go_error \<Rightarrow> nat \<times> string" where
  "payloadError err =
     (case errors_as_rpc err of
        Some (code, _) \<Rightarrow> if code = ''not_found'' then (404, ''not_found'') else (503, ''unavailable'')
      | None \<Rightarrow> (503, ''unavailable''))"

definition payload_id :: "string \<Rightarrow> string" where
  "payload_id path = trim_suffix (trim_prefix path ''/v1/events/'') ''/payload''"

definition payload_trailers :: "payload_metadata \<Rightarrow> response \<Rightarrow> response" where
  "payload_trailers m r =
     header_set ''X-Payload-Bytes'' (decimal (unat (pm_BytesWritten m))) (header_set ''X-Payload-Offset'' (decimal (unat (pm_Offset m)))
       (header_set ''X-Payload-SHA256'' (pm_SHA256 m) (header_set ''X-Payload-Size'' (decimal (unat (pm_TotalSize m))) r)))"

definition http_payload :: "('c, payload_writer) backend \<Rightarrow> http_request \<Rightarrow> 'c \<Rightarrow> response \<Rightarrow> 'c \<times> response" where
  "http_payload bk rq c r =
     (let query = hq_Query rq in
      if \<not> onlyQueryKeys query [''offset'', ''limit''] then (c, http_error 400 ''invalid_request'' r)
      else let i = payload_id (hq_Path rq) in
      if i = '''' \<or> CHR ''/'' \<in> set i then (c, http_error 404 ''not_found'' r)
      else (case uintQuery query ''offset'' of None \<Rightarrow> (c, http_error 400 ''invalid_request'' r) | Some offset \<Rightarrow>
      (case uintQuery query ''limit'' of None \<Rightarrow> (c, http_error 400 ''invalid_request'' r) | Some limit \<Rightarrow>
      (case bk_ReadPayload bk payload_write i offset limit c \<lparr>pw_Response = r, pw_started = False\<rparr> of
         (Inl err, c1, w) \<Rightarrow>
           if \<not> pw_started w then (case payloadError err of (status, code) \<Rightarrow> (c1, http_error status code (pw_Response w)))
           else (c1, header_set ''X-Payload-Error'' ''stream_error'' (pw_Response w))
       | (Inr m, c1, w) \<Rightarrow> (c1, payload_trailers m (pw_Response (commit w)))))))"

definition http_route :: "('c, payload_writer) backend \<Rightarrow> http_request \<Rightarrow> 'c \<Rightarrow> response \<Rightarrow> 'c \<times> response" where
  "http_route bk rq c r =
     (if hq_Method rq = ''GET'' \<and> hq_Path rq = ''/v1/health'' then
        (if \<not> onlyQueryKeys (hq_Query rq) [] then (c, http_error 400 ''invalid_request'' r)
         else case mustHealth bk c of (v, c1) \<Rightarrow> (c1, http_json 200 v r))
      else if hq_Method rq = ''GET'' \<and> hq_Path rq = ''/v1/info'' then
        (if \<not> onlyQueryKeys (hq_Query rq) [] then (c, http_error 400 ''invalid_request'' r)
         else case mustInfo bk c of (v, c1) \<Rightarrow> (c1, http_json 200 v r))
      else if hq_Method rq = ''GET'' \<and> hq_Path rq = ''/v1/search'' then http_search bk rq c r
      else if hq_Method rq = ''GET'' \<and> has_prefix (hq_Path rq) ''/v1/events/'' \<and> has_suffix (hq_Path rq) ''/payload''
        then http_payload bk rq c r
      else (c, http_error 404 ''not_found'' r))"

section \<open>Admission\<close>

definition hasHeaderKey :: "(string \<times> string list) list \<Rightarrow> string \<Rightarrow> bool" where
  "hasHeaderKey header key = list_ex (\<lambda>(actual, _). equal_fold actual key) header"

definition validHost :: "http_server \<Rightarrow> string \<Rightarrow> bool" where
  "validHost s host =
     (case hs_Listener s of None \<Rightarrow> False | Some address \<Rightarrow>
      case split_host_port address of None \<Rightarrow> False | Some (actual_host, actual_port) \<Rightarrow>
      case split_host_port host of None \<Rightarrow> False | Some (name, port) \<Rightarrow> port = actual_port \<and> name = actual_host)"

definition authorized :: "http_server \<Rightarrow> string list \<Rightarrow> bool" where
  "authorized s vs =
     (if length vs \<noteq> 1 \<or> \<not> has_prefix (hd vs) ''Bearer '' then False
      else let candidate = trim_prefix (hd vs) ''Bearer '' in
        if candidate = '''' \<or> contains_any candidate [CHR '' '', CHR 0x09, CHR 0x0D, CHR 0x0A] \<or> length candidate \<noteq> length (hs_Token s)
          then False
        else bytes_of candidate = bytes_of (hs_Token s))"

text \<open>\<open>Header.Values\<close>: the values under the canonical name.\<close>

definition header_values :: "http_request \<Rightarrow> string \<Rightarrow> string list" where
  "header_values rq k = (case map_of (hq_Header rq) (canonical_key k) of None \<Rightarrow> [] | Some vs \<Rightarrow> vs)"

definition has_key :: "url_values \<Rightarrow> string \<Rightarrow> bool" where
  "has_key query k = (map_of query k \<noteq> None)"

definition ServeHTTP :: "http_server \<Rightarrow> ('c, payload_writer) backend \<Rightarrow> http_request \<Rightarrow> 'c \<Rightarrow> response \<Rightarrow> 'c \<times> response" where
  "ServeHTTP s bk rq c r0 =
     (let r = header_set ''Cache-Control'' ''no-store'' (header_set ''X-Content-Type-Options'' ''nosniff'' r0) in
      if hq_Method rq = ''OPTIONS'' \<or> hasHeaderKey (hq_Header rq) ''Origin'' then (c, http_error 403 ''forbidden'' r)
      else if \<not> validHost s (hq_Host rq) then (c, http_error 403 ''forbidden'' r)
      else if hq_ContentLength rq \<noteq> 0 \<or> \<not> hq_HasBody rq then (c, http_error 400 ''invalid_request'' r)
      else if has_key (hq_Query rq) ''token'' \<or> has_key (hq_Query rq) ''access_token'' \<or> has_key (hq_Query rq) ''authorization''
        then (c, http_error 401 ''unauthorized'' r)
      else if \<not> authorized s (header_values rq ''Authorization'') then (c, http_error 401 ''unauthorized'' r)
      else http_route bk rq c r)"

end
