(* ===== verification/Filesystem.thy ===== *)
theory Filesystem
  imports Messages Base64
begin

text \<open>
  The runtime directory as the calls of Linux that the program makes on it see it: one directory
  with its entries, the nodes behind them (which stay behind open files when their entry goes),
  and the advisory locks.  Every call may fail, and other processes may change the directory
  before it: both are the \<open>script\<close> of the world.  What the calls of this process change is
  recorded in \<open>history\<close>.
\<close>

section \<open>The directory\<close>

datatype node_kind = RegularFile | DirectoryNode | SymbolicLink | SocketNode | OtherNode

text \<open>\<open>nd_id\<close> are the device and inode numbers that \<open>stat\<close> shows.\<close>

record node =
  nd_kind :: node_kind
  nd_data :: bytes
  nd_mode :: nat
  nd_id :: "u64 \<times> u64"

text \<open>
  \<open>fs_root\<close> is the final component of the root's path; \<open>fs_locks\<close> gives the open file that holds
  the exclusive lock of a node.
\<close>

record fs =
  fs_root :: "node_kind option"
  fs_root_mode :: nat
  fs_names :: "string \<Rightarrow> nat option"
  fs_nodes :: "nat \<Rightarrow> node"
  fs_next :: nat
  fs_locks :: "nat \<Rightarrow> (int \<times> nat) option"
  fs_opens :: nat

text \<open>Before a call: what the others do, whether the call fails, and how many bytes it moves at most.\<close>

record happening =
  hp_change :: "fs \<Rightarrow> fs"
  hp_fault :: "go_error option"
  hp_most :: nat

record world =
  fs :: fs
  script :: "happening list"
  history :: "(fs \<times> fs) list"
  randoms :: "(go_error + bytes) list"
  wall_clock :: go_time
  own_pid :: int

type_synonym 'a sys = "(world, 'a) prog"

text \<open>An open file: its node, and the process and number of the open file description.\<close>

type_synonym open_file = "nat \<times> int \<times> nat"

section \<open>Calls\<close>

definition call_done :: "fs \<Rightarrow> (go_error + 'a) \<times> fs \<Rightarrow> world \<Rightarrow> (go_error + 'a) \<times> world" where
  "call_done x ry w = (fst ry, w\<lparr>fs := snd ry, history := history w @ [(x, snd ry)]\<rparr>)"

definition syscall :: "(nat \<Rightarrow> fs \<Rightarrow> (go_error + 'a) \<times> fs) \<Rightarrow> 'a sys" where
  "syscall f w =
     (case script w of
        [] \<Rightarrow> call_done (fs w) (f (2 ^ 30) (fs w)) w
      | h # hs \<Rightarrow>
          let x = hp_change h (fs w); w' = w\<lparr>fs := x, script := hs\<rparr> in
          (case hp_fault h of
             Some e \<Rightarrow> (Inl e, w')
           | None \<Rightarrow> call_done x (f (hp_most h) x) w'))"

text \<open>\<open>close\<close> gives the descriptor up even when it reports an error.\<close>

definition syscall_anyway :: "(fs \<Rightarrow> fs) \<Rightarrow> unit sys" where
  "syscall_anyway f w =
     (case script w of
        [] \<Rightarrow> call_done (fs w) (Inr (), f (fs w)) w
      | h # hs \<Rightarrow>
          let x = hp_change h (fs w); w' = w\<lparr>fs := x, script := hs\<rparr> in
          call_done x (case hp_fault h of Some e \<Rightarrow> Inl e | None \<Rightarrow> Inr (), f x) w')"

definition with_pid :: "(int \<Rightarrow> 'a sys) \<Rightarrow> 'a sys" where
  "with_pid m w = m (own_pid w) w"

definition sys_error :: "string \<Rightarrow> fs \<Rightarrow> (go_error + 'a) \<times> fs" where
  "sys_error e x = (Inl (SysErr e), x)"

text \<open>\<open>os.MkdirAll\<close> follows a symbolic link; the mode is set when the directory is made.\<close>

definition sys_mkdirall :: "nat \<Rightarrow> unit sys" where
  "sys_mkdirall mode = syscall (\<lambda>_ x.
     case fs_root x of
       None \<Rightarrow> (Inr (), x\<lparr>fs_root := Some DirectoryNode, fs_root_mode := mode\<rparr>)
     | Some k \<Rightarrow> if k = DirectoryNode \<or> k = SymbolicLink then (Inr (), x) else sys_error ''ENOTDIR'' x)"

text \<open>\<open>open\<close> of the root with \<open>O_DIRECTORY | O_NOFOLLOW\<close>.\<close>

definition sys_open_root :: "unit sys" where
  "sys_open_root = syscall (\<lambda>_ x.
     case fs_root x of
       None \<Rightarrow> sys_error ''ENOENT'' x
     | Some k \<Rightarrow> if k = DirectoryNode then (Inr (), x) else sys_error ''ENOTDIR'' x)"

definition sys_fstat_root :: "node_kind sys" where
  "sys_fstat_root = syscall (\<lambda>_ x. (Inr DirectoryNode, x))"

definition sys_fchmod_root :: "nat \<Rightarrow> unit sys" where
  "sys_fchmod_root mode = syscall (\<lambda>_ x. (Inr (), x\<lparr>fs_root_mode := mode\<rparr>))"

text \<open>\<open>openat\<close> with \<open>O_NOFOLLOW\<close>; writing is refused on directories.\<close>

definition sys_openat :: "string \<Rightarrow> bool \<Rightarrow> bool \<Rightarrow> bool \<Rightarrow> nat \<Rightarrow> open_file sys" where
  "sys_openat name writing creating exclusive mode = with_pid (\<lambda>pid. syscall (\<lambda>_ x.
     case fs_names x name of
       None \<Rightarrow>
         if creating
           then (Inr (fs_next x, pid, fs_opens x),
                 x\<lparr>fs_names := (fs_names x)(name \<mapsto> fs_next x),
                   fs_nodes := (fs_nodes x)(fs_next x := \<lparr>nd_kind = RegularFile, nd_data = [], nd_mode = mode,
                                  nd_id = nd_id (fs_nodes x (fs_next x))\<rparr>),
                   fs_next := fs_next x + 1, fs_opens := fs_opens x + 1\<rparr>)
         else sys_error ''ENOENT'' x
     | Some k \<Rightarrow>
         if creating \<and> exclusive then sys_error ''EEXIST'' x
         else if nd_kind (fs_nodes x k) = SymbolicLink then sys_error ''ELOOP'' x
         else if nd_kind (fs_nodes x k) = SocketNode then sys_error ''ENXIO'' x
         else if nd_kind (fs_nodes x k) = DirectoryNode \<and> (writing \<or> creating) then sys_error ''EISDIR'' x
         else (Inr (k, pid, fs_opens x), x\<lparr>fs_opens := fs_opens x + 1\<rparr>)))"

definition sys_close :: "open_file \<Rightarrow> unit sys" where
  "sys_close f = syscall_anyway (\<lambda>x.
     if fs_locks x (fst f) = Some (snd f) then x\<lparr>fs_locks := (fs_locks x)(fst f := None)\<rparr> else x)"

definition sys_flock_exclusive :: "open_file \<Rightarrow> unit sys" where
  "sys_flock_exclusive f = syscall (\<lambda>_ x.
     if fs_locks x (fst f) = None \<or> fs_locks x (fst f) = Some (snd f)
       then (Inr (), x\<lparr>fs_locks := (fs_locks x)(fst f \<mapsto> snd f)\<rparr>)
     else sys_error ''EWOULDBLOCK'' x)"

definition sys_flock_unlock :: "open_file \<Rightarrow> unit sys" where
  "sys_flock_unlock f = syscall (\<lambda>_ x.
     (Inr (), if fs_locks x (fst f) = Some (snd f) then x\<lparr>fs_locks := (fs_locks x)(fst f := None)\<rparr> else x))"

definition sys_fstat :: "open_file \<Rightarrow> node sys" where
  "sys_fstat f = syscall (\<lambda>_ x. (Inr (fs_nodes x (fst f)), x))"

text \<open>\<open>fstatat\<close> with \<open>AT_SYMLINK_NOFOLLOW\<close>.\<close>

definition sys_fstatat :: "string \<Rightarrow> node sys" where
  "sys_fstatat name = syscall (\<lambda>_ x.
     case fs_names x name of None \<Rightarrow> sys_error ''ENOENT'' x | Some k \<Rightarrow> (Inr (fs_nodes x k), x))"

definition set_node :: "nat \<Rightarrow> node \<Rightarrow> fs \<Rightarrow> fs" where
  "set_node k nd x = x\<lparr>fs_nodes := (fs_nodes x)(k := nd)\<rparr>"

definition sys_fchmod :: "open_file \<Rightarrow> nat \<Rightarrow> unit sys" where
  "sys_fchmod f mode = syscall (\<lambda>_ x. (Inr (), set_node (fst f) ((fs_nodes x (fst f))\<lparr>nd_mode := mode\<rparr>) x))"

definition sys_ftruncate :: "open_file \<Rightarrow> unit sys" where
  "sys_ftruncate f = syscall (\<lambda>_ x.
     if nd_kind (fs_nodes x (fst f)) = RegularFile
       then (Inr (), set_node (fst f) ((fs_nodes x (fst f))\<lparr>nd_data := []\<rparr>) x)
     else sys_error ''EINVAL'' x)"

definition sys_seek_start :: "open_file \<Rightarrow> unit sys" where
  "sys_seek_start f = syscall (\<lambda>_ x. if nd_kind (fs_nodes x (fst f)) = RegularFile then (Inr (), x) else sys_error ''ESPIPE'' x)"

text \<open>
  A write at the descriptor's position, which is the end of the file: the program writes only to
  files that it has just made or cut to nothing.  It may take fewer bytes than it is given.
\<close>

definition sys_write :: "open_file \<Rightarrow> bytes \<Rightarrow> nat sys" where
  "sys_write f data = syscall (\<lambda>most x.
     let n = min most (length data); nd = fs_nodes x (fst f) in
     (Inr n, set_node (fst f) (nd\<lparr>nd_data := nd_data nd @ take n data\<rparr>) x))"

definition sys_read :: "open_file \<Rightarrow> nat \<Rightarrow> nat \<Rightarrow> bytes sys" where
  "sys_read f position n = syscall (\<lambda>most x. (Inr (take (min most n) (drop position (nd_data (fs_nodes x (fst f))))), x))"

definition sys_fsync :: "open_file \<Rightarrow> unit sys" where
  "sys_fsync f = syscall (\<lambda>_ x. (Inr (), x))"

definition renamed :: "string \<Rightarrow> string \<Rightarrow> nat \<Rightarrow> fs \<Rightarrow> fs" where
  "renamed old new k x = x\<lparr>fs_names := ((fs_names x)(old := None))(new \<mapsto> k)\<rparr>"

definition sys_renameat :: "string \<Rightarrow> string \<Rightarrow> unit sys" where
  "sys_renameat old new = syscall (\<lambda>_ x.
     case fs_names x old of
       None \<Rightarrow> sys_error ''ENOENT'' x
     | Some k \<Rightarrow>
         (case fs_names x new of
            None \<Rightarrow> (Inr (), renamed old new k x)
          | Some l \<Rightarrow>
              if l = k then (Inr (), x)
              else if nd_kind (fs_nodes x l) = DirectoryNode then sys_error ''EISDIR'' x
              else (Inr (), renamed old new k x)))"

text \<open>\<open>renameat2\<close> with \<open>RENAME_NOREPLACE\<close>.\<close>

definition sys_renameat_noreplace :: "string \<Rightarrow> string \<Rightarrow> unit sys" where
  "sys_renameat_noreplace old new = syscall (\<lambda>_ x.
     case fs_names x old of
       None \<Rightarrow> sys_error ''ENOENT'' x
     | Some k \<Rightarrow> if fs_names x new \<noteq> None then sys_error ''EEXIST'' x else (Inr (), renamed old new k x))"

definition sys_unlinkat :: "string \<Rightarrow> unit sys" where
  "sys_unlinkat name = syscall (\<lambda>_ x.
     case fs_names x name of
       None \<Rightarrow> sys_error ''ENOENT'' x
     | Some k \<Rightarrow>
         if nd_kind (fs_nodes x k) = DirectoryNode then sys_error ''EISDIR'' x
         else (Inr (), x\<lparr>fs_names := (fs_names x)(name := None)\<rparr>))"

text \<open>\<open>io.ReadFull(rand.Reader, ...)\<close>.\<close>

definition read_random :: "nat \<Rightarrow> bytes sys" where
  "read_random n w =
     (case randoms w of
        [] \<Rightarrow> (Inl (SysErr ''EIO''), w)
      | r # rs \<Rightarrow> ((case r of Inl e \<Rightarrow> Inl e | Inr d \<Rightarrow> Inr (take n (d @ replicate n 0))), w\<lparr>randoms := rs\<rparr>))"

text \<open>Deferred calls: their errors are dropped.\<close>

definition gfinally :: "'a sys \<Rightarrow> unit sys \<Rightarrow> 'a sys" where
  "gfinally m cleanup = gtry m (\<lambda>r. gtry cleanup (\<lambda>_. case r of Inl e \<Rightarrow> gthrow e | Inr x \<Rightarrow> gret x))"

end
