(* ===== verification/RuntimeDir.thy ===== *)
theory RuntimeDir
  imports Filesystem
begin

text \<open>
  \<open>internal/daemon/runtime_lock.go\<close>: the runtime directory and its paths, the lock of the daemon,
  the HTTP token, and the removal of a stale socket.
\<close>

section \<open>Paths\<close>

fun split_path :: "string \<Rightarrow> string list" where
  "split_path [] = [[]]"
| "split_path (c # cs) =
     (if c = CHR ''/'' then [] # split_path cs else (case split_path cs of [] \<Rightarrow> [[c]] | p # ps \<Rightarrow> (c # p) # ps))"

definition clean_step :: "bool \<Rightarrow> string list \<Rightarrow> string \<Rightarrow> string list" where
  "clean_step rooted done_parts part =
     (if part = '''' \<or> part = ''.'' then done_parts
      else if part = ''..'' then
        (if done_parts \<noteq> [] \<and> last done_parts \<noteq> ''..'' then butlast done_parts
         else if rooted then done_parts else done_parts @ [''..''])
      else done_parts @ [part])"

fun join_path :: "string list \<Rightarrow> string" where
  "join_path [] = ''''"
| "join_path [p] = p"
| "join_path (p # q # ps) = p @ ''/'' @ join_path (q # ps)"

text \<open>\<open>filepath.Clean\<close>.\<close>

definition path_clean :: "string \<Rightarrow> string" where
  "path_clean p =
     (let rooted = (p \<noteq> '''' \<and> hd p = CHR ''/''); parts = foldl (clean_step rooted) [] (split_path p); rest = join_path parts in
      if rooted then CHR ''/'' # rest else if rest = '''' then ''.'' else rest)"

text \<open>\<open>filepath.Join\<close>, \<open>filepath.Dir\<close> and \<open>filepath.Base\<close>.\<close>

definition path_join :: "string \<Rightarrow> string \<Rightarrow> string" where
  "path_join a b = (if a = '''' \<and> b = '''' then '''' else if a = '''' then path_clean b else if b = '''' then path_clean a
     else path_clean (a @ ''/'' @ b))"

definition path_dir :: "string \<Rightarrow> string" where
  "path_dir p = path_clean (rev (dropWhile (\<lambda>c. c \<noteq> CHR ''/'') (rev p)))"

definition path_base :: "string \<Rightarrow> string" where
  "path_base p =
     (if p = '''' then ''.''
      else let stripped = rev (dropWhile (\<lambda>c. c = CHR ''/'') (rev p));
               name = rev (takeWhile (\<lambda>c. c \<noteq> CHR ''/'') (rev stripped)) in
           if name = '''' then ''/'' else name)"

record runtime_paths =
  rp_Root :: string
  rp_Database :: string
  rp_Socket :: string
  rp_Lock :: string
  rp_HTTPToken :: string

definition DefaultRuntimePaths_with :: "(string \<Rightarrow> go_error + runtime_paths) \<Rightarrow> go_error + string \<Rightarrow> go_error + runtime_paths" where
  "DefaultRuntimePaths_with new_paths home =
     (case home of
        Inl err \<Rightarrow> Inl (Wrap ''resolve user home directory'' err)
      | Inr h \<Rightarrow> new_paths (path_join (path_join (path_join h ''.pi'') ''agent'') ''pi-token-smith''))"

definition paths_under :: "string \<Rightarrow> runtime_paths" where
  "paths_under root =
     \<lparr>rp_Root = root, rp_Database = path_join root ''token-smith.sqlite'', rp_Socket = path_join root ''token-smith.sock'',
      rp_Lock = path_join root ''token-smith.lock'', rp_HTTPToken = path_join root ''http.token''\<rparr>"

text \<open>The default root is never empty, so the two functions call each other once at most.\<close>

definition NewRuntimePaths :: "go_error + string \<Rightarrow> string \<Rightarrow> go_error + runtime_paths" where
  "NewRuntimePaths home root =
     (if root = '''' then DefaultRuntimePaths_with (\<lambda>r. Inr (paths_under r)) home else Inr (paths_under root))"

section \<open>The directory\<close>

definition runtimeDirectoryMode :: nat where
  "runtimeDirectoryMode = 7 * 64"

definition privateFileMode :: nat where
  "privateFileMode = 6 * 64"

definition openRuntimeDirectory :: "unit sys" where
  "openRuntimeDirectory =
     gbind (gwrap ''open runtime directory without following symlinks'' sys_open_root) (\<lambda>_.
     gbind (gwrap ''inspect runtime directory'' sys_fstat_root) (\<lambda>kind.
       if kind \<noteq> DirectoryNode then gthrow (ErrNew ''runtime root is not a directory'') else gret ()))"

definition EnsureRuntimeDirectory :: "runtime_paths \<Rightarrow> unit sys" where
  "EnsureRuntimeDirectory p =
     (if rp_Root p = '''' then gthrow (ErrNew ''runtime root is empty'')
      else gbind (gwrap ''create runtime directory'' (sys_mkdirall runtimeDirectoryMode)) (\<lambda>_.
           gbind openRuntimeDirectory (\<lambda>_.
             gwrap ''protect runtime directory'' (sys_fchmod_root runtimeDirectoryMode))))"

section \<open>The lock\<close>

definition randomOwnerToken :: "string sys" where
  "randomOwnerToken = gbind (read_random 16) (\<lambda>d. gret (hex_encode d))"

definition lock_metadata :: "string \<Rightarrow> world \<Rightarrow> json option" where
  "lock_metadata owner w =
     map_option (\<lambda>t. jobject [(''pid'', jint (own_pid w)), (''acquired_at'', jstr t), (''owner_token'', jstr owner)])
       (time_text_of (UTC (wall_clock w)))"

text \<open>The loop that writes all of the metadata.\<close>

function write_metadata :: "open_file \<Rightarrow> bytes \<Rightarrow> unit sys" where
  "write_metadata f d w =
     (if d = [] then (Inr (), w)
      else case sys_write f d w of
        (Inl err, w1) \<Rightarrow> (Inl (Wrap ''write lock metadata'' err), w1)
      | (Inr n, w1) \<Rightarrow> write_metadata f (drop n d) w1)"
  by pat_completeness auto

termination
proof (relation "measure (\<lambda>(f, d, w). length (script w) + length d)", goal_cases)
  case 1
  show ?case by simp
next
  case (2 f d w p w1 n)
  then have "sys_write f d w = (Inr n, w1)" by simp
  then show ?case using 2(1)
    by (cases "script w") (auto simp: sys_write_def syscall_def call_done_def Let_def min_def split: option.splits)
qed

declare write_metadata.simps [simp del]

definition writeLockMetadata :: "open_file \<Rightarrow> unit sys" where
  "writeLockMetadata f =
     gbind (gwrap ''generate lock owner token'' randomOwnerToken) (\<lambda>owner.
     gbind (gwrap ''protect lock file'' (sys_fchmod f privateFileMode)) (\<lambda>_.
     gbind (gwrap ''truncate lock metadata'' (sys_ftruncate f)) (\<lambda>_.
     gbind (gwrap ''seek lock metadata'' (sys_seek_start f)) (\<lambda>_ w.
       case lock_metadata owner w of
         None \<Rightarrow> (Inl (Wrap ''encode lock metadata'' json_error), w)
       | Some v \<Rightarrow> write_metadata f (json_text v @ [10]) w))))"

definition AcquireLock :: "runtime_paths \<Rightarrow> open_file sys" where
  "AcquireLock p =
     gbind (EnsureRuntimeDirectory p) (\<lambda>_.
     gbind openRuntimeDirectory (\<lambda>_.
     gbind (gwrap ''open daemon lock without following symlinks''
              (sys_openat (path_base (rp_Lock p)) True True False privateFileMode)) (\<lambda>f.
     gtry (sys_flock_exclusive f) (\<lambda>r.
       case r of
         Inl err \<Rightarrow>
           gtry (sys_close f) (\<lambda>_.
             if errors_is err (SysErr ''EWOULDBLOCK'') \<or> errors_is err (SysErr ''EAGAIN'') then gthrow ErrAlreadyRunning
             else gthrow (Wrap ''acquire daemon lock'' err))
       | Inr _ \<Rightarrow>
           gtry (writeLockMetadata f) (\<lambda>r.
             case r of
               Inl err \<Rightarrow> gtry (sys_flock_unlock f) (\<lambda>_. gtry (sys_close f) (\<lambda>_. gthrow err))
             | Inr _ \<Rightarrow> gret f)))))"

record instance_lock =
  il_file :: open_file
  il_released :: bool

text \<open>\<open>Release\<close> returns its error and the lock as it leaves it; a nil lock is \<open>None\<close>.\<close>

definition Release :: "instance_lock option \<Rightarrow> (go_error option \<times> instance_lock option) sys" where
  "Release lock =
     (case lock of
        None \<Rightarrow> gret (None, None)
      | Some l \<Rightarrow>
          if il_released l then gret (None, Some l)
          else gtry (sys_flock_unlock (il_file l)) (\<lambda>unlocked. gtry (sys_close (il_file l)) (\<lambda>closed.
            gret (case unlocked of
                    Inl err \<Rightarrow> Some (Wrap ''release daemon lock'' err)
                  | Inr _ \<Rightarrow> (case closed of Inl err \<Rightarrow> Some (Wrap ''close daemon lock'' err) | Inr _ \<Rightarrow> None),
                  Some (l\<lparr>il_released := True\<rparr>)))))"

section \<open>The HTTP token\<close>

definition httpTokenBytes :: nat where
  "httpTokenBytes = 32"

definition token_name :: string where
  "token_name = ''http.token''"

text \<open>The check of a token that was read.\<close>

definition well_formed_token :: "string \<Rightarrow> bool" where
  "well_formed_token token =
     (case base64_raw_url_decode token of
        None \<Rightarrow> False
      | Some decoded \<Rightarrow> \<not> length decoded < httpTokenBytes \<and> base64_raw_url decoded = token)"

text \<open>Read until the size that \<open>fstat\<close> gave is reached.\<close>

function read_token :: "open_file \<Rightarrow> nat \<Rightarrow> bytes \<Rightarrow> bytes sys" where
  "read_token f wanted data w =
     (if wanted \<le> length data then (Inr data, w)
      else case sys_read f (length data) (wanted - length data) w of
        (Inl err, w1) \<Rightarrow> (Inl (Wrap ''read HTTP token'' err), w1)
      | (Inr d, w1) \<Rightarrow>
          if d = [] then (Inl (ErrNew ''HTTP token is malformed''), w1)
          else read_token f wanted (data @ d) w1)"
  by pat_completeness auto

termination
  by (relation "measure (\<lambda>(f, wanted, data, w). wanted - length data)") (auto intro!: diff_less_mono2)

declare read_token.simps [simp del]

text \<open>No token and no error is \<open>None\<close>.  First the part behind \<open>openat\<close>.\<close>

definition read_open_token :: "open_file \<Rightarrow> string option sys" where
  "read_open_token f =
     gbind (gwrap ''inspect HTTP token'' (sys_fstat f)) (\<lambda>st.
     if nd_kind st \<noteq> RegularFile then gthrow (ErrNew ''HTTP token is not a regular file'')
     else gbind (gwrap ''protect HTTP token'' (sys_fchmod f privateFileMode)) (\<lambda>_.
     if length (nd_data st) < 43 \<or> 512 < length (nd_data st) then gthrow (ErrNew ''HTTP token is malformed'')
     else gbind (read_token f (length (nd_data st)) []) (\<lambda>data.
     if \<not> well_formed_token (str_of data) then gthrow (ErrNew ''HTTP token is malformed'')
     else gret (Some (str_of data)))))"

definition readHTTPTokenAt :: "string option sys" where
  "readHTTPTokenAt =
     gtry (sys_fstatat token_name) (\<lambda>r.
       case r of
         Inl err \<Rightarrow>
           if errors_is err (SysErr ''ENOENT'') then gret None
           else gthrow (Wrap ''inspect HTTP token without following symlinks'' err)
       | Inr path_stat \<Rightarrow>
           if nd_kind path_stat \<noteq> RegularFile then gthrow (ErrNew ''HTTP token is not a regular file'')
           else gbind (gwrap ''open HTTP token without following symlinks'' (sys_openat token_name False False False 0)) (\<lambda>f.
             gfinally (read_open_token f) (sys_close f)))"

function write_token :: "open_file \<Rightarrow> bytes \<Rightarrow> unit sys" where
  "write_token f d w =
     (if d = [] then (Inr (), w)
      else case sys_write f d w of
        (Inl err, w1) \<Rightarrow> (Inl (Wrap ''write HTTP token'' err), w1)
      | (Inr n, w1) \<Rightarrow>
          if n = 0 then (Inl (ErrNew ''write HTTP token: no progress''), w1) else write_token f (drop n d) w1)"
  by pat_completeness auto

termination
  by (relation "measure (\<lambda>(f, d, w). length d)") auto

declare write_token.simps [simp del]

definition temporary_name :: "string \<Rightarrow> string" where
  "temporary_name suffix = ''.http.token.tmp-'' @ suffix"

text \<open>The part behind \<open>openat\<close>, with the deferred calls.\<close>

definition fill_token :: "string \<Rightarrow> string \<Rightarrow> open_file \<Rightarrow> string sys" where
  "fill_token token name f =
     gbind (gwrap ''protect HTTP token'' (sys_fchmod f privateFileMode)) (\<lambda>_.
     gbind (write_token f (bytes_of token)) (\<lambda>_.
     gbind (gwrap ''sync HTTP token'' (sys_fsync f)) (\<lambda>_.
     gbind (sys_renameat_noreplace name token_name) (\<lambda>_.
       gret token))))"

definition createHTTPTokenAt :: "string sys" where
  "createHTTPTokenAt =
     gbind (gwrap ''generate HTTP token'' (read_random httpTokenBytes)) (\<lambda>data.
     let token = base64_raw_url data in
     gbind (gwrap ''generate HTTP token temporary name'' randomOwnerToken) (\<lambda>suffix.
     let name = temporary_name suffix in
     gbind (sys_openat name True True True privateFileMode) (\<lambda>f.
       gfinally (gfinally (fill_token token name f) (sys_unlinkat name)) (sys_close f))))"

fun token_attempts :: "nat \<Rightarrow> string sys" where
  "token_attempts 0 = gthrow (ErrNew ''HTTP token creation did not converge'')"
| "token_attempts (Suc n) =
     gbind readHTTPTokenAt (\<lambda>found.
       case found of
         Some token \<Rightarrow> gret token
       | None \<Rightarrow>
           gtry createHTTPTokenAt (\<lambda>r.
             case r of
               Inr created \<Rightarrow> gret created
             | Inl err \<Rightarrow> if \<not> errors_is err (SysErr ''EEXIST'') then gthrow err else token_attempts n))"

definition LoadOrCreateHTTPToken :: "runtime_paths \<Rightarrow> string sys" where
  "LoadOrCreateHTTPToken p =
     (if path_clean (path_dir (rp_HTTPToken p)) \<noteq> path_clean (rp_Root p) \<or> path_base (rp_HTTPToken p) \<noteq> token_name
        then gthrow (ErrNew ''HTTP token path is outside runtime directory'')
      else gbind (EnsureRuntimeDirectory p) (\<lambda>_. gbind openRuntimeDirectory (\<lambda>_. token_attempts 2)))"

section \<open>The socket\<close>

type_synonym socket_identity = "u64 \<times> u64"

definition socketIdentityAt :: "runtime_paths \<Rightarrow> socket_identity sys" where
  "socketIdentityAt p =
     gbind openRuntimeDirectory (\<lambda>_.
     gbind (gwrap ''inspect bound Unix socket'' (sys_fstatat (path_base (rp_Socket p)))) (\<lambda>st.
       if nd_kind st \<noteq> SocketNode then gthrow (ErrNew ''bound socket path is not a Unix socket'') else gret (nd_id st)))"

text \<open>At most four names are tried; any outcome but \<open>ENOENT\<close> counts as taken.\<close>

fun quarantine_name :: "nat \<Rightarrow> string \<Rightarrow> string sys" where
  "quarantine_name i name =
     gbind (gwrap ''generate socket quarantine name'' randomOwnerToken) (\<lambda>token.
       let quarantine = ''.'' @ name @ ''.quarantine-'' @ token in
       gtry (sys_fstatat quarantine) (\<lambda>r.
         if (case r of Inl err \<Rightarrow> errors_is err (SysErr ''ENOENT'') | Inr _ \<Rightarrow> False) then gret quarantine
         else case i of
           0 \<Rightarrow> gthrow (ErrNew ''allocate unique socket quarantine name'')
         | Suc j \<Rightarrow> quarantine_name j name))"

definition expected_socket :: "socket_identity option \<Rightarrow> node \<Rightarrow> bool" where
  "expected_socket expected st \<longleftrightarrow> nd_kind st = SocketNode \<and> (case expected of None \<Rightarrow> True | Some i \<Rightarrow> nd_id st = i)"

definition removeStaleSocket :: "runtime_paths \<Rightarrow> socket_identity option \<Rightarrow> unit sys" where
  "removeStaleSocket p expected =
     gbind openRuntimeDirectory (\<lambda>_.
     let name = path_base (rp_Socket p) in
     gbind (quarantine_name 3 name) (\<lambda>quarantine.
     gtry (sys_renameat name quarantine) (\<lambda>r.
       case r of
         Inl err \<Rightarrow>
           if errors_is err (SysErr ''ENOENT'') then gret () else gthrow (Wrap ''quarantine Unix socket'' err)
       | Inr _ \<Rightarrow>
           gtry (sys_fstatat quarantine) (\<lambda>inspected.
             if (case inspected of Inl _ \<Rightarrow> False | Inr st \<Rightarrow> expected_socket expected st)
               then gwrap ''remove quarantined Unix socket'' (sys_unlinkat quarantine)
             else
               gbind (gwrap ''unexpected socket node preserved at quarantine after failed restore''
                        (sys_renameat_noreplace quarantine name)) (\<lambda>_.
               case inspected of
                 Inl err \<Rightarrow> gthrow (Wrap ''inspect quarantined socket'' err)
               | Inr _ \<Rightarrow> gthrow (ErrNew ''socket path exists but is not the expected Unix socket''))))))"

end
