(* ===== verification/Interference.thy ===== *)
theory Interference
  imports RuntimeDir
begin

text \<open>
  Reasoning about programs on the runtime directory while other processes work on it.  \<open>R\<close> is what
  the others may do between two calls, \<open>G\<close> what the program's own calls may do, \<open>F\<close> which errors calls may fail with beside their own; a triple says that
  from \<open>P\<close> the program ends in \<open>Q\<close> or, with an error, in \<open>E\<close>, keeping to \<open>G\<close> all the time.
\<close>

definition polite :: "(fs \<Rightarrow> fs \<Rightarrow> bool) \<Rightarrow> world \<Rightarrow> bool" where
  "polite R w \<longleftrightarrow> (\<forall>h \<in> set (script w). \<forall>x. R x (hp_change h x))"

definition honest :: "(fs \<Rightarrow> fs \<Rightarrow> bool) \<Rightarrow> world \<Rightarrow> bool" where
  "honest G w \<longleftrightarrow> (\<forall>(x, y) \<in> set (history w). G x y)"

definition faulty :: "(go_error \<Rightarrow> bool) \<Rightarrow> world \<Rightarrow> bool" where
  "faulty F w \<longleftrightarrow> (\<forall>h \<in> set (script w). \<forall>e. hp_fault h = Some e \<longrightarrow> F e)"

lemma faulty_any [simp]: "faulty (\<lambda>_. True) w"
  by (simp add: faulty_def)

locale interference =
  fixes R G :: "fs \<Rightarrow> fs \<Rightarrow> bool" and F :: "go_error \<Rightarrow> bool" and Z :: "(go_error + bytes) set" and pid :: int
begin

definition fair :: "world \<Rightarrow> bool" where
  "fair w \<longleftrightarrow> polite R w \<and> faulty F w \<and> honest G w \<and> set (randoms w) \<subseteq> Z \<and> own_pid w = pid"

definition triple :: "(fs \<Rightarrow> bool) \<Rightarrow> 'a sys \<Rightarrow> ('a \<Rightarrow> fs \<Rightarrow> bool) \<Rightarrow> (go_error \<Rightarrow> fs \<Rightarrow> bool) \<Rightarrow> bool" where
  "triple P m Q E \<longleftrightarrow> (\<forall>w. fair w \<longrightarrow> P (fs w) \<longrightarrow>
     wp m (\<lambda>a w'. fair w' \<and> Q a (fs w')) (\<lambda>e w'. fair w' \<and> E e (fs w')) w)"

definition stable :: "(fs \<Rightarrow> bool) \<Rightarrow> bool" where
  "stable P \<longleftrightarrow> (\<forall>x y. P x \<longrightarrow> R x y \<longrightarrow> P y)"

lemma triple_gret: "(\<And>x. P x \<Longrightarrow> Q a x) \<Longrightarrow> triple P (gret a) Q E"
  by (simp add: triple_def wp_simps)

lemma triple_gthrow: "(\<And>x. P x \<Longrightarrow> E e x) \<Longrightarrow> triple P (gthrow e) Q E"
  by (simp add: triple_def wp_simps)

lemma triple_gbind:
  assumes "triple P m Q E" and "\<And>a. triple (Q a) (f a) Q' E"
  shows "triple P (gbind m f) Q' E"
  unfolding triple_def wp_gbind
proof (intro allI impI)
  fix w assume "fair w" "P (fs w)"
  with assms(1) have "wp m (\<lambda>a w'. fair w' \<and> Q a (fs w')) (\<lambda>e w'. fair w' \<and> E e (fs w')) w" by (simp add: triple_def)
  then show "wp m (\<lambda>a. wp (f a) (\<lambda>a w'. fair w' \<and> Q' a (fs w')) (\<lambda>e w'. fair w' \<and> E e (fs w'))) (\<lambda>e w'. fair w' \<and> E e (fs w')) w"
    by (rule wp_mono) (use assms(2) in \<open>auto simp: triple_def\<close>)
qed

lemma triple_gtry:
  assumes "triple P m Q E1" and "\<And>a. triple (Q a) (f (Inr a)) Q' E" and "\<And>e. triple (E1 e) (f (Inl e)) Q' E"
  shows "triple P (gtry m f) Q' E"
  unfolding triple_def wp_gtry
proof (intro allI impI)
  fix w assume "fair w" "P (fs w)"
  with assms(1) have "wp m (\<lambda>a w'. fair w' \<and> Q a (fs w')) (\<lambda>e w'. fair w' \<and> E1 e (fs w')) w" by (simp add: triple_def)
  then show "wp m (\<lambda>a. wp (f (Inr a)) (\<lambda>a w'. fair w' \<and> Q' a (fs w')) (\<lambda>e w'. fair w' \<and> E e (fs w')))
      (\<lambda>e. wp (f (Inl e)) (\<lambda>a w'. fair w' \<and> Q' a (fs w')) (\<lambda>e w'. fair w' \<and> E e (fs w'))) w"
    by (rule wp_mono) (use assms(2,3) in \<open>auto simp: triple_def\<close>)
qed

lemma triple_gwrap: "triple P m Q (\<lambda>e. E (Wrap msg e)) \<Longrightarrow> triple P (gwrap msg m) Q E"
  by (simp add: triple_def wp_gwrap)

lemma triple_gfinally:
  assumes "triple P m Q E" and "\<And>a. triple (Q a) c (\<lambda>_. Q' a) (\<lambda>_. Q' a)" and "\<And>e. triple (E e) c (\<lambda>_. E' e) (\<lambda>_. E' e)"
  shows "triple P (gfinally m c) Q' E'"
  unfolding gfinally_def
proof (rule triple_gtry [OF assms(1)])
  show "triple (Q a) (gtry c (\<lambda>_. case Inr a of Inl e \<Rightarrow> gthrow e | Inr x \<Rightarrow> gret x)) Q' E'" for a
    by (rule triple_gtry [OF assms(2)]) (simp_all add: triple_gret)
  show "triple (E e) (gtry c (\<lambda>_. case Inl e of Inl e \<Rightarrow> gthrow e | Inr x \<Rightarrow> gret x)) Q' E'" for e
    by (rule triple_gtry [OF assms(3)]) (simp_all add: triple_gthrow)
qed

lemma triple_if: "(b \<Longrightarrow> triple P m Q E) \<Longrightarrow> (\<not> b \<Longrightarrow> triple P n Q E) \<Longrightarrow> triple P (if b then m else n) Q E"
  by simp

lemma triple_pre: "triple P' m Q E \<Longrightarrow> (\<And>x. P x \<Longrightarrow> P' x) \<Longrightarrow> triple P m Q E"
  by (simp add: triple_def)

lemma triple_post:
  assumes "triple P m Q' E'" and "\<And>a x. Q' a x \<Longrightarrow> Q a x" and "\<And>e x. E' e x \<Longrightarrow> E e x"
  shows "triple P m Q E"
  using assms(1) unfolding triple_def by (auto intro: wp_mono dest: assms(2,3))

lemma triple_ex: "(\<And>k. triple (P k) m Q E) \<Longrightarrow> triple (\<lambda>x. \<exists>k. P k x) m Q E"
  by (auto simp: triple_def)

lemma triple_assume: "(A \<Longrightarrow> triple P m Q E) \<Longrightarrow> triple (\<lambda>x. A \<and> P x) m Q E"
  by (auto simp: triple_def)

lemma fair_step:
  assumes "fair w" and "script w = h # hs"
  shows "R (fs w) (hp_change h (fs w))" and "fair (w\<lparr>fs := x, script := hs\<rparr>)"
  using assms by (auto simp: fair_def polite_def faulty_def honest_def)

lemma fair_done: "fair w \<Longrightarrow> G x (snd ry) \<Longrightarrow> fair (snd (call_done x ry w))"
  by (auto simp: fair_def polite_def faulty_def honest_def call_done_def)

text \<open>The rule of a call.\<close>

lemma triple_syscall:
  assumes "stable P" and fault: "\<And>e x. P x \<Longrightarrow> F e \<Longrightarrow> E e x"
    and run: "\<And>n x. P x \<Longrightarrow> G x (snd (f n x)) \<and> (case fst (f n x) of Inl e \<Rightarrow> E e (snd (f n x)) | Inr a \<Rightarrow> Q a (snd (f n x)))"
  shows "triple P (syscall f) Q E"
  unfolding triple_def
proof (intro allI impI)
  fix w assume w: "fair w" "P (fs w)"
  have called: "wp (\<lambda>w'. call_done x (f n x) w') (\<lambda>a w'. fair w' \<and> Q a (fs w')) (\<lambda>e w'. fair w' \<and> E e (fs w')) w'"
    if "fair w'" "P x" for n x w'
    using run [OF that(2), of n] fair_done [OF that(1), of x "f n x"]
    by (auto simp: wp_def call_done_def split: sum.splits)
  show "wp (syscall f) (\<lambda>a w'. fair w' \<and> Q a (fs w')) (\<lambda>e w'. fair w' \<and> E e (fs w')) w"
  proof (cases "script w")
    case Nil
    with called [OF w] show ?thesis by (simp add: wp_def syscall_def)
  next
    case (Cons h hs)
    note step = fair_step [OF w(1) Cons]
    have P: "P (hp_change h (fs w))" using assms(1) w(2) step(1) by (auto simp: stable_def)
    show ?thesis
    proof (cases "hp_fault h")
      case None
      with Cons called [OF step(2) P] show ?thesis by (simp add: wp_def syscall_def Let_def)
    next
      case (Some e)
      have "F e" using w(1) Cons Some by (simp add: fair_def faulty_def)
      with Cons Some step(2) fault [OF P] show ?thesis by (simp add: wp_def syscall_def Let_def)
    qed
  qed
qed

lemma triple_syscall_anyway:
  assumes "stable P" and run: "\<And>x. P x \<Longrightarrow> G x (f x) \<and> Q () (f x) \<and> (\<forall>e. E e (f x))"
  shows "triple P (syscall_anyway f) Q E"
  unfolding triple_def
proof (intro allI impI)
  fix w assume w: "fair w" "P (fs w)"
  have called: "wp (\<lambda>w'. call_done x (r, f x) w') (\<lambda>a w'. fair w' \<and> Q a (fs w')) (\<lambda>e w'. fair w' \<and> E e (fs w')) w'"
    if "fair w'" "P x" for r :: "go_error + unit" and x w'
    using run [OF that(2)] fair_done [OF that(1), of x "(r, f x)"]
    by (cases r) (auto simp: wp_def call_done_def)
  show "wp (syscall_anyway f) (\<lambda>a w'. fair w' \<and> Q a (fs w')) (\<lambda>e w'. fair w' \<and> E e (fs w')) w"
  proof (cases "script w")
    case Nil
    with called [OF w] show ?thesis by (simp add: wp_def syscall_anyway_def)
  next
    case (Cons h hs)
    note step = fair_step [OF w(1) Cons]
    have "P (hp_change h (fs w))" using assms(1) w(2) step(1) by (auto simp: stable_def)
    with Cons called [OF step(2)] show ?thesis by (simp add: wp_def syscall_anyway_def Let_def)
  qed
qed

lemma triple_random:
  assumes "\<And>e x. P x \<Longrightarrow> E e x" and "\<And>d x. P x \<Longrightarrow> Inr d \<in> Z \<Longrightarrow> Q (take n (d @ replicate n 0)) x"
  shows "triple P (read_random n) Q E"
  unfolding triple_def
proof (intro allI impI)
  fix w assume w: "fair w" "P (fs w)"
  show "wp (read_random n) (\<lambda>a w'. fair w' \<and> Q a (fs w')) (\<lambda>e w'. fair w' \<and> E e (fs w')) w"
  proof (cases "randoms w")
    case Nil
    with w assms(1) show ?thesis by (simp add: wp_def read_random_def)
  next
    case (Cons r rs)
    with w have "fair (w\<lparr>randoms := rs\<rparr>)" "r \<in> Z" by (auto simp: fair_def polite_def faulty_def honest_def)
    with w Cons assms show ?thesis by (cases r) (simp_all add: wp_def read_random_def)
  qed
qed

lemma triple_with_pid: "triple P (m pid) Q E \<Longrightarrow> triple P (with_pid m) Q E"
  by (auto simp: triple_def with_pid_def wp_def fair_def)

lemma triple_run:
  assumes "triple P m Q E" and "fair w" and "P (fs w)" and "m w = (r, w')"
  shows "fair w' \<and> (case r of Inl e \<Rightarrow> E e (fs w') | Inr a \<Rightarrow> Q a (fs w'))"
  using assms by (auto simp: triple_def wp_def split: sum.splits dest!: spec [of _ w])

end

end
