(* ===== verification/TokenFacts.thy ===== *)
theory TokenFacts
  imports Interference RoundTrip
begin

text \<open>
  The HTTP token when several processes load or create it at the same time: whatever they do in
  whatever order, and whatever fails, every process that gets a token gets the same one.
\<close>

section \<open>What a process may change\<close>

definition same_node :: "node \<Rightarrow> node \<Rightarrow> bool" where
  "same_node a b \<longleftrightarrow> nd_kind a = nd_kind b \<and> nd_data a = nd_data b"

lemma same_node_refl [simp]: "same_node a a"
  by (simp add: same_node_def)

definition wf_fs :: "fs \<Rightarrow> bool" where
  "wf_fs x \<longleftrightarrow> (\<forall>n k. fs_names x n = Some k \<longrightarrow> k < fs_next x)"

text \<open>
  Names in \<open>M\<close> may be changed freely, and the token may be created; the token, once it is there,
  every other name and what is behind them stay.
\<close>

definition keeps_token :: "fs \<Rightarrow> fs \<Rightarrow> bool" where
  "keeps_token x y \<longleftrightarrow> (\<forall>k. fs_names x token_name = Some k \<longrightarrow>
     fs_names y token_name = Some k \<and> same_node (fs_nodes x k) (fs_nodes y k))"

definition keeps_names :: "string set \<Rightarrow> fs \<Rightarrow> fs \<Rightarrow> bool" where
  "keeps_names M x y \<longleftrightarrow> (\<forall>n. n \<notin> M \<longrightarrow> n \<noteq> token_name \<longrightarrow> fs_names y n = fs_names x n)"

definition keeps_nodes :: "string set \<Rightarrow> fs \<Rightarrow> fs \<Rightarrow> bool" where
  "keeps_nodes M x y \<longleftrightarrow> (\<forall>n k. n \<notin> M \<longrightarrow> fs_names x n = Some k \<longrightarrow>
     same_node (fs_nodes x k) (fs_nodes y k) \<and> (\<forall>n'. fs_names y n' = Some k \<longrightarrow> fs_names x n' = Some k))"

definition changes :: "string set \<Rightarrow> fs \<Rightarrow> fs \<Rightarrow> bool" where
  "changes M x y \<longleftrightarrow> (wf_fs x \<longrightarrow> wf_fs y \<and> keeps_token x y \<and> keeps_names M x y \<and> keeps_nodes M x y)"

lemma changes_wf: "changes M x y \<Longrightarrow> wf_fs x \<Longrightarrow> wf_fs y"
  by (simp add: changes_def)

lemma changes_token:
  assumes "changes M x y" and "wf_fs x" and "fs_names x token_name = Some k"
  shows "fs_names y token_name = Some k" and "same_node (fs_nodes x k) (fs_nodes y k)"
proof -
  have "keeps_token x y" using assms(1,2) by (simp add: changes_def)
  with assms(3) show "fs_names y token_name = Some k" "same_node (fs_nodes x k) (fs_nodes y k)"
    unfolding keeps_token_def by blast+
qed

lemma changes_name:
  assumes "changes M x y" and "wf_fs x" and "n \<notin> M" and "n \<noteq> token_name"
  shows "fs_names y n = fs_names x n"
proof -
  have "keeps_names M x y" using assms(1,2) by (simp add: changes_def)
  with assms(3,4) show ?thesis unfolding keeps_names_def by blast
qed

lemma changes_node:
  assumes "changes M x y" and "wf_fs x" and "n \<notin> M" and "fs_names x n = Some k"
  shows "same_node (fs_nodes x k) (fs_nodes y k)" and "fs_names y n' = Some k \<Longrightarrow> fs_names x n' = Some k"
proof -
  have "keeps_nodes M x y" using assms(1,2) by (simp add: changes_def)
  with assms(3,4) show "same_node (fs_nodes x k) (fs_nodes y k)" "fs_names y n' = Some k \<Longrightarrow> fs_names x n' = Some k"
    unfolding keeps_nodes_def by blast+
qed

lemma changes_mono: "changes M x y \<Longrightarrow> M \<subseteq> N \<Longrightarrow> changes N x y"
  unfolding changes_def keeps_names_def keeps_nodes_def by blast

lemma changes_same:
  assumes "fs_names y = fs_names x" and "fs_next x \<le> fs_next y" and "\<And>k. same_node (fs_nodes x k) (fs_nodes y k)"
  shows "changes M x y"
  using assms(2) unfolding changes_def keeps_token_def keeps_names_def keeps_nodes_def wf_fs_def assms(1)
  by (auto intro: assms(3) less_le_trans)

definition token_is :: "fs \<Rightarrow> string \<Rightarrow> bool" where
  "token_is x t \<longleftrightarrow> (\<exists>k. fs_names x token_name = Some k \<and> nd_kind (fs_nodes x k) = RegularFile \<and> nd_data (fs_nodes x k) = bytes_of t)"

lemma bytes_of_inj: "bytes_of s = bytes_of t \<Longrightarrow> s = t"
proof -
  assume eq: "bytes_of s = bytes_of t"
  have restored: "map (\<lambda>b. char_of (unat b)) (bytes_of r) = r" for r
    by (simp add: bytes_of_def o_def unat_of_nat take_bit_eq_mod)
  then show ?thesis using eq restored by metis
qed

lemma token_is_unique: "token_is x s \<Longrightarrow> token_is x t \<Longrightarrow> s = t"
  by (auto simp: token_is_def dest: bytes_of_inj)

lemma token_stays: "token_is x t \<Longrightarrow> wf_fs x \<Longrightarrow> changes M x y \<Longrightarrow> token_is y t"
  unfolding token_is_def by (elim exE conjE) (frule (2) changes_token(1), drule (2) changes_token(2), simp add: same_node_def)

text \<open>The temporary names that a process may take from its random bytes.\<close>

definition temporary_names :: "(go_error + bytes) set \<Rightarrow> string set" where
  "temporary_names Z = {temporary_name (hex_encode (take 16 (d @ replicate 16 0))) |d. Inr d \<in> Z}"

lemma token_not_temporary: "token_name \<notin> temporary_names Z"
  by (auto simp: temporary_names_def temporary_name_def token_name_def)

interpretation tokens: interference "changes (- temporary_names Z)" "changes (temporary_names Z)" "\<lambda>_. True" Z pid for Z pid .

section \<open>Assertions\<close>

text \<open>\<open>J\<close> is any fact that the changes of all processes keep.\<close>

definition kept :: "(fs \<Rightarrow> bool) \<Rightarrow> bool" where
  "kept J \<longleftrightarrow> (\<forall>M x y. J x \<longrightarrow> wf_fs x \<longrightarrow> changes M x y \<longrightarrow> J y)"

definition base :: "(fs \<Rightarrow> bool) \<Rightarrow> fs \<Rightarrow> bool" where
  "base J x \<longleftrightarrow> wf_fs x \<and> J x"

lemma base_stays: "kept J \<Longrightarrow> base J x \<Longrightarrow> changes M x y \<Longrightarrow> base J y"
  unfolding base_def kept_def using changes_wf by blast

text \<open>The token is this file, and keeps being it.\<close>

definition token_file :: "(fs \<Rightarrow> bool) \<Rightarrow> nat \<Rightarrow> bytes \<Rightarrow> fs \<Rightarrow> bool" where
  "token_file J k d x \<longleftrightarrow> base J x \<and> fs_names x token_name = Some k \<and> nd_kind (fs_nodes x k) = RegularFile \<and> nd_data (fs_nodes x k) = d"

lemma token_file_stays: "kept J \<Longrightarrow> token_file J k d x \<Longrightarrow> changes M x y \<Longrightarrow> token_file J k d y"
  using base_stays [of J x M y] changes_token [of M x y k] by (simp add: token_file_def same_node_def base_def)

text \<open>This temporary file is the process's own.\<close>

definition own_file :: "(fs \<Rightarrow> bool) \<Rightarrow> string \<Rightarrow> nat \<Rightarrow> bytes \<Rightarrow> fs \<Rightarrow> bool" where
  "own_file J s k d x \<longleftrightarrow> base J x \<and> fs_names x s = Some k \<and> (\<forall>n. fs_names x n = Some k \<longrightarrow> n = s)
     \<and> nd_kind (fs_nodes x k) = RegularFile \<and> nd_data (fs_nodes x k) = d"

lemma own_file_stays:
  assumes "kept J" and "own_file J s k d x" and "changes M x y" and "s \<notin> M" and "s \<noteq> token_name"
  shows "own_file J s k d y"
proof -
  have own: "base J x" "wf_fs x" "fs_names x s = Some k" "\<And>n. fs_names x n = Some k \<Longrightarrow> n = s"
    "nd_kind (fs_nodes x k) = RegularFile" "nd_data (fs_nodes x k) = d"
    using assms(2) by (simp_all add: own_file_def base_def)
  note node = changes_node [OF assms(3) own(2) assms(4) own(3)]
  have "base J y" by (rule base_stays [OF assms(1) own(1) assms(3)])
  moreover have "\<forall>n. fs_names y n = Some k \<longrightarrow> n = s" using node(2) own(4) by blast
  moreover have "fs_names y s = Some k" using changes_name [OF assms(3) own(2) assms(4,5)] own(3) by (simp only:)
  moreover have "nd_kind (fs_nodes y k) = RegularFile" "nd_data (fs_nodes y k) = d"
    using own(5,6) node(1) by (simp_all only: same_node_def)
  ultimately show ?thesis unfolding own_file_def by blast
qed

lemma own_file_base: "own_file J s k d x \<Longrightarrow> base J x"
  by (simp add: own_file_def)

lemma stable_base: "kept J \<Longrightarrow> tokens.stable Z (base J)"
  unfolding tokens.stable_def using base_stays by blast

lemma stable_token_file: "kept J \<Longrightarrow> tokens.stable Z (token_file J k d)"
  unfolding tokens.stable_def using token_file_stays by blast

lemma stable_own_file:
  assumes "kept J" and "s \<in> temporary_names Z"
  shows "tokens.stable Z (own_file J s k d)"
  unfolding tokens.stable_def
proof (intro allI impI)
  fix x y assume "own_file J s k d x" "changes (- temporary_names Z) x y"
  then show "own_file J s k d y"
    by (rule own_file_stays [OF assms(1)]) (use assms(2) token_not_temporary [of Z] in auto)
qed

end
