(* ===== verification/TokenRuns.thy ===== *)
theory TokenRuns
  imports TokenFacts
begin

text \<open>Loading and creating the token, call by call.\<close>

section \<open>Changes of single calls\<close>

lemma changes_create:
  assumes "fs_names x s = None" and "s \<in> M" and "token_name \<notin> M" and "fs_names y = (fs_names x)(s \<mapsto> fs_next x)"
    and "fs_nodes y = (fs_nodes x)(fs_next x := nd)" and "fs_next y = fs_next x + 1"
  shows "changes M x y"
proof -
  have fresh: "wf_fs x \<Longrightarrow> fs_names x n = Some k \<Longrightarrow> k < fs_next x" for n k by (simp add: wf_fs_def)
  have ne: "s \<noteq> token_name" using assms(2,3) by blast
  show ?thesis
    unfolding changes_def
  proof (intro impI conjI)
    assume wf: "wf_fs x"
    show "wf_fs y" using fresh [OF wf] unfolding wf_fs_def assms(4,6) by (auto split: if_splits dest: less_SucI)
    show "keeps_token x y" using fresh [OF wf] ne unfolding keeps_token_def assms(4,5) by fastforce
    show "keeps_names M x y" using assms(2) unfolding keeps_names_def assms(4) by auto
    show "keeps_nodes M x y" using fresh [OF wf] unfolding keeps_nodes_def assms(4,5) by (fastforce split: if_splits)
  qed
qed

lemma changes_own_node:
  assumes "fs_names x s = Some k" and "\<And>n. fs_names x n = Some k \<Longrightarrow> n = s" and "s \<in> M" and "token_name \<notin> M"
  shows "changes M x (set_node k nd x)"
proof -
  have other: "l \<noteq> k" if "fs_names x n = Some l" "n \<noteq> s" for n l using that assms(2) by blast
  have ne: "token_name \<noteq> s" using assms(3,4) by blast
  show ?thesis
    unfolding changes_def set_node_def
  proof (intro impI conjI)
    assume "wf_fs x"
    then show "wf_fs (x\<lparr>fs_nodes := (fs_nodes x)(k := nd)\<rparr>)" by (simp add: wf_fs_def)
    show "keeps_token x (x\<lparr>fs_nodes := (fs_nodes x)(k := nd)\<rparr>)"
      using other [OF _ ne] unfolding keeps_token_def by simp
    show "keeps_names M x (x\<lparr>fs_nodes := (fs_nodes x)(k := nd)\<rparr>)" unfolding keeps_names_def by simp
    show "keeps_nodes M x (x\<lparr>fs_nodes := (fs_nodes x)(k := nd)\<rparr>)"
      unfolding keeps_nodes_def using other assms(3) by fastforce
  qed
qed

lemma changes_publish:
  assumes "fs_names x s = Some k" and "\<And>n. fs_names x n = Some k \<Longrightarrow> n = s" and "s \<in> M" and "fs_names x token_name = None"
  shows "changes M x (renamed s token_name k x)"
proof -
  have ne: "s \<noteq> token_name" using assms(1,4) by force
  show ?thesis
    unfolding changes_def renamed_def
  proof (intro impI conjI)
    assume "wf_fs x"
    then show "wf_fs (x\<lparr>fs_names := ((fs_names x)(s := None))(token_name \<mapsto> k)\<rparr>)"
      using assms(1) by (auto simp: wf_fs_def)
    show "keeps_token x (x\<lparr>fs_names := ((fs_names x)(s := None))(token_name \<mapsto> k)\<rparr>)"
      using assms(4) by (simp add: keeps_token_def)
    show "keeps_names M x (x\<lparr>fs_names := ((fs_names x)(s := None))(token_name \<mapsto> k)\<rparr>)"
      using assms(3) by (auto simp: keeps_names_def)
    show "keeps_nodes M x (x\<lparr>fs_names := ((fs_names x)(s := None))(token_name \<mapsto> k)\<rparr>)"
      using assms(2,3) unfolding keeps_nodes_def by (fastforce split: if_splits)
  qed
qed

lemma changes_unlink:
  assumes "s \<in> M" and "token_name \<notin> M"
  shows "changes M x (x\<lparr>fs_names := (fs_names x)(s := None)\<rparr>)"
proof -
  have ne: "token_name \<noteq> s" using assms by blast
  show ?thesis
    unfolding changes_def
  proof (intro impI conjI)
    assume "wf_fs x"
    then show "wf_fs (x\<lparr>fs_names := (fs_names x)(s := None)\<rparr>)" by (simp add: wf_fs_def)
    show "keeps_token x (x\<lparr>fs_names := (fs_names x)(s := None)\<rparr>)" using ne by (simp add: keeps_token_def)
    show "keeps_names M x (x\<lparr>fs_names := (fs_names x)(s := None)\<rparr>)" using assms(1) by (auto simp: keeps_names_def)
    show "keeps_nodes M x (x\<lparr>fs_names := (fs_names x)(s := None)\<rparr>)" by (simp add: keeps_nodes_def)
  qed
qed

lemma changes_refl [simp]: "changes M x x"
  by (rule changes_same) simp_all

lemma changes_mode [simp]: "changes M x (set_node k ((fs_nodes x k)\<lparr>nd_mode := m\<rparr>) x)"
  by (rule changes_same) (simp_all add: set_node_def same_node_def)

lemma changes_other [simp]:
  "changes M x (x\<lparr>fs_opens := v\<rparr>)" "changes M x (x\<lparr>fs_locks := l\<rparr>)" "changes M x (x\<lparr>fs_root_mode := r\<rparr>)"
  "changes M x (x\<lparr>fs_root := q, fs_root_mode := r\<rparr>)"
  by (rule changes_same; simp)+

section \<open>Calls that change nothing of interest\<close>

lemma base_call:
  assumes "kept J" and "\<And>n x. changes (temporary_names Z) x (snd (f n x))"
  shows "tokens.triple Z pid (base J) (syscall f) (\<lambda>_. base J) (\<lambda>_. base J)"
  by (rule tokens.triple_syscall [OF stable_base [OF assms(1)]])
    (auto simp: assms(2) split: sum.split intro: base_stays [OF assms(1) _ assms(2)])

lemma file_call:
  assumes "kept J" and "\<And>n x. token_file J k d x \<Longrightarrow> changes (temporary_names Z) x (snd (f n x))"
    and "\<And>n x a y. token_file J k d x \<Longrightarrow> f n x = (Inr a, y) \<Longrightarrow> A a"
  shows "tokens.triple Z pid (token_file J k d) (syscall f) (\<lambda>a x. A a \<and> token_file J k d x) (\<lambda>_. token_file J k d)"
proof (rule tokens.triple_syscall [OF stable_token_file [OF assms(1)]])
  fix n x assume *: "token_file J k d x"
  have kept: "changes (temporary_names Z) x (snd (f n x))" "token_file J k d (snd (f n x))"
    using assms(2) [OF *] token_file_stays [OF assms(1) * assms(2) [OF *]] by simp_all
  show "changes (temporary_names Z) x (snd (f n x)) \<and> (case fst (f n x) of Inl e \<Rightarrow> token_file J k d (snd (f n x))
      | Inr a \<Rightarrow> A a \<and> token_file J k d (snd (f n x)))"
    using kept assms(3) [OF *, of n _ "snd (f n x)"] by (cases "fst (f n x)") (auto simp: prod_eq_iff)
qed simp

lemma close_call:
  assumes "\<And>x y. P x \<Longrightarrow> changes (temporary_names Z) x y \<Longrightarrow> P y" and "tokens.stable Z P"
  shows "tokens.triple Z pid P (sys_close f) (\<lambda>_. P) (\<lambda>_. P)"
  unfolding sys_close_def
  by (rule tokens.triple_syscall_anyway [OF assms(2)]) (auto intro: assms(1))

lemma base_calls:
  assumes "kept J"
  shows "tokens.triple Z pid (base J) (sys_mkdirall m) (\<lambda>_. base J) (\<lambda>_. base J)"
    and "tokens.triple Z pid (base J) sys_open_root (\<lambda>_. base J) (\<lambda>_. base J)"
    and "tokens.triple Z pid (base J) sys_fstat_root (\<lambda>_. base J) (\<lambda>_. base J)"
    and "tokens.triple Z pid (base J) (sys_fchmod_root m) (\<lambda>_. base J) (\<lambda>_. base J)"
  unfolding sys_mkdirall_def sys_open_root_def sys_fstat_root_def sys_fchmod_root_def
  by (rule base_call [OF assms]; simp add: sys_error_def split: option.split)+

lemma openRuntimeDirectory_base:
  "kept J \<Longrightarrow> tokens.triple Z pid (base J) openRuntimeDirectory (\<lambda>_. base J) (\<lambda>_. base J)"
  unfolding openRuntimeDirectory_def
  by (intro tokens.triple_gbind [OF tokens.triple_gwrap [OF base_calls(2)]] tokens.triple_gbind [OF tokens.triple_gwrap [OF base_calls(3)]]
      tokens.triple_if tokens.triple_gthrow tokens.triple_gret) simp_all

lemma EnsureRuntimeDirectory_base:
  "kept J \<Longrightarrow> tokens.triple Z pid (base J) (EnsureRuntimeDirectory p) (\<lambda>_. base J) (\<lambda>_. base J)"
  unfolding EnsureRuntimeDirectory_def
  by (intro tokens.triple_if tokens.triple_gthrow tokens.triple_gbind [OF tokens.triple_gwrap [OF base_calls(1)]]
      tokens.triple_gbind [OF openRuntimeDirectory_base] tokens.triple_gwrap base_calls(4)) simp_all

section \<open>Loading\<close>

definition loaded :: "(fs \<Rightarrow> bool) \<Rightarrow> string \<Rightarrow> fs \<Rightarrow> bool" where
  "loaded J t x \<longleftrightarrow> base J x \<and> token_is x t \<and> well_formed_token t"

lemma token_file_loaded: "token_file J k (bytes_of t) x \<Longrightarrow> well_formed_token t \<Longrightarrow> loaded J t x"
  by (auto simp: token_file_def loaded_def token_is_def)

lemma token_file_base: "token_file J k d x \<Longrightarrow> base J x"
  by (simp add: token_file_def)

lemma read_token_step:
  "read_token f n acc =
     (if n \<le> length acc then gret acc
      else gbind (gwrap ''read HTTP token'' (sys_read f (length acc) (n - length acc)))
        (\<lambda>d. if d = [] then gthrow (ErrNew ''HTTP token is malformed'') else read_token f n (acc @ d)))"
  by (rule ext) (simp add: read_token.simps [of f n acc] run_simps split: prod.split sum.split)

lemma read_token_file:
  assumes "kept J" and "acc = take (length acc) d" and "length acc \<le> n" and "n \<le> length d"
  shows "tokens.triple Z pid (token_file J k d) (read_token (k, ofd) n acc) (\<lambda>r x. r = take n d \<and> token_file J k d x) (\<lambda>_. token_file J k d)"
  using assms(2,3)
proof (induction "n - length acc" arbitrary: acc rule: less_induct)
  case less
  show ?case
  proof (cases "n \<le> length acc")
    case True
    with less.prems show ?thesis
      by (subst read_token_step) (auto intro!: tokens.triple_gret)
  next
    case False
    have step: "tokens.triple Z pid (token_file J k d) (sys_read (k, ofd) (length acc) (n - length acc))
        (\<lambda>r x. (r = take (length r) (drop (length acc) d) \<and> length r \<le> n - length acc) \<and> token_file J k d x) (\<lambda>_. token_file J k d)"
      unfolding sys_read_def by (rule file_call [OF assms(1)]) (auto simp: token_file_def min_def)
    have rest: "tokens.triple Z pid (token_file J k d) (read_token (k, ofd) n (acc @ r)) (\<lambda>r x. r = take n d \<and> token_file J k d x) (\<lambda>_. token_file J k d)"
      if "r = take (length r) (drop (length acc) d)" "length r \<le> n - length acc" "r \<noteq> []" for r
    proof (rule less.hyps)
      show "n - length (acc @ r) < n - length acc" using that(3) False by (cases r) auto
      show "acc @ r = take (length (acc @ r)) d" using less.prems(1) that(1) by (simp add: take_add)
      show "length (acc @ r) \<le> n" using that(2) False by simp
    qed
    show ?thesis
      unfolding read_token_step [of _ n acc] using False
      by (simp, intro tokens.triple_gbind [OF tokens.triple_gwrap [OF step]] tokens.triple_assume tokens.triple_if tokens.triple_gthrow)
        (auto intro: rest)
  qed
qed

lemma readHTTPTokenAt_triple:
  assumes "kept J"
  shows "tokens.triple Z pid (base J) readHTTPTokenAt (\<lambda>r x. base J x \<and> (case r of None \<Rightarrow> True | Some t \<Rightarrow> loaded J t x)) (\<lambda>_. base J)"
proof -
  let ?Q = "\<lambda>r x. base J x \<and> (case r of None \<Rightarrow> True | Some t \<Rightarrow> loaded J t x)"
  have stat: "tokens.triple Z pid (base J) (sys_fstatat token_name)
      (\<lambda>st x. base J x \<and> (nd_kind st = RegularFile \<longrightarrow> (\<exists>k. token_file J k (nd_data st) x))) (\<lambda>_. base J)"
    unfolding sys_fstatat_def
    by (rule tokens.triple_syscall [OF stable_base [OF assms]]) (auto simp: sys_error_def token_file_def split: option.split)
  have opened: "tokens.triple Z pid (token_file J k d) (sys_openat token_name False False False 0)
      (\<lambda>f x. fst f = k \<and> token_file J k d x) (\<lambda>_. token_file J k d)" for k d
    unfolding sys_openat_def
    by (rule tokens.triple_with_pid, rule file_call [OF assms]) (auto simp: token_file_def sys_error_def split: if_splits)
  have fstat: "tokens.triple Z pid (token_file J k d) (sys_fstat (k, ofd)) (\<lambda>st x. (nd_kind st = RegularFile \<and> nd_data st = d) \<and> token_file J k d x) (\<lambda>_. token_file J k d)"
    for k d ofd
    unfolding sys_fstat_def by (rule file_call [OF assms]) (auto simp: token_file_def)
  have chmod: "tokens.triple Z pid (token_file J k d) (sys_fchmod (k, ofd) m) (\<lambda>_ x. True \<and> token_file J k d x) (\<lambda>_. token_file J k d)"
    for k d ofd m
    unfolding sys_fchmod_def by (rule file_call [OF assms]) auto
  have body: "tokens.triple Z pid (token_file J k d) (read_open_token (k, ofd))
     (\<lambda>r x. (\<exists>t. r = Some t \<and> d = bytes_of t \<and> well_formed_token t) \<and> token_file J k d x) (\<lambda>_. token_file J k d)" for k d ofd
    unfolding read_open_token_def
  proof (rule tokens.triple_gbind [OF tokens.triple_gwrap [OF fstat]], rule tokens.triple_assume, elim conjE, intro tokens.triple_if)
    fix st assume st: "nd_kind st = RegularFile" "nd_data st = d"
    have read: "tokens.triple Z pid (\<lambda>x. True \<and> token_file J k d x) (read_token (k, ofd) (length (nd_data st)) [])
        (\<lambda>r x. r = d \<and> token_file J k d x) (\<lambda>_. token_file J k d)"
      using read_token_file [OF assms, of "[]" d "length d" Z pid k ofd] by (simp add: st(2))
    show "tokens.triple Z pid (token_file J k d) (gbind (gwrap ''protect HTTP token'' (sys_fchmod (k, ofd) privateFileMode)) (\<lambda>_.
        if length (nd_data st) < 43 \<or> 512 < length (nd_data st) then gthrow (ErrNew ''HTTP token is malformed'')
        else gbind (read_token (k, ofd) (length (nd_data st)) []) (\<lambda>data.
        if \<not> well_formed_token (str_of data) then gthrow (ErrNew ''HTTP token is malformed'')
        else gret (Some (str_of data)))))
     (\<lambda>r x. (\<exists>t. r = Some t \<and> d = bytes_of t \<and> well_formed_token t) \<and> token_file J k d x) (\<lambda>_. token_file J k d)"
      by (intro tokens.triple_gbind [OF tokens.triple_gwrap [OF chmod]] tokens.triple_if tokens.triple_gthrow tokens.triple_gbind [OF read]
          tokens.triple_gret) auto
  qed (auto intro!: tokens.triple_gthrow)
  have closing: "tokens.triple Z pid (\<lambda>x. A \<and> token_file J k d x) (sys_close f) (\<lambda>_ x. A \<and> token_file J k d x) (\<lambda>_ x. A \<and> token_file J k d x)" for A k d f
    by (rule close_call) (auto intro: token_file_stays [OF assms] simp: tokens.stable_def)
  have found: "tokens.triple Z pid (token_file J k d)
     (gbind (gwrap ''open HTTP token without following symlinks'' (sys_openat token_name False False False 0)) (\<lambda>f.
       gfinally (read_open_token f) (sys_close f))) ?Q (\<lambda>_. base J)" for k d
  proof (rule tokens.triple_gbind [OF tokens.triple_gwrap [OF tokens.triple_post [OF opened _ token_file_base]]], assumption, assumption,
      rule tokens.triple_assume)
    fix f :: open_file assume "fst f = k"
    then obtain ofd where f: "f = (k, ofd)" by (cases f) simp
    show "tokens.triple Z pid (token_file J k d) (gfinally (read_open_token f) (sys_close f)) ?Q (\<lambda>_. base J)"
      unfolding f
      by (rule tokens.triple_post [OF tokens.triple_gfinally [OF body closing closing [where A = True, simplified]]])
        (auto simp: token_file_base intro: token_file_loaded)
  qed
  show ?thesis
    unfolding readHTTPTokenAt_def
  proof (rule tokens.triple_gtry [OF stat], goal_cases)
    case (1 st)
    show ?case
    proof (cases "nd_kind st = RegularFile")
      case True
      then show ?thesis
        by (simp, intro tokens.triple_pre [OF tokens.triple_ex [OF found]]) auto
    qed (auto intro!: tokens.triple_gthrow)
  next
    case (2 e)
    show ?case by (auto intro!: tokens.triple_gret tokens.triple_gthrow)
  qed
qed

section \<open>Creating\<close>

definition own_some :: "(fs \<Rightarrow> bool) \<Rightarrow> string \<Rightarrow> nat \<Rightarrow> fs \<Rightarrow> bool" where
  "own_some J s k x \<longleftrightarrow> (\<exists>a. own_file J s k a x)"

lemma own_someI: "own_file J s k a x \<Longrightarrow> own_some J s k x"
  by (auto simp: own_some_def)

lemma own_some_stays:
  "kept J \<Longrightarrow> own_some J s k x \<Longrightarrow> changes M x y \<Longrightarrow> s \<notin> M \<Longrightarrow> s \<noteq> token_name \<Longrightarrow> own_some J s k y"
  unfolding own_some_def using own_file_stays by blast

lemma stable_own_some: "kept J \<Longrightarrow> s \<in> temporary_names Z \<Longrightarrow> tokens.stable Z (own_some J s k)"
  using stable_own_file [of J s Z k] unfolding tokens.stable_def own_some_def by blast

lemma own_file_parts:
  assumes "own_file J s k d x"
  shows "base J x" and "fs_names x s = Some k" and "\<And>n. fs_names x n = Some k \<Longrightarrow> n = s"
    and "nd_kind (fs_nodes x k) = RegularFile" and "nd_data (fs_nodes x k) = d"
proof -
  show "base J x" "fs_names x s = Some k" "nd_kind (fs_nodes x k) = RegularFile" "nd_data (fs_nodes x k) = d"
    using assms by (simp_all only: own_file_def)
  show "\<And>n. fs_names x n = Some k \<Longrightarrow> n = s" using assms unfolding own_file_def by blast
qed

lemma own_node_changed:
  assumes "kept J" and "s \<in> temporary_names Z" and "own_file J s k d x" and "nd_kind nd = RegularFile"
  shows "changes (temporary_names Z) x (set_node k nd x)" and "own_file J s k (nd_data nd) (set_node k nd x)"
proof -
  note parts = own_file_parts [OF assms(3)]
  show ch: "changes (temporary_names Z) x (set_node k nd x)"
    by (rule changes_own_node [OF parts(2,3) assms(2) token_not_temporary])
  show "own_file J s k (nd_data nd) (set_node k nd x)"
    unfolding own_file_def
  proof (intro conjI allI impI)
    show "base J (set_node k nd x)" by (rule base_stays [OF assms(1) parts(1) ch])
    show "n = s" if "fs_names (set_node k nd x) n = Some k" for n using that parts(3) by (simp add: set_node_def)
  qed (simp_all add: set_node_def parts(2) assms(4))
qed

lemma own_calls:
  assumes "kept J" and "s \<in> temporary_names Z"
  shows "tokens.triple Z pid (own_file J s k d) (sys_fchmod (k, ofd) m) (\<lambda>_. own_file J s k d) (\<lambda>_. own_some J s k)"
    and "tokens.triple Z pid (own_file J s k d) (sys_fsync (k, ofd)) (\<lambda>_. own_file J s k d) (\<lambda>_. own_some J s k)"
    and "tokens.triple Z pid (own_file J s k d) (sys_write (k, ofd) b) (\<lambda>n. own_file J s k (d @ take n b)) (\<lambda>_. own_some J s k)"
    and "tokens.triple Z pid (own_file J s k d) (sys_renameat_noreplace s token_name) (\<lambda>_. token_file J k d) (\<lambda>_. own_some J s k)"
proof -
  note rule = tokens.triple_syscall [OF stable_own_file [OF assms]]
  have some: "own_file J s k d x \<Longrightarrow> own_some J s k x" for x by (auto simp: own_some_def)
  show "tokens.triple Z pid (own_file J s k d) (sys_fchmod (k, ofd) m) (\<lambda>_. own_file J s k d) (\<lambda>_. own_some J s k)"
    unfolding sys_fchmod_def
  proof (rule rule [OF some])
    fix x assume x: "own_file J s k d x"
    note parts = own_file_parts [OF x]
    have kind: "nd_kind ((fs_nodes x k)\<lparr>nd_mode := m\<rparr>) = RegularFile" using parts(4) by simp
    from own_node_changed(2) [OF assms x kind] show "changes (temporary_names Z) x (snd (Inr (), set_node (fst (k, ofd)) ((fs_nodes x (fst (k, ofd)))\<lparr>nd_mode := m\<rparr>) x))
        \<and> (case fst (Inr (), set_node (fst (k, ofd)) ((fs_nodes x (fst (k, ofd)))\<lparr>nd_mode := m\<rparr>) x) of
             Inl e \<Rightarrow> own_some J s k (snd (Inr (), set_node (fst (k, ofd)) ((fs_nodes x (fst (k, ofd)))\<lparr>nd_mode := m\<rparr>) x))
           | Inr a \<Rightarrow> own_file J s k d (snd (Inr (), set_node (fst (k, ofd)) ((fs_nodes x (fst (k, ofd)))\<lparr>nd_mode := m\<rparr>) x)))"
      by (simp add: parts(5))
  qed assumption
  show "tokens.triple Z pid (own_file J s k d) (sys_fsync (k, ofd)) (\<lambda>_. own_file J s k d) (\<lambda>_. own_some J s k)"
    unfolding sys_fsync_def by (rule rule [OF some]) simp_all
  show "tokens.triple Z pid (own_file J s k d) (sys_write (k, ofd) b) (\<lambda>n. own_file J s k (d @ take n b)) (\<lambda>_. own_some J s k)"
    unfolding sys_write_def
  proof (rule rule [OF some])
    fix n x assume x: "own_file J s k d x"
    note parts = own_file_parts [OF x]
    let ?nd = "(fs_nodes x k)\<lparr>nd_data := nd_data (fs_nodes x k) @ take (min n (length b)) b\<rparr>"
    have kind: "nd_kind ?nd = RegularFile" using parts(4) by simp
    show "changes (temporary_names Z) x (snd (let m = min n (length b); nd = fs_nodes x (fst (k, ofd)) in
          (Inr m, set_node (fst (k, ofd)) (nd\<lparr>nd_data := nd_data nd @ take m b\<rparr>) x)))
        \<and> (case fst (let m = min n (length b); nd = fs_nodes x (fst (k, ofd)) in
          (Inr m, set_node (fst (k, ofd)) (nd\<lparr>nd_data := nd_data nd @ take m b\<rparr>) x)) of
             Inl e \<Rightarrow> own_some J s k (snd (let m = min n (length b); nd = fs_nodes x (fst (k, ofd)) in
          (Inr m, set_node (fst (k, ofd)) (nd\<lparr>nd_data := nd_data nd @ take m b\<rparr>) x)))
           | Inr a \<Rightarrow> own_file J s k (d @ take a b) (snd (let m = min n (length b); nd = fs_nodes x (fst (k, ofd)) in
          (Inr m, set_node (fst (k, ofd)) (nd\<lparr>nd_data := nd_data nd @ take m b\<rparr>) x))))"
      using own_node_changed [OF assms x kind] by (simp add: Let_def parts(5))
  qed assumption
  show "tokens.triple Z pid (own_file J s k d) (sys_renameat_noreplace s token_name) (\<lambda>_. token_file J k d) (\<lambda>_. own_some J s k)"
    unfolding sys_renameat_noreplace_def
  proof (rule rule [OF some])
    fix n :: nat and x assume x: "own_file J s k d x"
    note parts = own_file_parts [OF x]
    let ?r = "case fs_names x s of None \<Rightarrow> sys_error ''ENOENT'' x
        | Some k \<Rightarrow> if fs_names x token_name \<noteq> None then sys_error ''EEXIST'' x else (Inr (), renamed s token_name k x)"
    show "changes (temporary_names Z) x (snd ?r) \<and> (case fst ?r of Inl e \<Rightarrow> own_some J s k (snd ?r) | Inr a \<Rightarrow> token_file J k d (snd ?r))"
    proof (cases "fs_names x token_name")
      case None
      have ch: "changes (temporary_names Z) x (renamed s token_name k x)"
        by (rule changes_publish [OF parts(2,3) assms(2) None])
      have "token_file J k d (renamed s token_name k x)"
        using base_stays [OF assms(1) parts(1) ch] parts(4,5) by (simp add: token_file_def renamed_def)
      with ch parts(2) None show ?thesis by simp
    next
      case (Some l)
      with parts(2) some [OF x] show ?thesis by (simp add: sys_error_def)
    qed
  qed assumption
qed

lemma write_token_step:
  "write_token f d =
     (if d = [] then gret ()
      else gbind (gwrap ''write HTTP token'' (sys_write f d))
        (\<lambda>n. if n = 0 then gthrow (ErrNew ''write HTTP token: no progress'') else write_token f (drop n d)))"
  by (rule ext) (simp add: write_token.simps [of f d] run_simps split: prod.split sum.split)

lemma write_token_own:
  assumes "kept J" and "s \<in> temporary_names Z"
  shows "tokens.triple Z pid (own_file J s k acc) (write_token (k, ofd) d) (\<lambda>_. own_file J s k (acc @ d)) (\<lambda>_. own_some J s k)"
proof (induction "length d" arbitrary: acc d rule: less_induct)
  case less
  show ?case
  proof (cases "d = []")
    case True
    then show ?thesis by (subst write_token_step) (auto intro!: tokens.triple_gret)
  next
    case False
    have rest: "tokens.triple Z pid (own_file J s k (acc @ take n d)) (write_token (k, ofd) (drop n d)) (\<lambda>_. own_file J s k (acc @ d)) (\<lambda>_. own_some J s k)"
      if "n \<noteq> 0" for n
      using less.hyps [of "drop n d" "acc @ take n d"] that False by simp
    show ?thesis
      unfolding write_token_step [of _ d] using False
      by (simp, intro tokens.triple_gbind [OF tokens.triple_gwrap [OF own_calls(3) [OF assms]]] tokens.triple_if tokens.triple_gthrow)
        (auto intro: rest own_someI)
  qed
qed

lemma fill_token_own:
  assumes "kept J" and "s \<in> temporary_names Z"
  shows "tokens.triple Z pid (own_file J s k []) (fill_token t s (k, ofd)) (\<lambda>r x. r = t \<and> token_file J k (bytes_of t) x) (\<lambda>_. own_some J s k)"
  unfolding fill_token_def
  by (intro tokens.triple_gbind [OF tokens.triple_gwrap [OF own_calls(1) [OF assms]]] tokens.triple_gbind [OF write_token_own [OF assms]]
      tokens.triple_gbind [OF tokens.triple_gwrap [OF own_calls(2) [OF assms]]] tokens.triple_gbind [OF own_calls(4) [OF assms]]
      tokens.triple_gret) simp

lemma unlink_calls:
  assumes "kept J" and "s \<in> temporary_names Z"
  shows "tokens.triple Z pid (\<lambda>x. A \<and> token_file J k d x) (sys_unlinkat s) (\<lambda>_ x. A \<and> token_file J k d x) (\<lambda>_ x. A \<and> token_file J k d x)"
    and "tokens.triple Z pid (own_some J s k) (sys_unlinkat s) (\<lambda>_. base J) (\<lambda>_. base J)"
proof -
  note ch = changes_unlink [OF assms(2) token_not_temporary]
  have stable: "tokens.stable Z (\<lambda>x. A \<and> token_file J k d x)"
    using stable_token_file [OF assms(1), of Z k d] by (auto simp: tokens.stable_def)
  show "tokens.triple Z pid (\<lambda>x. A \<and> token_file J k d x) (sys_unlinkat s) (\<lambda>_ x. A \<and> token_file J k d x) (\<lambda>_ x. A \<and> token_file J k d x)"
    unfolding sys_unlinkat_def
    by (rule tokens.triple_syscall [OF stable])
      (auto simp: sys_error_def ch intro: token_file_stays [OF assms(1) _ ch] split: option.split)
  have base: "own_some J s k x \<Longrightarrow> base J x" for x by (auto simp: own_some_def own_file_base)
  show "tokens.triple Z pid (own_some J s k) (sys_unlinkat s) (\<lambda>_. base J) (\<lambda>_. base J)"
    unfolding sys_unlinkat_def
    by (rule tokens.triple_syscall [OF stable_own_some [OF assms]])
      (auto simp: sys_error_def ch base intro: base_stays [OF assms(1) base ch] split: option.split)
qed

lemma well_formed_created: "length d = 32 \<Longrightarrow> well_formed_token (base64_raw_url d)"
  by (simp add: well_formed_token_def base64_raw_url_back httpTokenBytes_def)

text \<open>The new file, as \<open>openat\<close> makes it.\<close>

definition created_file :: "string \<Rightarrow> fs \<Rightarrow> fs" where
  "created_file s x = x\<lparr>fs_names := (fs_names x)(s \<mapsto> fs_next x),
     fs_nodes := (fs_nodes x)(fs_next x := \<lparr>nd_kind = RegularFile, nd_data = [], nd_mode = privateFileMode, nd_id = nd_id (fs_nodes x (fs_next x))\<rparr>),
     fs_next := fs_next x + 1, fs_opens := fs_opens x + 1\<rparr>"

lemma sys_openat_exclusive:
  "sys_openat s True True True privateFileMode = with_pid (\<lambda>pid. syscall (\<lambda>_ x.
     case fs_names x s of None \<Rightarrow> (Inr (fs_next x, pid, fs_opens x), created_file s x) | Some k \<Rightarrow> sys_error ''EEXIST'' x))"
  unfolding sys_openat_def
  by (rule arg_cong [where f = with_pid], rule ext, rule arg_cong [where f = syscall], intro ext) (simp add: created_file_def split: option.split)

lemma created_own:
  assumes "kept J" and "s \<in> temporary_names Z" and "base J x" and "fs_names x s = None"
  shows "changes (temporary_names Z) x (created_file s x)" and "own_file J s (fs_next x) [] (created_file s x)"
proof -
  show ch: "changes (temporary_names Z) x (created_file s x)"
    by (rule changes_create [OF assms(4,2) token_not_temporary]) (simp_all add: created_file_def)
  have fresh: "fs_names x n \<noteq> Some (fs_next x)" for n using assms(3) by (auto simp: base_def wf_fs_def)
  show "own_file J s (fs_next x) [] (created_file s x)"
    using base_stays [OF assms(1,3) ch] fresh by (auto simp: own_file_def created_file_def)
qed

lemma createHTTPTokenAt_triple:
  assumes "kept J"
  shows "tokens.triple Z pid (base J) createHTTPTokenAt (loaded J) (\<lambda>_. base J)"
proof -
  have opened: "tokens.triple Z pid (base J) (sys_openat s True True True privateFileMode) (\<lambda>f. own_file J s (fst f) []) (\<lambda>_. base J)"
    if s: "s \<in> temporary_names Z" for s
    unfolding sys_openat_exclusive
    by (rule tokens.triple_with_pid, rule tokens.triple_syscall [OF stable_base [OF assms]]) (auto simp: sys_error_def created_own [OF assms s] split: option.split)
  have closing: "tokens.triple Z pid (\<lambda>x. A \<and> token_file J k d x) (sys_close f) (\<lambda>_ x. A \<and> token_file J k d x) (\<lambda>_ x. A \<and> token_file J k d x)" for A k d f
    by (rule close_call) (auto intro: token_file_stays [OF assms] simp: tokens.stable_def)
  have closing_base: "tokens.triple Z pid (base J) (sys_close f) (\<lambda>_. base J) (\<lambda>_. base J)" for f
    by (rule close_call [OF base_stays [OF assms] stable_base [OF assms]])
  have filled: "tokens.triple Z pid (own_file J s (fst f) [])
      (gfinally (gfinally (fill_token t s f) (sys_unlinkat s)) (sys_close f)) (loaded J) (\<lambda>_. base J)"
    if s: "s \<in> temporary_names Z" and t: "well_formed_token t" for s t f
  proof -
    obtain k ofd where f: "f = (k, ofd)" by (cases f)
    show ?thesis
      unfolding f fst_conv
      by (rule tokens.triple_post [OF tokens.triple_gfinally [OF tokens.triple_gfinally [OF fill_token_own [OF assms s]
              unlink_calls(1) [OF assms s] unlink_calls(2) [OF assms s]] closing closing_base]])
        (auto intro: token_file_loaded t)
  qed
  show ?thesis
    unfolding createHTTPTokenAt_def Let_def randomOwnerToken_def
  proof (rule tokens.triple_gbind [OF tokens.triple_gwrap [OF tokens.triple_random [where Q = "\<lambda>d x. well_formed_token (base64_raw_url d) \<and> base J x"]]])
    fix d
    show "tokens.triple Z pid (\<lambda>x. well_formed_token (base64_raw_url d) \<and> base J x)
       (gbind (gwrap ''generate HTTP token temporary name'' (gbind (read_random 16) (\<lambda>d. gret (hex_encode d)))) (\<lambda>suffix.
         gbind (sys_openat (temporary_name suffix) True True True privateFileMode) (\<lambda>f.
           gfinally (gfinally (fill_token (base64_raw_url d) (temporary_name suffix) f) (sys_unlinkat (temporary_name suffix))) (sys_close f))))
       (loaded J) (\<lambda>_. base J)"
    proof (rule tokens.triple_assume, rule tokens.triple_gbind [OF tokens.triple_gwrap [OF tokens.triple_gbind]])
      show "tokens.triple Z pid (base J) (read_random 16) (\<lambda>b x. temporary_name (hex_encode b) \<in> temporary_names Z \<and> base J x) (\<lambda>_. base J)"
        by (rule tokens.triple_random) (auto simp: temporary_names_def)
      show "tokens.triple Z pid (\<lambda>x. temporary_name (hex_encode b) \<in> temporary_names Z \<and> base J x) (gret (hex_encode b))
          (\<lambda>suffix x. temporary_name suffix \<in> temporary_names Z \<and> base J x) (\<lambda>_. base J)" for b
        by (rule tokens.triple_gret) simp
      fix suffix assume wf: "well_formed_token (base64_raw_url d)"
      show "tokens.triple Z pid (\<lambda>x. temporary_name suffix \<in> temporary_names Z \<and> base J x)
         (gbind (sys_openat (temporary_name suffix) True True True privateFileMode) (\<lambda>f.
           gfinally (gfinally (fill_token (base64_raw_url d) (temporary_name suffix) f) (sys_unlinkat (temporary_name suffix))) (sys_close f)))
         (loaded J) (\<lambda>_. base J)"
        by (rule tokens.triple_assume, rule tokens.triple_gbind [OF opened filled]) (use wf in auto)
    qed
  qed (simp_all add: httpTokenBytes_def well_formed_created)
qed

lemma token_attempts_triple:
  assumes "kept J"
  shows "tokens.triple Z pid (base J) (token_attempts n) (loaded J) (\<lambda>_. base J)"
proof (induction n)
  case 0
  show ?case by (simp add: tokens.triple_gthrow)
next
  case (Suc n)
  show ?case
    unfolding token_attempts.simps
  proof (rule tokens.triple_gbind [OF readHTTPTokenAt_triple [OF assms]])
    fix r
    show "tokens.triple Z pid (\<lambda>x. base J x \<and> (case r of None \<Rightarrow> True | Some t \<Rightarrow> loaded J t x))
       (case r of Some token \<Rightarrow> gret token | None \<Rightarrow> gtry createHTTPTokenAt (\<lambda>r. case r of Inr created \<Rightarrow> gret created
         | Inl err \<Rightarrow> if \<not> errors_is err (SysErr ''EEXIST'') then gthrow err else token_attempts n)) (loaded J) (\<lambda>_. base J)"
    proof (cases r)
      case None
      then show ?thesis
        by (simp, intro tokens.triple_gtry [OF createHTTPTokenAt_triple [OF assms]])
          (auto intro!: tokens.triple_gret tokens.triple_gthrow Suc.IH)
    next
      case (Some t)
      then show ?thesis by (auto intro!: tokens.triple_gret)
    qed
  qed
qed

lemma LoadOrCreate_triple:
  "kept J \<Longrightarrow> tokens.triple Z pid (base J) (LoadOrCreateHTTPToken p) (loaded J) (\<lambda>_. base J)"
  unfolding LoadOrCreateHTTPToken_def
  by (intro tokens.triple_if tokens.triple_gthrow tokens.triple_gbind [OF EnsureRuntimeDirectory_base]
      tokens.triple_gbind [OF openRuntimeDirectory_base] token_attempts_triple) simp_all

end
