(* ===== verification/TokenProps.thy ===== *)
theory TokenProps
  imports TokenRuns
begin

text \<open>The promise of the HTTP token to the processes that share it.\<close>

definition any_change :: "fs \<Rightarrow> fs \<Rightarrow> bool" where
  "any_change x y \<longleftrightarrow> (\<exists>M. changes M x y)"

lemma kept_token: "kept (\<lambda>x. token_is x t)"
  unfolding kept_def using token_stays by blast

lemma token_stays_for_ever: "any_change\<^sup>*\<^sup>* x y \<Longrightarrow> token_is x t \<and> wf_fs x \<Longrightarrow> token_is y t \<and> wf_fs y"
  by (induction rule: rtranclp_induct) (auto simp: any_change_def dest: token_stays changes_wf)

text \<open>
  C33: several processes may load or create the token at once.  As long as every process keeps to
  what this very program does with the directory (it changes nothing but its own temporary
  files, and it creates the token only where there is none), whatever the order of the calls
  and whatever fails: a token that is there stays, a process that gets a token gets the
  well-formed content of the token file, and this remains the token for ever; so all get the same.
\<close>

theorem token_converges:
  assumes "LoadOrCreateHTTPToken p w = (r, w')" and "wf_fs (fs w)" and "history w = []"
    and "polite (changes (- temporary_names (set (randoms w)))) w"
  shows "honest (changes (temporary_names (set (randoms w)))) w' \<and> wf_fs (fs w')
    \<and> (\<forall>t. token_is (fs w) t \<longrightarrow> token_is (fs w') t \<and> (\<forall>t'. r = Inr t' \<longrightarrow> t' = t))
    \<and> (\<forall>t. r = Inr t \<longrightarrow> well_formed_token t \<and> (\<forall>y. any_change\<^sup>*\<^sup>* (fs w') y \<longrightarrow> token_is y t))"
proof -
  let ?Z = "set (randoms w)"
  have fair: "tokens.fair ?Z (own_pid w) w" using assms(3,4) by (simp add: tokens.fair_def honest_def)
  have run: "tokens.fair ?Z (own_pid w) w' \<and> (case r of Inl e \<Rightarrow> base J (fs w') | Inr a \<Rightarrow> loaded J a (fs w'))"
    if "kept J" "J (fs w)" for J
    by (rule tokens.triple_run [OF LoadOrCreate_triple [OF that(1)] fair _ assms(1)]) (use assms(2) that(2) in \<open>simp add: base_def\<close>)
  have "kept (\<lambda>_. True)" by (simp add: kept_def)
  from run [OF this] have plain: "honest (changes (temporary_names ?Z)) w'" "wf_fs (fs w')"
    "\<And>t. r = Inr t \<Longrightarrow> well_formed_token t \<and> token_is (fs w') t"
    by (auto simp: tokens.fair_def base_def loaded_def split: sum.splits)
  moreover have "token_is (fs w') t" if "token_is (fs w) t" for t
    using run [OF kept_token, of t] that by (auto simp: base_def loaded_def split: sum.splits)
  ultimately show ?thesis using token_is_unique token_stays_for_ever by blast
qed

definition sample_paths :: runtime_paths where
  "sample_paths = paths_under ''/r''"

definition empty_fs :: fs where
  "empty_fs = \<lparr>fs_root = None, fs_root_mode = 0, fs_names = (\<lambda>_. None),
     fs_nodes = (\<lambda>_. \<lparr>nd_kind = RegularFile, nd_data = [], nd_mode = 0, nd_id = (0, 0)\<rparr>), fs_next = 0, fs_locks = (\<lambda>_. None), fs_opens = 0\<rparr>"

definition sample_world :: world where
  "sample_world = \<lparr>fs = empty_fs, script = [], history = [], randoms = [Inr [1], Inr [2]], wall_clock = zero_time, own_pid = 7\<rparr>"

lemma sample_paths_ok:
  "path_clean (path_dir (rp_HTTPToken sample_paths)) = path_clean (rp_Root sample_paths)" "path_base (rp_HTTPToken sample_paths) = token_name"
  by code_simp+

lemmas call_defs = syscall_def syscall_anyway_def call_done_def sys_mkdirall_def sys_open_root_def sys_fstat_root_def sys_fchmod_root_def
  sys_fstatat_def sys_openat_exclusive created_file_def sys_fchmod_def sys_fsync_def sys_renameat_noreplace_def sys_unlinkat_def sys_close_def
  sys_error_def set_node_def renamed_def read_random_def gfinally_def with_pid_def randomOwnerToken_def

lemma sample_root: "rp_Root sample_paths \<noteq> ''''"
  by (simp add: sample_paths_def paths_under_def)

lemma write_token_calm:
  assumes "script w = []" and "length d \<le> 2 ^ 30" and "d \<noteq> []"
  shows "write_token f d w = (case sys_write f d w of (_, w1) \<Rightarrow> (Inr (), w1))"
  using assms
  by (simp add: write_token.simps [of f d] write_token.simps [of f "[]"] sys_write_def syscall_def call_done_def Let_def)

lemma sample_load:
  "\<exists>w'. LoadOrCreateHTTPToken sample_paths sample_world = (Inr (base64_raw_url (1 # replicate 31 0)), w')"
proof -
  define tok where "tok = base64_raw_url (1 # replicate 31 0)"
  have tok: "length (bytes_of tok) = 43" "bytes_of tok \<noteq> []" 
    by (simp_all add: tok_def bytes_of_def flip: length_0_conv)
  have r: "take 32 ([1 :: byte] @ replicate 32 0) = 1 # replicate 31 0" by (simp add: take_Cons')
  have ne: "temporary_name s \<noteq> token_name" for s by (simp add: temporary_name_def token_name_def)
  show ?thesis
    unfolding LoadOrCreateHTTPToken_def sample_paths_ok EnsureRuntimeDirectory_def openRuntimeDirectory_def numeral_2_eq_2 token_attempts.simps
      readHTTPTokenAt_def createHTTPTokenAt_def fill_token_def tok_def [symmetric]
    using tok ne ne [symmetric]
    by (simp add: sample_root run_simps call_defs sample_world_def empty_fs_def write_token_calm sys_write_def Let_def httpTokenBytes_def tok_def)
qed

theorem token_converges_witness:
  "\<exists>w'. LoadOrCreateHTTPToken sample_paths sample_world = (Inr (base64_raw_url (1 # replicate 31 0)), w')
     \<and> token_is (fs w') (base64_raw_url (1 # replicate 31 0))"
proof -
  obtain w' where run: "LoadOrCreateHTTPToken sample_paths sample_world = (Inr (base64_raw_url (1 # replicate 31 0)), w')"
    using sample_load by blast
  have "wf_fs (fs sample_world)" "history sample_world = []" "polite R sample_world" for R
    by (simp_all add: sample_world_def empty_fs_def wf_fs_def polite_def)
  from token_converges [OF run this] run show ?thesis by blast
qed

end
