(* ===== verification/HttpFacts.thy ===== *)
theory HttpFacts
  imports Http TokenProps
begin

text \<open>Who is admitted by the HTTP server, and what a payload response tells.\<close>

section \<open>Tokens and headers\<close>

lemma url_digits_clean: "c \<in> set url_digits \<Longrightarrow> c \<notin> set [CHR '' '', CHR 0x09, CHR 0x0D, CHR 0x0A]"
  by (auto simp: url_digits_def)

lemma base64_raw_url_digits: "set (base64_raw_url bs) \<subseteq> set url_digits"
proof -
  have "length url_digits = 64" by (simp add: url_digits_def)
  then show ?thesis using sextets_small [of _ bs] by (auto simp: base64_raw_url_def)
qed

lemma well_formed_token_facts:
  assumes "well_formed_token t"
  shows "43 \<le> length t" and "\<not> contains_any t [CHR '' '', CHR 0x09, CHR 0x0D, CHR 0x0A]" and "\<not> contains_any t [CHR 0x0D, CHR 0x0A]"
proof -
  from assms obtain d where d: "base64_raw_url d = t" "32 \<le> length d"
    by (auto simp: well_formed_token_def httpTokenBytes_def split: option.splits)
  have "(4 * 32 + 2) div 3 \<le> (4 * length d + 2) div 3" by (rule div_le_mono) (use d(2) in simp)
  with d(1) length_base64_raw_url [of d] show "43 \<le> length t" by simp
  have "set t \<subseteq> set url_digits" using base64_raw_url_digits [of d] d(1) by simp
  then show "\<not> contains_any t [CHR '' '', CHR 0x09, CHR 0x0D, CHR 0x0A]" "\<not> contains_any t [CHR 0x0D, CHR 0x0A]"
    using url_digits_clean unfolding contains_any_def by fastforce+
qed

lemma prefix_split: "has_prefix s p \<longleftrightarrow> s = p @ trim_prefix s p"
proof
  assume "has_prefix s p"
  then have "take (length p) s = p" "trim_prefix s p = drop (length p) s" by (simp_all add: has_prefix_def trim_prefix_def)
  then show "s = p @ trim_prefix s p" by (metis append_take_drop_id)
next
  assume "s = p @ trim_prefix s p"
  then have "take (length p) s = take (length p) (p @ trim_prefix s p)" by simp
  then show "has_prefix s p" by (simp add: has_prefix_def)
qed

lemma trim_prefix_append [simp]: "trim_prefix (p @ s) p = s"
  by (simp add: trim_prefix_def has_prefix_def)

lemma authorized_iff:
  assumes "\<not> contains_any (hs_Token s) [CHR '' '', CHR 0x09, CHR 0x0D, CHR 0x0A]" and "hs_Token s \<noteq> ''''"
  shows "authorized s vs \<longleftrightarrow> vs = [''Bearer '' @ hs_Token s]"
proof
  assume auth: "authorized s vs"
  then have one: "length vs = 1" and "has_prefix (hd vs) ''Bearer ''" and "bytes_of (trim_prefix (hd vs) ''Bearer '') = bytes_of (hs_Token s)"
    by (auto simp: authorized_def Let_def split: if_splits)
  then have "hd vs = ''Bearer '' @ hs_Token s" using prefix_split [of "hd vs" "''Bearer ''"] bytes_of_inj by metis
  with one show "vs = [''Bearer '' @ hs_Token s]" by (cases vs) auto
next
  assume "vs = [''Bearer '' @ hs_Token s]"
  with assms prefix_split [of "''Bearer '' @ hs_Token s" "''Bearer ''"] show "authorized s vs"
    by (simp only: authorized_def Let_def list.sel length_Cons list.size trim_prefix_append) simp
qed

section \<open>Admission\<close>

text \<open>Who may use the server.\<close>

definition admitted :: "http_server \<Rightarrow> http_request \<Rightarrow> bool" where
  "admitted s rq \<longleftrightarrow>
     hq_Method rq \<noteq> ''OPTIONS'' \<and> (\<forall>(k, vs) \<in> set (hq_Header rq). \<not> equal_fold k ''Origin'')
     \<and> (\<exists>address host port. hs_Listener s = Some address \<and> split_host_port address = Some (host, port)
          \<and> split_host_port (hq_Host rq) = Some (host, port))
     \<and> hq_ContentLength rq = 0 \<and> hq_HasBody rq
     \<and> set (map fst (hq_Query rq)) \<inter> {''token'', ''access_token'', ''authorization''} = {}
     \<and> header_values rq ''Authorization'' = [''Bearer '' @ hs_Token s]"

definition base_headers :: "response \<Rightarrow> response" where
  "base_headers r = header_set ''Cache-Control'' ''no-store'' (header_set ''X-Content-Type-Options'' ''nosniff'' r)"

definition refusals :: "(nat \<times> string) list" where
  "refusals = [(403, ''forbidden''), (400, ''invalid_request''), (401, ''unauthorized'')]"

lemma validHost_iff:
  "validHost s h \<longleftrightarrow> (\<exists>address host port. hs_Listener s = Some address \<and> split_host_port address = Some (host, port)
     \<and> split_host_port h = Some (host, port))"
  by (auto simp: validHost_def split: option.splits)

lemma has_key_iff: "has_key q k \<longleftrightarrow> k \<in> set (map fst q)"
  by (simp add: has_key_def map_of_eq_None_iff)

lemma admitted_iff:
  assumes "\<not> contains_any (hs_Token s) [CHR '' '', CHR 0x09, CHR 0x0D, CHR 0x0A]" and "hs_Token s \<noteq> ''''"
  shows "admitted s rq \<longleftrightarrow> \<not> (hq_Method rq = ''OPTIONS'' \<or> hasHeaderKey (hq_Header rq) ''Origin'') \<and> validHost s (hq_Host rq)
     \<and> \<not> (hq_ContentLength rq \<noteq> 0 \<or> \<not> hq_HasBody rq)
     \<and> \<not> (has_key (hq_Query rq) ''token'' \<or> has_key (hq_Query rq) ''access_token'' \<or> has_key (hq_Query rq) ''authorization'')
     \<and> authorized s (header_values rq ''Authorization'')"
proof -
  have origin: "(\<forall>(k, vs) \<in> set h. \<not> equal_fold k ''Origin'') \<longleftrightarrow> \<not> hasHeaderKey h ''Origin''" for h
    by (auto simp: hasHeaderKey_def list_ex_iff)
  have keys: "set (map fst q) \<inter> {''token'', ''access_token'', ''authorization''} = {} \<longleftrightarrow>
      \<not> (has_key q ''token'' \<or> has_key q ''access_token'' \<or> has_key q ''authorization'')" for q :: url_values
    unfolding has_key_iff by blast
  show ?thesis unfolding admitted_def origin keys validHost_iff [symmetric] authorized_iff [OF assms] by blast
qed

lemma ServeHTTP_admission:
  assumes "\<not> contains_any (hs_Token s) [CHR '' '', CHR 0x09, CHR 0x0D, CHR 0x0A]" and "hs_Token s \<noteq> ''''"
  shows "admitted s rq \<Longrightarrow> ServeHTTP s bk rq c r = http_route bk rq c (base_headers r)"
    and "\<not> admitted s rq \<Longrightarrow> \<exists>(status, code) \<in> set refusals. ServeHTTP s bk rq c r = (c, http_error status code (base_headers r))"
  unfolding admitted_iff [OF assms] ServeHTTP_def Let_def base_headers_def refusals_def by auto

section \<open>What an error answer is\<close>

lemma canonical_keys:
  "canonical_key ''Content-Type'' = ''Content-Type''" "canonical_key ''Cache-Control'' = ''Cache-Control''"
  "canonical_key ''X-Content-Type-Options'' = ''X-Content-Type-Options''" "canonical_key ''Trailer'' = ''Trailer''"
  "canonical_key ''X-Payload-Size'' = ''X-Payload-Size''" "canonical_key ''X-Payload-SHA256'' = ''X-Payload-Sha256''"
  "canonical_key ''X-Payload-Offset'' = ''X-Payload-Offset''" "canonical_key ''X-Payload-Bytes'' = ''X-Payload-Bytes''"
  "canonical_key ''X-Payload-Error'' = ''X-Payload-Error''"
  by code_simp+

lemma header_set_simps [simp]:
  "rp_Sent (header_set k v r) = rp_Sent r" "rp_Body (header_set k v r) = rp_Body r"
  "rp_Header (header_set k v r) = (rp_Header r)(canonical_key k := [v])"
  by (simp_all add: header_set_def)

lemma header_add_simps [simp]:
  "rp_Sent (header_add k v r) = rp_Sent r" "rp_Body (header_add k v r) = rp_Body r"
  "rp_Header (header_add k v r) = (rp_Header r)(canonical_key k := rp_Header r (canonical_key k) @ [v])"
  by (simp_all add: header_add_def)

text \<open>The first status wins.\<close>

lemma WriteHeader_simps [simp]:
  "rp_Header (WriteHeader status r) = rp_Header r" "rp_Body (WriteHeader status r) = rp_Body r"
  "rp_Sent (WriteHeader status r) = Some (case rp_Sent r of None \<Rightarrow> (status, rp_Header r) | Some sent \<Rightarrow> sent)"
  by (simp_all add: WriteHeader_def split: option.split)

lemma response_write_fields:
  assumes "response_write d r = (n, e, r')"
  shows "rp_Header r' = rp_Header r" and "rp_Sent r' = Some (case rp_Sent r of None \<Rightarrow> (200, rp_Header r) | Some sent \<Rightarrow> sent)"
    and "\<exists>w. writer_write d (rp_Body r) = (n, e, w) \<and> rp_Body r' = w"
  using assms by (auto simp: response_write_def Let_def split: prod.splits)

lemma write_json_simps [simp]:
  "rp_Header (write_json v r) = rp_Header r"
  "rp_Sent (write_json v r) = Some (case rp_Sent r of None \<Rightarrow> (200, rp_Header r) | Some sent \<Rightarrow> sent)"
  using response_write_fields [of "json_text v @ [10]" r] by (auto simp: write_json_def prod_eq_iff)

lemma write_json_body: "plan (rp_Body r) = [] \<Longrightarrow> response_body (write_json v r) = response_body r @ json_text v @ [10]"
  by (simp add: write_json_def response_write_def Let_def writer_write_def response_body_def)

text \<open>What an error answers: status, headers and, unless writing fails, the body.\<close>

definition is_error :: "nat \<Rightarrow> string \<Rightarrow> response \<Rightarrow> response \<Rightarrow> bool" where
  "is_error status code r r' \<longleftrightarrow>
     response_status r' = status \<and> response_header r' ''Content-Type'' = [''application/json'']
     \<and> response_header r' ''Cache-Control'' = rp_Header r ''Cache-Control''
     \<and> response_header r' ''X-Content-Type-Options'' = rp_Header r ''X-Content-Type-Options''
     \<and> (plan (rp_Body r) = [] \<longrightarrow> response_body r' = response_body r @ json_text (jobject [(''code'', jstr code)]) @ [10])"

lemma http_error_is:
  assumes "rp_Sent r = None"
  shows "is_error status code r (finished (http_error status code r))"
proof -
  have "plan (rp_Body r) = [] \<Longrightarrow> response_body (http_error status code r) = response_body r @ json_text (jobject [(''code'', jstr code)]) @ [10]"
    unfolding http_error_def by (subst write_json_body) (simp_all add: response_body_def)
  with assms show ?thesis
    by (simp add: is_error_def http_error_def finished_def response_status_def response_header_def canonical_keys response_body_def)
qed

end
