(* ===== verification/HttpProps.thy ===== *)
theory HttpProps
  imports HttpFacts
begin

text \<open>
  The promises of the HTTP server: only admitted requests reach the backend, and a payload response
  tells its reader whether it is complete.
\<close>

section \<open>What a payload read does to its writer\<close>

definition keeps :: "('w \<Rightarrow> bool) \<Rightarrow> 'w write_fn \<Rightarrow> bool" where
  "keeps I wr \<longleftrightarrow> (\<forall>d w. d \<noteq> [] \<longrightarrow> I w \<longrightarrow> I (snd (snd (wr d w))))"

lemma copy_write_keeps:
  assumes "keeps I wr" and "d \<noteq> []" and "I w" and "copy_write wr d w = (e, m, w')"
  shows "I w'"
proof -
  obtain n err w1 where wr: "wr d w = (n, err, w1)" by (cases "wr d w")
  have "I (snd (snd (wr d w)))" using assms(1-3) unfolding keeps_def by blast
  moreover have "w' = w1" using assms(4) wr by (auto simp: copy_write_def split: if_splits option.splits)
  ultimately show ?thesis using wr by simp
qed

lemma copy_limited_keeps:
  assumes step: "keeps I wr"
  shows "copy_limited wr k m (n, r) w = (res, r', w') \<Longrightarrow> I w \<Longrightarrow> I w'"
proof (induction "n + length r" arbitrary: m n r w rule: less_induct)
  case less
  show ?case
  proof (cases "k = 0 \<or> n = 0")
    case True
    with less.prems show ?thesis by (auto simp: copy_limited.simps)
  next
    case False
    obtain d err r1 where rd: "reader_read (min k n) r = (d, err, r1)" by (cases "reader_read (min k n) r")
    obtain e j w1 where wr: "(if d = [] then (None, 0, w) else copy_write wr d w) = (e, j, w1)"
      by (cases "if d = [] then (None, 0, w) else copy_write wr d w")
    have I: "I w1" using wr less.prems(2) by (auto split: if_splits dest: copy_write_keeps [OF step])
    show ?thesis
    proof (cases "e = None \<and> err = None")
      case True
      with less.prems False rd wr have rest: "copy_limited wr k (m + j) (n - length d, r1) w1 = (res, r', w')"
        by (simp add: copy_limited.simps [of wr k m n r])
      have "n - length d + length r1 < n + length r" by (rule copy_progress) (use rd True False in auto)
      from less.hyps [OF this rest I] show ?thesis .
    next
      case False
      with less.prems \<open>\<not> (k = 0 \<or> n = 0)\<close> rd wr have "w' = w1"
        by (auto simp: copy_limited.simps [of wr k m n r] split: option.splits)
      with I show ?thesis by simp
    qed
  qed
qed

lemma client_ReadPayload_keeps:
  assumes step: "keeps I wr"
    and "client_ReadPayload (Some wr) env i offset limit c w = (res, c', w')" and "I w"
  shows "I w'"
proof -
  have after: "readEvidenceAfterHeader wr md x conn k w = (res', k', w'') \<Longrightarrow> I w''" for md x conn k res' k' w''
    using assms(3) by (auto simp: readEvidenceAfterHeader_def split: if_splits option.splits prod.splits
        dest: copy_limited_keeps [OF step])
  show ?thesis
    using assms(2,3) by (auto simp: client_ReadPayload_def split: if_splits option.splits sum.splits prod.splits dest!: after)
qed

section \<open>The payload writer\<close>

abbreviation written :: "payload_writer \<Rightarrow> bytes" where
  "written w \<equiv> response_body (pw_Response w)"

lemma commit_body [simp]: "response_body (pw_Response (commit w)) = written w" "plan (rp_Body (pw_Response (commit w))) = plan (rp_Body (pw_Response w))"
  by (simp_all add: commit_def payload_header_def response_body_def)

interpretation payload_stream: io_writer payload_write written
  by unfold_locales
    (auto simp: payload_write_def response_write_def response_body_def Let_def commit_def payload_header_def
      split: prod.splits if_splits dest!: script_writer.wr_sunk)

lemma payload_write_open:
  assumes "plan (rp_Body (pw_Response w)) = []"
  shows "\<exists>w'. payload_write d w = (int (length d), None, w') \<and> plan (rp_Body (pw_Response w')) = []"
  using assms by (cases "d = []") (simp_all add: payload_write_def response_write_def Let_def writer_write_def)

interpretation open_payload_stream: reliable_writer payload_write written "\<lambda>w. plan (rp_Body (pw_Response w)) = []"
proof (unfold_locales, goal_cases)
  case (1 w p n e w')
  then show ?case using payload_write_open [of w p] by auto
qed

text \<open>Before the first byte nothing has happened to the response; from then on its head is fixed.\<close>

definition streaming :: "response \<Rightarrow> payload_writer \<Rightarrow> bool" where
  "streaming r w \<longleftrightarrow>
     (if pw_started w then rp_Sent (pw_Response w) = Some (200, rp_Header (payload_header r)) \<and> rp_Header (pw_Response w) = rp_Header (payload_header r)
      else pw_Response w = r)"

lemma commit_streaming:
  assumes "rp_Sent r = None" and "streaming r w"
  shows "pw_started (commit w)" and "rp_Header (pw_Response (commit w)) = rp_Header (payload_header r)"
    and "rp_Sent (pw_Response (commit w)) = None \<or> rp_Sent (pw_Response (commit w)) = Some (200, rp_Header (payload_header r))"
proof -
  have "rp_Sent (payload_header r) = None" using assms(1) by (simp add: payload_header_def)
  with assms(2) show "pw_started (commit w)" "rp_Header (pw_Response (commit w)) = rp_Header (payload_header r)"
    "rp_Sent (pw_Response (commit w)) = None \<or> rp_Sent (pw_Response (commit w)) = Some (200, rp_Header (payload_header r))"
    by (simp_all add: commit_def streaming_def split: if_splits)
qed

lemma payload_write_step:
  assumes "rp_Sent r = None" and "d \<noteq> []" and "streaming r w"
  shows "streaming r (snd (snd (payload_write d w)))"
proof -
  note c = commit_streaming [OF assms(1,3)]
  obtain n e r' where run: "response_write d (pw_Response (commit w)) = (n, e, r')" by (cases "response_write d (pw_Response (commit w))")
  have sent: "rp_Sent r' = Some (200, rp_Header (payload_header r))" "rp_Header r' = rp_Header (payload_header r)"
    using response_write_fields(1,2) [OF run] c(2,3) by auto
  have "payload_write d w = (n, e, (commit w)\<lparr>pw_Response := r'\<rparr>)"
    using assms(2) run by (simp add: payload_write_def Let_def)
  with sent c(1) show ?thesis by (simp add: streaming_def)
qed

lemma payload_write_streaming: "rp_Sent r = None \<Longrightarrow> keeps (streaming r) payload_write"
  by (simp add: keeps_def payload_write_step)

lemma payload_read:
  assumes "bk_ReadPayload (client_backend envs) payload_write i offset limit (n, k) \<lparr>pw_Response = r, pw_started = False\<rparr> = (res, nk, w)"
    and "rp_Sent r = None"
  obtains k' where "client_ReadPayload (Some payload_write) (envs n) i offset limit k \<lparr>pw_Response = r, pw_started = False\<rparr> = (res, k', w)"
    and "nk = (n + 1, k')" and "streaming r w"
proof -
  from assms(1) obtain k' where run: "nk = (n + 1, k')"
    "client_ReadPayload (Some payload_write) (envs n) i offset limit k \<lparr>pw_Response = r, pw_started = False\<rparr> = (res, k', w)"
    unfolding backend_ReadPayload by blast
  have "streaming r w"
    by (rule client_ReadPayload_keeps [OF payload_write_streaming [OF assms(2)] run(2)]) (simp add: streaming_def)
  with run that show ?thesis by blast
qed

section \<open>Payload requests\<close>

definition payload_request :: "http_request \<Rightarrow> bool" where
  "payload_request rq \<longleftrightarrow> hq_Method rq = ''GET'' \<and> has_prefix (hq_Path rq) ''/v1/events/'' \<and> has_suffix (hq_Path rq) ''/payload''"

lemma payload_routed:
  assumes "payload_request rq"
  shows "http_route bk rq c r = http_payload bk rq c r"
proof -
  have "take (length ''/v1/events/'') (hq_Path rq) = ''/v1/events/''" using assms unfolding payload_request_def has_prefix_def by blast
  then have "hq_Path rq \<noteq> ''/v1/health''" "hq_Path rq \<noteq> ''/v1/info''" "hq_Path rq \<noteq> ''/v1/search''" by auto
  with assms show ?thesis by (simp add: http_route_def payload_request_def)
qed

text \<open>The two ways in which a response with status 200 ends.\<close>

definition complete_payload :: "payload_metadata \<Rightarrow> response \<Rightarrow> bool" where
  "complete_payload m f \<longleftrightarrow> response_status f = 200 \<and> response_header f ''Content-Type'' = [''application/octet-stream'']
     \<and> response_trailer f ''X-Payload-Size'' = [decimal (unat (pm_TotalSize m))] \<and> response_trailer f ''X-Payload-SHA256'' = [pm_SHA256 m]
     \<and> response_trailer f ''X-Payload-Offset'' = [decimal (unat (pm_Offset m))]
     \<and> response_trailer f ''X-Payload-Bytes'' = [decimal (unat (pm_BytesWritten m))] \<and> response_trailer f ''X-Payload-Error'' = []"

definition truncated_payload :: "response \<Rightarrow> bool" where
  "truncated_payload f \<longleftrightarrow> response_status f = 200 \<and> response_trailer f ''X-Payload-Error'' = [''stream_error'']
     \<and> response_trailer f ''X-Payload-SHA256'' = [] \<and> response_trailer f ''X-Payload-Bytes'' = []"

definition plain_response :: "response \<Rightarrow> bool" where
  "plain_response r \<longleftrightarrow> rp_Sent r = None \<and> (\<forall>k \<in> {''Trailer'', ''X-Payload-Size'', ''X-Payload-Sha256'', ''X-Payload-Offset'',
     ''X-Payload-Bytes'', ''X-Payload-Error''}. rp_Header r k = [])"

lemma plain_fields:
  assumes "plain_response r"
  shows "rp_Sent r = None" "rp_Header r ''Trailer'' = []" "rp_Header r ''X-Payload-Size'' = []" "rp_Header r ''X-Payload-Sha256'' = []"
    "rp_Header r ''X-Payload-Offset'' = []" "rp_Header r ''X-Payload-Bytes'' = []" "rp_Header r ''X-Payload-Error'' = []"
  using assms by (simp_all add: plain_response_def)

lemma base_plain: "plain_response (base_headers (fresh_response ps))"
  by (simp add: plain_response_def base_headers_def fresh_response_def canonical_keys)

lemma payload_header_fields:
  assumes "plain_response r"
  shows "rp_Sent (payload_header r) = None"
    and "rp_Header (payload_header r) ''Trailer'' = [''X-Payload-Size'', ''X-Payload-SHA256'', ''X-Payload-Offset'', ''X-Payload-Bytes'', ''X-Payload-Error'']"
    and "rp_Header (payload_header r) ''Content-Type'' = [''application/octet-stream'']"
    and "rp_Header (payload_header r) ''X-Payload-Size'' = []" and "rp_Header (payload_header r) ''X-Payload-Sha256'' = []"
    and "rp_Header (payload_header r) ''X-Payload-Offset'' = []" and "rp_Header (payload_header r) ''X-Payload-Bytes'' = []"
    and "rp_Header (payload_header r) ''X-Payload-Error'' = []"
  using plain_fields [OF assms] by (simp_all add: payload_header_def canonical_keys)

text \<open>The head of the response has been sent, or will be when the handler returns.\<close>

definition headed :: "header \<Rightarrow> response \<Rightarrow> bool" where
  "headed h f \<longleftrightarrow> rp_Sent f = Some (200, h) \<and> h ''Trailer'' = [''X-Payload-Size'', ''X-Payload-SHA256'', ''X-Payload-Offset'', ''X-Payload-Bytes'', ''X-Payload-Error'']
     \<and> h ''Content-Type'' = [''application/octet-stream'']"

lemma headed_trailers:
  assumes "headed h f"
  shows "response_status f = 200" and "response_header f ''Content-Type'' = [''application/octet-stream'']"
    and "response_trailer f ''X-Payload-Size'' = rp_Header f ''X-Payload-Size''"
    and "response_trailer f ''X-Payload-SHA256'' = rp_Header f ''X-Payload-Sha256''"
    and "response_trailer f ''X-Payload-Offset'' = rp_Header f ''X-Payload-Offset''"
    and "response_trailer f ''X-Payload-Bytes'' = rp_Header f ''X-Payload-Bytes''"
    and "response_trailer f ''X-Payload-Error'' = rp_Header f ''X-Payload-Error''"
  using assms by (simp_all add: headed_def response_status_def response_header_def response_trailer_def canonical_keys)

lemma complete_after:
  assumes "plain_response r" and "streaming r w"
  shows "complete_payload m (finished (payload_trailers m (pw_Response (commit w))))"
    and "response_body (finished (payload_trailers m (pw_Response (commit w)))) = written w"
proof -
  let ?c = "pw_Response (commit w)" and ?f = "finished (payload_trailers m (pw_Response (commit w)))"
  note h = payload_header_fields [OF assms(1)] and c = commit_streaming [OF plain_fields(1) [OF assms(1)] assms(2)]
  have hdr: "rp_Header ?f = (rp_Header (payload_header r))(''X-Payload-Size'' := [decimal (unat (pm_TotalSize m))],
      ''X-Payload-Sha256'' := [pm_SHA256 m], ''X-Payload-Offset'' := [decimal (unat (pm_Offset m))],
      ''X-Payload-Bytes'' := [decimal (unat (pm_BytesWritten m))])"
    by (simp add: finished_def payload_trailers_def canonical_keys c(2))
  have "rp_Sent ?f = Some (200, rp_Header ?f) \<or> rp_Sent ?f = Some (200, rp_Header (payload_header r))"
    using c(3) by (auto simp: finished_def payload_trailers_def)
  then obtain hd where head: "headed hd ?f" using h by (auto simp: headed_def hdr)
  show "complete_payload m ?f"
    unfolding complete_payload_def headed_trailers [OF head] hdr using h by simp
  show "response_body ?f = written w"
    using commit_body(1) [of w] by (simp add: finished_def payload_trailers_def response_body_def)
qed

lemma truncated_after:
  assumes "plain_response r" and "streaming r w" and "pw_started w"
  shows "truncated_payload (finished (header_set ''X-Payload-Error'' ''stream_error'' (pw_Response w)))"
proof -
  let ?f = "finished (header_set ''X-Payload-Error'' ''stream_error'' (pw_Response w))"
  note h = payload_header_fields [OF assms(1)]
  have hdr: "rp_Header ?f = (rp_Header (payload_header r))(''X-Payload-Error'' := [''stream_error''])"
    "rp_Sent ?f = Some (200, rp_Header (payload_header r))"
    using assms(2,3) by (simp_all add: finished_def streaming_def canonical_keys)
  then have head: "headed (rp_Header (payload_header r)) ?f" using h by (simp add: headed_def)
  show ?thesis unfolding truncated_payload_def headed_trailers [OF head] hdr using h by simp
qed

lemma payload_outcome:
  assumes "http_payload (client_backend envs) rq (n, k) r = (c', r')" and "plain_response r"
  shows "(\<exists>(status, code) \<in> {(400, ''invalid_request''), (404, ''not_found''), (503, ''unavailable'')}. is_error status code r (finished r'))
    \<or> (\<exists>offset limit k' w res. uintQuery (hq_Query rq) ''offset'' = Some offset \<and> uintQuery (hq_Query rq) ''limit'' = Some limit
        \<and> client_ReadPayload (Some payload_write) (envs n) (payload_id (hq_Path rq)) offset limit k \<lparr>pw_Response = r, pw_started = False\<rparr> = (res, k', w)
        \<and> (case res of
             Inr m \<Rightarrow> complete_payload m (finished r') \<and> response_body (finished r') = written w
           | Inl e \<Rightarrow> truncated_payload (finished r')))"
proof -
  note sent = plain_fields(1) [OF assms(2)]
  note err = http_error_is [OF sent]
  let ?i = "payload_id (hq_Path rq)"
  show ?thesis
  proof (cases "onlyQueryKeys (hq_Query rq) [''offset'', ''limit''] \<and> ?i \<noteq> '''' \<and> CHR ''/'' \<notin> set ?i
      \<and> uintQuery (hq_Query rq) ''offset'' \<noteq> None \<and> uintQuery (hq_Query rq) ''limit'' \<noteq> None")
    case False
    with assms(1) have "r' = http_error 400 ''invalid_request'' r \<or> r' = http_error 404 ''not_found'' r"
      by (auto simp: http_payload_def Let_def split: if_splits option.splits)
    with err [of 400 "''invalid_request''"] err [of 404 "''not_found''"] show ?thesis by auto
  next
    case True
    then obtain offset limit where q: "uintQuery (hq_Query rq) ''offset'' = Some offset" "uintQuery (hq_Query rq) ''limit'' = Some limit" by auto
    obtain res nk w where run: "bk_ReadPayload (client_backend envs) payload_write ?i offset limit (n, k) \<lparr>pw_Response = r, pw_started = False\<rparr> = (res, nk, w)"
      by (cases "bk_ReadPayload (client_backend envs) payload_write ?i offset limit (n, k) \<lparr>pw_Response = r, pw_started = False\<rparr>")
    obtain k' where client: "client_ReadPayload (Some payload_write) (envs n) ?i offset limit k \<lparr>pw_Response = r, pw_started = False\<rparr> = (res, k', w)"
      and str: "streaming r w"
      by (rule payload_read [OF run sent])
    show ?thesis
    proof (cases res)
      case (Inr m)
      with assms(1) True q run have "r' = payload_trailers m (pw_Response (commit w))" by (simp add: http_payload_def)
      with complete_after [OF assms(2) str, of m] q client Inr show ?thesis by (intro disjI2 exI conjI) auto
    next
      case (Inl e)
      show ?thesis
      proof (cases "pw_started w")
        case True
        with assms(1) \<open>onlyQueryKeys _ _ \<and> _\<close> q run Inl have "r' = header_set ''X-Payload-Error'' ''stream_error'' (pw_Response w)"
          by (simp add: http_payload_def)
        with truncated_after [OF assms(2) str True] q client Inl show ?thesis by (intro disjI2 exI conjI) auto
      next
        case False
        with str have "pw_Response w = r" by (simp add: streaming_def)
        with assms(1) \<open>onlyQueryKeys _ _ \<and> _\<close> q run Inl False
        have "r' = http_error 404 ''not_found'' r \<or> r' = http_error 503 ''unavailable'' r"
          by (auto simp: http_payload_def payloadError_def split: option.splits if_splits)
        with err [of 404 "''not_found''"] err [of 503 "''unavailable''"] show ?thesis by auto
      qed
    qed
  qed
qed

lemma token_clean:
  assumes "well_formed_token t"
  shows "\<not> contains_any t [CHR '' '', CHR 0x09, CHR 0x0D, CHR 0x0A]" and "t \<noteq> ''''"
  using well_formed_token_facts(1,2) [OF assms] by auto


section \<open>Serving a stored payload\<close>

text \<open>
  C38: when the daemon holds the evidence and answers, and nothing fails, an admitted payload request is answered with exactly the
  part asked for, for every segmentation of the daemon's answer, and the trailers give the size and the hash of the
  whole evidence.
\<close>

theorem http_payload_served:
  assumes "admitted s rq" and "well_formed_token (hs_Token s)" and "payload_request rq"
    and "set (map fst (hq_Query rq)) \<subseteq> {''offset'', ''limit''}"
    and "uintQuery (hq_Query rq) ''offset'' = Some offset" and "uintQuery (hq_Query rq) ''limit'' = Some limit"
    and "payload_id (hq_Path rq) = i" and "i \<noteq> ''''" and "CHR ''/'' \<notin> set i" and "is_text i" and "length i \<le> 50000"
    and "length data \<le> unat maxInt"
    and "env_gate (envs n) = None" and "env_ctx (envs n) = None" and "env_random (envs n) = Inr rnd" and "length rnd = 16"
    and "year_0 \<le> instant (env_now (envs n))" and "instant (env_now (envs n)) < year_10000"
    and "\<not> kl_closed k" and "kl_conn k = Some \<lparr>wire_in = reader_of cs, wire_out = w0\<rparr>" and "plan w0 = []"
    and "concat cs = payload_answer (hex_encode rnd) i offset limit (of_nat (length data)) data @ rest"
  shows "\<exists>c' r. ServeHTTP s (client_backend envs) rq (n, k) (fresh_response []) = (c', r)
    \<and> response_body (finished r) = slice (unat offset) (unat limit) data
    \<and> complete_payload \<lparr>pm_EventID = i, pm_TotalSize = of_nat (length data), pm_SHA256 = sha256_hex data, pm_Offset = offset, pm_Limit = limit,
           pm_BytesWritten = payload_length (of_nat (length data)) offset limit\<rparr> (finished r)"
proof -
  let ?r = "base_headers (fresh_response [])" and ?k = "hex_encode rnd"
  let ?w = "\<lparr>pw_Response = base_headers (fresh_response []), pw_started = False\<rparr>"
  let ?m = "\<lparr>pm_EventID = i, pm_TotalSize = of_nat (length data), pm_SHA256 = sha256_hex data, pm_Offset = offset, pm_Limit = limit,
           pm_BytesWritten = payload_length (of_nat (length data)) offset limit\<rparr>"
  have id: "requestID (envs n) = Inr ?k" using assms(15) by (simp add: requestID_def)
  have key: "is_text ?k" "length ?k \<le> 10000" using assms(16) by simp_all
  have open_: "plan (rp_Body (pw_Response ?w)) = []" "written ?w = []" by (simp_all add: base_headers_def fresh_response_def response_body_def)
  obtain v where v: "request_json (payload_request_of (envs n) ?k i offset limit) = Some v" "length (json_text v) \<le> MaxControlFrameLength"
    by (rule payload_request_fits [OF assms(10,11) key assms(17,18)])
  obtain k' w where run: "client_ReadPayload (Some payload_write) (envs n) i offset limit k ?w = (Inr ?m, k', w)"
    and part: "written w = slice (unat offset) (unat limit) data"
    by (rule open_payload_stream.payload_received [OF assms(13,14) id key assms(10,8,11) v assms(12) assms(19-21) open_(1) assms(22)])
      (use open_(2) in simp)
  have bk: "bk_ReadPayload (client_backend envs) payload_write i offset limit (n, k) ?w = (Inr ?m, (n + 1, k'), w)"
    using run by (simp add: backend_ReadPayload)
  have str: "streaming ?r w" by (rule payload_read [OF bk plain_fields(1) [OF base_plain]])
  have keys: "onlyQueryKeys (hq_Query rq) [''offset'', ''limit'']"
    using assms(4) by (auto simp: onlyQueryKeys_def list_all_iff)
  have "http_payload (client_backend envs) rq (n, k) ?r = ((n + 1, k'), payload_trailers ?m (pw_Response (commit w)))"
    unfolding http_payload_def Let_def assms(7) using keys assms(5,6,8,9) bk by simp
  with complete_after [OF base_plain str, of ?m] part show ?thesis
    unfolding ServeHTTP_admission(1) [OF token_clean [OF assms(2)] assms(1)] payload_routed [OF assms(3)] by auto
qed

section \<open>The door\<close>

text \<open>The address that is listened at is a literal that the resolver has called a loopback address.\<close>

definition loopback_only :: "net_env \<Rightarrow> string \<Rightarrow> string \<Rightarrow> bool" where
  "loopback_only env configured listen \<longleftrightarrow>
     (\<exists>host port. split_host_port configured = Some (host, port)
        \<and> (listen = configured \<and> ne_ParseAddr env host = Some True
           \<or> (\<exists>ip ips. ne_LookupIP env host = Inr (ip # ips) \<and> (\<forall>a \<in> set (ip # ips). snd a) \<and> listen = join_host_port (fst ip) port)))"

lemma resolve_loopback: "resolveLoopbackListen env a = Inr listen \<Longrightarrow> loopback_only env a listen"
  by (auto simp: resolveLoopbackListen_def loopback_only_def list_all_iff split: option.splits prod.splits if_splits sum.splits list.splits)

lemma started_server:
  assumes "http_New env True token options = Inr s0" and "http_Start env s0 = (None, s)"
  shows "hs_Token s = token"
    and "\<exists>address. hs_Listener s = Some address \<and> ne_Listen env (ho_Listen (hs_Options s)) = Inr address"
    and "loopback_only env (if ho_Listen options = '''' then ''127.0.0.1:0'' else ho_Listen options) (ho_Listen (hs_Options s))"
  using assms
  by (auto simp: http_New_def http_Start_def Let_def split: if_splits sum.splits intro: resolve_loopback)

text \<open>
  C36: a server that \<open>New\<close> made with a token of the runtime directory and that \<open>Start\<close> has started listens on a loopback address only.  A request
  reaches a route, and with it the backend, exactly when it is admitted: it asks for the very host and port that is
  listened at, has no Origin header, no body, no token in its query, and exactly one Authorization
  header, with exactly the token.  Any other is refused with the status and the JSON body of one of
  three errors, and the backend is not called.
\<close>

theorem http_guard:
  assumes "well_formed_token token" and "http_New env True token options = Inr s0" and "http_Start env s0 = (None, s)"
  shows "hs_Token s = token
    \<and> (\<exists>listen address. hs_Listener s = Some address \<and> ne_Listen env listen = Inr address
         \<and> loopback_only env (if ho_Listen options = '''' then ''127.0.0.1:0'' else ho_Listen options) listen)
    \<and> (admitted s rq \<longrightarrow> ServeHTTP s bk rq c (fresh_response ps) = http_route bk rq c (base_headers (fresh_response ps)))
    \<and> (\<not> admitted s rq \<longrightarrow> (\<exists>(status, code) \<in> set refusals. \<exists>r. ServeHTTP s bk rq c (fresh_response ps) = (c, r)
         \<and> is_error status code (base_headers (fresh_response ps)) (finished r)))"
proof -
  note s = started_server [OF assms(2,3)]
  note clean = token_clean [OF assms(1), folded s(1)]
  have "\<exists>(status, code) \<in> set refusals. \<exists>r. ServeHTTP s bk rq c (fresh_response ps) = (c, r)
         \<and> is_error status code (base_headers (fresh_response ps)) (finished r)" if "\<not> admitted s rq"
    using ServeHTTP_admission(2) [OF clean that, of bk c "fresh_response ps"] http_error_is [OF plain_fields(1) [OF base_plain [of ps]]]
    by fast
  moreover have "\<exists>listen address. hs_Listener s = Some address \<and> ne_Listen env listen = Inr address
      \<and> loopback_only env (if ho_Listen options = '''' then ''127.0.0.1:0'' else ho_Listen options) listen"
    using s(2,3) by blast
  ultimately show ?thesis using s(1) ServeHTTP_admission(1) [OF clean] by (intro conjI impI) assumption+
qed

text \<open>The prefix and the suffix of a payload path may overlap: this path names the event \<open>payload\<close>.\<close>

lemma payload_path_overlap:
  "hq_Method rq = ''GET'' \<Longrightarrow> hq_Path rq = ''/v1/events/payload'' \<Longrightarrow> payload_request rq \<and> payload_id (hq_Path rq) = ''payload''"
  unfolding payload_request_def payload_id_def trim_prefix_def trim_suffix_def by (simp add: has_prefix_def has_suffix_def)

section \<open>Samples\<close>

definition sample_token :: string where
  "sample_token = base64_raw_url (replicate 32 0)"

lemma sample_token_ok: "well_formed_token sample_token"
  unfolding sample_token_def by (rule well_formed_created) simp

definition sample_net :: net_env where
  "sample_net = \<lparr>ne_ParseAddr = (\<lambda>h. if h = ''127.0.0.1'' then Some True else None), ne_LookupIP = (\<lambda>_. Inl EOF),
     ne_Listen = (\<lambda>_. Inr ''127.0.0.1:8080''), ne_Shutdown = None\<rparr>"

definition sample_http_options :: http_options where
  "sample_http_options = \<lparr>ho_Listen = '''', ho_ReadHeaderTimeout = 0, ho_ReadTimeout = 0, ho_WriteTimeout = 0, ho_IdleTimeout = 0, ho_MaxHeaderBytes = 0\<rparr>"

definition sample_get :: http_request where
  "sample_get = \<lparr>hq_Method = ''GET'', hq_Path = ''/v1/events/e1/payload'', hq_Query = [(''offset'', [''1'']), (''limit'', [''5''])],
     hq_Header = [(''Authorization'', [''Bearer '' @ sample_token])], hq_Host = ''127.0.0.1:8080'', hq_ContentLength = 0, hq_HasBody = True\<rparr>"

lemma sample_addresses: "split_host_port ''127.0.0.1:0'' = Some (''127.0.0.1'', ''0'')" "split_host_port ''127.0.0.1:8080'' = Some (''127.0.0.1'', ''8080'')"
  by code_simp+

lemma sample_started:
  obtains s0 s where "http_New sample_net True sample_token sample_http_options = Inr s0" and "http_Start sample_net s0 = (None, s)"
    and "hs_Token s = sample_token" and "hs_Listener s = Some ''127.0.0.1:8080''"
proof -
  have "resolveLoopbackListen sample_net ''127.0.0.1:0'' = Inr ''127.0.0.1:0''"
    by (simp add: resolveLoopbackListen_def sample_addresses sample_net_def)
  then show ?thesis
    using that well_formed_token_facts [OF sample_token_ok]
    by (simp add: http_New_def http_Start_def sample_http_options_def sample_net_def)
qed

lemma sample_names: "equal_fold ''Authorization'' ''Origin'' = False" "canonical_key ''Authorization'' = ''Authorization''"
  by code_simp+

lemma sample_admitted:
  assumes "hs_Token s = sample_token" and "hs_Listener s = Some ''127.0.0.1:8080''"
  shows "admitted s sample_get" and "\<not> admitted s (sample_get\<lparr>hq_Header := []\<rparr>)"
  using assms by (simp_all add: admitted_def sample_get_def sample_addresses sample_names header_values_def)

lemma sample_payload: "payload_request sample_get" "payload_id (hq_Path sample_get) = ''e1''"
  "uintQuery (hq_Query sample_get) ''offset'' = Some 1" "uintQuery (hq_Query sample_get) ''limit'' = Some 5"
proof -
  show "payload_request sample_get" unfolding payload_request_def by (simp add: sample_get_def has_prefix_def has_suffix_def)
  show "payload_id (hq_Path sample_get) = ''e1''"
    unfolding payload_id_def trim_prefix_def trim_suffix_def by (simp add: sample_get_def has_prefix_def has_suffix_def)
  show "uintQuery (hq_Query sample_get) ''offset'' = Some 1" "uintQuery (hq_Query sample_get) ''limit'' = Some 5"
    by (simp_all add: uintQuery_def singleQueryValue_def sample_get_def parse_uint_def parse_decimal_def)
qed

theorem http_guard_witness:
  "\<exists>s. hs_Token s = sample_token \<and> admitted s sample_get
     \<and> (\<exists>(status, code) \<in> set refusals. \<exists>r. ServeHTTP s (client_backend (\<lambda>_. sample_env)) (sample_get\<lparr>hq_Header := []\<rparr>) (0, sample_client []) (fresh_response [])
          = ((0, sample_client []), r) \<and> is_error status code (base_headers (fresh_response [])) (finished r))"
proof -
  obtain s0 s where s: "http_New sample_net True sample_token sample_http_options = Inr s0" "http_Start sample_net s0 = (None, s)"
    "hs_Token s = sample_token" "hs_Listener s = Some ''127.0.0.1:8080''" by (rule sample_started)
  note out = http_guard [OF sample_token_ok s(1,2), THEN conjunct2, THEN conjunct2, THEN conjunct2, THEN mp, OF sample_admitted(2) [OF s(3,4)]]
  show ?thesis by (rule exI [of _ s], intro conjI s(3) sample_admitted(1) [OF s(3,4)]) (rule out)
qed

theorem http_payload_served_witness:
  "\<exists>s cs c' r m. ServeHTTP s (client_backend (\<lambda>_. sample_env)) sample_get (0, sample_client cs) (fresh_response []) = (c', r)
     \<and> response_body (finished r) = [2] \<and> complete_payload m (finished r) \<and> pm_TotalSize m = 2"
proof -
  obtain s0 s where "http_New sample_net True sample_token sample_http_options = Inr s0" "http_Start sample_net s0 = (None, s)"
    and s: "hs_Token s = sample_token" "hs_Listener s = Some ''127.0.0.1:8080''" by (rule sample_started)
  note adm = sample_admitted(1) [OF s]
  have tok: "well_formed_token (hs_Token s)" unfolding s(1) by (rule sample_token_ok)
  have q: "set (map fst (hq_Query sample_get)) \<subseteq> {''offset'', ''limit''}" by (simp add: sample_get_def)
  have i: "''e1'' \<noteq> ''''" "CHR ''/'' \<notin> set ''e1''" "is_text ''e1''" "length ''e1'' \<le> 50000" "length [1, 2 :: byte] \<le> unat maxInt"
    by (simp_all add: maxInt_def ascii_text)
  have part: "slice (unat (1 :: u64)) (unat (5 :: u64)) [1, 2 :: byte] = [2]" by (simp add: slice_def)
  let ?cs = "[payload_answer (hex_encode (replicate 16 0)) ''e1'' 1 5 (of_nat (length [1, 2 :: byte])) [1, 2]]"
  have cs: "concat ?cs = payload_answer (hex_encode (replicate 16 0)) ''e1'' 1 5 (of_nat (length [1, 2 :: byte])) [1, 2] @ []" by simp
  let ?m = "\<lparr>pm_EventID = ''e1'', pm_TotalSize = of_nat (length [1, 2 :: byte]), pm_SHA256 = sha256_hex [1, 2], pm_Offset = 1, pm_Limit = 5,
           pm_BytesWritten = payload_length (of_nat (length [1, 2 :: byte])) 1 5\<rparr>"
  have sink: "plan open_sink = []" by simp
  obtain c' r where run: "ServeHTTP s (client_backend (\<lambda>_. sample_env)) sample_get (0, sample_client ?cs) (fresh_response []) = (c', r)"
    and body: "response_body (finished r) = [2]" and complete: "complete_payload ?m (finished r)"
    using http_payload_served [where n = 0, OF adm tok sample_payload(1) q sample_payload(3,4,2) i sample_env_facts sample_client_fields sink cs]
    unfolding part by (elim exE conjE)
  have "pm_TotalSize ?m = 2" by simp
  with run body complete show ?thesis by blast
qed


end
