(* ===== verification/LockProps.thy ===== *)
theory LockProps
  imports TokenProps Times
begin

text \<open>
  The lock of the daemon: whatever other processes do that keep to the same program, at most one
  holds it, and only its holder writes the file behind it.
\<close>

section \<open>What a process may change\<close>

abbreviation lock_name :: "runtime_paths \<Rightarrow> string" where
  "lock_name p \<equiv> path_base (rp_Lock p)"

definition lock_data :: "runtime_paths \<Rightarrow> fs \<Rightarrow> bytes option" where
  "lock_data p x = map_option (\<lambda>k. nd_data (fs_nodes x k)) (fs_names x (lock_name p))"

text \<open>The open files of these processes hold the lock.\<close>

definition held_by :: "runtime_paths \<Rightarrow> int set \<Rightarrow> fs \<Rightarrow> bool" where
  "held_by p S x \<longleftrightarrow> (\<exists>k f. fs_names x (lock_name p) = Some k \<and> fs_locks x k = Some f \<and> fst f \<in> S)"

text \<open>
  Processes in \<open>S\<close> keep the entry of the lock file, take and release only their own locks, and write
  the file only when no process outside \<open>S\<close> holds the lock.
\<close>

definition lock_changes :: "runtime_paths \<Rightarrow> int set \<Rightarrow> fs \<Rightarrow> fs \<Rightarrow> bool" where
  "lock_changes p S x y \<longleftrightarrow>
     (\<forall>k. fs_names x (lock_name p) = Some k \<longrightarrow> fs_names y (lock_name p) = Some k)
     \<and> (\<forall>k f. fst f \<notin> S \<longrightarrow> (fs_locks x k = Some f) = (fs_locks y k = Some f))
     \<and> (held_by p (- S) x \<longrightarrow> lock_data p y = lock_data p x)"

lemma lock_changes_lock: "lock_changes p S x y \<Longrightarrow> fst f \<notin> S \<Longrightarrow> (fs_locks x k = Some f) = (fs_locks y k = Some f)"
  unfolding lock_changes_def by blast

lemma lock_changes_name: "lock_changes p S x y \<Longrightarrow> fs_names x (lock_name p) = Some k \<Longrightarrow> fs_names y (lock_name p) = Some k"
  unfolding lock_changes_def by blast

lemma lock_changes_mono: "lock_changes p S x y \<Longrightarrow> S \<subseteq> T \<Longrightarrow> lock_changes p T x y"
  unfolding lock_changes_def held_by_def by blast

lemma lock_changes_same:
  assumes "fs_locks y = fs_locks x" and "fs_names y = fs_names x" and "\<And>k. nd_data (fs_nodes y k) = nd_data (fs_nodes x k)"
  shows "lock_changes p S x y"
  using assms by (simp add: lock_changes_def lock_data_def)

lemma lock_changes_refl [simp]: "lock_changes p S x x"
  by (rule lock_changes_same) simp_all

interpretation locking: interference "lock_changes p (- {pid})" "lock_changes p {pid}" "\<lambda>_. True" UNIV pid for p pid .

section \<open>Assertions\<close>

definition no_locks :: "int \<Rightarrow> fs \<Rightarrow> bool" where
  "no_locks pid x \<longleftrightarrow> (\<forall>k f. fs_locks x k = Some f \<longrightarrow> fst f \<noteq> pid)"

definition lock_open :: "runtime_paths \<Rightarrow> open_file \<Rightarrow> fs \<Rightarrow> bool" where
  "lock_open p f x \<longleftrightarrow> fs_names x (lock_name p) = Some (fst f)"

definition holds_lock :: "runtime_paths \<Rightarrow> open_file \<Rightarrow> fs \<Rightarrow> bool" where
  "holds_lock p f x \<longleftrightarrow> lock_open p f x \<and> fs_locks x (fst f) = Some (snd f)"

text \<open>It is the process's only lock.\<close>

definition only_lock :: "runtime_paths \<Rightarrow> open_file \<Rightarrow> fs \<Rightarrow> bool" where
  "only_lock p f x \<longleftrightarrow> holds_lock p f x \<and> (\<forall>k g. fs_locks x k = Some g \<longrightarrow> fst g = fst (snd f) \<longrightarrow> k = fst f \<and> g = snd f)"

lemma holds_lock_unique: "holds_lock p f x \<Longrightarrow> holds_lock p g x \<Longrightarrow> f = g"
  by (auto simp: holds_lock_def lock_open_def intro: prod_eqI)

lemma no_locks_stays: "no_locks pid x \<Longrightarrow> lock_changes p (- {pid}) x y \<Longrightarrow> no_locks pid y"
  unfolding no_locks_def lock_changes_def by blast

lemma lock_open_stays: "lock_open p f x \<Longrightarrow> lock_changes p S x y \<Longrightarrow> lock_open p f y"
  by (simp add: lock_open_def lock_changes_def)

lemma holds_lock_stays: "holds_lock p f x \<Longrightarrow> lock_changes p S x y \<Longrightarrow> fst (snd f) \<notin> S \<Longrightarrow> holds_lock p f y"
  using lock_changes_lock [of p S x y "snd f" "fst f"] lock_changes_name [of p S x y "fst f"]
  by (simp add: holds_lock_def lock_open_def)

lemma lock_data_stays:
  assumes "holds_lock p f x" and "lock_changes p S x y" and "fst (snd f) \<notin> S"
  shows "lock_data p y = lock_data p x"
proof -
  have "held_by p (- S) x" using assms(1,3) unfolding held_by_def holds_lock_def lock_open_def by blast
  with assms(2) show ?thesis by (simp add: lock_changes_def)
qed

lemma only_lock_stays:
  assumes "only_lock p f x" and "lock_changes p (- {pid}) x y" and "fst (snd f) = pid"
  shows "only_lock p f y"
proof -
  have "holds_lock p f y" by (rule holds_lock_stays [OF _ assms(2)]) (use assms(1,3) in \<open>simp_all add: only_lock_def\<close>)
  moreover have "fst g = pid \<Longrightarrow> (fs_locks x k = Some g) = (fs_locks y k = Some g)" for k g
    using lock_changes_lock [OF assms(2), of g k] by simp
  ultimately show ?thesis using assms(1,3) unfolding only_lock_def by blast
qed

section \<open>Calls without a lock\<close>

lemma stable_no_locks: "locking.stable p pid (no_locks pid)"
  unfolding locking.stable_def using no_locks_stays by blast

lemma idle_call:
  assumes "\<And>n x. lock_changes p {pid} x (snd (f n x)) \<and> fs_locks (snd (f n x)) = fs_locks x"
  shows "locking.triple p pid (no_locks pid) (syscall f) (\<lambda>_. no_locks pid) (\<lambda>_. no_locks pid)"
  by (rule locking.triple_syscall [OF stable_no_locks]) (use assms in \<open>auto simp: no_locks_def split: sum.split\<close>)

lemma idle_calls:
  "locking.triple p pid (no_locks pid) (sys_mkdirall m) (\<lambda>_. no_locks pid) (\<lambda>_. no_locks pid)"
  "locking.triple p pid (no_locks pid) sys_open_root (\<lambda>_. no_locks pid) (\<lambda>_. no_locks pid)"
  "locking.triple p pid (no_locks pid) sys_fstat_root (\<lambda>_. no_locks pid) (\<lambda>_. no_locks pid)"
  "locking.triple p pid (no_locks pid) (sys_fchmod_root m) (\<lambda>_. no_locks pid) (\<lambda>_. no_locks pid)"
  unfolding sys_mkdirall_def sys_open_root_def sys_fstat_root_def sys_fchmod_root_def
  by (rule idle_call; auto simp: sys_error_def intro!: lock_changes_same split: option.split)+

lemma openRuntimeDirectory_idle:
  "locking.triple p pid (no_locks pid) openRuntimeDirectory (\<lambda>_. no_locks pid) (\<lambda>_. no_locks pid)"
  unfolding openRuntimeDirectory_def
  by (intro locking.triple_gbind [OF locking.triple_gwrap [OF idle_calls(2)]] locking.triple_gbind [OF locking.triple_gwrap [OF idle_calls(3)]]
      locking.triple_if locking.triple_gthrow locking.triple_gret) simp_all

lemma EnsureRuntimeDirectory_idle:
  "locking.triple p pid (no_locks pid) (EnsureRuntimeDirectory p') (\<lambda>_. no_locks pid) (\<lambda>_. no_locks pid)"
  unfolding EnsureRuntimeDirectory_def
  by (intro locking.triple_if locking.triple_gthrow locking.triple_gbind [OF locking.triple_gwrap [OF idle_calls(1)]]
      locking.triple_gbind [OF openRuntimeDirectory_idle] locking.triple_gwrap idle_calls(4)) simp_all

section \<open>Taking and leaving the lock\<close>

definition opened :: "runtime_paths \<Rightarrow> int \<Rightarrow> open_file \<Rightarrow> fs \<Rightarrow> bool" where
  "opened p pid f x \<longleftrightarrow> fst (snd f) = pid \<and> lock_open p f x \<and> no_locks pid x"

lemma stable_opened: "locking.stable p pid (opened p pid f)"
  unfolding locking.stable_def opened_def using no_locks_stays lock_open_stays by blast

lemma open_lock:
  "locking.triple p pid (no_locks pid) (sys_openat (lock_name p) True True False mode) (opened p pid) (\<lambda>_. no_locks pid)"
  unfolding sys_openat_def
proof (rule locking.triple_with_pid, rule locking.triple_syscall [OF stable_no_locks])
  fix n :: nat and x assume x: "no_locks pid x"
  let ?f = "\<lambda>x. case fs_names x (lock_name p) of
       None \<Rightarrow>
         if True
           then (Inr (fs_next x, pid, fs_opens x),
                 x\<lparr>fs_names := (fs_names x)(lock_name p \<mapsto> fs_next x),
                   fs_nodes := (fs_nodes x)(fs_next x := \<lparr>nd_kind = RegularFile, nd_data = [], nd_mode = mode,
                                  nd_id = nd_id (fs_nodes x (fs_next x))\<rparr>),
                   fs_next := fs_next x + 1, fs_opens := fs_opens x + 1\<rparr>)
         else sys_error ''ENOENT'' x
     | Some k \<Rightarrow>
         if True \<and> False then sys_error ''EEXIST'' x
         else if nd_kind (fs_nodes x k) = SymbolicLink then sys_error ''ELOOP'' x
         else if nd_kind (fs_nodes x k) = SocketNode then sys_error ''ENXIO'' x
         else if nd_kind (fs_nodes x k) = DirectoryNode \<and> (True \<or> True) then sys_error ''EISDIR'' x
         else (Inr (k, pid, fs_opens x), x\<lparr>fs_opens := fs_opens x + 1\<rparr>)"
  show "lock_changes p {pid} x (snd (?f x)) \<and> (case fst (?f x) of Inl e \<Rightarrow> no_locks pid (snd (?f x)) | Inr f \<Rightarrow> opened p pid f (snd (?f x)))"
  proof (cases "fs_names x (lock_name p)")
    case None
    with x show ?thesis
      by (simp add: opened_def lock_open_def no_locks_def lock_changes_def held_by_def)
  next
    case (Some k)
    with x show ?thesis
      by (simp add: opened_def lock_open_def no_locks_def lock_changes_def lock_data_def sys_error_def)
  qed
qed simp

lemma lock_changes_locks:
  assumes "\<And>k g. fst g \<notin> S \<Longrightarrow> (fs_locks x k = Some g) = (l k = Some g)"
  shows "lock_changes p S x (x\<lparr>fs_locks := l\<rparr>)"
proof -
  have "lock_data p (x\<lparr>fs_locks := l\<rparr>) = lock_data p x" by (simp add: lock_data_def)
  with assms show ?thesis unfolding lock_changes_def by simp
qed

lemma lock_taken:
  assumes "opened p pid f x" and "fs_locks x (fst f) = None"
  shows "lock_changes p {pid} x (x\<lparr>fs_locks := (fs_locks x)(fst f \<mapsto> snd f)\<rparr>)"
    and "fst (snd f) = pid \<and> only_lock p f (x\<lparr>fs_locks := (fs_locks x)(fst f \<mapsto> snd f)\<rparr>)"
proof -
  have x: "fst (snd f) = pid" "fs_names x (lock_name p) = Some (fst f)" "\<And>k g. fs_locks x k = Some g \<Longrightarrow> fst g \<noteq> pid"
    using assms(1) unfolding opened_def lock_open_def no_locks_def by blast+
  show "lock_changes p {pid} x (x\<lparr>fs_locks := (fs_locks x)(fst f \<mapsto> snd f)\<rparr>)"
  proof (rule lock_changes_locks)
    fix k and g :: "int \<times> nat" assume "fst g \<notin> {pid}"
    with x(1) have "g \<noteq> snd f" by blast
    with assms(2) show "(fs_locks x k = Some g) = (((fs_locks x)(fst f \<mapsto> snd f)) k = Some g)"
      by (cases "k = fst f") simp_all
  qed
  have only: "((fs_locks x)(fst f \<mapsto> snd f)) k = Some g \<Longrightarrow> fst g = fst (snd f) \<Longrightarrow> k = fst f \<and> g = snd f" for k g
    using x(1) x(3) [of k g] by (cases "k = fst f") simp_all
  have "holds_lock p f (x\<lparr>fs_locks := (fs_locks x)(fst f \<mapsto> snd f)\<rparr>)"
    using x(2) by (simp add: holds_lock_def lock_open_def)
  moreover have "fs_locks (x\<lparr>fs_locks := (fs_locks x)(fst f \<mapsto> snd f)\<rparr>) = (fs_locks x)(fst f \<mapsto> snd f)" by simp
  ultimately show "fst (snd f) = pid \<and> only_lock p f (x\<lparr>fs_locks := (fs_locks x)(fst f \<mapsto> snd f)\<rparr>)"
    using only x(1) unfolding only_lock_def by presburger
qed

lemma take_lock:
  "locking.triple p pid (opened p pid f) (sys_flock_exclusive f) (\<lambda>_ x. fst (snd f) = pid \<and> only_lock p f x) (\<lambda>_. no_locks pid)"
  unfolding sys_flock_exclusive_def
proof (rule locking.triple_syscall [OF stable_opened])
  fix n :: nat and x assume x: "opened p pid f x"
  have "fs_locks x (fst f) \<noteq> Some (snd f)" "no_locks pid x" using x unfolding opened_def no_locks_def by blast+
  then show "lock_changes p {pid} x (snd (if fs_locks x (fst f) = None \<or> fs_locks x (fst f) = Some (snd f)
        then (Inr (), x\<lparr>fs_locks := (fs_locks x)(fst f \<mapsto> snd f)\<rparr>) else sys_error ''EWOULDBLOCK'' x)) \<and>
      (case fst (if fs_locks x (fst f) = None \<or> fs_locks x (fst f) = Some (snd f)
        then (Inr (), x\<lparr>fs_locks := (fs_locks x)(fst f \<mapsto> snd f)\<rparr>) else sys_error ''EWOULDBLOCK'' x) of
         Inl e \<Rightarrow> no_locks pid (snd (if fs_locks x (fst f) = None \<or> fs_locks x (fst f) = Some (snd f)
           then (Inr (), x\<lparr>fs_locks := (fs_locks x)(fst f \<mapsto> snd f)\<rparr>) else sys_error ''EWOULDBLOCK'' x))
       | Inr a \<Rightarrow> fst (snd f) = pid \<and> only_lock p f (snd (if fs_locks x (fst f) = None \<or> fs_locks x (fst f) = Some (snd f)
           then (Inr (), x\<lparr>fs_locks := (fs_locks x)(fst f \<mapsto> snd f)\<rparr>) else sys_error ''EWOULDBLOCK'' x)))"
    using lock_taken [OF x] by (cases "fs_locks x (fst f)") (simp_all add: sys_error_def)
qed (simp add: opened_def)

text \<open>The process holds the lock with this file, or no lock.\<close>

definition at_most :: "runtime_paths \<Rightarrow> int \<Rightarrow> open_file \<Rightarrow> fs \<Rightarrow> bool" where
  "at_most p pid f x \<longleftrightarrow> fst (snd f) = pid \<and> (\<forall>k g. fs_locks x k = Some g \<longrightarrow> fst g = pid \<longrightarrow> k = fst f \<and> g = snd f)"

lemma only_at_most: "fst (snd f) = pid \<and> only_lock p f x \<Longrightarrow> at_most p pid f x"
  by (auto simp: at_most_def only_lock_def)

lemma no_locks_at_most: "fst (snd f) = pid \<Longrightarrow> no_locks pid x \<Longrightarrow> at_most p pid f x"
  by (auto simp: at_most_def no_locks_def)

lemma stable_at_most: "locking.stable p pid (at_most p pid f)"
  unfolding locking.stable_def
proof (intro allI impI)
  fix x y assume *: "at_most p pid f x" "lock_changes p (- {pid}) x y"
  have "fst g = pid \<Longrightarrow> (fs_locks x k = Some g) = (fs_locks y k = Some g)" for k g
    using lock_changes_lock [OF *(2), of g k] by simp
  with *(1) show "at_most p pid f y" unfolding at_most_def by blast
qed

definition drop_lock :: "open_file \<Rightarrow> fs \<Rightarrow> fs" where
  "drop_lock f x = (if fs_locks x (fst f) = Some (snd f) then x\<lparr>fs_locks := (fs_locks x)(fst f := None)\<rparr> else x)"

lemma drop_lock_locks: "fs_locks (drop_lock f x) k = (if k = fst f \<and> fs_locks x k = Some (snd f) then None else fs_locks x k)"
  unfolding drop_lock_def by (cases "k = fst f") simp_all

lemma drop_lock_changes:
  assumes "fst (snd f) = pid"
  shows "lock_changes p {pid} x (drop_lock f x)"
proof (cases "fs_locks x (fst f) = Some (snd f)")
  case True
  have "lock_changes p {pid} x (x\<lparr>fs_locks := (fs_locks x)(fst f := None)\<rparr>)"
  proof (rule lock_changes_locks)
    fix k and g :: "int \<times> nat" assume "fst g \<notin> {pid}"
    with assms have "g \<noteq> snd f" by blast
    with True show "(fs_locks x k = Some g) = (((fs_locks x)(fst f := None)) k = Some g)"
      by (cases "k = fst f") simp_all
  qed
  with True show ?thesis by (simp add: drop_lock_def)
qed (simp add: drop_lock_def)

lemma drop_lock_at_most: "at_most p pid f x \<Longrightarrow> at_most p pid f (drop_lock f x)"
  unfolding at_most_def drop_lock_locks by (metis option.distinct(1))

lemma drop_lock_none:
  assumes "at_most p pid f x"
  shows "no_locks pid (drop_lock f x)"
  unfolding no_locks_def drop_lock_locks
proof (intro allI impI)
  fix k g assume k: "(if k = fst f \<and> fs_locks x k = Some (snd f) then None else fs_locks x k) = Some g"
  show "fst g \<noteq> pid"
  proof
    assume g: "fst g = pid"
    from k have "fs_locks x k = Some g" by (simp split: if_splits)
    with assms g have "k = fst f \<and> g = snd f" unfolding at_most_def by blast
    with k show False by (simp split: if_splits)
  qed
qed

lemma leave_lock:
  "locking.triple p pid (at_most p pid f) (sys_flock_unlock f) (\<lambda>_. at_most p pid f) (\<lambda>_. at_most p pid f)"
  "locking.triple p pid (at_most p pid f) (sys_close f) (\<lambda>_. no_locks pid) (\<lambda>_. no_locks pid)"
proof -
  have pid: "at_most p pid f x \<Longrightarrow> fst (snd f) = pid" for x by (simp add: at_most_def)
  show "locking.triple p pid (at_most p pid f) (sys_flock_unlock f) (\<lambda>_. at_most p pid f) (\<lambda>_. at_most p pid f)"
    unfolding sys_flock_unlock_def drop_lock_def [symmetric]
    by (rule locking.triple_syscall [OF stable_at_most]) (use drop_lock_changes [OF pid] drop_lock_at_most in simp_all)
  show "locking.triple p pid (at_most p pid f) (sys_close f) (\<lambda>_. no_locks pid) (\<lambda>_. no_locks pid)"
    unfolding sys_close_def drop_lock_def [symmetric]
    by (rule locking.triple_syscall_anyway [OF stable_at_most]) (use drop_lock_changes [OF pid] drop_lock_none in simp_all)
qed


section \<open>The file of the lock\<close>

definition owned :: "runtime_paths \<Rightarrow> int \<Rightarrow> open_file \<Rightarrow> (bytes option \<Rightarrow> bool) \<Rightarrow> fs \<Rightarrow> bool" where
  "owned p pid f D x \<longleftrightarrow> fst (snd f) = pid \<and> only_lock p f x \<and> D (lock_data p x)"

abbreviation owned_any :: "runtime_paths \<Rightarrow> int \<Rightarrow> open_file \<Rightarrow> fs \<Rightarrow> bool" where
  "owned_any p pid f \<equiv> owned p pid f (\<lambda>_. True)"

lemma owned_any: "owned p pid f D x \<Longrightarrow> owned_any p pid f x"
  by (simp add: owned_def)

lemma stable_owned: "locking.stable p pid (owned p pid f D)"
  unfolding locking.stable_def
proof (intro allI impI)
  fix x y assume *: "owned p pid f D x" "lock_changes p (- {pid}) x y"
  then have x: "fst (snd f) = pid" "only_lock p f x" "holds_lock p f x" "D (lock_data p x)"
    unfolding owned_def only_lock_def by blast+
  have "lock_data p y = lock_data p x" by (rule lock_data_stays [OF x(3) *(2)]) (simp add: x(1))
  with only_lock_stays [OF x(2) *(2) x(1)] x show "owned p pid f D y" by (simp add: owned_def)
qed

lemma owned_node:
  assumes "owned p pid f D x"
  shows "lock_changes p {pid} x (set_node (fst f) nd x)" and "owned p pid f ((=) (Some (nd_data nd))) (set_node (fst f) nd x)"
    and "D (Some (nd_data (fs_nodes x (fst f))))"
proof -
  have x: "fst (snd f) = pid" "only_lock p f x" "fs_names x (lock_name p) = Some (fst f)" "fs_locks x (fst f) = Some (snd f)"
    "D (lock_data p x)"
    using assms unfolding owned_def only_lock_def holds_lock_def lock_open_def by blast+
  have locks: "fs_locks (set_node (fst f) nd x) = fs_locks x" "fs_names (set_node (fst f) nd x) = fs_names x"
    by (simp_all add: set_node_def)
  have "\<not> held_by p (- {pid}) x" using x(1,3,4) unfolding held_by_def by auto
  then show "lock_changes p {pid} x (set_node (fst f) nd x)" unfolding lock_changes_def locks by simp
  have "only_lock p f (set_node (fst f) nd x)" using x(2) unfolding only_lock_def holds_lock_def lock_open_def locks .
  with x(1,3) show "owned p pid f ((=) (Some (nd_data nd))) (set_node (fst f) nd x)"
    by (simp add: owned_def lock_data_def set_node_def)
  from x(3,5) show "D (Some (nd_data (fs_nodes x (fst f))))" by (simp add: lock_data_def)
qed

lemma owned_calls:
  "locking.triple p pid (owned_any p pid f) (sys_fchmod f m) (\<lambda>_. owned_any p pid f) (\<lambda>_. owned_any p pid f)"
  "locking.triple p pid (owned_any p pid f) (sys_ftruncate f) (\<lambda>_. owned p pid f ((=) (Some []))) (\<lambda>_. owned_any p pid f)"
  "locking.triple p pid (owned p pid f D) (sys_seek_start f) (\<lambda>_. owned p pid f D) (\<lambda>_. owned_any p pid f)"
  unfolding sys_fchmod_def sys_ftruncate_def sys_seek_start_def
  subgoal
    by (rule locking.triple_syscall [OF stable_owned]) (auto intro: owned_node(1) owned_any [OF owned_node(2)])
  subgoal
    by (rule locking.triple_syscall [OF stable_owned])
      (auto simp: sys_error_def intro: owned_node(1) owned_node(2) [where nd = "nd\<lparr>nd_data := []\<rparr>" for nd, simplified])
  subgoal
    by (rule locking.triple_syscall [OF stable_owned]) (auto simp: sys_error_def intro: owned_any)
  done

lemma owned_write:
  "locking.triple p pid (owned p pid f ((=) (Some acc))) (sys_write f d) (\<lambda>n. owned p pid f ((=) (Some (acc @ take n d)))) (\<lambda>_. owned_any p pid f)"
  unfolding sys_write_def
proof (rule locking.triple_syscall [OF stable_owned])
  fix n x assume x: "owned p pid f ((=) (Some acc)) x"
  note node = owned_node(1,2) [OF x, of "(fs_nodes x (fst f))\<lparr>nd_data := acc @ take (min n (length d)) d\<rparr>"]
  have "nd_data (fs_nodes x (fst f)) = acc" using owned_node(3) [OF x] by simp
  with node(1,2) show "lock_changes p {pid} x (snd (let n = min n (length d); nd = fs_nodes x (fst f)
        in (Inr n, set_node (fst f) (nd\<lparr>nd_data := nd_data nd @ take n d\<rparr>) x))) \<and>
     (case fst (let n = min n (length d); nd = fs_nodes x (fst f)
        in (Inr n, set_node (fst f) (nd\<lparr>nd_data := nd_data nd @ take n d\<rparr>) x)) of
        Inl e \<Rightarrow> owned_any p pid f (snd (let n = min n (length d); nd = fs_nodes x (fst f)
          in (Inr n, set_node (fst f) (nd\<lparr>nd_data := nd_data nd @ take n d\<rparr>) x)))
      | Inr n' \<Rightarrow> owned p pid f ((=) (Some (acc @ take n' d))) (snd (let n = min n (length d); nd = fs_nodes x (fst f)
          in (Inr n, set_node (fst f) (nd\<lparr>nd_data := nd_data nd @ take n d\<rparr>) x))))"
    by (simp add: Let_def)
qed (simp add: owned_any)

lemma owned_write_all:
  "locking.triple p pid (owned p pid f ((=) (Some acc))) (write_metadata f d) (\<lambda>_. owned p pid f ((=) (Some (acc @ d)))) (\<lambda>_. owned_any p pid f)"
  unfolding locking.triple_def wp_def
proof (intro allI impI)
  fix w assume "locking.fair p pid w" "owned p pid f ((=) (Some acc)) (fs w)"
  then show "case write_metadata f d w of
      (Inl e, w') \<Rightarrow> locking.fair p pid w' \<and> owned_any p pid f (fs w')
    | (Inr a, w') \<Rightarrow> locking.fair p pid w' \<and> owned p pid f ((=) (Some (acc @ d))) (fs w')"
  proof (induction f d w arbitrary: acc rule: write_metadata.induct)
    case (1 f d w)
    obtain r w1 where run: "sys_write f d w = (r, w1)" by (cases "sys_write f d w")
    note step = locking.triple_run [OF owned_write 1(2,3) run]
    show ?case
    proof (cases "d = []")
      case True
      with 1(2,3) show ?thesis by (simp add: write_metadata.simps)
    next
      case False
      show ?thesis
      proof (cases r)
        case (Inl e)
        with False run step show ?thesis by (simp add: write_metadata.simps)
      next
        case (Inr n)
        with step have "locking.fair p pid w1" "owned p pid f ((=) (Some (acc @ take n d))) (fs w1)" by simp_all
        then have "case write_metadata f (drop n d) w1 of
            (Inl e, w') \<Rightarrow> locking.fair p pid w' \<and> owned_any p pid f (fs w')
          | (Inr a, w') \<Rightarrow> locking.fair p pid w' \<and> owned p pid f ((=) (Some (acc @ d))) (fs w')"
          using 1(1) [OF False run [symmetric] Inr, of "acc @ take n d"] by (simp only: append_assoc append_take_drop_id)
        with False run Inr show ?thesis by (simp add: write_metadata.simps [of f d])
      qed
    qed
  qed
qed


section \<open>The lock as a whole\<close>

text \<open>The line that names the process in the file of the lock.\<close>

definition names_owner :: "int \<Rightarrow> bytes option \<Rightarrow> bool" where
  "names_owner pid D \<longleftrightarrow> (\<exists>t token. D = Some (json_text (jobject
     [(''pid'', jint pid), (''acquired_at'', jstr t), (''owner_token'', jstr token)]) @ [10]))"

lemma owned_random:
  "locking.triple p pid (owned_any p pid f) randomOwnerToken (\<lambda>_. owned_any p pid f) (\<lambda>_. owned_any p pid f)"
  unfolding randomOwnerToken_def
  by (rule locking.triple_gbind [OF locking.triple_random [where Q = "\<lambda>_. owned_any p pid f"]]) (auto intro: locking.triple_gret)

lemma owned_metadata:
  "locking.triple p pid (owned p pid f ((=) (Some [])))
     (\<lambda>w. case lock_metadata owner w of
            None \<Rightarrow> (Inl (Wrap ''encode lock metadata'' json_error), w)
          | Some v \<Rightarrow> write_metadata f (json_text v @ [10]) w)
     (\<lambda>_. owned p pid f (names_owner pid)) (\<lambda>_. owned_any p pid f)"
  unfolding locking.triple_def wp_def
proof (intro allI impI)
  fix w assume w: "locking.fair p pid w" "owned p pid f ((=) (Some [])) (fs w)"
  show "case (case lock_metadata owner w of
            None \<Rightarrow> (Inl (Wrap ''encode lock metadata'' json_error), w)
          | Some v \<Rightarrow> write_metadata f (json_text v @ [10]) w) of
      (Inl e, w') \<Rightarrow> locking.fair p pid w' \<and> owned_any p pid f (fs w')
    | (Inr a, w') \<Rightarrow> locking.fair p pid w' \<and> owned p pid f (names_owner pid) (fs w')"
  proof (cases "lock_metadata owner w")
    case None
    with w owned_any [OF w(2)] show ?thesis by simp
  next
    case (Some v)
    have "own_pid w = pid" using w(1) by (simp add: locking.fair_def)
    with Some have named: "names_owner pid (Some (json_text v @ [10]))"
      by (auto simp: lock_metadata_def names_owner_def)
    obtain r w' where run: "write_metadata f (json_text v @ [10]) w = (r, w')" by (cases "write_metadata f (json_text v @ [10]) w")
    from locking.triple_run [OF owned_write_all w run] named Some run show ?thesis
      by (auto simp: owned_def split: sum.splits)
  qed
qed

lemma writeLockMetadata_triple:
  "locking.triple p pid (owned_any p pid f) (writeLockMetadata f) (\<lambda>_. owned p pid f (names_owner pid)) (\<lambda>_. owned_any p pid f)"
  unfolding writeLockMetadata_def
  by (intro locking.triple_gbind [OF locking.triple_gwrap [OF owned_random]]
      locking.triple_gbind [OF locking.triple_gwrap [OF owned_calls(1)]] locking.triple_gbind [OF locking.triple_gwrap [OF owned_calls(2)]]
      locking.triple_gbind [OF locking.triple_gwrap [OF owned_calls(3)]] owned_metadata)

lemma leave_triple:
  "locking.triple p pid (owned_any p pid f) (gtry (sys_flock_unlock f) (\<lambda>_. gtry (sys_close f) (\<lambda>_. gthrow err)))
     Q (\<lambda>_. no_locks pid)"
  by (rule locking.triple_pre [where P' = "at_most p pid f"],
      intro locking.triple_gtry [OF leave_lock(1)] locking.triple_gtry [OF leave_lock(2)] locking.triple_gthrow)
    (auto simp: owned_def intro: only_at_most)

lemma refused_triple:
  "locking.triple p pid (\<lambda>x. fst (snd f) = pid \<and> no_locks pid x) (gtry (sys_close f) (\<lambda>_. if b then gthrow e1 else gthrow e2))
     Q (\<lambda>_. no_locks pid)"
  by (rule locking.triple_pre [where P' = "at_most p pid f"],
      intro locking.triple_gtry [OF leave_lock(2)] locking.triple_if locking.triple_gthrow)
    (auto intro: no_locks_at_most)

lemma flock_step:
  "locking.triple p pid (opened p pid f) (sys_flock_exclusive f)
     (\<lambda>_. owned_any p pid f) (\<lambda>_ x. fst (snd f) = pid \<and> no_locks pid x)"
proof (cases "fst (snd f) = pid")
  case True
  show ?thesis by (rule locking.triple_post [OF take_lock]) (simp_all add: owned_def True)
next
  case False
  then show ?thesis by (simp add: opened_def locking.triple_def)
qed

lemma AcquireLock_triple:
  "locking.triple p pid (no_locks pid) (AcquireLock p) (\<lambda>f. owned p pid f (names_owner pid)) (\<lambda>_. no_locks pid)"
  unfolding AcquireLock_def
proof (intro locking.triple_gbind [OF EnsureRuntimeDirectory_idle] locking.triple_gbind [OF openRuntimeDirectory_idle]
    locking.triple_gbind [OF locking.triple_gwrap [OF open_lock]], rule locking.triple_gtry [OF flock_step], goal_cases)
  case (1 _ _ f _)
  have "locking.triple p pid (owned_any p pid f)
    (gtry (writeLockMetadata f) (\<lambda>r. case r of
       Inl err \<Rightarrow> gtry (sys_flock_unlock f) (\<lambda>_. gtry (sys_close f) (\<lambda>_. gthrow err)) | Inr _ \<Rightarrow> gret f))
    (\<lambda>f. owned p pid f (names_owner pid)) (\<lambda>_. no_locks pid)"
    by (rule locking.triple_gtry [OF writeLockMetadata_triple]) (auto intro: locking.triple_gret leave_triple)
  then show ?case by simp
next
  case (2 _ _ f e)
  show ?case using refused_triple [of p pid f] by (simp only: sum.case)
qed

lemma Release_triple:
  "locking.triple p pid (owned_any p pid f) (Release (Some \<lparr>il_file = f, il_released = False\<rparr>)) (\<lambda>_. no_locks pid) (\<lambda>_. no_locks pid)"
proof (rule locking.triple_pre [where P' = "at_most p pid f"])
  show "locking.triple p pid (at_most p pid f) (Release (Some \<lparr>il_file = f, il_released = False\<rparr>)) (\<lambda>_. no_locks pid) (\<lambda>_. no_locks pid)"
    unfolding Release_def option.case instance_lock.simps if_False
    by (intro locking.triple_gtry [OF leave_lock(1)] locking.triple_gtry [OF leave_lock(2)] locking.triple_gret)
qed (auto simp: owned_def intro: only_at_most)

lemma owned_for_ever:
  assumes "(lock_changes p (- {pid}))\<^sup>*\<^sup>* x y" and "owned p pid f D x"
  shows "owned p pid f D y"
  using assms(1)
proof (induction rule: rtranclp_induct)
  case base
  show ?case by (rule assms(2))
next
  case (step y z)
  with stable_owned show ?case unfolding locking.stable_def by blast
qed

lemma owned_exclusive: "owned p pid f D x \<Longrightarrow> holds_lock p f x \<and> (\<forall>g. holds_lock p g x \<longrightarrow> g = f) \<and> D (lock_data p x)"
  unfolding owned_def only_lock_def by (elim conjE, intro conjI allI impI holds_lock_unique)

lemma release_run:
  assumes "locking.fair p pid w" and "owned p pid f D (fs w)" and "Release (Some \<lparr>il_file = f, il_released = False\<rparr>) w = (q, v)"
  shows "no_locks pid (fs v) \<and> honest (lock_changes p {pid}) v"
proof -
  from locking.triple_run [OF Release_triple assms(1) owned_any [OF assms(2)] assms(3)]
  have "locking.fair p pid v \<and> no_locks pid (fs v)" by (cases q) simp_all
  then show ?thesis by (simp add: locking.fair_def)
qed

lemma lock_acquired:
  assumes "AcquireLock p w = (r, w')" and "history w = []"
    and "polite (lock_changes p (- {own_pid w})) w" and "no_locks (own_pid w) (fs w)"
  shows "locking.fair p (own_pid w) w'" and "r = Inl e \<Longrightarrow> no_locks (own_pid w) (fs w')"
    and "r = Inr f \<Longrightarrow> owned p (own_pid w) f (names_owner (own_pid w)) (fs w')"
proof -
  have fair: "locking.fair p (own_pid w) w" using assms(2,3) by (simp add: locking.fair_def honest_def)
  note run = locking.triple_run [OF AcquireLock_triple fair assms(4,1)]
  from run show "locking.fair p (own_pid w) w'" by (rule conjunct1)
  from run show "r = Inl e \<Longrightarrow> no_locks (own_pid w) (fs w')" "r = Inr f \<Longrightarrow> owned p (own_pid w) f (names_owner (own_pid w)) (fs w')"
    by simp_all
qed

text \<open>
  C34: while other processes change the directory between the calls as this very program does (they
  take and release only their own locks, keep the entry of the lock file, and write it only
  when no other process holds the lock), \<open>AcquireLock\<close> itself keeps to these rules.  When it fails, for
  whatever reason, the process holds no lock.  When it succeeds, the process holds the lock, no other open file
  does, and the file names this process; and this remains whatever the others do, until \<open>Release\<close>,
  which leaves the process without a lock even when its calls fail.
\<close>

theorem lock_exclusive:
  assumes "AcquireLock p w = (r, w')" and "history w = []"
    and "polite (lock_changes p (- {own_pid w})) w" and "no_locks (own_pid w) (fs w)"
  shows "honest (lock_changes p {own_pid w}) w'
    \<and> (\<forall>e. r = Inl e \<longrightarrow> no_locks (own_pid w) (fs w'))
    \<and> (\<forall>f. r = Inr f \<longrightarrow>
        (\<forall>x. (lock_changes p (- {own_pid w}))\<^sup>*\<^sup>* (fs w') x \<longrightarrow>
           holds_lock p f x \<and> (\<forall>g. holds_lock p g x \<longrightarrow> g = f) \<and> names_owner (own_pid w) (lock_data p x))
      \<and> (\<forall>q v. Release (Some \<lparr>il_file = f, il_released = False\<rparr>) w' = (q, v) \<longrightarrow>
           no_locks (own_pid w) (fs v) \<and> honest (lock_changes p {own_pid w}) v))"
  using lock_acquired [OF assms] owned_exclusive [OF owned_for_ever] release_run
  unfolding locking.fair_def by blast

lemma sample_lock_name: "path_base (rp_Lock sample_paths) = ''token-smith.lock''"
  by code_simp

lemma sample_clock: "time_text_of (UTC zero_time) \<noteq> None"
proof -
  have range: "year_0 \<le> instant (UTC zero_time)" "instant (UTC zero_time) < year_10000"
    by (simp_all add: zero_time_def UTC_def year_0_def year_10000_def)
  from decode_time_back [OF range] show ?thesis by blast
qed

lemma write_metadata_calm: "script w = [] \<Longrightarrow> \<exists>w1. write_metadata f d w = (Inr (), w1)"
proof (induction f d w rule: write_metadata.induct)
  case (1 f d w)
  show ?case
  proof (cases "d = []")
    case True
    then show ?thesis by (simp add: write_metadata.simps)
  next
    case False
    have "\<exists>n w1. sys_write f d w = (Inr n, w1) \<and> script w1 = []"
      using 1(2) by (simp add: sys_write_def syscall_def call_done_def Let_def)
    then obtain n w1 where run: "sys_write f d w = (Inr n, w1)" "script w1 = []" by blast
    from 1(1) [OF False run(1) [symmetric] refl run(2)] False run(1) show ?thesis by (simp add: write_metadata.simps [of f d])
  qed
qed

definition metadata_end :: "open_file \<Rightarrow> bytes \<Rightarrow> world \<Rightarrow> world" where
  "metadata_end f d w = snd (write_metadata f d w)"

lemma write_metadata_end:
  assumes "script w = []"
  shows "write_metadata f d w = (Inr (), metadata_end f d w)"
proof -
  obtain w1 where "write_metadata f d w = (Inr (), w1)" using write_metadata_calm [OF assms] by blast
  then show ?thesis by (simp add: metadata_end_def)
qed

lemma sample_acquire: "\<exists>w'. AcquireLock sample_paths sample_world = (Inr (0, 7, 0), w')"
proof -
  obtain t where t: "time_text_of (UTC zero_time) = Some t" using sample_clock by blast
  show ?thesis
    unfolding AcquireLock_def EnsureRuntimeDirectory_def openRuntimeDirectory_def sample_lock_name writeLockMetadata_def
    by (simp add: sample_root run_simps call_defs sys_openat_def sys_flock_exclusive_def sys_ftruncate_def sys_seek_start_def
        sample_world_def empty_fs_def lock_metadata_def t Let_def write_metadata_end)
qed

theorem lock_exclusive_witness:
  "\<exists>w'. AcquireLock sample_paths sample_world = (Inr (0, 7, 0), w')
     \<and> holds_lock sample_paths (0, 7, 0) (fs w') \<and> names_owner 7 (lock_data sample_paths (fs w'))"
proof -
  obtain w' where run: "AcquireLock sample_paths sample_world = (Inr (0, 7, 0), w')" using sample_acquire by blast
  have "history sample_world = []" "polite R sample_world" "no_locks (own_pid sample_world) (fs sample_world)" "own_pid sample_world = 7" for R
    by (simp_all add: sample_world_def empty_fs_def polite_def no_locks_def)
  with lock_exclusive [OF run] run show ?thesis by auto
qed

end
