(* ===== verification/SocketProps.thy ===== *)
theory SocketProps
  imports LockProps
begin

text \<open>
  The removal of a stale socket: whatever stands at the socket's path, nothing is lost but a socket
  that the caller expects, even when other processes replace the entry at the same time.
\<close>

section \<open>What the processes may change\<close>

abbreviation socket_name :: "runtime_paths \<Rightarrow> string" where
  "socket_name p \<equiv> path_base (rp_Socket p)"

definition quarantined :: "string \<Rightarrow> string \<Rightarrow> string" where
  "quarantined name token = ''.'' @ name @ ''.quarantine-'' @ token"

definition quarantine_names :: "string \<Rightarrow> (go_error + bytes) set \<Rightarrow> string set" where
  "quarantine_names name Z = {quarantined name (hex_encode (take 16 (d @ replicate 16 0))) |d. Inr d \<in> Z}"

lemma name_not_quarantined: "name \<notin> quarantine_names name Z"
proof
  assume "name \<in> quarantine_names name Z"
  then obtain t where "name = quarantined name t" by (auto simp: quarantine_names_def)
  then have "length name = length (quarantined name t)" by simp
  then show False by (simp add: quarantined_def)
qed

text \<open>
  The others leave the names in \<open>Q\<close> alone, and what kind of node stands behind them; with \<open>b\<close> they
  also do not create an entry at \<open>name\<close>.
\<close>

definition spares :: "bool \<Rightarrow> string \<Rightarrow> string set \<Rightarrow> fs \<Rightarrow> fs \<Rightarrow> bool" where
  "spares b name Q x y \<longleftrightarrow>
     (\<forall>q \<in> Q. fs_names y q = fs_names x q)
     \<and> (\<forall>q \<in> Q. \<forall>k. fs_names x q = Some k \<longrightarrow>
          nd_kind (fs_nodes y k) = nd_kind (fs_nodes x k) \<and> nd_id (fs_nodes y k) = nd_id (fs_nodes x k))
     \<and> (b \<longrightarrow> fs_names x name = None \<longrightarrow> fs_names y name = None)"

text \<open>
  A step of the removal changes nothing but names, and only \<open>name\<close> and those in \<open>Q\<close>; what had a name
  still has one, but for the expected socket.
\<close>

definition loses_only :: "socket_identity option \<Rightarrow> string \<Rightarrow> string set \<Rightarrow> fs \<Rightarrow> fs \<Rightarrow> bool" where
  "loses_only expected name Q x y \<longleftrightarrow>
     fs_nodes y = fs_nodes x \<and> fs_locks y = fs_locks x \<and> fs_root y = fs_root x \<and> fs_root_mode y = fs_root_mode x
     \<and> (\<forall>n. n \<noteq> name \<longrightarrow> n \<notin> Q \<longrightarrow> fs_names y n = fs_names x n)
     \<and> (\<forall>n k. fs_names x n = Some k \<longrightarrow> (\<exists>n'. fs_names y n' = Some k) \<or> expected_socket expected (fs_nodes x k))"

definition no_false_absence :: "go_error \<Rightarrow> bool" where
  "no_false_absence e \<longleftrightarrow> \<not> errors_is e (SysErr ''ENOENT'')"

lemma loses_only_refl [simp]: "loses_only expected name Q x x"
  by (auto simp: loses_only_def)

interpretation removing: interference "spares b (socket_name p) (quarantine_names (socket_name p) Z)"
  "loses_only expected (socket_name p) (quarantine_names (socket_name p) Z)" no_false_absence Z pid for b p expected Z pid .

section \<open>Assertions\<close>

text \<open>The quarantine names are as they were, but for \<open>q\<close>; \<open>q0\<close> says how they were.\<close>

definition calm_but :: "string set \<Rightarrow> (string \<Rightarrow> nat option) \<Rightarrow> string set \<Rightarrow> fs \<Rightarrow> bool" where
  "calm_but Q q0 M x \<longleftrightarrow> (\<forall>n \<in> Q - M. fs_names x n = q0 n)"

definition gone :: "bool \<Rightarrow> string \<Rightarrow> fs \<Rightarrow> bool" where
  "gone b name x \<longleftrightarrow> (b \<longrightarrow> fs_names x name = None)"

text \<open>The node \<open>k\<close> stands at \<open>q\<close>.\<close>

definition moved :: "string set \<Rightarrow> (string \<Rightarrow> nat option) \<Rightarrow> string \<Rightarrow> nat \<Rightarrow> fs \<Rightarrow> bool" where
  "moved Q q0 q k x \<longleftrightarrow> calm_but Q q0 {q} x \<and> q \<in> Q \<and> q0 q = None \<and> fs_names x q = Some k"

definition looks :: "nat \<Rightarrow> node \<Rightarrow> fs \<Rightarrow> bool" where
  "looks k st x \<longleftrightarrow> nd_kind (fs_nodes x k) = nd_kind st \<and> nd_id (fs_nodes x k) = nd_id st"

lemma looks_expected: "looks k st x \<Longrightarrow> expected_socket expected (fs_nodes x k) = expected_socket expected st"
  by (cases expected) (auto simp: looks_def expected_socket_def)

lemma calm_but_stays: "calm_but Q q0 M x \<Longrightarrow> spares b name Q x y \<Longrightarrow> calm_but Q q0 M y"
  by (simp add: calm_but_def spares_def)

lemma gone_stays: "gone b name x \<Longrightarrow> spares b name Q x y \<Longrightarrow> gone b name y"
  by (simp add: gone_def spares_def)

lemma moved_stays: "moved Q q0 q k x \<Longrightarrow> spares b name Q x y \<Longrightarrow> moved Q q0 q k y"
  using calm_but_stays [of Q q0 "{q}" x b name y] by (simp add: moved_def spares_def)

lemma looks_stays: "looks k st x \<Longrightarrow> moved Q q0 q k x \<Longrightarrow> spares b name Q x y \<Longrightarrow> looks k st y"
  unfolding looks_def moved_def spares_def by (elim conjE, drule (1) bspec, drule (1) bspec) auto

lemma calm_moved: "moved Q q0 q k x \<Longrightarrow> calm_but Q q0 Q x"
  by (simp add: calm_but_def)


section \<open>The calls\<close>

abbreviation quarantines :: "runtime_paths \<Rightarrow> (go_error + bytes) set \<Rightarrow> string set" where
  "quarantines p Z \<equiv> quarantine_names (socket_name p) Z"

abbreviation all_calm :: "runtime_paths \<Rightarrow> (go_error + bytes) set \<Rightarrow> (string \<Rightarrow> nat option) \<Rightarrow> fs \<Rightarrow> bool" where
  "all_calm p Z q0 \<equiv> calm_but (quarantines p Z) q0 {}"

lemma stable_calm: "removing.stable b p Z (calm_but (quarantines p Z) q0 M)"
  unfolding removing.stable_def using calm_but_stays by blast

lemma stable_free: "removing.stable b p Z (\<lambda>x. A \<and> all_calm p Z q0 x)"
  unfolding removing.stable_def using calm_but_stays by blast

lemma stable_moved: "removing.stable b p Z (\<lambda>x. moved (quarantines p Z) q0 q k x \<and> gone b (socket_name p) x)"
  unfolding removing.stable_def using moved_stays gone_stays by blast

lemma stable_moved_looks:
  "removing.stable b p Z (\<lambda>x. moved (quarantines p Z) q0 q k x \<and> gone b (socket_name p) x \<and> looks k st x)"
  unfolding removing.stable_def by (intro allI impI, elim conjE, intro conjI; rule moved_stays gone_stays looks_stays)

lemma absent: "errors_is (SysErr ''ENOENT'') (SysErr ''ENOENT'')"
  by simp

lemma quarantine_look:
  "removing.triple b p Z expected pid (\<lambda>x. q \<in> quarantines p Z \<and> all_calm p Z q0 x) (sys_fstatat q)
     (\<lambda>_. all_calm p Z q0)
     (\<lambda>e x. (errors_is e (SysErr ''ENOENT'') \<longrightarrow> q \<in> quarantines p Z \<and> q0 q = None) \<and> all_calm p Z q0 x)"
  unfolding sys_fstatat_def
  by (rule removing.triple_syscall [OF stable_free])
    (auto simp: no_false_absence_def sys_error_def calm_but_def split: option.split)

lemma quarantined_in: "Inr d \<in> Z \<Longrightarrow> quarantined name (hex_encode (take 16 (d @ replicate 16 0))) \<in> quarantine_names name Z"
  unfolding quarantine_names_def by blast

lemma removing_random:
  "removing.triple b p Z expected pid (all_calm p Z q0) randomOwnerToken
     (\<lambda>t x. quarantined (socket_name p) t \<in> quarantines p Z \<and> all_calm p Z q0 x) (\<lambda>_. all_calm p Z q0)"
  unfolding randomOwnerToken_def
proof (rule removing.triple_gbind [where Q = "\<lambda>d x. quarantined (socket_name p) (hex_encode d) \<in> quarantines p Z \<and> all_calm p Z q0 x"])
  show "removing.triple b p Z expected pid (all_calm p Z q0) (read_random 16)
     (\<lambda>d x. quarantined (socket_name p) (hex_encode d) \<in> quarantines p Z \<and> all_calm p Z q0 x) (\<lambda>_. all_calm p Z q0)"
    by (rule removing.triple_random) (use quarantined_in in blast)+
qed (rule removing.triple_gret)

lemma quarantine_name_triple:
  "removing.triple b p Z expected pid (all_calm p Z q0) (quarantine_name i (socket_name p))
     (\<lambda>q x. (q \<in> quarantines p Z \<and> q0 q = None) \<and> all_calm p Z q0 x) (\<lambda>_. all_calm p Z q0)"
proof (induction i)
  case 0
  show ?case
    unfolding quarantine_name.simps [of 0] Let_def quarantined_def [symmetric]
    by (rule removing.triple_gbind [OF removing.triple_gwrap [OF removing_random]], rule removing.triple_gtry [OF quarantine_look])
      (auto intro!: removing.triple_gret removing.triple_gthrow)
next
  case (Suc i)
  show ?case
    unfolding quarantine_name.simps [of "Suc i"] Let_def quarantined_def [symmetric]
  proof (rule removing.triple_gbind [OF removing.triple_gwrap [OF removing_random]], rule removing.triple_gtry [OF quarantine_look], goal_cases)
    case (1 t st)
    show ?case using Suc by simp
  next
    case (2 t e)
    show ?case
      using removing.triple_pre [OF Suc] by (auto intro!: removing.triple_gret)
  qed
qed

lemma removing_idle:
  "removing.triple b p Z expected pid (all_calm p Z q0) openRuntimeDirectory (\<lambda>_. all_calm p Z q0) (\<lambda>_. all_calm p Z q0)"
  unfolding openRuntimeDirectory_def
  by (intro removing.triple_gbind [OF removing.triple_gwrap] removing.triple_if removing.triple_gthrow removing.triple_gret)
    (auto simp: sys_open_root_def sys_fstat_root_def sys_error_def intro!: removing.triple_syscall [OF stable_calm] split: option.split)


text \<open>The rename into the quarantine, which is free.\<close>

lemma quarantine_move:
  assumes "q \<in> quarantines p Z" and "q0 q = None"
  shows "removing.triple b p Z expected pid (all_calm p Z q0) (sys_renameat (socket_name p) q)
     (\<lambda>_ x. \<exists>k. moved (quarantines p Z) q0 q k x \<and> gone b (socket_name p) x)
     (\<lambda>e x. all_calm p Z q0 x \<and> (errors_is e (SysErr ''ENOENT'') \<longrightarrow> gone b (socket_name p) x))"
  unfolding sys_renameat_def
proof (rule removing.triple_syscall [OF stable_calm])
  fix n :: nat and x assume x: "all_calm p Z q0 x"
  have q: "fs_names x q = None" "socket_name p \<noteq> q" using x assms name_not_quarantined [of "socket_name p" Z] by (auto simp: calm_but_def)
  let ?f = "case fs_names x (socket_name p) of None \<Rightarrow> sys_error ''ENOENT'' x
     | Some k \<Rightarrow> (case fs_names x q of None \<Rightarrow> (Inr (), renamed (socket_name p) q k x)
         | Some l \<Rightarrow> if l = k then (Inr (), x) else if nd_kind (fs_nodes x l) = DirectoryNode then sys_error ''EISDIR'' x
             else (Inr (), renamed (socket_name p) q k x))"
  show "loses_only expected (socket_name p) (quarantines p Z) x (snd ?f) \<and>
      (case fst ?f of Inl e \<Rightarrow> all_calm p Z q0 (snd ?f) \<and> (errors_is e (SysErr ''ENOENT'') \<longrightarrow> gone b (socket_name p) (snd ?f))
       | Inr a \<Rightarrow> \<exists>k. moved (quarantines p Z) q0 q k (snd ?f) \<and> gone b (socket_name p) (snd ?f))"
  proof (cases "fs_names x (socket_name p)")
    case None
    with x show ?thesis by (simp add: sys_error_def gone_def)
  next
    case (Some k)
    have "loses_only expected (socket_name p) (quarantines p Z) x (renamed (socket_name p) q k x)"
      unfolding loses_only_def
    proof (intro conjI allI impI)
      fix n l assume "fs_names x n = Some l"
      then have "fs_names (renamed (socket_name p) q k x) (if n = socket_name p then q else n) = Some l"
        using q Some by (auto simp: renamed_def)
      then show "(\<exists>n'. fs_names (renamed (socket_name p) q k x) n' = Some l) \<or> expected_socket expected (fs_nodes x l)" by blast
    qed (use assms(1) in \<open>auto simp: renamed_def\<close>)
    moreover have "moved (quarantines p Z) q0 q k (renamed (socket_name p) q k x)" "gone b (socket_name p) (renamed (socket_name p) q k x)"
      using x assms q name_not_quarantined [of "socket_name p" Z] by (auto simp: moved_def renamed_def calm_but_def gone_def)
    ultimately show ?thesis using Some q by auto
  qed
qed (auto simp: no_false_absence_def)

lemma quarantine_inspect:
  "removing.triple b p Z expected pid (\<lambda>x. moved (quarantines p Z) q0 q k x \<and> gone b (socket_name p) x) (sys_fstatat q)
     (\<lambda>st x. moved (quarantines p Z) q0 q k x \<and> gone b (socket_name p) x \<and> looks k st x)
     (\<lambda>_ x. moved (quarantines p Z) q0 q k x \<and> gone b (socket_name p) x)"
  unfolding sys_fstatat_def
  by (rule removing.triple_syscall [OF stable_moved]) (auto simp: moved_def looks_def)

lemma quarantine_remove:
  assumes "expected_socket expected st"
  shows "removing.triple b p Z expected pid (\<lambda>x. moved (quarantines p Z) q0 q k x \<and> gone b (socket_name p) x \<and> looks k st x) (sys_unlinkat q)
     (\<lambda>_ x. all_calm p Z q0 x \<and> gone b (socket_name p) x) (\<lambda>_ _. True)"
  unfolding sys_unlinkat_def
proof (rule removing.triple_syscall [OF stable_moved_looks])
  fix n :: nat and x assume x: "moved (quarantines p Z) q0 q k x \<and> gone b (socket_name p) x \<and> looks k st x"
  then have m: "fs_names x q = Some k" "q \<in> quarantines p Z" "q0 q = None" "calm_but (quarantines p Z) q0 {q} x" "looks k st x"
    by (simp_all add: moved_def)
  have node: "expected_socket expected (fs_nodes x k)" using looks_expected [OF m(5)] assms by simp
  then have "nd_kind (fs_nodes x k) \<noteq> DirectoryNode" by (simp add: expected_socket_def)
  moreover have "loses_only expected (socket_name p) (quarantines p Z) x (x\<lparr>fs_names := (fs_names x)(q := None)\<rparr>)"
    unfolding loses_only_def
  proof (intro conjI allI impI)
    fix n l assume n: "fs_names x n = Some l"
    show "(\<exists>n'. fs_names (x\<lparr>fs_names := (fs_names x)(q := None)\<rparr>) n' = Some l) \<or> expected_socket expected (fs_nodes x l)"
    proof (cases "n = q")
      case True
      with n m(1) node show ?thesis by simp
    next
      case False
      with n have "fs_names (x\<lparr>fs_names := (fs_names x)(q := None)\<rparr>) n = Some l" by simp
      then show ?thesis by blast
    qed
  qed (use m(2) in auto)
  moreover have "all_calm p Z q0 (x\<lparr>fs_names := (fs_names x)(q := None)\<rparr>)" using m by (simp add: calm_but_def)
  moreover have "gone b (socket_name p) (x\<lparr>fs_names := (fs_names x)(q := None)\<rparr>)" using x by (simp add: gone_def)
  ultimately show "loses_only expected (socket_name p) (quarantines p Z) x
      (snd (case fs_names x q of None \<Rightarrow> sys_error ''ENOENT'' x
         | Some k \<Rightarrow> if nd_kind (fs_nodes x k) = DirectoryNode then sys_error ''EISDIR'' x else (Inr (), x\<lparr>fs_names := (fs_names x)(q := None)\<rparr>))) \<and>
      (case fst (case fs_names x q of None \<Rightarrow> sys_error ''ENOENT'' x
         | Some k \<Rightarrow> if nd_kind (fs_nodes x k) = DirectoryNode then sys_error ''EISDIR'' x else (Inr (), x\<lparr>fs_names := (fs_names x)(q := None)\<rparr>)) of
         Inl e \<Rightarrow> True
       | Inr a \<Rightarrow> all_calm p Z q0 (snd (case fs_names x q of None \<Rightarrow> sys_error ''ENOENT'' x
         | Some k \<Rightarrow> if nd_kind (fs_nodes x k) = DirectoryNode then sys_error ''EISDIR'' x else (Inr (), x\<lparr>fs_names := (fs_names x)(q := None)\<rparr>))) \<and>
         gone b (socket_name p) (snd (case fs_names x q of None \<Rightarrow> sys_error ''ENOENT'' x
         | Some k \<Rightarrow> if nd_kind (fs_nodes x k) = DirectoryNode then sys_error ''EISDIR'' x else (Inr (), x\<lparr>fs_names := (fs_names x)(q := None)\<rparr>))))"
    using m(1) by simp
qed simp

lemma quarantine_restore:
  "removing.triple b p Z expected pid (\<lambda>x. moved (quarantines p Z) q0 q k x \<and> gone b (socket_name p) x) (sys_renameat_noreplace q (socket_name p))
     (\<lambda>_. all_calm p Z q0) (\<lambda>_ _. True)"
  unfolding sys_renameat_noreplace_def
proof (rule removing.triple_syscall [OF stable_moved])
  fix n :: nat and x assume "moved (quarantines p Z) q0 q k x \<and> gone b (socket_name p) x"
  then have m: "fs_names x q = Some k" "q \<in> quarantines p Z" "q0 q = None" "calm_but (quarantines p Z) q0 {q} x"
    by (simp_all add: moved_def)
  have ne: "socket_name p \<notin> quarantines p Z" by (rule name_not_quarantined)
  have done_: "loses_only expected (socket_name p) (quarantines p Z) x (renamed q (socket_name p) k x)
    \<and> all_calm p Z q0 (renamed q (socket_name p) k x)" if free: "fs_names x (socket_name p) = None"
  proof
    show "loses_only expected (socket_name p) (quarantines p Z) x (renamed q (socket_name p) k x)"
      unfolding loses_only_def
    proof (intro conjI allI impI)
      fix n l assume "fs_names x n = Some l"
      then have "fs_names (renamed q (socket_name p) k x) (if n = q then socket_name p else n) = Some l"
        using m(1) free by (auto simp: renamed_def)
      then show "(\<exists>n'. fs_names (renamed q (socket_name p) k x) n' = Some l) \<or> expected_socket expected (fs_nodes x l)" by blast
    qed (use m(2) in \<open>auto simp: renamed_def\<close>)
    show "all_calm p Z q0 (renamed q (socket_name p) k x)"
      using m ne by (auto simp: calm_but_def renamed_def)
  qed
  show "loses_only expected (socket_name p) (quarantines p Z) x
      (snd (case fs_names x q of None \<Rightarrow> sys_error ''ENOENT'' x
         | Some k \<Rightarrow> if fs_names x (socket_name p) \<noteq> None then sys_error ''EEXIST'' x else (Inr (), renamed q (socket_name p) k x))) \<and>
      (case fst (case fs_names x q of None \<Rightarrow> sys_error ''ENOENT'' x
         | Some k \<Rightarrow> if fs_names x (socket_name p) \<noteq> None then sys_error ''EEXIST'' x else (Inr (), renamed q (socket_name p) k x)) of
         Inl e \<Rightarrow> True
       | Inr a \<Rightarrow> all_calm p Z q0 (snd (case fs_names x q of None \<Rightarrow> sys_error ''ENOENT'' x
         | Some k \<Rightarrow> if fs_names x (socket_name p) \<noteq> None then sys_error ''EEXIST'' x else (Inr (), renamed q (socket_name p) k x))))"
    using m(1) done_ by (simp add: sys_error_def)
qed simp


section \<open>The removal\<close>

definition unexpected_entry :: go_error where
  "unexpected_entry = ErrNew ''socket path exists but is not the expected Unix socket''"

definition left_alone :: "runtime_paths \<Rightarrow> (go_error + bytes) set \<Rightarrow> (string \<Rightarrow> nat option) \<Rightarrow> go_error \<Rightarrow> fs \<Rightarrow> bool" where
  "left_alone p Z q0 e x \<longleftrightarrow> (e = unexpected_entry \<longrightarrow> all_calm p Z q0 x)"

lemma left_alone_simps: "left_alone p Z q0 (Wrap m e) x" "left_alone p Z q0 unexpected_entry x = all_calm p Z q0 x"
  by (simp_all add: left_alone_def unexpected_entry_def)

lemma restore_triple:
  "removing.triple b p Z expected pid (\<lambda>x. moved (quarantines p Z) q0 q k x \<and> gone b (socket_name p) x)
     (gbind (gwrap ''unexpected socket node preserved at quarantine after failed restore'' (sys_renameat_noreplace q (socket_name p))) (\<lambda>_.
        case inspected of Inl err \<Rightarrow> gthrow (Wrap ''inspect quarantined socket'' err) | Inr _ \<Rightarrow> gthrow unexpected_entry))
     Q (left_alone p Z q0)"
proof (rule removing.triple_gbind [where Q = "\<lambda>_. all_calm p Z q0"])
  show "removing.triple b p Z expected pid (\<lambda>x. moved (quarantines p Z) q0 q k x \<and> gone b (socket_name p) x)
     (gwrap ''unexpected socket node preserved at quarantine after failed restore'' (sys_renameat_noreplace q (socket_name p)))
     (\<lambda>_. all_calm p Z q0) (left_alone p Z q0)"
    by (rule removing.triple_gwrap [OF removing.triple_post [OF quarantine_restore]]) (simp_all add: left_alone_simps)
  show "removing.triple b p Z expected pid (all_calm p Z q0)
      (case inspected of Inl err \<Rightarrow> gthrow (Wrap ''inspect quarantined socket'' err) | Inr _ \<Rightarrow> gthrow unexpected_entry) Q (left_alone p Z q0)" for a
    by (cases inspected) (simp_all add: removing.triple_gthrow left_alone_simps)
qed

lemma settle_triple:
  "removing.triple b p Z expected pid (\<lambda>x. moved (quarantines p Z) q0 q k x \<and> gone b (socket_name p) x)
     (gtry (sys_fstatat q) (\<lambda>inspected.
        if (case inspected of Inl _ \<Rightarrow> False | Inr st \<Rightarrow> expected_socket expected st)
          then gwrap ''remove quarantined Unix socket'' (sys_unlinkat q)
        else
          gbind (gwrap ''unexpected socket node preserved at quarantine after failed restore''
                   (sys_renameat_noreplace q (socket_name p))) (\<lambda>_.
          case inspected of Inl err \<Rightarrow> gthrow (Wrap ''inspect quarantined socket'' err) | Inr _ \<Rightarrow> gthrow unexpected_entry)))
     (\<lambda>_ x. all_calm p Z q0 x \<and> gone b (socket_name p) x) (left_alone p Z q0)"
proof (rule removing.triple_gtry [OF quarantine_inspect], goal_cases)
  case (1 st)
  show ?case
  proof (cases "expected_socket expected st")
    case True
    have "removing.triple b p Z expected pid (\<lambda>x. moved (quarantines p Z) q0 q k x \<and> gone b (socket_name p) x \<and> looks k st x)
        (gwrap ''remove quarantined Unix socket'' (sys_unlinkat q))
        (\<lambda>_ x. all_calm p Z q0 x \<and> gone b (socket_name p) x) (left_alone p Z q0)"
      by (rule removing.triple_gwrap [OF removing.triple_post [OF quarantine_remove [OF True]]]) (simp_all add: left_alone_simps)
    with True show ?thesis by simp
  next
    case False
    have "removing.triple b p Z expected pid (\<lambda>x. moved (quarantines p Z) q0 q k x \<and> gone b (socket_name p) x \<and> looks k st x)
      (gbind (gwrap ''unexpected socket node preserved at quarantine after failed restore'' (sys_renameat_noreplace q (socket_name p))) (\<lambda>_.
        case Inr st of Inl err \<Rightarrow> gthrow (Wrap ''inspect quarantined socket'' err) | Inr _ \<Rightarrow> gthrow unexpected_entry))
      (\<lambda>_ x. all_calm p Z q0 x \<and> gone b (socket_name p) x) (left_alone p Z q0)"
      by (rule removing.triple_pre [OF restore_triple]) blast
    with False show ?thesis by simp
  qed
next
  case (2 e)
  show ?case using restore_triple [of b p Z expected pid q0 q k "Inl e"] by simp
qed

lemma removeStaleSocket_triple:
  "removing.triple b p Z expected pid (all_calm p Z q0) (removeStaleSocket p expected)
     (\<lambda>_ x. all_calm p Z q0 x \<and> gone b (socket_name p) x) (left_alone p Z q0)"
  unfolding removeStaleSocket_def Let_def unexpected_entry_def [symmetric]
proof (rule removing.triple_gbind [OF removing.triple_post [OF removing_idle]],
    assumption, simp add: left_alone_def, rule removing.triple_gbind [OF removing.triple_post [OF quarantine_name_triple]],
    assumption, simp add: left_alone_def, rule removing.triple_assume, elim conjE, goal_cases)
  case (1 _ q)
  show ?case
  proof (rule removing.triple_gtry [OF quarantine_move [of q p Z q0, OF 1]], goal_cases)
    case (1 u)
    show ?case unfolding sum.case by (rule removing.triple_ex, rule settle_triple)
  next
    case (2 e)
    show ?case by (auto intro!: removing.triple_gret removing.triple_gthrow simp: left_alone_simps)
  qed
qed


lemma removal_run:
  assumes "removeStaleSocket p expected w = (r, w')" and "history w = []" and "faulty no_false_absence w"
    and "polite (spares b (socket_name p) (quarantines p (set (randoms w)))) w"
  shows "honest (loses_only expected (socket_name p) (quarantines p (set (randoms w)))) w'"
    and "r = Inr () \<Longrightarrow> all_calm p (set (randoms w)) (fs_names (fs w)) (fs w') \<and> gone b (socket_name p) (fs w')"
    and "r = Inl unexpected_entry \<Longrightarrow> all_calm p (set (randoms w)) (fs_names (fs w)) (fs w')"
proof -
  have fair: "removing.fair b p (set (randoms w)) expected (own_pid w) w" using assms(2-4) by (simp add: removing.fair_def honest_def)
  have "all_calm p (set (randoms w)) (fs_names (fs w)) (fs w)" by (simp add: calm_but_def)
  note run = removing.triple_run [OF removeStaleSocket_triple fair this assms(1)]
  from run show "honest (loses_only expected (socket_name p) (quarantines p (set (randoms w)))) w'" by (simp add: removing.fair_def)
  from run show "r = Inr () \<Longrightarrow> all_calm p (set (randoms w)) (fs_names (fs w)) (fs w') \<and> gone b (socket_name p) (fs w')" by simp
  from run show "r = Inl unexpected_entry \<Longrightarrow> all_calm p (set (randoms w)) (fs_names (fs w)) (fs w')" by (simp add: left_alone_simps)
qed

lemma spares_less: "polite (spares True name Q) w \<Longrightarrow> polite (spares False name Q) w"
  by (auto simp: polite_def spares_def)

text \<open>
  C35: \<open>removeStaleSocket\<close> while other processes do anything but touch its random quarantine names: no call of
  it changes a node or an entry beside the socket's name and the quarantine names, and whatever
  had a name still has one after the call, unless it is the socket that the caller expects.  When it succeeds, or
  reports that the entry is not the expected socket, nothing is left in quarantine; and when it succeeds and the
  others create no entry at the socket's name meanwhile, none is there.
\<close>

theorem stale_socket_safe:
  assumes "removeStaleSocket p expected w = (r, w')" and "history w = []" and "faulty no_false_absence w"
    and "polite (spares False (socket_name p) (quarantines p (set (randoms w)))) w"
  shows "honest (loses_only expected (socket_name p) (quarantines p (set (randoms w)))) w'
    \<and> (r = Inr () \<or> r = Inl unexpected_entry \<longrightarrow> (\<forall>q \<in> quarantines p (set (randoms w)). fs_names (fs w') q = fs_names (fs w) q))
    \<and> (r = Inr () \<longrightarrow> polite (spares True (socket_name p) (quarantines p (set (randoms w)))) w \<longrightarrow>
         fs_names (fs w') (socket_name p) = None)"
  using removal_run [OF assms] removal_run(2) [OF assms(1,2,3), of True] by (auto simp: calm_but_def gone_def)

section \<open>Samples\<close>

definition socket_node :: node where
  "socket_node = \<lparr>nd_kind = SocketNode, nd_data = [], nd_mode = 0, nd_id = (1, 2)\<rparr>"

definition socket_world :: world where
  "socket_world = sample_world\<lparr>fs := empty_fs\<lparr>fs_root := Some DirectoryNode, fs_names := [''token-smith.sock'' \<mapsto> 0],
     fs_nodes := (\<lambda>_. socket_node), fs_next := 1\<rparr>\<rparr>"

lemma sample_socket_name: "socket_name sample_paths = ''token-smith.sock''"
  by code_simp

lemma sample_removal: "\<exists>w'. removeStaleSocket sample_paths (Some (1, 2)) socket_world = (Inr (), w')"
  unfolding removeStaleSocket_def openRuntimeDirectory_def sample_socket_name quarantine_name.simps [of 3]
  by (simp add: run_simps call_defs sys_renameat_def socket_world_def sample_world_def empty_fs_def socket_node_def
      expected_socket_def Let_def)

theorem stale_socket_safe_witness:
  "\<exists>w'. removeStaleSocket sample_paths (Some (1, 2)) socket_world = (Inr (), w') \<and> fs_names (fs w') ''token-smith.sock'' = None
     \<and> honest (loses_only (Some (1, 2)) ''token-smith.sock'' (quarantine_names ''token-smith.sock'' {Inr [1], Inr [2]})) w'"
proof -
  obtain w' where run: "removeStaleSocket sample_paths (Some (1, 2)) socket_world = (Inr (), w')" using sample_removal by blast
  have w: "history socket_world = []" "faulty F socket_world" "polite R socket_world" "set (randoms socket_world) = {Inr [1], Inr [2]}" for F R
    by (simp_all add: socket_world_def sample_world_def faulty_def polite_def)
  from stale_socket_safe [OF run w(1-3)] w(3) run show ?thesis by (simp add: sample_socket_name w(4))
qed

end
