(* ===== verification/Opening.thy ===== *)
theory Opening
  imports Attempts GoStrings
begin

text \<open>
  Opening the store (\<open>Open\<close>, \<open>configure\<close>, \<open>migrate\<close> and \<open>VerifyFTS5\<close> of
  \<open>internal/storage/storage.go\<close>) and the migrations that it applies (\<open>migrations/\<close>).  The operations of the open
  store run on \<open>Database\<close>; here the file behind it is modelled as far as opening looks at it: the names of
  its schema objects, the rows of \<open>schema_migrations\<close> and, untouched, its data.
\<close>

section \<open>The file\<close>

record schema =
  sc_objects :: "string list"
  sc_versions :: "(int \<times> time_text) list"
  sc_data :: database

text \<open>
  The connection: the committed and the working schema, the probe table of the connection's temporary
  schema, its pragmas, what the build of SQLite and the file system offer, and the script of
  failures (one entry for every call into the operating system and the driver).
\<close>

record connection_state =
  op_committed :: schema
  op_working :: "schema option"
  op_probe :: "string list option"
  op_journal :: string
  op_foreign_keys :: int
  op_busy_timeout :: int
  op_wal :: bool
  op_fts5 :: bool
  op_open :: bool
  op_faults :: "go_error option list"
  op_clock :: int

type_synonym 'a conn_prog = "(connection_state, 'a) prog"

definition op_step :: "unit conn_prog" where
  "op_step s =
     (case op_faults s of
        [] \<Rightarrow> (Inr (), s)
      | None # fs \<Rightarrow> (Inr (), s\<lparr>op_faults := fs\<rparr>)
      | Some e # fs \<Rightarrow> (Inl e, s\<lparr>op_faults := fs\<rparr>))"

definition op_update :: "(connection_state \<Rightarrow> connection_state) \<Rightarrow> unit conn_prog" where
  "op_update f = gbind op_step (\<lambda>_ s. (Inr (), f s))"

definition op_query :: "(connection_state \<Rightarrow> go_error + 'a) \<Rightarrow> 'a conn_prog" where
  "op_query f = gbind op_step (\<lambda>_ s. (f s, s))"

text \<open>\<open>BeginTx\<close>, a statement in the transaction, \<open>Commit\<close> and \<open>Rollback\<close>.\<close>

definition op_begin :: "unit conn_prog" where
  "op_begin = op_update (\<lambda>s. s\<lparr>op_working := Some (op_committed s)\<rparr>)"

definition op_exec :: "(schema \<Rightarrow> go_error + schema) \<Rightarrow> unit conn_prog" where
  "op_exec stmt = gbind op_step (\<lambda>_ s.
     case op_working s of
       None \<Rightarrow> (Inl tx_done, s)
     | Some x \<Rightarrow> (case stmt x of Inl e \<Rightarrow> (Inl e, s) | Inr y \<Rightarrow> (Inr (), s\<lparr>op_working := Some y\<rparr>)))"

definition op_commit :: "unit conn_prog" where
  "op_commit = gbind op_step (\<lambda>_ s.
     case op_working s of None \<Rightarrow> (Inl tx_done, s) | Some x \<Rightarrow> (Inr (), s\<lparr>op_committed := x, op_working := None\<rparr>))"

definition op_rollback :: "connection_state \<Rightarrow> connection_state" where
  "op_rollback s = s\<lparr>op_working := None\<rparr>"

text \<open>A transaction is over when its function returns: \<open>Rollback\<close> is deferred or called, and a failed \<open>Commit\<close> rolls back.\<close>

definition op_with_tx :: "'a conn_prog \<Rightarrow> 'a conn_prog" where
  "op_with_tx body = gbind op_begin (\<lambda>_ s. case body s of (r, s') \<Rightarrow> (r, op_rollback s'))"

section \<open>Migrations\<close>

text \<open>The scripts create schema objects; a name that is taken is an error.\<close>

fun create_objects :: "string list \<Rightarrow> schema \<Rightarrow> go_error + schema" where
  "create_objects [] x = Inr x"
| "create_objects (n # ns) x =
     (if n \<in> set (sc_objects x) then Inl (DriverErr (''SQL logic error: '' @ n @ '' already exists (1)''))
      else create_objects ns (x\<lparr>sc_objects := sc_objects x @ [n]\<rparr>))"

definition initial_objects :: "string list" where
  "initial_objects = [''schema_migrations'', ''projects'', ''sessions'', ''sessions_project_id_idx'', ''capture_events'',
     ''capture_events_project_session_sequence_idx'', ''capture_events_exchange_id_idx'', ''capture_events_no_update'',
     ''capture_events_no_delete'', ''capture_event_chunks'', ''capture_event_chunks_no_update'', ''capture_event_chunks_no_delete'',
     ''capture_fts'']"

definition attempt_objects :: "string list" where
  "attempt_objects = [''capture_attempts'', ''capture_attempts_status_idx'', ''capture_attempts_event_id_idx'', ''capture_attempts_session_id_idx'']"

text \<open>An entry of the embedded directory: its name, whether it is a directory, and what its text does.\<close>

type_synonym migration = "string \<times> bool \<times> (schema \<Rightarrow> go_error + schema)"

definition migration_files :: "migration list" where
  "migration_files = [(''001_initial.sql'', False, create_objects initial_objects),
     (''002_capture_attempts.sql'', False, create_objects attempt_objects)]"

definition applied_count :: "int \<Rightarrow> connection_state \<Rightarrow> go_error + nat" where
  "applied_count version s =
     (if ''schema_migrations'' \<notin> set (sc_objects (op_committed s)) then Inl (DriverErr ''SQL logic error: no such table: schema_migrations (1)'')
      else Inr (length (filter (\<lambda>(v, _). v = version) (sc_versions (op_committed s)))))"

definition insert_version :: "int \<Rightarrow> time_text \<Rightarrow> schema \<Rightarrow> go_error + schema" where
  "insert_version version now x =
     (if ''schema_migrations'' \<notin> set (sc_objects x) then Inl (DriverErr ''SQL logic error: no such table: schema_migrations (1)'')
      else if version \<in> set (map fst (sc_versions x)) then Inl (unique_failed ''schema_migrations.version'')
      else Inr (x\<lparr>sc_versions := sc_versions x @ [(version, now)]\<rparr>))"

definition op_now :: "go_time conn_prog" where
  "op_now s = (Inr \<lparr>instant = op_clock s, zone = 0\<rparr>, s\<lparr>op_clock := op_clock s + 1\<rparr>)"

text \<open>One migration: its text and its row in one transaction.  An error of either is wrapped, one of \<open>BeginTx\<close> or \<open>Commit\<close> is not.\<close>

definition apply_migration :: "int \<Rightarrow> (schema \<Rightarrow> go_error + schema) \<Rightarrow> unit conn_prog" where
  "apply_migration version script = op_with_tx (
     gbind (gwrap ''apply migration'' (
       gbind (op_exec script) (\<lambda>_.
       gbind op_now (\<lambda>now. op_exec (insert_version version (format_utc now)))))) (\<lambda>_.
     op_commit))"

fun migrate_entries :: "migration list \<Rightarrow> unit conn_prog" where
  "migrate_entries [] = gret ()"
| "migrate_entries ((name, is_dir, script) # entries) =
     (if is_dir \<or> \<not> has_suffix name ''.sql'' then migrate_entries entries
      else case atoi (takeWhile (\<lambda>c. c \<noteq> CHR ''_'') name) of
        None \<Rightarrow> gthrow (Wrap ''migration version'' (ErrNew ''strconv.Atoi: invalid syntax''))
      | Some version \<Rightarrow>
          gtry (op_query (applied_count version)) (\<lambda>r.
            case (case r of Inl err \<Rightarrow> if contains (error_text err) ''no such table'' then Inr 0 else Inl err | Inr n \<Rightarrow> Inr n) of
              Inl err \<Rightarrow> gthrow err
            | Inr applied \<Rightarrow>
                if 0 < applied then migrate_entries entries
                else gbind (apply_migration version script) (\<lambda>_. migrate_entries entries)))"

definition migrate :: "migration list \<Rightarrow> unit conn_prog" where
  "migrate files = migrate_entries (sort_key (\<lambda>(name, _). name) files)"

section \<open>Settings\<close>

record settings =
  JournalMode :: string
  ForeignKeys :: bool
  BusyTimeout :: int

definition configure :: "settings conn_prog" where
  "configure =
     gbind (op_update (\<lambda>s. if op_wal s then s\<lparr>op_journal := ''wal''\<rparr> else s)) (\<lambda>_.
     gbind (op_update (\<lambda>s. s\<lparr>op_foreign_keys := 1\<rparr>)) (\<lambda>_.
     gbind (op_update (\<lambda>s. s\<lparr>op_busy_timeout := 5000\<rparr>)) (\<lambda>_.
     gbind (op_update (\<lambda>s. s)) (\<lambda>_.
     gbind (op_query (\<lambda>s. Inr (op_journal s))) (\<lambda>journal.
     gbind (op_query (\<lambda>s. Inr (op_foreign_keys s))) (\<lambda>foreign.
     gbind (op_query (\<lambda>s. Inr (op_busy_timeout s))) (\<lambda>busy.
       if map lower journal \<noteq> ''wal'' \<or> foreign \<noteq> 1 \<or> busy \<le> 0 then gthrow (ErrNew ''SQLite settings not effective'')
       else gret \<lparr>JournalMode = map lower journal, ForeignKeys = (foreign = 1), BusyTimeout = busy * 1000000\<rparr>)))))))"

definition probe_token :: string where
  "probe_token = ''fts5-probe-token''"

text \<open>The probe table lives in the connection; a transaction that is rolled back takes it back.\<close>

definition VerifyFTS5 :: "unit conn_prog" where
  "VerifyFTS5 = gbind op_begin (\<lambda>_ s0.
     case (
       gbind (gwrap ''clear FTS5 probe'' (op_update (\<lambda>s. s\<lparr>op_probe := None\<rparr>))) (\<lambda>_.
       gbind (gwrap ''FTS5 unavailable'' (gbind op_step (\<lambda>_ s.
         if op_fts5 s then (Inr (), s\<lparr>op_probe := Some []\<rparr>) else (Inl (DriverErr ''SQL logic error: no such module: fts5 (1)''), s)))) (\<lambda>_.
       gbind (gwrap ''FTS5 probe insert'' (op_update (\<lambda>s. s\<lparr>op_probe := map_option (\<lambda>rows. rows @ [probe_token]) (op_probe s)\<rparr>))) (\<lambda>_.
       gbind (gwrap ''FTS5 probe match'' (op_query (\<lambda>s. Inr (case op_probe s of None \<Rightarrow> 0 | Some rows \<Rightarrow> length (filter ((=) probe_token) rows))))) (\<lambda>n.
         if n \<noteq> 1 then gthrow (ErrNew ''FTS5 probe match count, want 1'') else op_commit))))) s0 of
       (Inl e, s) \<Rightarrow> (Inl e, op_rollback (s\<lparr>op_probe := op_probe s0\<rparr>))
     | (Inr x, s) \<Rightarrow> (Inr x, op_rollback s))"

section \<open>Open\<close>

definition op_close :: "connection_state \<Rightarrow> connection_state" where
  "op_close s = s\<lparr>op_open := False, op_working := None, op_probe := None\<rparr>"

definition Open :: "migration list \<Rightarrow> string \<Rightarrow> settings conn_prog" where
  "Open files path =
     (if path = '''' then gthrow (ErrNew ''storage database path is empty'')
      else
        gbind (gwrap ''create database directory'' op_step) (\<lambda>_.
        gbind (gwrap ''create database file'' op_step) (\<lambda>_.
        gbind (gwrap ''close database file'' op_step) (\<lambda>_.
        gbind (gwrap ''protect database file'' op_step) (\<lambda>_.
        gbind (gwrap ''open sqlite database'' (op_update (\<lambda>s. s\<lparr>op_open := True\<rparr>))) (\<lambda>_ s0.
          case (gbind configure (\<lambda>settings. gbind (migrate files) (\<lambda>_. gbind VerifyFTS5 (\<lambda>_. gret settings)))) s0 of
            (Inl err, s) \<Rightarrow> (Inl err, op_close s)
          | (Inr settings, s) \<Rightarrow> (Inr settings, s)))))))"

text \<open>A nil store is closed without effect; otherwise the connection is closed whatever \<open>Close\<close> reports.\<close>

definition Store_Close :: "bool \<Rightarrow> unit conn_prog" where
  "Store_Close is_nil = (if is_nil then gret () else (\<lambda>s. case op_step s of (r, s') \<Rightarrow> (r, op_close s')))"

end
