(* ===== verification/OpeningFacts.thy ===== *)
theory OpeningFacts
  imports Opening AttemptFacts "HOL-Library.List_Lexorder"
begin

text \<open>
  Opening applies every migration once, each as a whole or not at all, whatever fails, and leaves the
  data alone.
\<close>

section \<open>The stages of the file\<close>

definition stage_objects :: "nat \<Rightarrow> string list" where
  "stage_objects m = concat (take m [initial_objects, attempt_objects])"

text \<open>The first \<open>m\<close> migrations have been applied, after those of \<open>x0\<close> and without touching its data.\<close>

definition migrated :: "schema \<Rightarrow> nat \<Rightarrow> schema \<Rightarrow> bool" where
  "migrated x0 m x \<longleftrightarrow> m \<le> 2 \<and> sc_objects x = stage_objects m \<and> map fst (sc_versions x) = take m [1, 2]
     \<and> sc_data x = sc_data x0 \<and> take (length (sc_versions x0)) (sc_versions x) = sc_versions x0"

definition ready :: "schema \<Rightarrow> bool \<Rightarrow> nat \<Rightarrow> connection_state \<Rightarrow> bool" where
  "ready x0 calm m s \<longleftrightarrow> op_working s = None \<and> migrated x0 m (op_committed s)
     \<and> (calm \<longrightarrow> op_faults s = [] \<and> op_wal s \<and> op_fts5 s)"

lemma stage_facts:
  "distinct (stage_objects 2)" "''schema_migrations'' \<in> set (stage_objects 1)" "''schema_migrations'' \<in> set (stage_objects 2)"
  "''schema_migrations'' \<notin> set (stage_objects 0)" "stage_objects 1 = stage_objects 0 @ initial_objects" "stage_objects 2 = stage_objects 1 @ attempt_objects"
  "initial_objects \<noteq> []" "attempt_objects \<noteq> []"
  by (simp_all add: stage_objects_def initial_objects_def attempt_objects_def)

lemma create_objects_run:
  "distinct ns \<Longrightarrow> set ns \<inter> set (sc_objects x) = {} \<Longrightarrow> create_objects ns x = Inr (x\<lparr>sc_objects := sc_objects x @ ns\<rparr>)"
  by (induction ns arbitrary: x) auto

lemma create_objects_taken: "ns \<noteq> [] \<Longrightarrow> hd ns \<in> set (sc_objects x) \<Longrightarrow> \<exists>e. create_objects ns x = Inl e"
  by (cases ns) simp_all

section \<open>Triples\<close>

definition opens :: "(connection_state \<Rightarrow> bool) \<Rightarrow> 'a conn_prog \<Rightarrow> ('a \<Rightarrow> connection_state \<Rightarrow> bool) \<Rightarrow> (connection_state \<Rightarrow> bool) \<Rightarrow> bool" where
  "opens P m Q E \<longleftrightarrow> (\<forall>s. P s \<longrightarrow> wp m Q (\<lambda>_. E) s)"

lemma opens_gret: "(\<And>s. P s \<Longrightarrow> Q a s) \<Longrightarrow> opens P (gret a) Q E"
  by (simp add: opens_def wp_simps)

lemma opens_gthrow: "(\<And>s. P s \<Longrightarrow> E s) \<Longrightarrow> opens P (gthrow e) Q E"
  by (simp add: opens_def wp_simps)

lemma opens_gbind:
  assumes "opens P m Q E" and "\<And>a. opens (Q a) (f a) Q' E"
  shows "opens P (gbind m f) Q' E"
  unfolding opens_def wp_gbind
  by (intro allI impI wp_mono [OF assms(1) [unfolded opens_def, rule_format]]) (use assms(2) in \<open>auto simp: opens_def\<close>)

lemma opens_gtry:
  assumes "opens P m Q E1" and "\<And>a. opens (Q a) (f (Inr a)) Q' E" and "\<And>e. opens E1 (f (Inl e)) Q' E"
  shows "opens P (gtry m f) Q' E"
  unfolding opens_def wp_gtry
  by (intro allI impI wp_mono [OF assms(1) [unfolded opens_def, rule_format]]) (use assms(2,3) in \<open>auto simp: opens_def\<close>)

lemma opens_gwrap: "opens P m Q E \<Longrightarrow> opens P (gwrap msg m) Q E"
  by (simp add: opens_def wp_gwrap)

lemma opens_post: "opens P m Q E \<Longrightarrow> (\<And>a s. Q a s \<Longrightarrow> Q' a s) \<Longrightarrow> (\<And>s. E s \<Longrightarrow> E' s) \<Longrightarrow> opens P m Q' E'"
  unfolding opens_def by (intro allI impI, drule spec, drule (1) mp, erule wp_mono) simp_all

lemma opens_pre: "opens P m Q E \<Longrightarrow> (\<And>s. P' s \<Longrightarrow> P s) \<Longrightarrow> opens P' m Q E"
  by (simp add: opens_def)

text \<open>
  The file, the transaction, whether the connection is open, and what is known of the failures: with \<open>calm\<close> there are none.
\<close>

definition holds :: "schema \<Rightarrow> schema option \<Rightarrow> bool \<Rightarrow> connection_state \<Rightarrow> bool" where
  "holds c wk calm s \<longleftrightarrow> op_committed s = c \<and> op_working s = wk \<and> (calm \<longrightarrow> op_faults s = [] \<and> op_wal s \<and> op_fts5 s)"

lemma op_step_cases: "\<exists>r fs. op_step s = (r, s\<lparr>op_faults := fs\<rparr>) \<and> (op_faults s = [] \<longrightarrow> r = Inr () \<and> fs = [])"
proof (cases "op_faults s")
  case Nil
  then have "op_step s = (Inr (), s\<lparr>op_faults := []\<rparr>)" by (simp add: op_step_def)
  then show ?thesis by blast
next
  case (Cons f fs)
  then show ?thesis by (cases f) (auto simp: op_step_def)
qed

text \<open>The rule of every call: it fails, which it does not when calm, or its effect \<open>g\<close> happens.\<close>

lemma opens_step_with:
  assumes J: "\<And>s fs. J s \<Longrightarrow> J (s\<lparr>op_faults := fs\<rparr>)"
    and "\<And>s. op_open s = b \<Longrightarrow> holds c wk calm s \<Longrightarrow> J s \<Longrightarrow> wp g Q (\<lambda>_. E) s"
    and "\<And>s. op_open s = b \<Longrightarrow> holds c wk calm s \<Longrightarrow> J s \<Longrightarrow> \<not> calm \<Longrightarrow> E s"
  shows "opens (\<lambda>s. (op_open s = b \<and> holds c wk calm s) \<and> J s) (gbind op_step (\<lambda>_. g)) Q E"
  unfolding opens_def wp_gbind
proof (intro allI impI, elim conjE)
  fix s assume s: "op_open s = b" "holds c wk calm s" "J s"
  obtain r fs where run: "op_step s = (r, s\<lparr>op_faults := fs\<rparr>)" and calm: "op_faults s = [] \<longrightarrow> r = Inr () \<and> fs = []"
    using op_step_cases by blast
  have next_: "op_open (s\<lparr>op_faults := fs\<rparr>) = b" "holds c wk calm (s\<lparr>op_faults := fs\<rparr>)" "J (s\<lparr>op_faults := fs\<rparr>)"
    using s calm J by (auto simp: holds_def)
  show "wp op_step (\<lambda>x. wp g Q (\<lambda>_. E)) (\<lambda>_. E) s"
  proof (cases r)
    case (Inl e)
    with calm s have "\<not> calm" by (auto simp: holds_def)
    with assms(3) [OF next_] run Inl show ?thesis by (simp add: wp_def)
  next
    case (Inr u)
    with assms(2) [OF next_] run show ?thesis by (simp add: wp_def)
  qed
qed

lemma opens_step:
  assumes "\<And>s. op_open s = b \<Longrightarrow> holds c wk calm s \<Longrightarrow> wp g Q (\<lambda>_. E) s"
    and "\<And>s. op_open s = b \<Longrightarrow> holds c wk calm s \<Longrightarrow> \<not> calm \<Longrightarrow> E s"
  shows "opens (\<lambda>s. op_open s = b \<and> holds c wk calm s) (gbind op_step (\<lambda>_. g)) Q E"
  using opens_step_with [of "\<lambda>_. True" b c wk calm g Q E] assms by simp

abbreviation at :: "bool \<Rightarrow> schema \<Rightarrow> schema option \<Rightarrow> bool \<Rightarrow> connection_state \<Rightarrow> bool" where
  "at b c wk calm s \<equiv> op_open s = b \<and> holds c wk calm s"

lemma opens_update:
  assumes "\<And>s. op_open (f s) = op_open s \<and> op_committed (f s) = op_committed s \<and> op_working (f s) = op_working s
      \<and> op_faults (f s) = op_faults s \<and> op_wal (f s) = op_wal s \<and> op_fts5 (f s) = op_fts5 s"
  shows "opens (at b c wk calm) (op_update f) (\<lambda>_. at b c wk calm) (\<lambda>s. at b c wk calm s \<and> \<not> calm)"
  unfolding op_update_def by (rule opens_step) (use assms in \<open>simp_all add: wp_def holds_def\<close>)

lemma opens_exec:
  "opens (at b c (Some x) calm) (op_exec stmt) (\<lambda>_ s. \<exists>y. stmt x = Inr y \<and> at b c (Some y) calm s)
     (\<lambda>s. at b c (Some x) calm s \<and> (calm \<longrightarrow> (\<exists>e. stmt x = Inl e)))"
  unfolding op_exec_def by (rule opens_step) (auto simp: wp_def holds_def split: sum.split)

lemma opens_commit:
  "opens (at b c (Some x) calm) op_commit (\<lambda>_. at b x None calm) (\<lambda>s. at b c (Some x) calm s \<and> \<not> calm)"
  unfolding op_commit_def by (rule opens_step) (auto simp: wp_def holds_def)

lemma opens_begin: "opens (at b c None calm) op_begin (\<lambda>_. at b c (Some c) calm) (\<lambda>s. at b c None calm s \<and> \<not> calm)"
  unfolding op_begin_def op_update_def by (rule opens_step) (auto simp: wp_def holds_def)

lemma opens_ex: "(\<And>y. opens (P y) m Q E) \<Longrightarrow> opens (\<lambda>s. \<exists>y. P y s) m Q E"
  by (auto simp: opens_def)

lemma opens_assume: "(A \<Longrightarrow> opens P m Q E) \<Longrightarrow> opens (\<lambda>s. A \<and> P s) m Q E"
  by (auto simp: opens_def)

lemma rolled_back [simp]: "op_open (op_rollback s) = op_open s" "holds c wk calm (op_rollback s) \<longleftrightarrow> wk = None \<and> holds c (op_working s) calm s"
  by (auto simp: op_rollback_def holds_def)

lemma wp_rollback: "wp (\<lambda>s. case body s of (r, s') \<Rightarrow> (r, op_rollback s')) Q E s = wp body (\<lambda>a s. Q a (op_rollback s)) (\<lambda>e s. E e (op_rollback s)) s"
  by (cases "body s") (simp add: wp_def split: sum.split)

lemma opens_with_tx:
  assumes "opens (at b c (Some c) calm) body (\<lambda>a s. Q a (op_rollback s)) (\<lambda>s. E (op_rollback s))"
    and "\<And>s. at b c None calm s \<Longrightarrow> \<not> calm \<Longrightarrow> E s"
  shows "opens (at b c None calm) (op_with_tx body) Q E"
  unfolding op_with_tx_def
proof (rule opens_gbind)
  show "opens (at b c None calm) op_begin (\<lambda>_. at b c (Some c) calm) E"
    by (rule opens_post [OF opens_begin]) (use assms(2) in auto)
  show "opens (at b c (Some c) calm) (\<lambda>s. case body s of (r, s') \<Rightarrow> (r, op_rollback s')) Q E" for a
    using assms(1) unfolding opens_def wp_rollback .
qed

section \<open>One migration\<close>

text \<open>When the script runs, it and its row are committed together; otherwise nothing is.\<close>

lemma apply_migration_opens:
  "opens (at b c None calm) (apply_migration v script)
     (\<lambda>_ s. \<exists>x y now. script c = Inr x \<and> insert_version v now x = Inr y \<and> at b y None calm s)
     (\<lambda>s. at b c None calm s \<and> (calm \<longrightarrow> (\<exists>e. script c = Inl e) \<or> (\<exists>x e now. script c = Inr x \<and> insert_version v now x = Inl e)))"
  unfolding apply_migration_def
proof (rule opens_with_tx, rule opens_gbind)
  let ?E = "\<lambda>s. \<exists>x. at b c (Some x) calm s \<and> (calm \<longrightarrow> (\<exists>e. script c = Inl e) \<or> (\<exists>x e now. script c = Inr x \<and> insert_version v now x = Inl e))"
  let ?done = "\<lambda>(_ :: unit) s. \<exists>y. (\<exists>x now. script c = Inr x \<and> insert_version v now x = Inr y) \<and> at b c (Some y) calm s"
  have clock: "opens (at b c (Some x) calm) op_now (\<lambda>_. at b c (Some x) calm) ?E" for x
    by (auto simp: opens_def wp_def op_now_def holds_def)
  have insert: "opens (at b c (Some x) calm) (op_exec (insert_version v now)) ?done ?E" if "script c = Inr x" for x now
    by (rule opens_post [OF opens_exec]) (use that in auto)
  have "opens (at b c (Some c) calm) (gbind (op_exec script) (\<lambda>_. gbind op_now (\<lambda>now. op_exec (insert_version v (format_utc now))))) ?done ?E"
  proof (rule opens_gbind [where Q = "\<lambda>_ s. \<exists>y. script c = Inr y \<and> at b c (Some y) calm s", OF opens_post [OF opens_exec]])
    show "opens (\<lambda>s. \<exists>y. script c = Inr y \<and> at b c (Some y) calm s) (gbind op_now (\<lambda>now. op_exec (insert_version v (format_utc now)))) ?done ?E" for a
      by (rule opens_ex, rule opens_assume, rule opens_gbind [OF clock insert]) simp
  qed auto
  then show "opens (at b c (Some c) calm) (gwrap ''apply migration'' (gbind (op_exec script) (\<lambda>_. gbind op_now (\<lambda>now. op_exec (insert_version v (format_utc now))))))
      ?done (\<lambda>s. at b c None calm (op_rollback s) \<and> (calm \<longrightarrow> (\<exists>e. script c = Inl e) \<or> (\<exists>x e now. script c = Inr x \<and> insert_version v now x = Inl e)))"
    by (rule opens_gwrap [OF opens_post]) (auto simp: holds_def op_rollback_def)
  show "opens (?done a) op_commit (\<lambda>a s. \<exists>x y now. script c = Inr x \<and> insert_version v now x = Inr y \<and> at b y None calm (op_rollback s))
      (\<lambda>s. at b c None calm (op_rollback s) \<and> (calm \<longrightarrow> (\<exists>e. script c = Inl e) \<or> (\<exists>x e now. script c = Inr x \<and> insert_version v now x = Inl e)))" for a
    by (rule opens_ex, rule opens_assume, rule opens_post [OF opens_commit]) (auto simp: holds_def op_rollback_def)
qed auto

section \<open>All migrations\<close>

text \<open>What one of the shipped migrations does at a stage.\<close>

lemma stage_objects_next:
  "stage_objects 0 = []" "stage_objects (Suc 0) = initial_objects" "stage_objects (Suc (Suc 0)) = initial_objects @ attempt_objects"
  by (simp_all add: stage_objects_def)

lemma distinct_objects: "distinct initial_objects" "distinct attempt_objects" "set initial_objects \<inter> set attempt_objects = {}"
  "hd initial_objects = ''schema_migrations''" "''schema_migrations'' \<in> set initial_objects"
  by (simp_all add: initial_objects_def attempt_objects_def)

lemma objects_next:
  assumes "migrated x0 m c" and "v = 0 \<and> ns = initial_objects \<or> v = 1 \<and> ns = attempt_objects"
  shows "m = v \<Longrightarrow> create_objects ns c = Inr (c\<lparr>sc_objects := stage_objects (Suc v)\<rparr>)" and "v < m \<Longrightarrow> \<exists>e. create_objects ns c = Inl e"
proof -
  have c: "sc_objects c = stage_objects m" "m \<le> 2" using assms(1) by (simp_all add: migrated_def)
  show "create_objects ns c = Inr (c\<lparr>sc_objects := stage_objects (Suc v)\<rparr>)" if "m = v"
    using assms(2) that c distinct_objects stage_objects_next by (auto simp: create_objects_run Int_commute [of "set attempt_objects"])
  show "\<exists>e. create_objects ns c = Inl e" if "v < m"
  proof (rule create_objects_taken)
    show "ns \<noteq> []" using assms(2) stage_facts(7,8) by auto
    have "m = 1 \<or> m = 2" using that c(2) by linarith
    moreover have "hd initial_objects \<in> set initial_objects" "hd attempt_objects \<in> set attempt_objects" using stage_facts(7,8) by simp_all
    ultimately show "hd ns \<in> set (sc_objects c)" using assms(2) that c(1) stage_objects_next by (auto simp: numeral_2_eq_2)
  qed
qed

lemma version_next:
  assumes "migrated x0 v c" and "v < 2" and "insert_version (int v + 1) now (c\<lparr>sc_objects := stage_objects (Suc v)\<rparr>) = Inr y"
  shows "migrated x0 (Suc v) y"
proof -
  have len: "length (sc_versions x0) \<le> length (sc_versions c)" using assms(1) by (auto simp: migrated_def dest: arg_cong [where f = length])
  have "v = 0 \<or> v = 1" using assms(2) by linarith
  with assms(1,3) len show ?thesis
    by (auto simp: migrated_def insert_version_def split: if_splits)
qed

lemma version_fits:
  assumes "migrated x0 v c" and "v < 2"
  shows "\<exists>y. insert_version (int v + 1) now (c\<lparr>sc_objects := stage_objects (Suc v)\<rparr>) = Inr y"
proof -
  have "v = 0 \<or> v = 1" using assms(2) by linarith
  with assms(1) show ?thesis
    using distinct_objects(5) by (auto simp: migrated_def insert_version_def stage_objects_next)
qed

lemma count_next:
  assumes "migrated x0 m (op_committed s)" and "v < 2"
  shows "applied_count (int v + 1) s = (if m = 0 then Inl (DriverErr ''SQL logic error: no such table: schema_migrations (1)'')
     else Inr (if v < m then 1 else 0))"
proof -
  have c: "sc_objects (op_committed s) = stage_objects m" "map fst (sc_versions (op_committed s)) = take m [1, 2]" "m \<le> 2"
    using assms(1) by (simp_all add: migrated_def)
  have "length (filter (\<lambda>(u, _). u = int v + 1) (sc_versions (op_committed s))) = length (filter (\<lambda>u. u = int v + 1) (map fst (sc_versions (op_committed s))))"
    by (simp add: filter_map o_def case_prod_unfold)
  moreover have "v = 0 \<or> v = 1" "m = 0 \<or> m = 1 \<or> m = 2" using assms(2) c(3) by linarith+
  ultimately show ?thesis
    using c(1,2) distinct_objects(5) by (auto simp: applied_count_def stage_objects_next numeral_2_eq_2)
qed

lemma missing_table: "contains (error_text (DriverErr ''SQL logic error: no such table: schema_migrations (1)'')) ''no such table''"
  by code_simp

definition file_at :: "bool \<Rightarrow> schema \<Rightarrow> bool \<Rightarrow> nat \<Rightarrow> connection_state \<Rightarrow> bool" where
  "file_at b x0 calm m s \<longleftrightarrow> (\<exists>c. migrated x0 m c \<and> at b c None calm s)"

lemma opens_try_query:
  assumes "\<And>s. at b c None calm s \<Longrightarrow> f s = outcome"
    and "\<And>r. r = outcome \<or> \<not> calm \<and> (\<exists>e. r = Inl e) \<Longrightarrow> opens (at b c None calm) (k r) Q E"
  shows "opens (at b c None calm) (gtry (op_query f) k) Q E"
  unfolding opens_def wp_gtry
proof (intro allI impI)
  fix s assume s: "at b c None calm s"
  obtain r fs where run: "op_step s = (r, s\<lparr>op_faults := fs\<rparr>)" and calm: "op_faults s = [] \<longrightarrow> r = Inr () \<and> fs = []"
    using op_step_cases by blast
  have next_: "at b c None calm (s\<lparr>op_faults := fs\<rparr>)" using s calm by (auto simp: holds_def)
  show "wp (op_query f) (\<lambda>x. wp (k (Inr x)) Q (\<lambda>_. E)) (\<lambda>e. wp (k (Inl e)) Q (\<lambda>_. E)) s"
  proof (cases r)
    case (Inl e)
    with calm s have "\<not> calm" by (auto simp: holds_def)
    then have "wp (k (Inl e)) Q (\<lambda>_. E) (s\<lparr>op_faults := fs\<rparr>)" using assms(2) [of "Inl e"] next_ by (auto simp: opens_def)
    with run Inl show ?thesis by (simp add: wp_def op_query_def gbind_def)
  next
    case (Inr u)
    have "wp (k outcome) Q (\<lambda>_. E) (s\<lparr>op_faults := fs\<rparr>)" using assms(2) [of outcome] next_ by (auto simp: opens_def)
    with run Inr assms(1) [OF next_] show ?thesis by (cases outcome) (simp_all add: wp_def op_query_def gbind_def)
  qed
qed

text \<open>Applying the next migration moves the file on; applying one that is there fails and needs a failure to be tried.\<close>

lemma apply_step:
  assumes v: "v = 0 \<and> ns = initial_objects \<or> v = 1 \<and> ns = attempt_objects" and "v \<le> m" and c: "migrated x0 m c" and tried: "v = m \<or> \<not> calm"
    and failed: "\<And>s. file_at b x0 calm m s \<Longrightarrow> \<not> calm \<Longrightarrow> E s"
  shows "opens (at b c None calm) (apply_migration (int v + 1) (create_objects ns)) (\<lambda>_. file_at b x0 calm (max m (Suc v))) E"
proof (rule opens_post [OF apply_migration_opens])
  have v2: "v < 2" using v by auto
  fix s
  {
    assume "\<exists>x y now. create_objects ns c = Inr x \<and> insert_version (int v + 1) now x = Inr y \<and> at b y None calm s"
    then obtain x y now where run: "create_objects ns c = Inr x" "insert_version (int v + 1) now x = Inr y" "at b y None calm s" by blast
    have m: "m = v" using objects_next(2) [OF c v] run(1) \<open>v \<le> m\<close> by (cases "v < m") auto
    with run(1) objects_next(1) [OF c v] have "x = c\<lparr>sc_objects := stage_objects (Suc v)\<rparr>" by simp
    with run(2) have "migrated x0 (Suc v) y" using version_next [of x0 v c] c m v2 by simp
    with run(3) m show "file_at b x0 calm (max m (Suc v)) s" by (auto simp: file_at_def)
  next
    assume s: "at b c None calm s \<and> (calm \<longrightarrow> (\<exists>e. create_objects ns c = Inl e) \<or>
      (\<exists>x e now. create_objects ns c = Inr x \<and> insert_version (int v + 1) now x = Inl e))"
    have "\<not> calm"
    proof
      assume calm
      with tried have m: "m = v" by simp
      with objects_next(1) [OF c v] have "create_objects ns c = Inr (c\<lparr>sc_objects := stage_objects (Suc v)\<rparr>)" by simp
      with s \<open>calm\<close> obtain e now where "insert_version (int v + 1) now (c\<lparr>sc_objects := stage_objects (Suc v)\<rparr>) = Inl e" by auto
      moreover have "migrated x0 v c" using c m by simp
      ultimately show False using version_fits [of x0 v c now] v2 by simp
    qed
    with failed s c show "E s" by (auto simp: file_at_def)
  }
qed

lemma migration_step:
  assumes v: "v = 0 \<and> ns = initial_objects \<or> v = 1 \<and> ns = attempt_objects" and "v \<le> m"
    and name: "has_suffix name ''.sql''" "atoi (takeWhile (\<lambda>c. c \<noteq> CHR ''_'') name) = Some (int v + 1)"
    and rest: "opens (file_at b x0 calm (max m (Suc v))) (migrate_entries es) Q E"
    and failed: "\<And>s. file_at b x0 calm m s \<Longrightarrow> \<not> calm \<Longrightarrow> E s"
  shows "opens (file_at b x0 calm m) (migrate_entries ((name, False, create_objects ns) # es)) Q E"
  unfolding file_at_def
proof (rule opens_ex, rule opens_assume)
  fix c assume c: "migrated x0 m c"
  have v2: "v < 2" using v by auto
  let ?first = "if m = 0 then Inl (DriverErr ''SQL logic error: no such table: schema_migrations (1)'') else Inr (if v < m then 1 else 0 :: nat)"
  have skip: "opens (at b c None calm) (migrate_entries es) Q E" if "v < m"
    by (rule opens_pre [OF rest]) (use c that in \<open>auto simp: file_at_def max_absorb1\<close>)
  have apply_: "opens (at b c None calm) (gbind (apply_migration (int v + 1) (create_objects ns)) (\<lambda>_. migrate_entries es)) Q E" if "v = m \<or> \<not> calm"
    by (rule opens_gbind [OF apply_step [OF v \<open>v \<le> m\<close> c that failed] rest])
  let ?k = "\<lambda>r :: go_error + nat. case (case r of Inl err \<Rightarrow> if contains (error_text err) ''no such table'' then Inr 0 else Inl err | Inr n \<Rightarrow> Inr n) of
      Inl err \<Rightarrow> gthrow err
    | Inr applied \<Rightarrow> if 0 < applied then migrate_entries es
        else gbind (apply_migration (int v + 1) (create_objects ns)) (\<lambda>_. migrate_entries es)"
  have entry: "migrate_entries ((name, False, create_objects ns) # es) = gtry (op_query (applied_count (int v + 1))) ?k"
    using name by simp
  show "opens (at b c None calm) (migrate_entries ((name, False, create_objects ns) # es)) Q E"
    unfolding entry
  proof (rule opens_try_query [where outcome = ?first])
    show "applied_count (int v + 1) s = ?first" if "at b c None calm s" for s
      using count_next [of x0 m s v] c v2 that by (simp add: holds_def)
  next
    fix r :: "go_error + nat" assume r: "r = ?first \<or> \<not> calm \<and> (\<exists>e. r = Inl e)"
    have thrown: "opens (at b c None calm) (gthrow e) Q E" if "\<not> calm" for e
      by (rule opens_gthrow) (use that failed c in \<open>auto simp: file_at_def\<close>)
    show "opens (at b c None calm) (?k r) Q E"
    proof (cases r)
      case (Inl e)
      with r missing_table have "contains (error_text e) ''no such table'' \<and> (v = m \<or> \<not> calm) \<or> \<not> calm"
        using \<open>v \<le> m\<close> by (auto split: if_splits)
      with Inl apply_ thrown show ?thesis by auto
    next
      case (Inr n)
      with r have n: "n = (if v < m then 1 else 0)" by (auto split: if_splits)
      with Inr skip apply_ \<open>v \<le> m\<close> show ?thesis by auto
    qed
  qed
qed

lemma sorted_files: "sort_key (\<lambda>(name, _). name) migration_files = migration_files"
proof -
  have "sorted (map (\<lambda>(name, _). name) migration_files)" by code_simp
  then show ?thesis by (rule sort_key_id_if_sorted)
qed

lemma migration_names:
  "has_suffix ''001_initial.sql'' ''.sql''" "has_suffix ''002_capture_attempts.sql'' ''.sql''"
  "atoi (takeWhile (\<lambda>c. c \<noteq> CHR ''_'') ''001_initial.sql'') = Some (int 0 + 1)"
  "atoi (takeWhile (\<lambda>c. c \<noteq> CHR ''_'') ''002_capture_attempts.sql'') = Some (int 1 + 1)"
  by (simp_all add: has_suffix_def atoi_def parse_decimal_def)

text \<open>Every shipped migration is applied, or an error leaves the file at a stage between.\<close>

definition stopped_at :: "bool \<Rightarrow> schema \<Rightarrow> bool \<Rightarrow> nat \<Rightarrow> connection_state \<Rightarrow> bool" where
  "stopped_at b x0 calm m s \<longleftrightarrow> \<not> calm \<and> (\<exists>m' \<ge> m. file_at b x0 calm m' s)"

lemma migrate_opens:
  assumes "m \<le> 2"
  shows "opens (file_at b x0 calm m) (migrate migration_files) (\<lambda>_. file_at b x0 calm 2) (stopped_at b x0 calm m)"
proof -
  have two: "max (max m (Suc 0)) (Suc 1) = 2" using assms by (simp add: max_def)
  have "opens (file_at b x0 calm m) (migrate_entries [(''001_initial.sql'', False, create_objects initial_objects),
      (''002_capture_attempts.sql'', False, create_objects attempt_objects)]) (\<lambda>_. file_at b x0 calm 2) (stopped_at b x0 calm m)"
  proof (rule migration_step [where v = 0])
    show "opens (file_at b x0 calm (max m (Suc 0))) (migrate_entries [(''002_capture_attempts.sql'', False, create_objects attempt_objects)])
        (\<lambda>_. file_at b x0 calm 2) (stopped_at b x0 calm m)"
    proof (rule migration_step [where v = 1])
      show "opens (file_at b x0 calm (max (max m (Suc 0)) (Suc 1))) (migrate_entries []) (\<lambda>_. file_at b x0 calm 2) (stopped_at b x0 calm m)"
        unfolding two by (simp add: opens_gret)
    qed (use migration_names in \<open>auto simp: stopped_at_def intro: exI [of _ "max m (Suc 0)"]\<close>)
  qed (use migration_names in \<open>auto simp: stopped_at_def\<close>)
  then show ?thesis unfolding migrate_def sorted_files unfolding migration_files_def .
qed

section \<open>Settings and the probe\<close>

definition wal_settings :: settings where
  "wal_settings = \<lparr>JournalMode = ''wal'', ForeignKeys = True, BusyTimeout = 5000000000\<rparr>"

abbreviation tuned :: "(connection_state \<Rightarrow> bool) \<Rightarrow> bool \<Rightarrow> schema \<Rightarrow> schema option \<Rightarrow> bool \<Rightarrow> connection_state \<Rightarrow> bool" where
  "tuned J b c wk calm s \<equiv> at b c wk calm s \<and> J s"

lemma opens_set:
  assumes "\<And>s. op_open (f s) = op_open s \<and> op_committed (f s) = op_committed s \<and> op_working (f s) = op_working s
      \<and> op_faults (f s) = op_faults s \<and> op_wal (f s) = op_wal s \<and> op_fts5 (f s) = op_fts5 s"
    and "\<And>s fs. J s \<Longrightarrow> J (s\<lparr>op_faults := fs\<rparr>)" and "\<And>s. at b c wk calm s \<Longrightarrow> J s \<Longrightarrow> K (f s)"
  shows "opens (tuned J b c wk calm) (op_update f) (\<lambda>_. tuned K b c wk calm) (\<lambda>s. at b c wk calm s \<and> \<not> calm)"
  unfolding op_update_def by (rule opens_step_with) (use assms in \<open>simp_all add: wp_def holds_def\<close>)

lemma opens_get:
  assumes "\<And>s fs. J s \<Longrightarrow> J (s\<lparr>op_faults := fs\<rparr>)"
  shows "opens (tuned J b c wk calm) (op_query (\<lambda>s. Inr (f s))) (\<lambda>x s. x = f s \<and> tuned J b c wk calm s) (\<lambda>s. at b c wk calm s \<and> \<not> calm)"
  unfolding op_query_def by (rule opens_step_with) (use assms in \<open>simp_all add: wp_def holds_def\<close>)

lemma configure_opens:
  "opens (at b c None calm) configure (\<lambda>st s. st = wal_settings \<and> at b c None calm s) (\<lambda>s. at b c None calm s \<and> \<not> calm)"
proof -
  let ?E = "\<lambda>s. at b c None calm s \<and> \<not> calm"
  let ?w = "\<lambda>s. calm \<longrightarrow> op_journal s = ''wal''"
  let ?wf = "\<lambda>s. ?w s \<and> op_foreign_keys s = 1"
  let ?all = "\<lambda>s. ?wf s \<and> op_busy_timeout s = 5000"
  have 1: "opens (tuned (\<lambda>_. True) b c None calm) (op_update (\<lambda>s. if op_wal s then s\<lparr>op_journal := ''wal''\<rparr> else s)) (\<lambda>_. tuned ?w b c None calm) ?E"
    by (rule opens_set) (auto simp: holds_def)
  have 2: "opens (tuned ?w b c None calm) (op_update (\<lambda>s. s\<lparr>op_foreign_keys := 1\<rparr>)) (\<lambda>_. tuned ?wf b c None calm) ?E"
    by (rule opens_set) auto
  have 3: "opens (tuned ?wf b c None calm) (op_update (\<lambda>s. s\<lparr>op_busy_timeout := 5000\<rparr>)) (\<lambda>_. tuned ?all b c None calm) ?E"
    by (rule opens_set) auto
  have 4: "opens (tuned ?all b c None calm) (op_update (\<lambda>s. s)) (\<lambda>_. tuned ?all b c None calm) ?E"
    by (rule opens_set) auto
  have get: "opens (tuned J b c None calm) (op_query (\<lambda>s. Inr (f s))) (\<lambda>x s. tuned (\<lambda>s. J s \<and> x = f s) b c None calm s) ?E"
    if "\<And>s fs. J s \<Longrightarrow> J (s\<lparr>op_faults := fs\<rparr>)" for J and f :: "connection_state \<Rightarrow> 'a"
    by (rule opens_post [OF opens_get]) (use that in auto)
  have finish: "opens (tuned (\<lambda>s. ((?all s \<and> j = op_journal s) \<and> f = op_foreign_keys s) \<and> t = op_busy_timeout s) b c None calm)
      (if map lower j \<noteq> ''wal'' \<or> f \<noteq> 1 \<or> t \<le> 0 then gthrow (ErrNew ''SQLite settings not effective'')
       else gret \<lparr>JournalMode = map lower j, ForeignKeys = (f = 1), BusyTimeout = t * 1000000\<rparr>)
      (\<lambda>st s. st = wal_settings \<and> at b c None calm s) ?E" for j f t
    by (auto simp: opens_def wp_simps wal_settings_def holds_def lower_def)
  have "opens (tuned (\<lambda>_. True) b c None calm) configure (\<lambda>st s. st = wal_settings \<and> at b c None calm s) ?E"
    unfolding configure_def
    by (rule opens_gbind [OF 1], rule opens_gbind [OF 2], rule opens_gbind [OF 3], rule opens_gbind [OF 4],
        rule opens_gbind [OF get], simp, rule opens_gbind [OF get], simp, rule opens_gbind [OF get], simp, rule finish)
  then show ?thesis by simp
qed

text \<open>A program whose error is handled by a cleanup of the state.\<close>

lemma opens_undo:
  assumes "opens (at b c (Some c) calm) body (\<lambda>_. at b c None calm) (\<lambda>s. at b c (Some c) calm s \<and> \<not> calm)"
  shows "opens (at b c (Some c) calm)
      (\<lambda>s0. case body s0 of (Inl e, s) \<Rightarrow> (Inl e, op_rollback (s\<lparr>op_probe := op_probe s0\<rparr>)) | (Inr x, s) \<Rightarrow> (Inr x, op_rollback s))
      (\<lambda>_. at b c None calm) (\<lambda>s. at b c None calm s \<and> \<not> calm)"
  using assms unfolding opens_def wp_def by (fastforce simp: op_rollback_def holds_def split: sum.splits prod.splits)

lemma opens_or_close:
  assumes "opens P body Q E" and "\<And>s. E s \<Longrightarrow> F (op_close s)"
  shows "opens P (\<lambda>s0. case body s0 of (Inl err, s) \<Rightarrow> (Inl err, op_close s) | (Inr a, s) \<Rightarrow> (Inr a, s)) Q F"
  using assms unfolding opens_def wp_def by (fastforce split: sum.splits prod.splits)

lemma VerifyFTS5_opens: "opens (at b c None calm) VerifyFTS5 (\<lambda>_. at b c None calm) (\<lambda>s. at b c None calm s \<and> \<not> calm)"
proof -
  let ?E = "\<lambda>s. at b c (Some c) calm s \<and> \<not> calm"
  have 1: "opens (tuned (\<lambda>_. True) b c (Some c) calm) (op_update (\<lambda>s. s\<lparr>op_probe := None\<rparr>)) (\<lambda>_. tuned (\<lambda>_. True) b c (Some c) calm) ?E"
    by (rule opens_set) auto
  have 2: "opens (tuned (\<lambda>_. True) b c (Some c) calm)
      (gbind op_step (\<lambda>_ s. if op_fts5 s then (Inr (), s\<lparr>op_probe := Some []\<rparr>) else (Inl (DriverErr ''SQL logic error: no such module: fts5 (1)''), s)))
      (\<lambda>_. tuned (\<lambda>s. op_probe s = Some []) b c (Some c) calm) ?E"
    by (rule opens_step_with) (auto simp: wp_def holds_def)
  have 3: "opens (tuned (\<lambda>s. op_probe s = Some []) b c (Some c) calm)
      (op_update (\<lambda>s. s\<lparr>op_probe := map_option (\<lambda>rows. rows @ [probe_token]) (op_probe s)\<rparr>))
      (\<lambda>_. tuned (\<lambda>s. op_probe s = Some [probe_token]) b c (Some c) calm) ?E"
    by (rule opens_set) auto
  have 4: "opens (tuned (\<lambda>s. op_probe s = Some [probe_token]) b c (Some c) calm)
      (op_query (\<lambda>s. Inr (case op_probe s of None \<Rightarrow> 0 | Some rows \<Rightarrow> length (filter ((=) probe_token) rows))))
      (\<lambda>n s. n = 1 \<and> at b c (Some c) calm s) ?E"
    by (rule opens_post [OF opens_get]) auto
  have 5: "opens (\<lambda>s. n = 1 \<and> at b c (Some c) calm s) (if n \<noteq> 1 then gthrow (ErrNew ''FTS5 probe match count, want 1'') else op_commit)
      (\<lambda>_. at b c None calm) ?E" for n :: nat
  proof (rule opens_assume)
    assume "n = 1"
    then show "opens (at b c (Some c) calm) (if n \<noteq> 1 then gthrow (ErrNew ''FTS5 probe match count, want 1'') else op_commit) (\<lambda>_. at b c None calm) ?E"
      using opens_commit [of b c c calm] by simp
  qed
  let ?body = "gbind (gwrap ''clear FTS5 probe'' (op_update (\<lambda>s. s\<lparr>op_probe := None\<rparr>))) (\<lambda>_.
       gbind (gwrap ''FTS5 unavailable'' (gbind op_step (\<lambda>_ s.
         if op_fts5 s then (Inr (), s\<lparr>op_probe := Some []\<rparr>) else (Inl (DriverErr ''SQL logic error: no such module: fts5 (1)''), s)))) (\<lambda>_.
       gbind (gwrap ''FTS5 probe insert'' (op_update (\<lambda>s. s\<lparr>op_probe := map_option (\<lambda>rows. rows @ [probe_token]) (op_probe s)\<rparr>))) (\<lambda>_.
       gbind (gwrap ''FTS5 probe match'' (op_query (\<lambda>s. Inr (case op_probe s of None \<Rightarrow> 0 | Some rows \<Rightarrow> length (filter ((=) probe_token) rows))))) (\<lambda>n.
         if n \<noteq> 1 then gthrow (ErrNew ''FTS5 probe match count, want 1'') else op_commit))))"
  have body: "opens (tuned (\<lambda>_. True) b c (Some c) calm) ?body (\<lambda>_. at b c None calm) ?E"
    by (rule opens_gbind [OF opens_gwrap [OF 1]], rule opens_gbind [OF opens_gwrap [OF 2]], rule opens_gbind [OF opens_gwrap [OF 3]],
        rule opens_gbind [OF opens_gwrap [OF 4]], rule 5)
  show ?thesis unfolding VerifyFTS5_def by (rule opens_gbind [OF opens_begin opens_undo]) (rule opens_pre [OF body], simp)
qed

section \<open>Open\<close>

lemma file_atI: "migrated x0 m c \<Longrightarrow> op_open s = b \<Longrightarrow> holds c None calm s \<Longrightarrow> file_at b x0 calm m s"
  by (auto simp: file_at_def)

lemma stopped_atI:
  "migrated x0 m' c \<Longrightarrow> op_open s = b \<Longrightarrow> holds c None calm s \<Longrightarrow> \<not> calm \<Longrightarrow> m \<le> m' \<Longrightarrow> stopped_at b x0 calm m s"
  by (auto simp: stopped_at_def intro: file_atI)

lemma opens_file: "(\<And>c. migrated x0 m c \<Longrightarrow> opens (at b c None calm) p Q E) \<Longrightarrow> opens (file_at b x0 calm m) p Q E"
  unfolding file_at_def by (rule opens_ex, rule opens_assume)

lemma prepared_opens:
  assumes "m \<le> 2"
  shows "opens (file_at b x0 calm m) (gbind configure (\<lambda>st. gbind (migrate migration_files) (\<lambda>_. gbind VerifyFTS5 (\<lambda>_. gret st))))
    (\<lambda>st s. st = wal_settings \<and> file_at b x0 calm 2 s) (stopped_at b x0 calm m)"
proof (rule opens_gbind)
  show "opens (file_at b x0 calm m) configure (\<lambda>st s. st = wal_settings \<and> file_at b x0 calm m s) (stopped_at b x0 calm m)"
    by (rule opens_file, rule opens_post [OF configure_opens]) (auto intro: file_atI stopped_atI)
  have probe: "opens (file_at b x0 calm 2) VerifyFTS5 (\<lambda>_. file_at b x0 calm 2) (stopped_at b x0 calm m)"
    by (rule opens_file, rule opens_post [OF VerifyFTS5_opens]) (use assms in \<open>auto intro: file_atI stopped_atI\<close>)
  show "opens (\<lambda>s. st = wal_settings \<and> file_at b x0 calm m s) (gbind (migrate migration_files) (\<lambda>_. gbind VerifyFTS5 (\<lambda>_. gret st)))
      (\<lambda>st s. st = wal_settings \<and> file_at b x0 calm 2 s) (stopped_at b x0 calm m)" for st
    by (rule opens_assume, rule opens_gbind [OF migrate_opens [OF assms]], rule opens_gbind [OF probe], rule opens_gret) simp
qed

lemma opens_first:
  "opens (file_at b x0 calm m) op_step (\<lambda>_. file_at b x0 calm m) (\<lambda>s. file_at b x0 calm m s \<and> \<not> calm)"
  unfolding opens_def
proof (intro allI impI)
  fix s assume s: "file_at b x0 calm m s"
  obtain r fs where run: "op_step s = (r, s\<lparr>op_faults := fs\<rparr>)" and faults: "op_faults s = [] \<longrightarrow> r = Inr () \<and> fs = []"
    using op_step_cases by blast
  have "file_at b x0 calm m (s\<lparr>op_faults := fs\<rparr>)" using s faults by (auto simp: file_at_def holds_def)
  moreover have "\<not> calm" if "r = Inl e" for e using that s faults by (auto simp: file_at_def holds_def)
  ultimately show "wp op_step (\<lambda>_. file_at b x0 calm m) (\<lambda>_ s. file_at b x0 calm m s \<and> \<not> calm) s"
    using run by (auto simp: wp_def split: sum.split)
qed

lemma stopped_at_closed: "stopped_at True x0 calm m s \<Longrightarrow> stopped_at False x0 calm m (op_close s)"
  unfolding stopped_at_def file_at_def holds_def op_close_def by simp blast

lemma Open_opens:
  assumes "m \<le> 2" "path \<noteq> ''''"
  shows "opens (file_at False x0 calm m) (Open migration_files path)
    (\<lambda>st s. st = wal_settings \<and> file_at True x0 calm 2 s) (stopped_at False x0 calm m)"
proof -
  let ?F = "stopped_at False x0 calm m"
  have first: "opens (file_at False x0 calm m) (gwrap msg op_step) (\<lambda>_. file_at False x0 calm m) ?F" for msg
    by (rule opens_gwrap, rule opens_post [OF opens_first]) (auto simp: stopped_at_def)
  have opened: "opens (file_at False x0 calm m) (gwrap msg (op_update (\<lambda>s. s\<lparr>op_open := True\<rparr>))) (\<lambda>_. file_at True x0 calm m) ?F" for msg
    unfolding op_update_def
    by (rule opens_gwrap, rule opens_file, rule opens_step) (auto simp: wp_def holds_def intro: file_atI stopped_atI)
  let ?body = "gbind configure (\<lambda>settings. gbind (migrate migration_files) (\<lambda>_. gbind VerifyFTS5 (\<lambda>_. gret settings)))"
  have close: "opens (file_at True x0 calm m) (\<lambda>s0. case ?body s0 of (Inl err, s) \<Rightarrow> (Inl err, op_close s) | (Inr settings, s) \<Rightarrow> (Inr settings, s))
      (\<lambda>st s. st = wal_settings \<and> file_at True x0 calm 2 s) ?F"
    by (rule opens_or_close [OF prepared_opens [OF assms(1)]]) (rule stopped_at_closed)
  have "opens (file_at False x0 calm m) (
        gbind (gwrap ''create database directory'' op_step) (\<lambda>_.
        gbind (gwrap ''create database file'' op_step) (\<lambda>_.
        gbind (gwrap ''close database file'' op_step) (\<lambda>_.
        gbind (gwrap ''protect database file'' op_step) (\<lambda>_.
        gbind (gwrap ''open sqlite database'' (op_update (\<lambda>s. s\<lparr>op_open := True\<rparr>))) (\<lambda>_ s0.
          case ?body s0 of (Inl err, s) \<Rightarrow> (Inl err, op_close s) | (Inr settings, s) \<Rightarrow> (Inr settings, s)))))))
      (\<lambda>st s. st = wal_settings \<and> file_at True x0 calm 2 s) ?F"
    by (rule opens_gbind [OF first], rule opens_gbind [OF first], rule opens_gbind [OF first], rule opens_gbind [OF first],
        rule opens_gbind [OF opened], rule close)
  with assms(2) show ?thesis unfolding Open_def by simp
qed

end
