(* ===== verification/OpeningProps.thy ===== *)
theory OpeningProps
  imports OpeningFacts
begin

text \<open>Opening the store brings the file to the last migration, from any stage and through any failure.\<close>

text \<open>
  C32: \<open>Open\<close> applies every migration once and each as a whole: from a file at stage \<open>m\<close> it leaves,
  whatever fails on the way, a file at a stage no smaller, with the version rows that were there first and the data untouched and no
  transaction under way; when it returns a store the file is at the last stage and the settings are those asked for, when it returns an
  error the connection is closed, and without failures, on a file system with WAL and a build with FTS5, it returns a store.
\<close>

theorem open_migrates:
  assumes "op_working s = None" and "\<not> op_open s" and "migrated (op_committed s) m (op_committed s)" and "Open migration_files path s = (r, s')"
  shows "op_working s' = None \<and> (\<exists>m' \<ge> m. migrated (op_committed s) m' (op_committed s'))
    \<and> (case r of Inr st \<Rightarrow> st = wal_settings \<and> op_open s' \<and> migrated (op_committed s) 2 (op_committed s') | Inl e \<Rightarrow> \<not> op_open s')
    \<and> (path \<noteq> '''' \<and> op_faults s = [] \<and> op_wal s \<and> op_fts5 s \<longrightarrow> r = Inr wal_settings)"
proof (cases "path = ''''")
  case True
  with assms show ?thesis by (auto simp: Open_def gthrow_def)
next
  case False
  let ?calm = "op_faults s = [] \<and> op_wal s \<and> op_fts5 s"
  have m: "m \<le> 2" using assms(3) by (simp add: migrated_def)
  have "file_at False (op_committed s) ?calm m s" using assms(1-3) by (auto simp: file_at_def holds_def)
  with Open_opens [OF m False, of "op_committed s" ?calm]
  have "wp (Open migration_files path) (\<lambda>st s'. st = wal_settings \<and> file_at True (op_committed s) ?calm 2 s') (\<lambda>_. stopped_at False (op_committed s) ?calm m) s"
    unfolding opens_def by blast
  then have run: "case r of Inl e \<Rightarrow> stopped_at False (op_committed s) ?calm m s' | Inr st \<Rightarrow> st = wal_settings \<and> file_at True (op_committed s) ?calm 2 s'"
    using assms(4) unfolding wp_def by simp
  show ?thesis
  proof (cases r)
    case (Inl e)
    with run show ?thesis by (auto simp: stopped_at_def file_at_def holds_def)
  next
    case (Inr st)
    with run m show ?thesis by (auto simp: file_at_def holds_def)
  qed
qed

definition fresh_file :: connection_state where
  "fresh_file = \<lparr>op_committed = \<lparr>sc_objects = [], sc_versions = [], sc_data = empty_database\<rparr>, op_working = None, op_probe = None, op_journal = ''delete'',
     op_foreign_keys = 0, op_busy_timeout = 0, op_wal = True, op_fts5 = True, op_open = False, op_faults = [], op_clock = 0\<rparr>"

theorem open_migrates_witness: "map fst (sc_versions (op_committed (snd (Open migration_files ''evidence.db'' fresh_file)))) = [1, 2]"
proof -
  have "migrated (op_committed fresh_file) 0 (op_committed fresh_file)"
    by (simp add: migrated_def fresh_file_def stage_objects_def)
  moreover have "op_working fresh_file = None" "\<not> op_open fresh_file" "op_faults fresh_file = [] \<and> op_wal fresh_file \<and> op_fts5 fresh_file"
    by (simp_all add: fresh_file_def)
  ultimately have "migrated (op_committed fresh_file) 2 (op_committed (snd (Open migration_files ''evidence.db'' fresh_file)))"
    using open_migrates [of fresh_file 0 "''evidence.db''" "fst (Open migration_files ''evidence.db'' fresh_file)"
        "snd (Open migration_files ''evidence.db'' fresh_file)"]
    by auto
  then show ?thesis by (simp add: migrated_def)
qed

end
