(* ===== verification/Flags.thy ===== *)
theory Flags
  imports GoStrings Attempts
begin

text \<open>
  What the commands use of Go's \<open>flag\<close> package: flag sets with boolean, \<open>int\<close>, \<open>uint64\<close> and string
  flags, their parsing, and what a failed parse prints.
\<close>

section \<open>Literals\<close>

text \<open>\<open>strconv.ParseInt\<close> and \<open>ParseUint\<close> with base 0: a prefix selects the base and underscores may separate digits.\<close>

datatype number_error = ErrSyntax | ErrRange

definition digit_of :: "char \<Rightarrow> nat option" where
  "digit_of c =
     (let n = of_char c; l = of_char (lower c) in
      if 48 \<le> n \<and> n \<le> (57 :: nat) then Some (n - 48)
      else if 97 \<le> l \<and> l \<le> (122 :: nat) then Some (l - 97 + 10)
      else None)"

fun accumulate :: "nat \<Rightarrow> nat \<Rightarrow> string \<Rightarrow> number_error + nat" where
  "accumulate base n [] = Inr n"
| "accumulate base n (c # cs) =
     (if c = CHR ''_'' then accumulate base n cs
      else case digit_of c of
        None \<Rightarrow> Inl ErrSyntax
      | Some d \<Rightarrow>
          if base \<le> d then Inl ErrSyntax
          else if 2 ^ 64 \<le> n * base + d then Inl ErrRange
          else accumulate base (n * base + d) cs)"

definition base_of :: "string \<Rightarrow> nat \<times> string" where
  "base_of s =
     (if s = '''' \<or> hd s \<noteq> CHR ''0'' then (10, s)
      else if 3 \<le> length s \<and> lower (s ! 1) = CHR ''b'' then (2, drop 2 s)
      else if 3 \<le> length s \<and> lower (s ! 1) = CHR ''o'' then (8, drop 2 s)
      else if 3 \<le> length s \<and> lower (s ! 1) = CHR ''x'' then (16, drop 2 s)
      else (8, drop 1 s))"

text \<open>The state is the kind of the character before: a digit (or the prefix), an underscore, or something else.\<close>

fun underscores_from :: "bool \<Rightarrow> char \<Rightarrow> string \<Rightarrow> bool" where
  "underscores_from hex before [] = (before \<noteq> CHR ''_'')"
| "underscores_from hex before (c # cs) =
     (if CHR ''0'' \<le> c \<and> c \<le> CHR ''9'' \<or> hex \<and> CHR ''a'' \<le> lower c \<and> lower c \<le> CHR ''f'' then underscores_from hex CHR ''0'' cs
      else if c = CHR ''_'' then before = CHR ''0'' \<and> underscores_from hex CHR ''_'' cs
      else before \<noteq> CHR ''_'' \<and> underscores_from hex CHR ''!'' cs)"

definition underscore_ok :: "string \<Rightarrow> bool" where
  "underscore_ok s =
     (if 2 \<le> length s \<and> hd s = CHR ''0'' \<and> lower (s ! 1) \<in> {CHR ''b'', CHR ''o'', CHR ''x''}
        then underscores_from (lower (s ! 1) = CHR ''x'') CHR ''0'' (drop 2 s)
      else underscores_from False CHR ''^'' s)"

definition parse_uint0 :: "string \<Rightarrow> number_error + nat" where
  "parse_uint0 s =
     (if s = '''' then Inl ErrSyntax
      else case base_of s of (base, digits) \<Rightarrow>
        (case accumulate base 0 digits of
           Inl e \<Rightarrow> Inl e
         | Inr n \<Rightarrow> if CHR ''_'' \<in> set digits \<and> \<not> underscore_ok s then Inl ErrSyntax else Inr n))"

definition parse_int0 :: "string \<Rightarrow> number_error + int" where
  "parse_int0 s =
     (let negative = (s \<noteq> '''' \<and> hd s = CHR ''-''); magnitude = (if s \<noteq> '''' \<and> hd s \<in> {CHR ''-'', CHR ''+''} then tl s else s) in
      case parse_uint0 magnitude of
        Inl e \<Rightarrow> Inl e
      | Inr n \<Rightarrow>
          if \<not> negative \<and> 2 ^ 63 \<le> n \<or> negative \<and> 2 ^ 63 < n then Inl ErrRange
          else Inr (if negative then - int n else int n))"

definition parse_bool :: "string \<Rightarrow> bool option" where
  "parse_bool s =
     (if s \<in> set [''1'', ''t'', ''T'', ''true'', ''TRUE'', ''True''] then Some True
      else if s \<in> set [''0'', ''f'', ''F'', ''false'', ''FALSE'', ''False''] then Some False
      else None)"

section \<open>Flag sets\<close>

datatype flag_value = BoolFlag bool | IntFlag int | UintFlag u64 | StringFlag string

text \<open>A flag: its name, its usage, its value and its default, which fixes the type.\<close>

record flag_def =
  fg_Name :: string
  fg_Usage :: string
  fg_Value :: flag_value
  fg_Default :: flag_value

definition new_flag :: "string \<Rightarrow> string \<Rightarrow> flag_value \<Rightarrow> flag_def" where
  "new_flag name usage v = \<lparr>fg_Name = name, fg_Usage = usage, fg_Value = v, fg_Default = v\<rparr>"

fun set_value :: "flag_value \<Rightarrow> string \<Rightarrow> string + flag_value" where
  "set_value (BoolFlag _) s = (case parse_bool s of None \<Rightarrow> Inl ''parse error'' | Some b \<Rightarrow> Inr (BoolFlag b))"
| "set_value (IntFlag _) s =
     (case parse_int0 s of Inl ErrSyntax \<Rightarrow> Inl ''parse error'' | Inl ErrRange \<Rightarrow> Inl ''value out of range'' | Inr n \<Rightarrow> Inr (IntFlag n))"
| "set_value (UintFlag _) s =
     (case parse_uint0 s of Inl ErrSyntax \<Rightarrow> Inl ''parse error'' | Inl ErrRange \<Rightarrow> Inl ''value out of range''
      | Inr n \<Rightarrow> Inr (UintFlag (of_nat n)))"
| "set_value (StringFlag _) s = Inr (StringFlag s)"

definition is_bool :: "flag_value \<Rightarrow> bool" where
  "is_bool v = (case v of BoolFlag _ \<Rightarrow> True | _ \<Rightarrow> False)"

definition find_flag :: "flag_def list \<Rightarrow> string \<Rightarrow> flag_def option" where
  "find_flag fs name = find (\<lambda>f. fg_Name f = name) fs"

definition set_flag :: "flag_def list \<Rightarrow> string \<Rightarrow> string \<Rightarrow> string + flag_def list" where
  "set_flag fs name text =
     (case find_flag fs name of
        None \<Rightarrow> Inl ''no such flag''
      | Some f \<Rightarrow>
          (case set_value (fg_Value f) text of
             Inl e \<Rightarrow> Inl e
           | Inr v \<Rightarrow> Inr (map (\<lambda>g. if fg_Name g = name then g\<lparr>fg_Value := v\<rparr> else g) fs)))"

section \<open>Parsing\<close>

definition flag_help :: go_error where
  "flag_help = ErrNew ''flag: help requested''"

text \<open>An argument that is a flag: its name and the value behind an equals sign; \<open>None\<close> when it is malformed.\<close>

definition flag_argument :: "string \<Rightarrow> (string \<times> string option) option" where
  "flag_argument s =
     (let text = (if 2 \<le> length s \<and> s ! 1 = CHR ''-'' then drop 2 s else drop 1 s) in
      if text = '''' \<or> hd text = CHR ''-'' \<or> hd text = CHR ''='' then None
      else let name = takeWhile (\<lambda>c. c \<noteq> CHR ''='') text in
        Some (name, if CHR ''='' \<in> set text then Some (drop (length name + 1) text) else None))"

text \<open>\<open>FlagSet.Parse\<close>: the flags with their new values and the arguments that are left; the value of an error is not repeated in its text.\<close>

fun parse_flags :: "flag_def list \<Rightarrow> string list \<Rightarrow> go_error + (flag_def list \<times> string list)" where
  "parse_flags fs [] = Inr (fs, [])"
| "parse_flags fs (s # args) =
     (if length s < 2 \<or> hd s \<noteq> CHR ''-'' then Inr (fs, s # args)
      else if s = ''--'' then Inr (fs, args)
      else case flag_argument s of
        None \<Rightarrow> Inl (ErrNew ''bad flag syntax'')
      | Some (name, text) \<Rightarrow>
          (case find_flag fs name of
             None \<Rightarrow> Inl (if name = ''help'' \<or> name = ''h'' then flag_help else ErrNew (''flag provided but not defined: -'' @ name))
           | Some f \<Rightarrow>
               if is_bool (fg_Value f) then
                 (case set_flag fs name (case text of None \<Rightarrow> ''true'' | Some t \<Rightarrow> t) of
                    Inl e \<Rightarrow> Inl (ErrNew (''invalid boolean value for -'' @ name @ '': '' @ e))
                  | Inr fs' \<Rightarrow> parse_flags fs' args)
               else
                 (case (text, args) of
                    (Some t, _) \<Rightarrow>
                      (case set_flag fs name t of
                         Inl e \<Rightarrow> Inl (ErrNew (''invalid value for flag -'' @ name @ '': '' @ e))
                       | Inr fs' \<Rightarrow> parse_flags fs' args)
                  | (None, t # rest) \<Rightarrow>
                      (case set_flag fs name t of
                         Inl e \<Rightarrow> Inl (ErrNew (''invalid value for flag -'' @ name @ '': '' @ e))
                       | Inr fs' \<Rightarrow> parse_flags fs' rest)
                  | (None, []) \<Rightarrow> Inl (ErrNew (''flag needs an argument: -'' @ name)))))"

definition flag_bool :: "flag_def list \<Rightarrow> string \<Rightarrow> bool" where
  "flag_bool fs name = (case map_option fg_Value (find_flag fs name) of Some (BoolFlag b) \<Rightarrow> b | _ \<Rightarrow> False)"

definition flag_int :: "flag_def list \<Rightarrow> string \<Rightarrow> int" where
  "flag_int fs name = (case map_option fg_Value (find_flag fs name) of Some (IntFlag n) \<Rightarrow> n | _ \<Rightarrow> 0)"

definition flag_uint :: "flag_def list \<Rightarrow> string \<Rightarrow> u64" where
  "flag_uint fs name = (case map_option fg_Value (find_flag fs name) of Some (UintFlag n) \<Rightarrow> n | _ \<Rightarrow> 0)"

definition flag_string :: "flag_def list \<Rightarrow> string \<Rightarrow> string" where
  "flag_string fs name = (case map_option fg_Value (find_flag fs name) of Some (StringFlag s) \<Rightarrow> s | _ \<Rightarrow> '''')"

section \<open>Diagnostics\<close>

definition newline :: string where
  "newline = [CHR 0x0A]"

definition int_text :: "int \<Rightarrow> string" where
  "int_text i = (if i < 0 then CHR ''-'' # decimal (nat (- i)) else decimal (nat i))"

fun default_text :: "flag_value \<Rightarrow> string" where
  "default_text (BoolFlag b) = (if b then '' (default true)'' else '''')"
| "default_text (IntFlag n) = (if n \<noteq> 0 then '' (default '' @ int_text n @ '')'' else '''')"
| "default_text (UintFlag n) = (if n \<noteq> 0 then '' (default '' @ decimal (unat n) @ '')'' else '''')"
| "default_text (StringFlag s) = (if s \<noteq> '''' then '' (default '' @ [CHR 0x22] @ s @ [CHR 0x22] @ '')'' else '''')"

definition value_name :: "flag_value \<Rightarrow> string" where
  "value_name v = (case v of BoolFlag _ \<Rightarrow> '''' | IntFlag _ \<Rightarrow> '' int'' | UintFlag _ \<Rightarrow> '' uint'' | StringFlag _ \<Rightarrow> '' string'')"

text \<open>A line of \<open>PrintDefaults\<close>; every flag here has a name of more than one letter.\<close>

definition flag_line :: "flag_def \<Rightarrow> string" where
  "flag_line f = ''  -'' @ fg_Name f @ value_name (fg_Default f) @ newline @ ''    '' @ [CHR 0x09] @ fg_Usage f @ default_text (fg_Default f) @ newline"

text \<open>What a failed parse writes, one entry for every write: the error, unless help was asked for, and the usage.\<close>

definition flag_diagnostics :: "string \<Rightarrow> flag_def list \<Rightarrow> go_error \<Rightarrow> string list" where
  "flag_diagnostics name fs err =
     (if err = flag_help then [] else [error_text err @ newline]) @ [''Usage of '' @ name @ '':'' @ newline] @ map flag_line (sort_key fg_Name fs)"

end
