(* ===== verification/Cli.thy ===== *)
theory Cli
  imports Http Flags RuntimeDir
begin

text \<open>
  \<open>internal/cli/cli.go\<close> and \<open>cmd/pi-token-smith/main.go\<close>: the commands, over the interfaces of the client and the
  servers.
\<close>

section \<open>Files\<close>

text \<open>
  The files a command touches, by their cleaned paths (symbolic links inside a path are not seen), the
  temporary file that is open, and the scripts of the random names and of the failures: one entry for every call into the
  operating system, with the number of bytes that a failing write has taken before.
\<close>

record dir_entry =
  de_kind :: node_kind
  de_mode :: nat
  de_data :: bytes

record disk =
  dk_files :: "string \<Rightarrow> dir_entry option"
  dk_open :: "string option"
  dk_faults :: "(go_error \<times> nat) option list"
  dk_randoms :: "string list"

definition disk_step :: "disk \<Rightarrow> (go_error \<times> nat) option \<times> disk" where
  "disk_step d = (case dk_faults d of [] \<Rightarrow> (None, d) | f # later \<Rightarrow> (f, d\<lparr>dk_faults := later\<rparr>))"

definition disk_call :: "(disk \<Rightarrow> (go_error + 'a) \<times> disk) \<Rightarrow> (disk, 'a) prog" where
  "disk_call f d = (case disk_step d of (Some (e, _), d') \<Rightarrow> (Inl e, d') | (None, d') \<Rightarrow> f d')"

definition disk_lstat :: "string \<Rightarrow> (disk, dir_entry) prog" where
  "disk_lstat path = disk_call (\<lambda>d. (case dk_files d (path_clean path) of None \<Rightarrow> Inl (SysErr ''ENOENT'') | Some x \<Rightarrow> Inr x, d))"

text \<open>\<open>os.CreateTemp\<close>: the first random name that is free, among ten thousand.\<close>

definition temporary_prefix :: string where
  "temporary_prefix = ''.pi-token-smith-''"

definition in_directory :: "string \<Rightarrow> string \<Rightarrow> string" where
  "in_directory directory name = (if directory \<noteq> '''' \<and> last directory = CHR ''/'' then directory @ name else directory @ ''/'' @ name)"

definition new_temporary :: dir_entry where
  "new_temporary = \<lparr>de_kind = RegularFile, de_mode = privateFileMode, de_data = []\<rparr>"

fun create_temp_from :: "string \<Rightarrow> string list \<Rightarrow> (disk, string) prog" where
  "create_temp_from directory [] d = (Inl (SysErr ''EEXIST''), d\<lparr>dk_randoms := []\<rparr>)"
| "create_temp_from directory (r # rs) d =
     (let name = in_directory directory (temporary_prefix @ r) in
      case disk_step d of
        (Some (e, _), d') \<Rightarrow> if e = SysErr ''EEXIST'' then create_temp_from directory rs d' else (Inl e, d'\<lparr>dk_randoms := rs\<rparr>)
      | (None, d') \<Rightarrow>
          if dk_files d' (path_clean name) \<noteq> None then create_temp_from directory rs d'
          else (Inr name, d'\<lparr>dk_randoms := rs, dk_files := (dk_files d')(path_clean name \<mapsto> new_temporary), dk_open := Some (path_clean name)\<rparr>))"

definition create_temp :: "string \<Rightarrow> (disk, string) prog" where
  "create_temp directory d = create_temp_from directory (take 10000 (dk_randoms d)) d"

text \<open>The methods of the open file; a second \<open>Close\<close> reports \<open>os.ErrClosed\<close> without a call.\<close>

definition file_chmod :: "nat \<Rightarrow> (disk, unit) prog" where
  "file_chmod mode d =
     (case dk_open d of
        None \<Rightarrow> (Inl (ErrNew ''file already closed''), d)
      | Some key \<Rightarrow> disk_call (\<lambda>d. (Inr (), d\<lparr>dk_files := (dk_files d)(key := map_option (\<lambda>x. x\<lparr>de_mode := mode\<rparr>) (dk_files d key))\<rparr>)) d)"

definition file_close :: "(disk, unit) prog" where
  "file_close d =
     (case dk_open d of
        None \<Rightarrow> (Inl (ErrNew ''file already closed''), d)
      | Some _ \<Rightarrow> (case disk_step d of (f, d') \<Rightarrow> (case f of Some (e, _) \<Rightarrow> Inl e | None \<Rightarrow> Inr (), d'\<lparr>dk_open := None\<rparr>)))"

definition append_data :: "string \<Rightarrow> bytes \<Rightarrow> disk \<Rightarrow> disk" where
  "append_data key data d = d\<lparr>dk_files := (dk_files d)(key := map_option (\<lambda>x. x\<lparr>de_data := de_data x @ data\<rparr>) (dk_files d key))\<rparr>"

definition file_write :: "disk write_fn" where
  "file_write data d =
     (case dk_open d of
        None \<Rightarrow> (0, Some (ErrNew ''file already closed''), d)
      | Some key \<Rightarrow>
          if dk_files d key = None then (0, Some (SysErr ''EBADF''), d)
          else (case disk_step d of
            (None, d') \<Rightarrow> (int (length data), None, append_data key data d')
          | (Some (e, k), d') \<Rightarrow> (int (min k (length data)), Some e, append_data key (take k data) d')))"

text \<open>\<open>os.Rename\<close> refuses to replace a directory; \<open>os.Remove\<close> of a file.\<close>

definition names_directory :: "disk \<Rightarrow> string \<Rightarrow> bool" where
  "names_directory d path \<longleftrightarrow> path_base path = ''.'' \<or> path_base path = ''..'' \<or> path_base path = ''/''
     \<or> (case dk_files d (path_clean path) of None \<Rightarrow> False | Some x \<Rightarrow> de_kind x = DirectoryNode)"

definition os_rename :: "string \<Rightarrow> string \<Rightarrow> (disk, unit) prog" where
  "os_rename old new = disk_call (\<lambda>d.
     case dk_files d (path_clean old) of
       None \<Rightarrow> (Inl (SysErr ''ENOENT''), d)
     | Some x \<Rightarrow>
         if names_directory d new then (Inl (SysErr ''EEXIST''), d)
         else if last new = CHR ''/'' then (Inl (SysErr ''ENOTDIR''), d)
         else (Inr (), d\<lparr>dk_files := ((dk_files d)(path_clean old := None))(path_clean new \<mapsto> x)\<rparr>))"

definition os_remove :: "string \<Rightarrow> (disk, unit) prog" where
  "os_remove path = disk_call (\<lambda>d.
     if dk_files d (path_clean path) = None then (Inl (SysErr ''ENOENT''), d)
     else (Inr (), d\<lparr>dk_files := (dk_files d)(path_clean path := None)\<rparr>))"

section \<open>The process\<close>

text \<open>
  What a command writes to, and what it does to the objects it makes: the client it has, and the
  calls on it and on the servers, in their order.  Where a command waits for its context to end, what follows is
  what it does then.
\<close>

record outlets =
  ot_Stdout :: writer
  ot_Stderr :: writer
  ot_Disk :: disk

datatype cli_call =
    ClientMade string
  | ClientClosed
  | DaemonMade
  | DaemonStarted
  | DaemonClosed
  | HTTPMade string string
  | HTTPStarted
  | HTTPClosed
  | MCPListened
  | ContextDone

record 'c console =
  cs_Outlets :: outlets
  cs_Client :: "'c option"
  cs_Calls :: "cli_call list"

type_synonym ('c, 'a) cli = "('c console, 'a) prog"

text \<open>
  The dependencies: \<open>None\<close> is a nil function or stream.  The methods of the client are its
  interface; of the two servers and of the MCP server they are functions on their states.
\<close>

record ('c, 'd, 'h) dependencies =
  dp_HasStdin :: bool
  dp_Stdout :: "writer option"
  dp_Stderr :: "writer option"
  dp_Paths :: runtime_paths
  dp_NewClient :: "(string \<Rightarrow> 'c) option"
  dp_Client :: "('c, outlets) backend"
  dp_ClientClose :: "'c \<Rightarrow> 'c"
  dp_NewServer :: "(runtime_paths \<Rightarrow> 'd) option"
  dp_ServerStart :: "'d \<Rightarrow> go_error option \<times> 'd"
  dp_ServerClose :: "'d \<Rightarrow> go_error option \<times> 'd"
  dp_LoadHTTPToken :: "(runtime_paths \<Rightarrow> go_error + string) option"
  dp_NewHTTPServer :: "(string \<Rightarrow> string \<Rightarrow> go_error + 'h) option"
  dp_HTTPStart :: "'h \<Rightarrow> go_error option \<times> 'h"
  dp_HTTPURL :: "'h \<Rightarrow> string"
  dp_MCPListen :: "('c \<Rightarrow> outlets \<Rightarrow> go_error option \<times> 'c \<times> outlets) option"

definition called :: "cli_call \<Rightarrow> ('c, unit) cli" where
  "called x s = (Inr (), s\<lparr>cs_Calls := cs_Calls s @ [x]\<rparr>)"

definition write_out :: "bytes \<Rightarrow> ('c, unit) cli" where
  "write_out data s =
     (case writer_write data (ot_Stdout (cs_Outlets s)) of (_, e, w) \<Rightarrow>
        (case e of None \<Rightarrow> Inr () | Some err \<Rightarrow> Inl err, s\<lparr>cs_Outlets := (cs_Outlets s)\<lparr>ot_Stdout := w\<rparr>\<rparr>))"

definition write_err :: "bytes \<Rightarrow> ('c, unit) cli" where
  "write_err data s =
     (case writer_write data (ot_Stderr (cs_Outlets s)) of (_, _, w) \<Rightarrow> (Inr (), s\<lparr>cs_Outlets := (cs_Outlets s)\<lparr>ot_Stderr := w\<rparr>\<rparr>))"

text \<open>A print whose error is dropped.\<close>

definition print_out :: "string \<Rightarrow> ('c, unit) cli" where
  "print_out text = gtry (write_out (bytes_of text)) (\<lambda>_. gret ())"

text \<open>\<open>json.NewEncoder(w).Encode\<close>: the text with a newline in one write.\<close>

definition encode_out :: "json \<Rightarrow> ('c, unit) cli" where
  "encode_out v = write_out (json_text v @ [10])"

fun write_errs :: "string list \<Rightarrow> ('c, unit) cli" where
  "write_errs [] = gret ()"
| "write_errs (t # ts) = gbind (write_err (bytes_of t)) (\<lambda>_. write_errs ts)"

definition on_disk :: "(disk, 'a) prog \<Rightarrow> ('c, 'a) cli" where
  "on_disk m s = (case m (ot_Disk (cs_Outlets s)) of (r, d) \<Rightarrow> (r, s\<lparr>cs_Outlets := (cs_Outlets s)\<lparr>ot_Disk := d\<rparr>\<rparr>))"

definition stdout_write :: "outlets write_fn" where
  "stdout_write data ot = (case writer_write data (ot_Stdout ot) of (n, e, w) \<Rightarrow> (n, e, ot\<lparr>ot_Stdout := w\<rparr>))"

definition temporary_write :: "outlets write_fn" where
  "temporary_write data ot = (case file_write data (ot_Disk ot) of (n, e, d) \<Rightarrow> (n, e, ot\<lparr>ot_Disk := d\<rparr>))"

section \<open>Errors and usage\<close>

text \<open>\<open>ExitError\<close> is its message.\<close>

definition usage :: "string \<Rightarrow> ('c, 'a) cli" where
  "usage message = gthrow (ErrNew message)"

definition usage_text :: string where
  "usage_text = ''usage: pi-token-smith <daemon|status|search|inspect|doctor|serve|mcp> [options]'' @ newline"

text \<open>\<open>f.Parse(args)\<close> on a new flag set that prints to standard error.\<close>

definition parse_args :: "string \<Rightarrow> flag_def list \<Rightarrow> string list \<Rightarrow> ('c, flag_def list \<times> string list) cli" where
  "parse_args name flags args =
     (case parse_flags flags args of
        Inl err \<Rightarrow> gbind (write_errs (flag_diagnostics name flags err)) (\<lambda>_. usage (error_text err))
      | Inr x \<Rightarrow> gret x)"

section \<open>The client\<close>

definition getClient :: "('c, 'd, 'h) dependencies \<Rightarrow> ('c, unit) cli" where
  "getClient deps =
     (let socket = rp_Socket (dp_Paths deps) in
      if socket = '''' then gthrow (ErrNew ''runtime socket is empty'')
      else case dp_NewClient deps of
        None \<Rightarrow> gthrow (GoPanic ''nil function'')
      | Some new \<Rightarrow> (\<lambda>s. called (ClientMade socket) (s\<lparr>cs_Client := Some (new socket)\<rparr>)))"

definition client_call :: "('c \<Rightarrow> (go_error + 'a) \<times> 'c) \<Rightarrow> ('c, 'a) cli" where
  "client_call f s =
     (case cs_Client s of
        None \<Rightarrow> (Inl (GoPanic ''nil pointer dereference''), s)
      | Some c \<Rightarrow> (case f c of (r, c') \<Rightarrow> (r, s\<lparr>cs_Client := Some c'\<rparr>)))"

definition client_read :: "('c, outlets) backend \<Rightarrow> outlets write_fn \<Rightarrow> string \<Rightarrow> u64 \<Rightarrow> u64 \<Rightarrow> ('c, payload_metadata) cli" where
  "client_read bk wr i offset limit s =
     (case cs_Client s of
        None \<Rightarrow> (Inl (GoPanic ''nil pointer dereference''), s)
      | Some c \<Rightarrow> (case bk_ReadPayload bk wr i offset limit c (cs_Outlets s) of (r, c', ot) \<Rightarrow> (r, s\<lparr>cs_Client := Some c', cs_Outlets := ot\<rparr>)))"

text \<open>\<open>defer c.Close()\<close>, whose error is dropped.\<close>

definition close_client :: "('c, 'd, 'h) dependencies \<Rightarrow> 'c console \<Rightarrow> 'c console" where
  "close_client deps s = s\<lparr>cs_Client := map_option (dp_ClientClose deps) (cs_Client s), cs_Calls := cs_Calls s @ [ClientClosed]\<rparr>"

definition with_client :: "('c, 'd, 'h) dependencies \<Rightarrow> ('c, 'a) cli \<Rightarrow> ('c, 'a) cli" where
  "with_client deps body = gbind (getClient deps) (\<lambda>_ s. case body s of (r, s') \<Rightarrow> (r, close_client deps s'))"

section \<open>Commands\<close>

definition runDaemon :: "('c, 'd, 'h) dependencies \<Rightarrow> string list \<Rightarrow> ('c, unit) cli" where
  "runDaemon deps args =
     (if args \<noteq> [] then usage ''daemon accepts no arguments''
      else case dp_NewServer deps of
        None \<Rightarrow> gthrow (GoPanic ''nil function'')
      | Some new \<Rightarrow>
          gbind (called DaemonMade) (\<lambda>_.
          case dp_ServerStart deps (new (dp_Paths deps)) of
            (Some err, _) \<Rightarrow> gthrow (Wrap ''start daemon'' err)
          | (None, d) \<Rightarrow>
              gbind (called DaemonStarted) (\<lambda>_.
              gbind (called ContextDone) (\<lambda>_.
              gbind (called DaemonClosed) (\<lambda>_.
              case dp_ServerClose deps d of
                (Some err, _) \<Rightarrow> gthrow (Wrap ''close daemon'' err)
              | (None, _) \<Rightarrow> gret ())))))"

definition runStatus :: "('c, 'd, 'h) dependencies \<Rightarrow> string list \<Rightarrow> ('c, unit) cli" where
  "runStatus deps args =
     gbind (parse_args ''status'' [new_flag ''json'' ''output JSON'' (BoolFlag False)] args) (\<lambda>(flags, rest).
       if rest \<noteq> [] then usage ''status accepts no arguments''
       else with_client deps (
         gbind (gwrap ''daemon health'' (client_call (bk_Health (dp_Client deps)))) (\<lambda>health.
         if flag_bool flags ''json'' then encode_out (health_json health)
         else write_out (bytes_of (hl_Status health @ '' (protocol '' @ int_text (hl_Version health) @ '')'' @ newline)))))"

definition references_json :: "client_reference list option \<Rightarrow> json" where
  "references_json events = (case events of None \<Rightarrow> JNull | Some rs \<Rightarrow> JArr (map client_reference_json rs))"

definition runSearch :: "('c, 'd, 'h) dependencies \<Rightarrow> string list \<Rightarrow> ('c, unit) cli" where
  "runSearch deps args =
     gbind (parse_args ''search'' [new_flag ''limit'' ''maximum references'' (IntFlag 100)] args) (\<lambda>(flags, rest).
       let limit = flag_int flags ''limit'' in
       if length rest \<noteq> 1 \<or> blank (hd rest) \<or> limit < 1 \<or> 100 < limit
         then usage ''search requires one query and --limit between 1 and 100''
       else with_client deps (
         gbind (gwrap ''search events'' (client_call (bk_Search (dp_Client deps) (hd rest) limit))) (\<lambda>events.
         encode_out (references_json events))))"

text \<open>
  The deferred function closes the file, which has no effect once it is closed, and removes it
  unless the output is complete.
\<close>

definition inspect_cleanup :: "string \<Rightarrow> bool \<Rightarrow> ('c, unit) cli" where
  "inspect_cleanup name published =
     gtry (on_disk file_close) (\<lambda>_. if published then gret () else gtry (on_disk (os_remove name)) (\<lambda>_. gret ()))"

definition fill_output :: "('c, outlets) backend \<Rightarrow> string \<Rightarrow> u64 \<Rightarrow> u64 \<Rightarrow> string \<Rightarrow> string \<Rightarrow> ('c, unit) cli" where
  "fill_output bk i offset limit target name =
     gbind (gwrap ''protect inspect output'' (on_disk (file_chmod privateFileMode))) (\<lambda>_.
     gbind (gwrap ''inspect payload'' (client_read bk temporary_write i offset limit)) (\<lambda>_.
     gbind (gwrap ''close inspect output'' (on_disk file_close)) (\<lambda>_.
     gwrap ''publish inspect output'' (on_disk (os_rename name target)))))"

definition inspectFile :: "('c, outlets) backend \<Rightarrow> string \<Rightarrow> u64 \<Rightarrow> u64 \<Rightarrow> string \<Rightarrow> ('c, unit) cli" where
  "inspectFile bk i offset limit target =
     gbind (gwrap ''create inspect output'' (on_disk (create_temp (path_dir target)))) (\<lambda>name.
     gtry (fill_output bk i offset limit target name) (\<lambda>r.
     gbind (inspect_cleanup name (case r of Inl _ \<Rightarrow> False | Inr _ \<Rightarrow> True)) (\<lambda>_.
     case r of Inl err \<Rightarrow> gthrow err | Inr _ \<Rightarrow> gret ())))"

definition inspect_flags :: "flag_def list" where
  "inspect_flags = [new_flag ''offset'' ''byte offset'' (UintFlag 0), new_flag ''limit'' ''maximum bytes'' (UintFlag 0),
     new_flag ''output'' ''write raw bytes to file'' (StringFlag '''')]"

definition runInspect :: "('c, 'd, 'h) dependencies \<Rightarrow> string list \<Rightarrow> ('c, unit) cli" where
  "runInspect deps args =
     gbind (parse_args ''inspect'' inspect_flags args) (\<lambda>(flags, rest).
       let offset = flag_uint flags ''offset''; limit = flag_uint flags ''limit''; output = flag_string flags ''output'' in
       if length rest \<noteq> 1 \<or> hd rest = '''' then usage ''inspect requires one event ID''
       else with_client deps (
         if output = ''''
           then gwrap ''inspect payload'' (gbind (client_read (dp_Client deps) stdout_write (hd rest) offset limit) (\<lambda>_. gret ()))
         else inspectFile (dp_Client deps) (hd rest) offset limit output))"

definition runMCP :: "('c, 'd, 'h) dependencies \<Rightarrow> string list \<Rightarrow> ('c, unit) cli" where
  "runMCP deps args =
     (if args \<noteq> [] then usage ''mcp accepts no arguments''
      else case dp_MCPListen deps of
        None \<Rightarrow> gthrow (ErrNew ''CLI MCP dependencies are incomplete'')
      | Some listen \<Rightarrow>
          if \<not> dp_HasStdin deps then gthrow (ErrNew ''CLI MCP dependencies are incomplete'')
          else with_client deps (gbind (called MCPListened) (\<lambda>_ s.
            case cs_Client s of
              None \<Rightarrow> (Inl (GoPanic ''nil pointer dereference''), s)
            | Some c \<Rightarrow>
                (case listen c (cs_Outlets s) of (e, c', ot) \<Rightarrow>
                   (case e of None \<Rightarrow> Inr () | Some err \<Rightarrow> Inl err, s\<lparr>cs_Client := Some c', cs_Outlets := ot\<rparr>)))))"

text \<open>\<open>runServe\<close> from the start of the HTTP server on, and from the check of the daemon on.\<close>

definition serve_started :: "('c, 'd, 'h) dependencies \<Rightarrow> 'h \<Rightarrow> ('c, unit) cli" where
  "serve_started deps h0 =
     (case dp_HTTPStart deps h0 of
        (Some err, _) \<Rightarrow> gthrow (Wrap ''start HTTP server'' err)
      | (None, h) \<Rightarrow>
          gbind (called HTTPStarted) (\<lambda>_.
          gtry (gbind (write_out (bytes_of (dp_HTTPURL deps h @ newline))) (\<lambda>_. called ContextDone)) (\<lambda>r.
          gbind (called HTTPClosed) (\<lambda>_. case r of Inl err \<Rightarrow> gthrow err | Inr _ \<Rightarrow> gret ()))))"

definition serve_client ::
  "('c, 'd, 'h) dependencies \<Rightarrow> (runtime_paths \<Rightarrow> go_error + string) \<Rightarrow> (string \<Rightarrow> string \<Rightarrow> go_error + 'h) \<Rightarrow> string \<Rightarrow> ('c, unit) cli" where
  "serve_client deps load new listen =
     gbind (gwrap ''daemon unavailable'' (client_call (bk_Health (dp_Client deps)))) (\<lambda>_.
     case load (dp_Paths deps) of
       Inl err \<Rightarrow> gthrow (Wrap ''load HTTP token'' err)
     | Inr token \<Rightarrow>
         (case new token listen of
            Inl err \<Rightarrow> gthrow (Wrap ''configure HTTP server'' err)
          | Inr h0 \<Rightarrow> gbind (called (HTTPMade token listen)) (\<lambda>_. serve_started deps h0)))"

definition runServe :: "('c, 'd, 'h) dependencies \<Rightarrow> string list \<Rightarrow> ('c, unit) cli" where
  "runServe deps args =
     (case (dp_LoadHTTPToken deps, dp_NewHTTPServer deps) of
        (Some load, Some new) \<Rightarrow>
          gbind (parse_args ''serve'' [new_flag ''listen'' ''loopback listen address'' (StringFlag ''127.0.0.1:0'')] args) (\<lambda>(flags, rest).
          if rest \<noteq> [] then usage ''serve accepts no arguments''
          else with_client deps (serve_client deps load new (flag_string flags ''listen'')))
      | _ \<Rightarrow> gthrow (ErrNew ''CLI serve dependencies are incomplete''))"

text \<open>\<open>os.FileMode.Perm\<close> are the lower nine bits.\<close>

definition modeStatus :: "nat \<Rightarrow> nat \<Rightarrow> string" where
  "modeStatus actual want = (if actual mod 512 = want then ''ok'' else ''unexpected permissions'')"

fun doctor_checks :: "(string \<times> string \<times> nat) list \<Rightarrow> ('c, unit) cli" where
  "doctor_checks [] = gret ()"
| "doctor_checks ((name, path, mode) # checks) =
     gtry (on_disk (disk_lstat path)) (\<lambda>r.
     gbind (print_out (case r of Inl _ \<Rightarrow> name @ '': missing'' @ newline | Inr info \<Rightarrow> name @ '': '' @ modeStatus (de_mode info) mode @ newline)) (\<lambda>_.
     doctor_checks checks))"

definition runDoctor :: "('c, 'd, 'h) dependencies \<Rightarrow> string list \<Rightarrow> ('c, unit) cli" where
  "runDoctor deps args =
     (if args \<noteq> [] then usage ''doctor accepts no arguments''
      else let paths = dp_Paths deps in
        gbind (gwrap ''runtime directory'' (on_disk (disk_lstat (rp_Root paths)))) (\<lambda>root.
        if de_kind root \<noteq> DirectoryNode
          then gbind (print_out (''runtime_directory: unhealthy'' @ newline)) (\<lambda>_. gthrow (ErrNew ''runtime directory is not a directory''))
        else
          gbind (print_out (''runtime_directory: '' @ modeStatus (de_mode root) runtimeDirectoryMode @ newline)) (\<lambda>_.
          gbind (doctor_checks [(''database'', rp_Database paths, privateFileMode), (''socket'', rp_Socket paths, privateFileMode),
            (''http_token'', rp_HTTPToken paths, privateFileMode)]) (\<lambda>_.
          with_client deps (
            gbind (gwrap ''daemon health'' (client_call (bk_Health (dp_Client deps)))) (\<lambda>health.
            gbind (gwrap ''daemon info'' (client_call (bk_Info (dp_Client deps)))) (\<lambda>info.
            write_out (bytes_of (''daemon: '' @ hl_Status health @ '' (protocol '' @ int_text info @ '')'' @ newline)))))))))"

section \<open>Run\<close>

definition dispatch :: "('c, 'd, 'h) dependencies \<Rightarrow> string list \<Rightarrow> ('c, unit) cli" where
  "dispatch deps args =
     (case args of
        [] \<Rightarrow> gbind (write_err (bytes_of usage_text)) (\<lambda>_. usage ''command is required'')
      | command # rest \<Rightarrow>
          if command = ''help'' \<or> command = ''--help'' \<or> command = ''-h'' then print_out usage_text
          else if command = ''daemon'' then runDaemon deps rest
          else if command = ''status'' then runStatus deps rest
          else if command = ''search'' then runSearch deps rest
          else if command = ''inspect'' then runInspect deps rest
          else if command = ''doctor'' then runDoctor deps rest
          else if command = ''serve'' then runServe deps rest
          else if command = ''mcp'' then runMCP deps rest
          else gbind (write_err (bytes_of usage_text)) (\<lambda>_. usage (''unknown command: '' @ command)))"

text \<open>\<open>io.Discard\<close> takes the place of a nil stream.\<close>

definition discard :: writer where
  "discard = \<lparr>sink = [], plan = []\<rparr>"

definition stream_or_discard :: "writer option \<Rightarrow> writer" where
  "stream_or_discard w = (case w of None \<Rightarrow> discard | Some w \<Rightarrow> w)"

definition Run :: "('c, 'd, 'h) dependencies \<Rightarrow> string list \<Rightarrow> disk \<Rightarrow> (go_error + unit) \<times> 'c console" where
  "Run deps args d =
     (let s = \<lparr>cs_Outlets = \<lparr>ot_Stdout = stream_or_discard (dp_Stdout deps), ot_Stderr = stream_or_discard (dp_Stderr deps), ot_Disk = d\<rparr>,
                cs_Client = None, cs_Calls = []\<rparr> in
      if dp_NewClient deps = None \<or> dp_NewServer deps = None then (Inl (ErrNew ''CLI dependencies are incomplete''), s)
      else dispatch deps args s)"

text \<open>
  The dependencies of the program itself.  What the daemon's server answers to \<open>Start\<close> and \<open>Close\<close>, the network of the HTTP server, the
  world of the token file and the MCP transport are arguments.
\<close>

definition DefaultDependencies ::
  "(nat \<Rightarrow> call_env) \<Rightarrow> (go_error option \<times> go_error option) \<Rightarrow> world \<Rightarrow> net_env \<Rightarrow> (nat \<times> client \<Rightarrow> outlets \<Rightarrow> go_error option \<times> (nat \<times> client) \<times> outlets)
   \<Rightarrow> writer \<Rightarrow> writer \<Rightarrow> runtime_paths \<Rightarrow> (nat \<times> client, unit, http_server) dependencies" where
  "DefaultDependencies envs daemon w net listen_mcp out err paths =
     \<lparr>dp_HasStdin = True, dp_Stdout = Some out, dp_Stderr = Some err, dp_Paths = paths,
      dp_NewClient = Some (\<lambda>socket. (0, client_New socket \<lparr>DialTimeout = 0, ReadTimeout = 0, WriteTimeout = 0\<rparr>)),
      dp_Client = client_backend envs, dp_ClientClose = (\<lambda>(n, c). (n, client_Close c)),
      dp_NewServer = Some (\<lambda>_. ()), dp_ServerStart = (\<lambda>_. (fst daemon, ())), dp_ServerClose = (\<lambda>_. (snd daemon, ())),
      dp_LoadHTTPToken = Some (\<lambda>paths. fst (LoadOrCreateHTTPToken paths w)),
      dp_NewHTTPServer = Some (\<lambda>token listen. http_New net True token \<lparr>ho_Listen = listen, ho_ReadHeaderTimeout = 0, ho_ReadTimeout = 0,
        ho_WriteTimeout = 0, ho_IdleTimeout = 0, ho_MaxHeaderBytes = 0\<rparr>),
      dp_HTTPStart = http_Start net, dp_HTTPURL = http_URL,
      dp_MCPListen = Some listen_mcp\<rparr>"

section \<open>The program\<close>

text \<open>\<open>main\<close>: the exit code and what it writes to standard error at the end.\<close>

definition pi_main :: "go_error + string \<Rightarrow> (runtime_paths \<Rightarrow> ('c, 'd, 'h) dependencies) \<Rightarrow> string list \<Rightarrow> disk \<Rightarrow> nat \<times> string \<times> 'c console option" where
  "pi_main home dependencies args d =
     (case DefaultRuntimePaths_with (\<lambda>root. NewRuntimePaths home root) home of
        Inl err \<Rightarrow> (1, ''resolve runtime paths: '' @ error_text err @ newline, None)
      | Inr paths \<Rightarrow>
          (case Run (dependencies paths) args d of
             (Inl err, s) \<Rightarrow> (1, error_text err @ newline, Some s)
           | (Inr _, s) \<Rightarrow> (0, '''', Some s)))"

end
