(* ===== verification/CliFacts.thy ===== *)
theory CliFacts
  imports Cli HttpProps
begin

text \<open>
  What the commands do to files and to the objects they make: the streams of a command as
  writers, the temporary file of \<open>inspect\<close>, and the calls that every command leaves balanced.
\<close>

section \<open>The streams\<close>

definition temporary_data :: "outlets \<Rightarrow> bytes" where
  "temporary_data ot =
     (case dk_open (ot_Disk ot) of None \<Rightarrow> [] | Some key \<Rightarrow> (case dk_files (ot_Disk ot) key of None \<Rightarrow> [] | Some x \<Rightarrow> de_data x))"

lemma disk_step_fields:
  assumes "disk_step d = (f, d')"
  shows "dk_files d' = dk_files d" and "dk_open d' = dk_open d" and "dk_randoms d' = dk_randoms d"
    and "set (dk_faults d') \<subseteq> set (dk_faults d)" and "f \<noteq> None \<longrightarrow> f \<in> set (dk_faults d)"
  using assms by (auto simp: disk_step_def split: list.splits)

lemma append_data_fields [simp]:
  "dk_open (append_data key data d) = dk_open d" "dk_faults (append_data key data d) = dk_faults d" "dk_randoms (append_data key data d) = dk_randoms d"
  "dk_files (append_data key data d) = (dk_files d)(key := map_option (\<lambda>x. x\<lparr>de_data := de_data x @ data\<rparr>) (dk_files d key))"
  by (simp_all add: append_data_def)

interpretation temporary_stream: io_writer temporary_write temporary_data
proof (unfold_locales, goal_cases)
  case (1 p w n e w')
  show ?case
  proof (cases "dk_open (ot_Disk w)")
    case None
    with 1 show ?thesis by (simp add: temporary_write_def file_write_def)
  next
    case (Some key)
    obtain f d where step: "disk_step (ot_Disk w) = (f, d)" by (cases "disk_step (ot_Disk w)")
    show ?thesis
    proof (cases "dk_files (ot_Disk w) key")
      case None
      with 1 Some show ?thesis by (simp add: temporary_write_def file_write_def)
    next
      case entry: (Some x)
      with 1 Some step disk_step_fields [OF step] show ?thesis
        by (cases f) (auto simp: temporary_write_def file_write_def temporary_data_def min_def)
    qed
  qed
qed

interpretation stdout_stream: io_writer stdout_write "\<lambda>ot. sink (ot_Stdout ot)"
  by unfold_locales (auto simp: stdout_write_def split: prod.splits dest: script_writer.wr_sunk)

text \<open>The client is the backend of both streams.\<close>

interpretation temporary_backend: payload_backend temporary_write temporary_data "client_backend envs"
  by (rule temporary_stream.client_payload_backend)

interpretation stdout_backend: payload_backend stdout_write "\<lambda>ot. sink (ot_Stdout ot)" "client_backend envs"
  by (rule stdout_stream.client_payload_backend)

section \<open>The temporary file\<close>

type_synonym file_map = "string \<Rightarrow> dir_entry option"

definition draft_file :: "nat \<Rightarrow> bytes \<Rightarrow> dir_entry" where
  "draft_file mode data = \<lparr>de_kind = RegularFile, de_mode = mode, de_data = data\<rparr>"

text \<open>
  The temporary file \<open>key\<close> is open and the only change to the files; the other streams are as they
  were, and the failures still to come are among the first ones.
\<close>

definition drafting :: "file_map \<Rightarrow> (go_error \<times> nat) option set \<Rightarrow> writer \<Rightarrow> writer \<Rightarrow> string \<Rightarrow> nat \<Rightarrow> outlets \<Rightarrow> bool" where
  "drafting files0 F out err key mode ot \<longleftrightarrow> ot_Stdout ot = out \<and> ot_Stderr ot = err \<and> dk_open (ot_Disk ot) = Some key
     \<and> set (dk_faults (ot_Disk ot)) \<subseteq> F \<and> (\<exists>data. dk_files (ot_Disk ot) = files0(key \<mapsto> draft_file mode data))"

lemma temporary_write_keeps: "keeps (drafting files0 F out err key mode) temporary_write"
  unfolding keeps_def
proof (intro allI impI)
  fix data and w :: outlets assume w: "drafting files0 F out err key mode w"
  then obtain old where old: "dk_files (ot_Disk w) = files0(key \<mapsto> draft_file mode old)" "dk_open (ot_Disk w) = Some key"
    by (auto simp: drafting_def)
  obtain f d where step: "disk_step (ot_Disk w) = (f, d)" by (cases "disk_step (ot_Disk w)")
  show "drafting files0 F out err key mode (snd (snd (temporary_write data w)))"
    using w old step disk_step_fields [OF step]
    by (cases f) (auto simp: drafting_def temporary_write_def file_write_def draft_file_def)
qed

lemma client_read_drafting:
  assumes "bk_ReadPayload (client_backend envs) temporary_write i offset limit (n, c) ot = (res, nc, ot')"
    and "drafting files0 F out err key mode ot"
  shows "drafting files0 F out err key mode ot'"
  using assms client_ReadPayload_keeps [OF temporary_write_keeps] unfolding backend_ReadPayload by blast

section \<open>Making and removing it\<close>

lemma create_temp_from_result:
  assumes "create_temp_from directory rs d = (r, d')"
  shows "dk_open d = None \<Longrightarrow> set (dk_faults d') \<subseteq> set (dk_faults d)
    \<and> (case r of Inl e \<Rightarrow> dk_files d' = dk_files d \<and> dk_open d' = None
        | Inr name \<Rightarrow> dk_files d (path_clean name) = None \<and> dk_open d' = Some (path_clean name)
            \<and> dk_files d' = (dk_files d)(path_clean name \<mapsto> new_temporary))"
  using assms
proof (induction rs arbitrary: d)
  case Nil
  then show ?case by auto
next
  case (Cons q rs)
  obtain f d1 where step: "disk_step d = (f, d1)" by (cases "disk_step d")
  note fields = disk_step_fields [OF step]
  let ?name = "in_directory directory (temporary_prefix @ q)"
  have again: ?case if "create_temp_from directory rs d1 = (r, d')"
    using Cons.IH [OF _ that] Cons.prems(1) fields by (auto split: sum.splits)
  show ?case
  proof (cases f)
    case None
    with Cons.prems step fields again show ?thesis by (cases "dk_files d1 (path_clean ?name) = None") (auto simp: Let_def)
  next
    case (Some ek)
    with Cons.prems step fields again show ?thesis by (cases ek, cases "fst ek = SysErr ''EEXIST''") (auto simp: Let_def)
  qed
qed

section \<open>The steps of \<open>inspectFile\<close>\<close>

text \<open>The temporary file has got its data and has been closed; and what is left when it could not be published.\<close>

definition drafted :: "file_map \<Rightarrow> (go_error \<times> nat) option set \<Rightarrow> writer \<Rightarrow> writer \<Rightarrow> string \<Rightarrow> nat \<Rightarrow> bytes \<Rightarrow> outlets \<Rightarrow> bool" where
  "drafted files0 F out err key mode data ot \<longleftrightarrow> ot_Stdout ot = out \<and> ot_Stderr ot = err \<and> dk_open (ot_Disk ot) = None
     \<and> set (dk_faults (ot_Disk ot)) \<subseteq> F \<and> dk_files (ot_Disk ot) = files0(key \<mapsto> draft_file mode data)"

definition leftover :: "file_map \<Rightarrow> (go_error \<times> nat) option set \<Rightarrow> writer \<Rightarrow> writer \<Rightarrow> outlets \<Rightarrow> bool" where
  "leftover files0 F out err ot \<longleftrightarrow> ot_Stdout ot = out \<and> ot_Stderr ot = err \<and> dk_open (ot_Disk ot) = None
     \<and> (dk_files (ot_Disk ot) = files0
        \<or> (\<exists>e k key x. Some (e, k) \<in> F \<and> files0 key = None \<and> dk_files (ot_Disk ot) = files0(key \<mapsto> x)))"

lemma wp_on_disk:
  "wp (on_disk m) Q E s = wp m (\<lambda>x d. Q x (s\<lparr>cs_Outlets := (cs_Outlets s)\<lparr>ot_Disk := d\<rparr>\<rparr>)) (\<lambda>e d. E e (s\<lparr>cs_Outlets := (cs_Outlets s)\<lparr>ot_Disk := d\<rparr>\<rparr>)) (ot_Disk (cs_Outlets s))"
  by (cases "m (ot_Disk (cs_Outlets s))") (simp add: wp_def on_disk_def split: sum.split)

lemma wp_disk_call:
  assumes "\<And>d'. dk_files d' = dk_files d \<Longrightarrow> dk_open d' = dk_open d \<Longrightarrow> set (dk_faults d') \<subseteq> set (dk_faults d) \<Longrightarrow> wp f Q E d'"
    and "\<And>e k d'. dk_files d' = dk_files d \<Longrightarrow> dk_open d' = dk_open d \<Longrightarrow> set (dk_faults d') \<subseteq> set (dk_faults d) \<Longrightarrow> Some (e, k) \<in> set (dk_faults d) \<Longrightarrow> E e d'"
  shows "wp (disk_call f) Q E d"
proof -
  obtain f0 d' where step: "disk_step d = (f0, d')" by (cases "disk_step d")
  note fields = disk_step_fields [OF step]
  show ?thesis
  proof (cases f0)
    case None
    with step assms(1) [OF fields(1,2,4)] show ?thesis by (simp add: wp_def disk_call_def)
  next
    case (Some ek)
    obtain e k where ek: "ek = (e, k)" by (cases ek)
    with Some fields(5) have "Some (e, k) \<in> set (dk_faults d)" by simp
    from assms(2) [OF fields(1,2,4) this] step Some ek show ?thesis by (simp add: wp_def disk_call_def)
  qed
qed

lemma create_step:
  assumes "dk_open (ot_Disk (cs_Outlets s)) = None"
  shows "wp (on_disk (create_temp directory))
    (\<lambda>name s'. dk_files (ot_Disk (cs_Outlets s)) (path_clean name) = None \<and> cs_Client s' = cs_Client s \<and> temporary_data (cs_Outlets s') = []
       \<and> drafting (dk_files (ot_Disk (cs_Outlets s))) (set (dk_faults (ot_Disk (cs_Outlets s)))) (ot_Stdout (cs_Outlets s)) (ot_Stderr (cs_Outlets s))
           (path_clean name) privateFileMode (cs_Outlets s'))
    (\<lambda>e s'. ot_Stdout (cs_Outlets s') = ot_Stdout (cs_Outlets s) \<and> ot_Stderr (cs_Outlets s') = ot_Stderr (cs_Outlets s)
       \<and> dk_files (ot_Disk (cs_Outlets s')) = dk_files (ot_Disk (cs_Outlets s)) \<and> dk_open (ot_Disk (cs_Outlets s')) = None) s"
proof -
  obtain r d where run: "create_temp directory (ot_Disk (cs_Outlets s)) = (r, d)" by (cases "create_temp directory (ot_Disk (cs_Outlets s))")
  from create_temp_from_result [OF run [unfolded create_temp_def] assms] run show ?thesis
    unfolding wp_on_disk unfolding wp_def by (auto simp: drafting_def temporary_data_def draft_file_def new_temporary_def split: sum.split)
qed

lemma chmod_step:
  assumes "drafting files0 F out err key mode (cs_Outlets s)"
  shows "wp (on_disk (file_chmod mode'))
    (\<lambda>_ s'. drafting files0 F out err key mode' (cs_Outlets s') \<and> cs_Client s' = cs_Client s \<and> temporary_data (cs_Outlets s') = temporary_data (cs_Outlets s))
    (\<lambda>e s'. drafting files0 F out err key mode (cs_Outlets s')) s"
proof -
  obtain old where old: "dk_files (ot_Disk (cs_Outlets s)) = files0(key \<mapsto> draft_file mode old)" "dk_open (ot_Disk (cs_Outlets s)) = Some key"
    "set (dk_faults (ot_Disk (cs_Outlets s))) \<subseteq> F" using assms by (auto simp: drafting_def)
  have chmod: "file_chmod mode' (ot_Disk (cs_Outlets s)) = disk_call (\<lambda>d. (Inr (), d\<lparr>dk_files := (dk_files d)(key := map_option (\<lambda>x. x\<lparr>de_mode := mode'\<rparr>) (dk_files d key))\<rparr>)) (ot_Disk (cs_Outlets s))"
    using old by (simp add: file_chmod_def)
  show ?thesis unfolding wp_on_disk
    using assms old
    by (subst wp_def, subst chmod, subst wp_def [symmetric], intro wp_disk_call)
      (auto simp: wp_def drafting_def draft_file_def temporary_data_def)
qed

lemma close_step:
  assumes "drafting files0 F out err key mode (cs_Outlets s)"
  shows "wp (on_disk file_close) (\<lambda>_ s'. drafted files0 F out err key mode (temporary_data (cs_Outlets s)) (cs_Outlets s'))
    (\<lambda>e s'. drafted files0 F out err key mode (temporary_data (cs_Outlets s)) (cs_Outlets s')) s"
proof -
  obtain f d where step: "disk_step (ot_Disk (cs_Outlets s)) = (f, d)" by (cases "disk_step (ot_Disk (cs_Outlets s))")
  show ?thesis
    using assms disk_step_fields [OF step] step
    unfolding wp_on_disk unfolding wp_def
    by (auto simp: file_close_def drafting_def drafted_def temporary_data_def draft_file_def split: option.splits)
qed

lemma close_again: "dk_open (ot_Disk (cs_Outlets s)) = None \<Longrightarrow> on_disk file_close s = (Inl (ErrNew ''file already closed''), s)"
  by (simp add: on_disk_def file_close_def)

lemma rename_step:
  assumes "drafted files0 F out err (path_clean name) mode data (cs_Outlets s)" and "files0 (path_clean name) = None"
  shows "wp (on_disk (os_rename name target))
    (\<lambda>_ s'. ot_Stdout (cs_Outlets s') = out \<and> ot_Stderr (cs_Outlets s') = err \<and> dk_open (ot_Disk (cs_Outlets s')) = None
       \<and> dk_files (ot_Disk (cs_Outlets s')) = files0(path_clean target \<mapsto> draft_file mode data))
    (\<lambda>e s'. drafted files0 F out err (path_clean name) mode data (cs_Outlets s')) s"
proof -
  have files: "dk_files (ot_Disk (cs_Outlets s)) (path_clean name) = Some (draft_file mode data)" and gone: "files0(path_clean name := None) = files0"
    using assms by (auto simp: drafted_def)
  show ?thesis unfolding wp_on_disk os_rename_def
    by (rule wp_disk_call) (use assms files gone in \<open>auto simp: wp_def drafted_def fun_upd_twist\<close>)
qed

lemma remove_step:
  assumes "drafted files0 F out err (path_clean name) mode data (cs_Outlets s)" and "files0 (path_clean name) = None"
  shows "wp (on_disk (os_remove name)) (\<lambda>_ s'. leftover files0 F out err (cs_Outlets s')) (\<lambda>_ s'. leftover files0 F out err (cs_Outlets s')) s"
proof -
  have gone: "files0(path_clean name := None) = files0" using assms(2) by auto
  show ?thesis unfolding wp_on_disk os_remove_def
    by (rule wp_disk_call) (use assms gone in \<open>auto simp: wp_def drafted_def leftover_def\<close>)
qed

lemma cleanup_step:
  assumes "(\<exists>mode. drafting files0 F out err (path_clean name) mode (cs_Outlets s)) \<or> (\<exists>mode data. drafted files0 F out err (path_clean name) mode data (cs_Outlets s))"
    and "files0 (path_clean name) = None"
  shows "wp (inspect_cleanup name False) (\<lambda>_ s'. leftover files0 F out err (cs_Outlets s')) E s"
proof -
  let ?D = "\<lambda>s'. \<exists>mode data. drafted files0 F out err (path_clean name) mode data (cs_Outlets s')"
  have close: "wp (on_disk file_close) (\<lambda>_. ?D) (\<lambda>_. ?D) s"
    using assms(1)
  proof (elim disjE exE)
    fix mode assume "drafting files0 F out err (path_clean name) mode (cs_Outlets s)"
    from close_step [OF this] show ?thesis by (rule wp_mono) blast+
  next
    fix mode data assume d: "drafted files0 F out err (path_clean name) mode data (cs_Outlets s)"
    then have "dk_open (ot_Disk (cs_Outlets s)) = None" by (simp add: drafted_def)
    with d have "wp (on_disk file_close) (\<lambda>_ s'. drafted files0 F out err (path_clean name) mode data (cs_Outlets s'))
        (\<lambda>_ s'. drafted files0 F out err (path_clean name) mode data (cs_Outlets s')) s"
      unfolding wp_on_disk unfolding wp_def by (simp add: file_close_def)
    then show ?thesis by (rule wp_mono) blast+
  qed
  have remove: "wp (gtry (on_disk (os_remove name)) (\<lambda>_. gret ())) (\<lambda>_ s'. leftover files0 F out err (cs_Outlets s')) E s'" if "?D s'" for s'
  proof -
    from that obtain mode data where "drafted files0 F out err (path_clean name) mode data (cs_Outlets s')" by blast
    from remove_step [OF this assms(2)] show ?thesis unfolding wp_gtry by (rule wp_mono) (simp_all add: wp_gret)
  qed
  from close show ?thesis
    unfolding inspect_cleanup_def wp_gtry by (rule wp_mono) (simp_all add: remove)
qed

text \<open>
  What a payload is that the client reports as read: the part asked for, as it followed the
  daemon's response to this request on the connection.
\<close>

definition delivered :: "call_env \<Rightarrow> client \<Rightarrow> string \<Rightarrow> u64 \<Rightarrow> u64 \<Rightarrow> payload_metadata \<Rightarrow> bytes \<Rightarrow> bool" where
  "delivered env c i offset limit m data \<longleftrightarrow>
     pm_EventID m = i \<and> pm_Offset m = offset \<and> pm_Limit m = limit \<and> pm_BytesWritten m = expected_length (pm_TotalSize m) offset limit
     \<and> length data = unat (pm_BytesWritten m)
     \<and> (\<exists>conn conn1 (conn' :: wire) envelope header. used_wire env c conn
          \<and> answered env ''event.read_payload'' (jobject [(''event_id'', jstr i), (''limit'', juint limit), (''offset'', juint offset)]) conn conn1 envelope
          \<and> rs_Status envelope = ''ok'' \<and> length header = 8 \<and> stream (wire_in conn1) = header @ data @ stream (wire_in conn'))"

lemma read_step:
  assumes "drafting files0 F out err key mode (cs_Outlets s)" and "cs_Client s = Some (n, c)" and "temporary_data (cs_Outlets s) = []"
  shows "wp (client_read (client_backend envs) temporary_write i offset limit)
    (\<lambda>m s'. drafting files0 F out err key mode (cs_Outlets s') \<and> delivered (envs n) c i offset limit m (temporary_data (cs_Outlets s')))
    (\<lambda>e s'. drafting files0 F out err key mode (cs_Outlets s')) s"
proof -
  obtain res nc ot where run: "bk_ReadPayload (client_backend envs) temporary_write i offset limit (n, c) (cs_Outlets s) = (res, nc, ot)"
    by (cases "bk_ReadPayload (client_backend envs) temporary_write i offset limit (n, c) (cs_Outlets s)")
  have draft: "drafting files0 F out err key mode ot" by (rule client_read_drafting [OF run assms(1)])
  have "delivered (envs n) c i offset limit m (temporary_data ot)" if "res = Inr m" for m
  proof -
    from run that obtain c' where "client_ReadPayload (Some temporary_write) (envs n) i offset limit c (cs_Outlets s) = (Inr m, c', ot)"
      unfolding backend_ReadPayload by blast
    then show ?thesis
    proof (rule temporary_stream.client_ReadPayload_done, goal_cases)
      case (1 conn conn1 conn' envelope header data)
      with assms(3) have "temporary_data ot = data" by simp
      with 1 show ?thesis unfolding delivered_def by blast
    qed
  qed
  with run draft assms(2) show ?thesis unfolding wp_def by (simp add: client_read_def split: sum.split)
qed

text \<open>The temporary file is published with its data, or it is still there.\<close>

lemma fill_step:
  assumes "files0 (path_clean name) = None" and "cs_Client s = Some (n, c)" and "temporary_data (cs_Outlets s) = []"
    and "drafting files0 F out err (path_clean name) mode (cs_Outlets s)"
  shows "wp (fill_output (client_backend envs) i offset limit target name)
    (\<lambda>_ s'. (\<exists>m data. delivered (envs n) c i offset limit m data \<and> dk_files (ot_Disk (cs_Outlets s')) = files0(path_clean target \<mapsto> draft_file privateFileMode data))
       \<and> ot_Stdout (cs_Outlets s') = out \<and> ot_Stderr (cs_Outlets s') = err \<and> dk_open (ot_Disk (cs_Outlets s')) = None)
    (\<lambda>_ s'. (\<exists>mode. drafting files0 F out err (path_clean name) mode (cs_Outlets s')) \<or> (\<exists>mode data. drafted files0 F out err (path_clean name) mode data (cs_Outlets s'))) s"
  unfolding fill_output_def wp_gbind wp_gwrap
proof (rule wp_mono [OF chmod_step [OF assms(4)]], goal_cases)
  case (1 x s2)
  then have s2: "drafting files0 F out err (path_clean name) privateFileMode (cs_Outlets s2)" "cs_Client s2 = Some (n, c)" "temporary_data (cs_Outlets s2) = []"
    using assms(2,3) by simp_all
  show ?case
  proof (rule wp_mono [OF read_step [OF s2]], goal_cases)
    case (1 m s3)
    then have s3: "drafting files0 F out err (path_clean name) privateFileMode (cs_Outlets s3)" by blast
    show ?case
    proof (rule wp_mono [OF close_step [OF s3]], goal_cases)
      case (1 x s4)
      show ?case by (rule wp_mono [OF rename_step [OF 1 assms(1)]]) (use \<open>_ \<and> delivered _ _ _ _ _ _ _\<close> in blast)+
    qed blast
  qed blast
qed blast

text \<open>All of it.\<close>

lemma inspect_run:
  assumes "dk_open (ot_Disk (cs_Outlets s)) = None" and "cs_Client s = Some (n, c)"
  defines "files0 \<equiv> dk_files (ot_Disk (cs_Outlets s))" and "F \<equiv> set (dk_faults (ot_Disk (cs_Outlets s)))"
    and "out \<equiv> ot_Stdout (cs_Outlets s)" and "err \<equiv> ot_Stderr (cs_Outlets s)"
  shows "wp (inspectFile (client_backend envs) i offset limit target)
    (\<lambda>_ s'. (\<exists>m data. delivered (envs n) c i offset limit m data \<and> dk_files (ot_Disk (cs_Outlets s')) = files0(path_clean target \<mapsto> draft_file privateFileMode data))
       \<and> ot_Stdout (cs_Outlets s') = out \<and> ot_Stderr (cs_Outlets s') = err \<and> dk_open (ot_Disk (cs_Outlets s')) = None)
    (\<lambda>e s'. leftover files0 F out err (cs_Outlets s')) s"
    (is "wp _ ?Q ?E s")
  unfolding inspectFile_def wp_gbind wp_gwrap wp_gtry
proof (rule wp_mono [OF create_step [OF assms(1)]], goal_cases)
  case (1 name s1)
  then have s1: "files0 (path_clean name) = None" "cs_Client s1 = Some (n, c)" "temporary_data (cs_Outlets s1) = []"
    "drafting files0 F out err (path_clean name) privateFileMode (cs_Outlets s1)" using assms(2) by (simp_all add: assms(3-))
  show ?case
  proof (rule wp_mono [OF fill_step [OF s1]], goal_cases)
    case (1 x s2)
    with close_again [of s2] show ?case by (simp add: wp_def inspect_cleanup_def run_simps)
  next
    case (2 e s2)
    from cleanup_step [OF this s1(1), of ?E] show ?case unfolding sum.case by (rule wp_mono) (simp_all add: wp_gthrow)
  qed
next
  case (2 e s')
  then show ?case by (auto simp: leftover_def assms(3-))
qed

end
