(* ===== verification/CliProps.thy ===== *)
theory CliProps
  imports CliFacts
begin

text \<open>The promises of the command line.\<close>

section \<open>Inspecting into a file\<close>

definition initial_console :: "('c, 'd, 'h) dependencies \<Rightarrow> disk \<Rightarrow> 'c console" where
  "initial_console deps d = \<lparr>cs_Outlets = \<lparr>ot_Stdout = stream_or_discard (dp_Stdout deps), ot_Stderr = stream_or_discard (dp_Stderr deps), ot_Disk = d\<rparr>,
     cs_Client = None, cs_Calls = []\<rparr>"

lemma Run_console:
  "Run deps args d = (if dp_NewClient deps = None \<or> dp_NewServer deps = None then (Inl (ErrNew ''CLI dependencies are incomplete''), initial_console deps d)
     else dispatch deps args (initial_console deps d))"
  by (simp add: Run_def initial_console_def Let_def)

text \<open>What the file system is after a run that published nothing.\<close>

definition files_kept :: "disk \<Rightarrow> disk \<Rightarrow> bool" where
  "files_kept d d' \<longleftrightarrow> dk_files d' = dk_files d
     \<or> (\<exists>e k key x. Some (e, k) \<in> set (dk_faults d) \<and> dk_files d key = None \<and> dk_files d' = (dk_files d)(key \<mapsto> x))"

lemma inspect_command: "dispatch deps (''inspect'' # args) = runInspect deps args"
  by (simp add: dispatch_def)

lemma inspect_refused:
  assumes "dp_NewClient deps = Some new" and "parse_flags inspect_flags args = Inr (flags, [i])"
    and "dp_NewServer deps = None \<or> i = '''' \<or> rp_Socket (dp_Paths deps) = ''''"
  shows "\<exists>e. Run deps (''inspect'' # args) d = (Inl e, initial_console deps d)"
  using assms
  by (auto simp: Run_console inspect_command runInspect_def parse_args_def usage_def with_client_def getClient_def run_simps Let_def)

lemma inspect_dispatched:
  assumes "dp_NewClient deps = Some new" and "dp_NewServer deps = Some server" and "parse_flags inspect_flags args = Inr (flags, [i])"
    and "flag_string flags ''output'' \<noteq> ''''" and "i \<noteq> ''''" and "rp_Socket (dp_Paths deps) \<noteq> ''''"
  shows "Run deps (''inspect'' # args) d =
    (case inspectFile (dp_Client deps) i (flag_uint flags ''offset'') (flag_uint flags ''limit'') (flag_string flags ''output'')
       ((initial_console deps d)\<lparr>cs_Client := Some (new (rp_Socket (dp_Paths deps))), cs_Calls := [ClientMade (rp_Socket (dp_Paths deps))]\<rparr>) of
     (r, s) \<Rightarrow> (r, close_client deps s))"
  using assms by (simp add: Run_console inspect_command runInspect_def parse_args_def with_client_def getClient_def called_def run_simps Let_def initial_console_def)


definition writable :: "outlets \<Rightarrow> bool" where
  "writable ot \<longleftrightarrow> dk_faults (ot_Disk ot) = [] \<and> (\<exists>key. dk_open (ot_Disk ot) = Some key \<and> dk_files (ot_Disk ot) key \<noteq> None)"

interpretation writable_temporary: reliable_writer temporary_write temporary_data writable
proof (unfold_locales, goal_cases)
  case (1 w p n e w')
  then show ?case
    by (auto simp: writable_def temporary_write_def file_write_def disk_step_def split: prod.splits)
qed

definition sample_dependencies :: "(string \<Rightarrow> nat \<times> client) \<Rightarrow> (nat \<times> client, unit, unit) dependencies" where
  "sample_dependencies new = \<lparr>dp_HasStdin = True, dp_Stdout = None, dp_Stderr = None, dp_Paths = paths_under ''/run'', dp_NewClient = Some new,
     dp_Client = client_backend (\<lambda>_. sample_env), dp_ClientClose = (\<lambda>(n, c). (n, client_Close c)), dp_NewServer = Some (\<lambda>_. ()),
     dp_ServerStart = (\<lambda>_. (None, ())), dp_ServerClose = (\<lambda>_. (None, ())), dp_LoadHTTPToken = None, dp_NewHTTPServer = None,
     dp_HTTPStart = (\<lambda>_. (None, ())), dp_HTTPURL = (\<lambda>_. ''''), dp_MCPListen = None\<rparr>"

definition empty_disk :: disk where
  "empty_disk = \<lparr>dk_files = (\<lambda>_. None), dk_open = None, dk_faults = [], dk_randoms = [''7'']\<rparr>"

definition sample_args :: "string list" where
  "sample_args = [''--output'', ''out.bin'', ''--offset=1'', ''--limit'', ''5'', ''e1'']"

lemma sample_parsed:
  "parse_flags inspect_flags sample_args = Inr ([new_flag ''offset'' ''byte offset'' (UintFlag 0)\<lparr>fg_Value := UintFlag 1\<rparr>,
     new_flag ''limit'' ''maximum bytes'' (UintFlag 0)\<lparr>fg_Value := UintFlag 5\<rparr>,
     new_flag ''output'' ''write raw bytes to file'' (StringFlag '''')\<lparr>fg_Value := StringFlag ''out.bin''\<rparr>], [''e1''])"
  by (simp add: sample_args_def inspect_flags_def new_flag_def flag_argument_def find_flag_def set_flag_def is_bool_def parse_uint0_def
      base_of_def digit_of_def lower_def Let_def)

lemma sample_paths:
  "path_dir ''out.bin'' = ''.''" "path_clean ''./.pi-token-smith-7'' = ''.pi-token-smith-7''" "path_clean ''out.bin'' = ''out.bin''" "path_base ''out.bin'' = ''out.bin''"
  by code_simp+

lemma wp_on_disk_result: "on_disk m s = (Inr x, s') \<Longrightarrow> wp (on_disk m) Q E s = Q x s'"
  by (simp add: wp_def)

lemma wp_read_result: "client_read bk wr i offset limit s = (Inr x, s') \<Longrightarrow> wp (client_read bk wr i offset limit) Q E s = Q x s'"
  by (simp add: wp_def)

lemma sample_inspect_run:
  assumes "bk_ReadPayload (client_backend (\<lambda>_. sample_env)) temporary_write ''e1'' 1 5 (n, c) ot = (Inr m, nc, ot')" and "writable ot'"
    and "ot = \<lparr>ot_Stdout = discard, ot_Stderr = discard, ot_Disk = \<lparr>dk_files = [''.pi-token-smith-7'' \<mapsto> new_temporary], dk_open = Some ''.pi-token-smith-7'', dk_faults = [], dk_randoms = []\<rparr>\<rparr>"
    and "cs_Outlets s = \<lparr>ot_Stdout = discard, ot_Stderr = discard, ot_Disk = empty_disk\<rparr>" and "cs_Client s = Some (n, c)"
  shows "wp (inspectFile (client_backend (\<lambda>_. sample_env)) ''e1'' 1 5 ''out.bin'') (\<lambda>_ _. True) (\<lambda>_ _. False) s"
proof -
  let ?key = "''.pi-token-smith-7''"
  have create: "on_disk (create_temp ''.'') s = (Inr ''./.pi-token-smith-7'', s\<lparr>cs_Outlets := ot\<rparr>)"
    using assms(3,4) sample_paths(2)
    by (simp add: on_disk_def create_temp_def empty_disk_def disk_step_def in_directory_def temporary_prefix_def Let_def)
  have chmod: "on_disk (file_chmod privateFileMode) (s\<lparr>cs_Outlets := ot\<rparr>) = (Inr (), s\<lparr>cs_Outlets := ot\<rparr>)"
    using assms(3) by (simp add: on_disk_def file_chmod_def disk_call_def disk_step_def new_temporary_def)
  have read: "client_read (client_backend (\<lambda>_. sample_env)) temporary_write ''e1'' 1 5 (s\<lparr>cs_Outlets := ot\<rparr>) = (Inr m, s\<lparr>cs_Client := Some nc, cs_Outlets := ot'\<rparr>)"
    using assms(1,5) by (simp add: client_read_def)
  have "drafting (\<lambda>_. None) {} discard discard ?key privateFileMode ot"
    using assms(3) by (auto simp: drafting_def draft_file_def new_temporary_def)
  from client_read_drafting [OF assms(1) this] obtain data where ot': "dk_open (ot_Disk ot') = Some ?key" "dk_faults (ot_Disk ot') = []"
    "dk_files (ot_Disk ot') = [?key \<mapsto> draft_file privateFileMode data]" by (auto simp: drafting_def)
  let ?s3 = "s\<lparr>cs_Client := Some nc, cs_Outlets := ot'\<rparr>" and ?s4 = "s\<lparr>cs_Client := Some nc, cs_Outlets := ot'\<lparr>ot_Disk := (ot_Disk ot')\<lparr>dk_open := None\<rparr>\<rparr>\<rparr>"
  have close: "on_disk file_close ?s3 = (Inr (), ?s4)"
    using ot' by (simp add: on_disk_def file_close_def disk_step_def)
  have rename: "fst (on_disk (os_rename ''./.pi-token-smith-7'' ''out.bin'') ?s4) = Inr ()"
    using ot' sample_paths by (simp add: on_disk_def os_rename_def disk_call_def disk_step_def names_directory_def)
  obtain s5 where s5: "on_disk (os_rename ''./.pi-token-smith-7'' ''out.bin'') ?s4 = (Inr (), s5)"
    using rename by (cases "on_disk (os_rename ''./.pi-token-smith-7'' ''out.bin'') ?s4") simp
  show ?thesis
    unfolding inspectFile_def fill_output_def wp_gbind wp_gwrap wp_gtry sample_paths(1) wp_on_disk_result [OF create] wp_on_disk_result [OF chmod] wp_read_result [OF read] wp_on_disk_result [OF close] wp_on_disk_result [OF s5]
    by (simp add: inspect_cleanup_def wp_def run_simps split: prod.splits)
qed


end
