(* ===== verification/CliRuns.thy ===== *)
theory CliRuns
  imports CliProps
begin

text \<open>Every run of the command line leaves what it made closed, and no files but those it is asked for.\<close>

section \<open>What a program does not change\<close>

definition preserves :: "('s \<Rightarrow> 'x) \<Rightarrow> ('s, 'a) prog \<Rightarrow> bool" where
  "preserves g m \<longleftrightarrow> (\<forall>s. g (snd (m s)) = g s)"

named_theorems preserved "programs that preserve an observation"

lemma preserves_gret [preserved]: "preserves g (gret x)" and preserves_gthrow [preserved]: "preserves g (gthrow e)"
  and preserves_usage [preserved]: "preserves g' (usage message)"
  by (simp_all add: preserves_def usage_def run_simps)

lemma preserves_gbind [preserved]: "preserves g m \<Longrightarrow> (\<And>a. preserves g (f a)) \<Longrightarrow> preserves g (gbind m f)"
  unfolding preserves_def by (auto simp: gbind_run split: prod.splits sum.splits) (metis snd_conv)+

lemma preserves_gtry [preserved]: "preserves g m \<Longrightarrow> (\<And>r. preserves g (f r)) \<Longrightarrow> preserves g (gtry m f)"
  unfolding preserves_def by (auto simp: gtry_run split: prod.splits) (metis snd_conv)+

lemma preserves_gwrap [preserved]: "preserves g m \<Longrightarrow> preserves g (gwrap msg m)"
  unfolding preserves_def by (auto simp: gwrap_run split: prod.splits sum.splits) (metis snd_conv)+

lemma preserves_if [preserved]: "preserves g m \<Longrightarrow> preserves g m' \<Longrightarrow> preserves g (if b then m else m')"
  by simp

text \<open>The files with the open one, and the calls.\<close>

definition files_of :: "'c console \<Rightarrow> file_map \<times> string option" where
  "files_of s = (dk_files (ot_Disk (cs_Outlets s)), dk_open (ot_Disk (cs_Outlets s)))"

lemma streams_preserve [preserved]:
  "preserves files_of (write_out data)" "preserves cs_Calls (write_out data)"
  "preserves files_of (write_err data)" "preserves cs_Calls (write_err data)"
  "preserves files_of (encode_out v)" "preserves cs_Calls (encode_out v)"
  "preserves files_of (client_call f)" "preserves cs_Calls (client_call f)"
  "preserves cs_Calls (client_read bk wr i offset limit)" "preserves cs_Calls (on_disk m)"
  "preserves files_of (called x)"
  by (auto simp: preserves_def files_of_def write_out_def write_err_def encode_out_def client_call_def client_read_def on_disk_def called_def
      split: prod.splits option.splits)

lemma print_preserves [preserved]: "preserves files_of (print_out text)" "preserves cs_Calls (print_out text)"
  unfolding print_out_def by (intro preserved)+

lemma write_errs_preserve [preserved]: "preserves files_of (write_errs ts)" "preserves cs_Calls (write_errs ts)"
  by (induction ts) (simp_all add: preserved)

lemma parse_args_preserve [preserved]: "preserves files_of (parse_args name flags args)" "preserves cs_Calls (parse_args name flags args)"
  unfolding parse_args_def by (auto split: sum.split intro!: preserved)

lemma lstat_preserves [preserved]: "preserves files_of (on_disk (disk_lstat path))"
  by (auto simp: preserves_def files_of_def on_disk_def disk_lstat_def disk_call_def dest: disk_step_fields split: prod.splits option.splits)

lemma doctor_checks_preserve [preserved]: "preserves files_of (doctor_checks checks)" "preserves cs_Calls (doctor_checks checks)"
  by (induction checks rule: doctor_checks.induct) (auto intro!: preserved)

lemma inspect_file_calls [preserved]: "preserves cs_Calls (inspectFile bk i offset limit target)"
  unfolding inspectFile_def fill_output_def inspect_cleanup_def by (auto intro!: preserved split: sum.split)

lemma stdout_write_keeps: "keeps (\<lambda>ot. ot_Disk ot = d) stdout_write"
  by (auto simp: keeps_def stdout_write_def split: prod.splits)

lemma stdout_read_preserves [preserved]: "preserves files_of (client_read (client_backend envs) stdout_write i offset limit)"
proof -
  have "ot_Disk ot' = ot_Disk ot" if "bk_ReadPayload (client_backend envs) stdout_write i offset limit nc ot = (res, nc', ot')" for nc nc' res ot ot'
    using that client_ReadPayload_keeps [OF stdout_write_keeps [of "ot_Disk ot"]] by (cases nc) (auto simp: backend_ReadPayload)
  then show ?thesis by (auto simp: preserves_def files_of_def client_read_def split: prod.splits option.splits)
qed

section \<open>The calls a program makes\<close>

definition emits :: "('c, 'a) cli \<Rightarrow> cli_call list set \<Rightarrow> bool" where
  "emits m C \<longleftrightarrow> (\<forall>s. \<exists>cs \<in> C. cs_Calls (snd (m s)) = cs_Calls s @ cs)"

lemma emits_quiet: "preserves cs_Calls m \<Longrightarrow> [] \<in> C \<Longrightarrow> emits m C"
  unfolding preserves_def emits_def by (metis append_Nil2)

lemma emits_called: "[x] \<in> C \<Longrightarrow> emits (called x) C"
  by (auto simp: emits_def called_def)

lemma emits_after_quiet: "preserves cs_Calls m \<Longrightarrow> (\<And>a. emits (f a) C) \<Longrightarrow> [] \<in> C \<Longrightarrow> emits (gbind m f) C"
  unfolding preserves_def emits_def by (auto simp: gbind_run split: prod.splits sum.splits) (metis append_Nil2 snd_conv)+

lemma emits_after_call:
  assumes "emits (f ()) {cs. x # cs \<in> C}"
  shows "emits (gbind (called x) f) C"
  unfolding emits_def
proof
  fix s
  from assms obtain cs where cs: "x # cs \<in> C" "cs_Calls (snd (f () (s\<lparr>cs_Calls := cs_Calls s @ [x]\<rparr>))) = (cs_Calls s @ [x]) @ cs"
    unfolding emits_def by (metis (mono_tags, lifting) console.select_convs(3) console.surjective console.update_convs(3) mem_Collect_eq)
  then show "\<exists>cs\<in>C. cs_Calls (snd (gbind (called x) f s)) = cs_Calls s @ cs"
    by (intro bexI [of _ "x # cs"]) (simp_all add: gbind_run called_def)
qed

lemma emits_gtry:
  assumes "emits m A" and "\<And>r cs. cs \<in> A \<Longrightarrow> emits (f r) {ds. cs @ ds \<in> C}"
  shows "emits (gtry m f) C"
  unfolding emits_def
proof
  fix s
  obtain r s1 where run: "m s = (r, s1)" by (cases "m s")
  from assms(1) run obtain cs where cs: "cs \<in> A" "cs_Calls s1 = cs_Calls s @ cs" unfolding emits_def by (metis snd_conv)
  from assms(2) [OF cs(1), of r] obtain ds where "cs @ ds \<in> C" "cs_Calls (snd (f r s1)) = cs_Calls s1 @ ds" unfolding emits_def by blast
  with run cs(2) show "\<exists>cs\<in>C. cs_Calls (snd (gtry m f s)) = cs_Calls s @ cs"
    by (intro bexI [of _ "cs @ ds"]) (simp_all add: gtry_run)
qed

lemma emits_mono: "emits m A \<Longrightarrow> A \<subseteq> C \<Longrightarrow> emits m C"
  by (auto simp: emits_def)

lemma emits_with_client:
  assumes "emits body B" and "[] \<in> C"
    and "\<And>cs. cs \<in> B \<Longrightarrow> rp_Socket (dp_Paths deps) \<noteq> '''' \<Longrightarrow> ClientMade (rp_Socket (dp_Paths deps)) # cs @ [ClientClosed] \<in> C"
  shows "emits (with_client deps body) C"
  unfolding emits_def
proof
  fix s :: "'a console"
  let ?socket = "rp_Socket (dp_Paths deps)"
  show "\<exists>cs\<in>C. cs_Calls (snd (with_client deps body s)) = cs_Calls s @ cs"
  proof (cases "?socket = '''' \<or> dp_NewClient deps = None")
    case True
    then have "cs_Calls (snd (with_client deps body s)) = cs_Calls s @ []"
      by (auto simp: with_client_def getClient_def Let_def run_simps split: option.split)
    with assms(2) show ?thesis by blast
  next
    case False
    then obtain new where new: "dp_NewClient deps = Some new" by blast
    let ?s1 = "s\<lparr>cs_Client := Some (new ?socket), cs_Calls := cs_Calls s @ [ClientMade ?socket]\<rparr>"
    from assms(1) obtain cs where cs: "cs \<in> B" "cs_Calls (snd (body ?s1)) = cs_Calls ?s1 @ cs" unfolding emits_def by blast
    have "cs_Calls (snd (with_client deps body s)) = cs_Calls s @ (ClientMade ?socket # cs @ [ClientClosed])"
      using False new cs(2) by (simp add: with_client_def getClient_def Let_def run_simps called_def close_client_def case_prod_unfold)
    with assms(3) [OF cs(1)] False show ?thesis by blast
  qed
qed

section \<open>The commands\<close>

text \<open>The sequences of calls that a run can make.\<close>

definition tidy_calls :: "string \<Rightarrow> cli_call list set" where
  "tidy_calls socket =
     {[], [DaemonMade], [DaemonMade, DaemonStarted, ContextDone, DaemonClosed]}
     \<union> {ClientMade socket # cs @ [ClientClosed] |cs token listen. socket \<noteq> '''' \<and>
          cs \<in> {[], [MCPListened], [HTTPMade token listen], [HTTPMade token listen, HTTPStarted, HTTPClosed],
            [HTTPMade token listen, HTTPStarted, ContextDone, HTTPClosed]}}"

lemma tidy_quiet: "[] \<in> tidy_calls socket" "socket \<noteq> '''' \<Longrightarrow> [ClientMade socket, ClientClosed] \<in> tidy_calls socket"
  by (auto simp: tidy_calls_def)

lemma emits_quiet_client: "preserves cs_Calls body \<Longrightarrow> emits (with_client deps body) (tidy_calls (rp_Socket (dp_Paths deps)))"
  by (rule emits_with_client [where B = "{[]}"]) (auto intro: emits_quiet tidy_quiet)

lemma status_calls: "emits (runStatus deps args) (tidy_calls (rp_Socket (dp_Paths deps)))"
  unfolding runStatus_def
  by (rule emits_after_quiet) (auto intro!: preserved emits_quiet_client tidy_quiet intro: emits_quiet)

lemma search_calls: "emits (runSearch deps args) (tidy_calls (rp_Socket (dp_Paths deps)))"
  unfolding runSearch_def Let_def
  by (rule emits_after_quiet) (auto intro!: preserved emits_quiet_client tidy_quiet intro: emits_quiet)

lemma inspect_calls: "emits (runInspect deps args) (tidy_calls (rp_Socket (dp_Paths deps)))"
  unfolding runInspect_def Let_def
  by (rule emits_after_quiet) (auto intro!: preserved emits_quiet_client tidy_quiet intro: emits_quiet)

lemma doctor_calls: "emits (runDoctor deps args) (tidy_calls (rp_Socket (dp_Paths deps)))"
  unfolding runDoctor_def Let_def
  by (auto intro!: emits_after_quiet preserved emits_quiet_client tidy_quiet intro: emits_quiet)

lemma daemon_calls: "emits (runDaemon deps args) (tidy_calls socket)"
  unfolding runDaemon_def
  by (auto intro!: emits_after_call emits_quiet preserved split: option.split prod.split simp: tidy_calls_def)

lemma mcp_calls: "emits (runMCP deps args) (tidy_calls (rp_Socket (dp_Paths deps)))"
proof -
  have body: "emits (gbind (called MCPListened) (\<lambda>_. m)) {[MCPListened]}" if "preserves cs_Calls m" for m :: "('a, unit) cli"
    by (rule emits_after_call, rule emits_quiet) (use that in auto)
  have listened: "emits (with_client deps (gbind (called MCPListened) (\<lambda>_. m))) (tidy_calls (rp_Socket (dp_Paths deps)))"
    if "preserves cs_Calls m" for m :: "('a, unit) cli"
    by (rule emits_with_client [OF body [OF that]]) (auto simp: tidy_calls_def)
  show ?thesis unfolding runMCP_def
    by (auto intro!: emits_quiet preserved tidy_quiet listened split: option.split prod.split simp: preserves_def)
qed

text \<open>The calls between those on the client when it serves.\<close>

definition serving_calls :: "string \<Rightarrow> cli_call list set" where
  "serving_calls listen = (\<Union>token. {[], [HTTPMade token listen], [HTTPMade token listen, HTTPStarted, HTTPClosed],
     [HTTPMade token listen, HTTPStarted, ContextDone, HTTPClosed]})"

lemma serve_started_calls: "emits (serve_started deps h0) {cs. HTTPMade token listen # cs \<in> serving_calls listen}"
proof (cases "dp_HTTPStart deps h0")
  case (Pair e h)
  have printed: "emits (gbind (write_out data) (\<lambda>_. called ContextDone)) {[], [ContextDone]}" for data :: bytes
    by (rule emits_after_quiet) (auto intro: preserved emits_called)
  have closed: "emits (gbind (called HTTPClosed) (\<lambda>_. case r of Inl err \<Rightarrow> gthrow err | Inr _ \<Rightarrow> gret ())) C" if "[HTTPClosed] \<in> C" for r :: "go_error + unit" and C
    by (rule emits_after_call, rule emits_quiet) (use that in \<open>auto intro: preserved split: sum.split\<close>)
  have "emits (gbind (called HTTPStarted) (\<lambda>_.
      gtry (gbind (write_out data) (\<lambda>_. called ContextDone)) (\<lambda>r.
      gbind (called HTTPClosed) (\<lambda>_. case r of Inl err \<Rightarrow> gthrow err | Inr _ \<Rightarrow> gret ())))) {cs. HTTPMade token listen # cs \<in> serving_calls listen}" for data
    by (rule emits_after_call, rule emits_gtry [OF printed]) (auto intro!: closed simp: serving_calls_def)
  moreover have "emits (gthrow err) {cs. HTTPMade token listen # cs \<in> serving_calls listen}" for err
    by (rule emits_quiet) (auto intro: preserved simp: serving_calls_def)
  ultimately show ?thesis unfolding serve_started_def Pair prod.case by (cases e) (simp_all only: option.case)
qed

lemma serve_client_calls: "emits (serve_client deps load new listen) (serving_calls listen)"
  unfolding serve_client_def
proof (rule emits_after_quiet, goal_cases)
  case (2 a)
  have quiet: "emits (gthrow err) (serving_calls listen)" for err by (rule emits_quiet) (auto intro: preserved simp: serving_calls_def)
  have made: "emits (gbind (called (HTTPMade token listen)) (\<lambda>_. serve_started deps h0)) (serving_calls listen)" for token h0
    by (rule emits_after_call) (rule serve_started_calls)
  show ?case by (auto intro: quiet made split: sum.split)
qed (auto intro: preserved simp: serving_calls_def)

lemma serve_calls: "emits (runServe deps args) (tidy_calls (rp_Socket (dp_Paths deps)))"
proof -
  have "ClientMade socket # cs @ [ClientClosed] \<in> tidy_calls socket" if "cs \<in> serving_calls listen" "socket \<noteq> ''''" for cs socket listen
    using that by (auto simp: tidy_calls_def serving_calls_def)
  then have "emits (with_client deps (serve_client deps load new listen)) (tidy_calls (rp_Socket (dp_Paths deps)))" for load new listen
    by (rule emits_with_client [OF serve_client_calls tidy_quiet(1)])
  then show ?thesis unfolding runServe_def
    by (auto intro!: emits_after_quiet emits_quiet [OF preserves_usage] emits_quiet [OF preserves_gthrow] parse_args_preserve tidy_quiet split: option.split)
qed

lemma dispatch_calls: "emits (dispatch deps args) (tidy_calls (rp_Socket (dp_Paths deps)))"
proof (cases args)
  case Nil
  then show ?thesis by (auto simp: dispatch_def intro!: emits_quiet preserved tidy_quiet)
next
  case (Cons command rest)
  have asked: "emits (print_out usage_text) (tidy_calls (rp_Socket (dp_Paths deps)))" and
    refused: "emits (gbind (write_err (bytes_of usage_text)) (\<lambda>_. usage message)) (tidy_calls (rp_Socket (dp_Paths deps)))" for message
    by (rule emits_quiet; auto intro: preserved tidy_quiet)+
  show ?thesis unfolding dispatch_def Cons list.case
    by (simp only: split: if_split) (intro conjI impI asked refused daemon_calls status_calls search_calls inspect_calls doctor_calls serve_calls mcp_calls)
qed

section \<open>The files\<close>

lemma with_client_preserves [preserved]: "preserves files_of body \<Longrightarrow> preserves files_of (with_client deps body)"
  unfolding preserves_def
  by (auto simp: with_client_def getClient_def Let_def run_simps called_def close_client_def files_of_def case_prod_unfold split: option.split)

lemma daemon_files: "preserves files_of (runDaemon deps args)"
  unfolding runDaemon_def by (auto intro!: preserved split: option.split prod.split)

lemma status_files: "preserves files_of (runStatus deps args)"
  unfolding runStatus_def by (auto intro!: preserved split: prod.split)

lemma search_files: "preserves files_of (runSearch deps args)"
  unfolding runSearch_def Let_def by (auto intro!: preserved split: prod.split)

lemma doctor_files: "preserves files_of (runDoctor deps args)"
  unfolding runDoctor_def Let_def by (auto intro!: preserved)

lemma serve_files: "preserves files_of (runServe deps args)"
  unfolding runServe_def serve_client_def serve_started_def by (auto intro!: preserved split: option.split sum.split prod.split)

text \<open>The MCP transport writes to its streams only.\<close>

definition listens_only :: "('c, 'd, 'h) dependencies \<Rightarrow> bool" where
  "listens_only deps \<longleftrightarrow> (\<forall>listen c ot. dp_MCPListen deps = Some listen \<longrightarrow> ot_Disk (snd (snd (listen c ot))) = ot_Disk ot)"

lemma mcp_files:
  assumes "listens_only deps"
  shows "preserves files_of (runMCP deps args)"
proof -
  have "preserves files_of (\<lambda>s. case cs_Client s of None \<Rightarrow> (Inl (GoPanic ''nil pointer dereference''), s)
      | Some c \<Rightarrow> (case listen c (cs_Outlets s) of (e, c', ot) \<Rightarrow>
          (case e of None \<Rightarrow> Inr () | Some err \<Rightarrow> Inl err, s\<lparr>cs_Client := Some c', cs_Outlets := ot\<rparr>)))" if "dp_MCPListen deps = Some listen" for listen
    using assms that by (auto simp: listens_only_def preserves_def files_of_def split: option.split prod.split) (metis snd_conv)+
  then show ?thesis unfolding runMCP_def by (auto intro!: preserved split: option.split)
qed

text \<open>The arguments with which a command may write a file.\<close>

definition writes_output :: "string list \<Rightarrow> bool" where
  "writes_output args \<longleftrightarrow> (\<exists>rest flags i. args = ''inspect'' # rest \<and> parse_flags inspect_flags rest = Inr (flags, [i]) \<and> flag_string flags ''output'' \<noteq> '''')"

lemma parsed_preserves:
  assumes "\<And>x. parse_flags flags args = Inr x \<Longrightarrow> preserves files_of (k x)"
  shows "preserves files_of (gbind (parse_args name flags args) k)"
proof (cases "parse_flags flags args")
  case (Inl e)
  have "gbind (parse_args name flags args) k s = gbind (write_errs (flag_diagnostics name flags e)) (\<lambda>_. gthrow (ErrNew (error_text e))) s" for s
    using Inl by (simp add: parse_args_def usage_def run_simps split: prod.split sum.split)
  then have "gbind (parse_args name flags args) k = gbind (write_errs (flag_diagnostics name flags e)) (\<lambda>_. gthrow (ErrNew (error_text e)))" by blast
  then show ?thesis by (simp add: preserved)
next
  case (Inr x)
  then have "gbind (parse_args name flags args) k = k x" by (auto simp: parse_args_def gbind_def gret_def)
  with assms [OF Inr] show ?thesis by simp
qed

lemma inspect_files:
  assumes "dp_Client deps = client_backend envs" and "\<not> writes_output (''inspect'' # args)"
  shows "preserves files_of (runInspect deps args)"
  unfolding runInspect_def
proof (rule parsed_preserves, goal_cases)
  case (1 p)
  obtain flags rest where p: "p = (flags, rest)" by (cases p)
  have read: "preserves files_of (client_read (dp_Client deps) stdout_write i offset limit)" for i offset limit
    unfolding assms(1) by (rule stdout_read_preserves)
  have "flag_string flags ''output'' = ''''" if "length rest = 1"
    using 1 p assms(2) that by (auto simp: writes_output_def length_Suc_conv)
  then show ?case
    using p by (auto simp: Let_def intro!: preserved read)
qed

lemma dispatch_files:
  assumes "dp_Client deps = client_backend envs" and "\<not> writes_output args"
    and "listens_only deps"
  shows "preserves files_of (dispatch deps args)"
proof (cases args)
  case Nil
  then show ?thesis by (auto simp: dispatch_def intro!: preserved)
next
  case (Cons command rest)
  have asked: "preserves files_of (print_out usage_text)" and
    refused: "preserves files_of (gbind (write_err (bytes_of usage_text)) (\<lambda>_. usage message))" for message
    by (intro preserved)+
  have inspect: "preserves files_of (runInspect deps rest)" if "command = ''inspect''"
    by (rule inspect_files [OF assms(1)]) (use assms(2) Cons that in simp)
  show ?thesis unfolding dispatch_def Cons list.case
    by (simp only: split: if_split) (intro conjI impI asked refused daemon_files status_files search_files inspect doctor_files serve_files mcp_files [OF assms(3)]; assumption)
qed



end
